(* ===== verification/Zy_Prelude.thy ===== *)
theory Zy_Prelude
  imports Main "HOL-Library.Word"
begin

text \<open>
  Shared vocabulary of the development: the machine integers the C++ sources use, the
  conversions between them, the state-and-exception monad in which stateful member
  functions are written, and the list and word lemmas that several components need.

  A member function that may throw is a function from the object's state to a pair of an
  outcome and the state it leaves behind. A C++ exception does not undo the writes made
  before the throw, so the state is returned next to the error and not inside the success.
\<close>

unbundle bit_operations_syntax

section \<open>Machine integers\<close>

type_synonym u8 = "8 word"
type_synonym u16 = "16 word"
type_synonym u32 = "32 word"
type_synonym u64 = "64 word"

text \<open>
  Sizes and positions (\<open>size_t\<close>) are natural numbers. Sums of sizes never reach
  \<open>2 ^ 64\<close> (they are bounded by allocated memory), but a difference of two sizes wraps
  around when the subtrahend is larger; \<open>usub\<close> is that subtraction.
\<close>

definition usub :: "nat \<Rightarrow> nat \<Rightarrow> nat" where
  "usub a b = (if b \<le> a then a - b else 2 ^ 64 + a - b)"

text \<open>The value of an \<open>int\<close> initialised from a \<open>size_t\<close>: the low 32 bits, read as signed.\<close>

definition int_of_size :: "nat \<Rightarrow> int" where
  "int_of_size n = sint (of_nat n :: u32)"

lemma usub_le [simp]: "b \<le> a \<Longrightarrow> usub a b = a - b"
  by (simp add: usub_def)

lemma usub_zero [simp]: "usub a 0 = a"
  by (simp add: usub_def)

lemma int_of_size_small [simp]:
  assumes "n < 2 ^ 31"
  shows "int_of_size n = int n"
proof -
  have "int_of_size n = sint (word_of_int (int n) :: u32)"
    by (simp add: int_of_size_def)
  also have "\<dots> = signed_take_bit 31 (int n)"
    by (subst sint_sbintrunc') simp
  also have "\<dots> = int n"
    using assms by (intro signed_take_bit_int_eq_self) auto
  finally show ?thesis .
qed

section \<open>State and exceptions\<close>

type_synonym ('s, 'e, 'a) st_exn = "'s \<Rightarrow> ('e + 'a) \<times> 's"

definition sret :: "'a \<Rightarrow> ('s, 'e, 'a) st_exn" where
  "sret x s = (Inr x, s)"

definition sthrow :: "'e \<Rightarrow> ('s, 'e, 'a) st_exn" where
  "sthrow e s = (Inl e, s)"

definition sbind :: "('s, 'e, 'a) st_exn \<Rightarrow> ('a \<Rightarrow> ('s, 'e, 'b) st_exn) \<Rightarrow> ('s, 'e, 'b) st_exn" where
  "sbind m f s = (case m s of (Inl e, s') \<Rightarrow> (Inl e, s') | (Inr x, s') \<Rightarrow> f x s')"

lemma sbind_Inr: "m s = (Inr x, s') \<Longrightarrow> sbind m f s = f x s'"
  by (simp add: sbind_def)

lemma sbind_Inl: "m s = (Inl e, s') \<Longrightarrow> sbind m f s = (Inl e, s')"
  by (simp add: sbind_def)

lemma sbind_Inr_iff:
  "sbind m f s = (Inr y, t) \<longleftrightarrow> (\<exists>x s'. m s = (Inr x, s') \<and> f x s' = (Inr y, t))"
  by (auto simp: sbind_def split: prod.splits sum.splits)

lemmas st_exn_defs = sret_def sthrow_def sbind_def

section \<open>Lists\<close>

text \<open>\<open>overlay i xs ys\<close> is \<open>ys\<close> after \<open>memcpy(ys + i, xs, length xs)\<close>.\<close>

definition overlay :: "nat \<Rightarrow> 'a list \<Rightarrow> 'a list \<Rightarrow> 'a list" where
  "overlay i xs ys = take i ys @ xs @ drop (i + length xs) ys"

lemma length_overlay [simp]:
  "i + length xs \<le> length ys \<Longrightarrow> length (overlay i xs ys) = length ys"
  by (simp add: overlay_def)

lemma overlay_Nil [simp]: "overlay i [] ys = ys"
  by (simp add: overlay_def)

lemma take_drop_overlay:
  "i + length xs \<le> length ys \<Longrightarrow> take (length xs) (drop i (overlay i xs ys)) = xs"
  by (simp add: overlay_def)

lemma take_overlay [simp]:
  "n \<le> i \<Longrightarrow> i \<le> length ys \<Longrightarrow> take n (overlay i xs ys) = take n ys"
  by (simp add: overlay_def min_def)

lemma take_overlay_end:
  "i \<le> length ys \<Longrightarrow> take (i + length xs) (overlay i xs ys) = take i ys @ xs"
  by (simp add: overlay_def)

lemma drop_overlay_end:
  "i + length xs \<le> length ys \<Longrightarrow>
   drop (i + length xs) (overlay i xs ys) = drop (i + length xs) ys"
  by (simp add: overlay_def)

lemma overlay_overlay:
  assumes "i + length xs + length zs \<le> length ys"
  shows "overlay (i + length xs) zs (overlay i xs ys) = overlay i (xs @ zs) ys"
proof (cases "xs = []")
  case False
  with assms have "i < length ys" by (cases xs) auto
  with assms show ?thesis by (auto simp: overlay_def min_def algebra_simps)
qed (simp add: overlay_def)

lemma overlay_append_right:
  "length ys \<le> i \<Longrightarrow> overlay i xs (ys @ zs) = ys @ overlay (i - length ys) xs zs"
  by (simp add: overlay_def)

lemma overlay_append_left:
  "i + length xs \<le> length ys \<Longrightarrow> overlay i xs (ys @ zs) = overlay i xs ys @ zs"
  by (simp add: overlay_def)

text \<open>Flattening a list of blocks of one size.\<close>

definition uniform :: "nat \<Rightarrow> 'a list list \<Rightarrow> bool" where
  "uniform n xss \<longleftrightarrow> (\<forall>xs \<in> set xss. length xs = n)"

lemma uniform_simps [simp]:
  "uniform n []"
  "uniform n (xs # xss) \<longleftrightarrow> length xs = n \<and> uniform n xss"
  "uniform n (xss @ yss) \<longleftrightarrow> uniform n xss \<and> uniform n yss"
  by (auto simp: uniform_def)

lemma uniform_replicate [simp]: "length xs = n \<Longrightarrow> uniform n (replicate k xs)"
  by (auto simp: uniform_def)

lemma uniform_take [simp]: "uniform n xss \<Longrightarrow> uniform n (take k xss)"
  by (auto simp: uniform_def dest: in_set_takeD)

lemma uniform_drop [simp]: "uniform n xss \<Longrightarrow> uniform n (drop k xss)"
  by (auto simp: uniform_def dest: in_set_dropD)

lemma uniform_nth: "uniform n xss \<Longrightarrow> i < length xss \<Longrightarrow> length (xss ! i) = n"
  by (simp add: uniform_def)

lemma uniform_list_update [simp]:
  "uniform n xss \<Longrightarrow> length xs = n \<Longrightarrow> uniform n (xss[i := xs])"
  by (auto simp: uniform_def dest: set_update_subset_insert [THEN subsetD])

lemma length_concat_uniform: "uniform n xss \<Longrightarrow> length (concat xss) = n * length xss"
  by (induction xss) (auto simp: algebra_simps)

lemma concat_take_uniform:
  "uniform n xss \<Longrightarrow> k \<le> length xss \<Longrightarrow> concat (take k xss) = take (n * k) (concat xss)"
proof (induction xss arbitrary: k)
  case Nil
  then show ?case by simp
next
  case (Cons xs xss)
  then show ?case by (cases k) auto
qed

text \<open>Writing inside block \<open>i\<close> is writing at \<open>n * i\<close> plus the offset in the flat view.\<close>

lemma concat_update_overlay:
  assumes "uniform n xss" "i < length xss" "j + length ys \<le> n"
  shows "concat (xss[i := overlay j ys (xss ! i)]) = overlay (n * i + j) ys (concat xss)"
  using assms
proof (induction xss arbitrary: i)
  case Nil
  then show ?case by simp
next
  case (Cons xs xss)
  show ?case
  proof (cases i)
    case 0
    with Cons.prems show ?thesis by (simp add: overlay_append_left)
  next
    case (Suc k)
    with Cons show ?thesis by (simp add: overlay_append_right)
  qed
qed

text \<open>Reading inside block \<open>i\<close> is reading the flat view at \<open>n * i\<close> plus the offset.\<close>

lemma take_drop_nth_concat:
  assumes "uniform n xss" "i < length xss" "j + k \<le> n"
  shows "take k (drop j (xss ! i)) = take k (drop (n * i + j) (concat xss))"
  using assms
proof (induction xss arbitrary: i)
  case Nil
  then show ?case by simp
next
  case (Cons xs xss)
  show ?case
  proof (cases i)
    case 0
    with Cons.prems show ?thesis by simp
  next
    case (Suc m)
    with Cons show ?thesis by simp
  qed
qed

lemma div_mod_less_block:
  fixes p b :: nat
  assumes "0 < b" "p < b * n"
  shows "p div b < n"
  using assms by (simp add: less_mult_imp_div_less mult.commute)

lemma block_index_less:
  fixes b i j n l :: nat
  assumes "b * i + j + n \<le> b * l" "0 < n"
  shows "i < l"
proof (rule ccontr)
  assume "\<not> i < l"
  then have "b * l \<le> b * i" by simp
  with assms show False by linarith
qed

lemma mod_room: "0 < b \<Longrightarrow> 0 < b - p mod (b :: nat)"
  by simp

lemma round_up_mod:
  fixes p b :: nat
  assumes "0 < b"
  shows "(p + (b - p mod b)) mod b = 0"
proof -
  have "p + (b - p mod b) = b + b * (p div b)"
    using mult_div_mod_eq [of b p] mod_less_divisor [OF assms, of p] by linarith
  then show ?thesis by simp
qed

lemma div_in_block:
  fixes b i j :: nat
  assumes "j < b"
  shows "(b * i + j) div b = i" "(b * i + j) mod b = j"
  using assms by simp_all

end
