(* ===== verification/Endian.thy ===== *)
theory Endian
  imports Zy_Prelude
begin

text \<open>
  Byte order (\<open>src/src/socket/endian.hpp\<close>): the memory image of an integer, the three
  width-specific \<open>byteSwap\<close> templates and the two order-conditional swaps. The interface
  of a fixed-width codec, which the byte array relies on, is the locale \<open>fixed_codec\<close>.
\<close>

datatype endian = LITTLE_ENDIAN | BIG_ENDIAN

text \<open>The library is built for x86-64 (\<open>src/src/asm\<close>), a little-endian machine.\<close>

definition BYTE_ORDER :: endian where
  "BYTE_ORDER = LITTLE_ENDIAN"

text \<open>
  The object representation of an unsigned integer of \<open>n\<close> bytes on that machine, low
  byte first, and the integer a representation stands for.
\<close>

definition le_bytes :: "nat \<Rightarrow> 'a::len word \<Rightarrow> u8 list" where
  "le_bytes n w = map (\<lambda>i. ucast (drop_bit (8 * i) w)) [0..<n]"

fun le_word :: "u8 list \<Rightarrow> 'a::len word" where
  "le_word [] = 0"
| "le_word (b # bs) = ucast b OR push_bit 8 (le_word bs)"

text \<open>
  \<open>bswap_64\<close>, \<open>bswap_32\<close> and \<open>bswap_16\<close> of \<open>byteswap.h\<close> reverse the bytes of their
  argument; the template chooses one by \<open>sizeof(T)\<close>.
\<close>

definition byteSwap64 :: "u64 \<Rightarrow> u64" where
  "byteSwap64 value = le_word (rev (le_bytes 8 value))"

definition byteSwap32 :: "u32 \<Rightarrow> u32" where
  "byteSwap32 value = le_word (rev (le_bytes 4 value))"

definition byteSwap16 :: "u16 \<Rightarrow> u16" where
  "byteSwap16 value = le_word (rev (le_bytes 2 value))"

text \<open>The branch of \<open>endian.hpp\<close> that a little-endian build selects.\<close>

definition byteSwapOnLittleEndian32 :: "u32 \<Rightarrow> u32" where
  "byteSwapOnLittleEndian32 t = (if BYTE_ORDER = BIG_ENDIAN then t else byteSwap32 t)"

definition byteSwapOnBigEndian32 :: "u32 \<Rightarrow> u32" where
  "byteSwapOnBigEndian32 t = (if BYTE_ORDER = BIG_ENDIAN then byteSwap32 t else t)"

definition byteSwapOnLittleEndian16 :: "u16 \<Rightarrow> u16" where
  "byteSwapOnLittleEndian16 t = (if BYTE_ORDER = BIG_ENDIAN then t else byteSwap16 t)"

section \<open>Memory images\<close>

lemma length_le_bytes [simp]: "length (le_bytes n w) = n"
  by (simp add: le_bytes_def)

lemma nth_le_bytes [simp]:
  "i < n \<Longrightarrow> le_bytes n w ! i = ucast (drop_bit (8 * i) w)"
  by (simp add: le_bytes_def)

lemma bit_le_word:
  "bit (le_word bs :: 'a::len word) n \<longleftrightarrow>
   n < LENGTH('a) \<and> n div 8 < length bs \<and> bit (bs ! (n div 8)) (n mod 8)"
proof (induction bs arbitrary: n)
  case Nil
  then show ?case by simp
next
  case (Cons b bs)
  show ?case
  proof (cases "n < 8")
    case True
    then show ?thesis
      by (auto simp: bit_or_iff bit_push_bit_iff bit_unsigned_iff possible_bit_word
          dest: bit_imp_le_length)
  next
    case False
    then obtain m where n: "n = m + 8"
      by (metis add.commute le_Suc_ex not_less)
    have d: "(m + 8) div 8 = Suc (m div 8)" by simp
    have "\<not> bit b n"
      using False bit_imp_le_length [of b n] by auto
    then show ?thesis
      using n Cons.IH [of m]
      by (auto simp: bit_or_iff bit_push_bit_iff bit_unsigned_iff possible_bit_word d)
  qed
qed

lemma le_word_le_bytes:
  assumes "LENGTH('a) = 8 * n"
  shows "le_word (le_bytes n w) = (w :: 'a::len word)"
proof (rule bit_word_eqI)
  fix k
  assume k: "k < LENGTH('a)"
  then have "k div 8 < n" using assms by auto
  then show "bit (le_word (le_bytes n w) :: 'a word) k = bit w k"
    using k by (simp add: bit_le_word bit_unsigned_iff bit_drop_bit_eq)
qed

lemma le_bytes_le_word:
  assumes "LENGTH('a) = 8 * length bs"
  shows "le_bytes (length bs) (le_word bs :: 'a::len word) = bs"
proof (rule nth_equalityI)
  fix i
  assume "i < length (le_bytes (length bs) (le_word bs :: 'a word))"
  then have i: "i < length bs" by simp
  show "le_bytes (length bs) (le_word bs :: 'a word) ! i = bs ! i"
  proof (rule bit_word_eqI)
    fix k
    assume k: "k < LENGTH(8)"
    then have "(8 * i + k) div 8 = i" "(8 * i + k) mod 8 = k" by auto
    moreover have "8 * i + k < LENGTH('a)" using assms i k by auto
    ultimately show "bit (le_bytes (length bs) (le_word bs :: 'a word) ! i) k = bit (bs ! i) k"
      using i k by (simp add: bit_unsigned_iff bit_drop_bit_eq bit_le_word)
  qed
qed simp

section \<open>Swapping\<close>

lemma le_bytes_byteSwap:
  "le_bytes 8 (byteSwap64 x) = rev (le_bytes 8 x)"
  "le_bytes 4 (byteSwap32 y) = rev (le_bytes 4 y)"
  "le_bytes 2 (byteSwap16 z) = rev (le_bytes 2 z)"
  using le_bytes_le_word [of "rev (le_bytes 8 x)", where 'a = 64]
    le_bytes_le_word [of "rev (le_bytes 4 y)", where 'a = 32]
    le_bytes_le_word [of "rev (le_bytes 2 z)", where 'a = 16]
  by (simp_all add: byteSwap64_def byteSwap32_def byteSwap16_def)

lemma byteSwap_byteSwap [simp]:
  "byteSwap64 (byteSwap64 x) = x"
  "byteSwap32 (byteSwap32 y) = y"
  "byteSwap16 (byteSwap16 z) = z"
  by (simp_all add: byteSwap64_def [of "byteSwap64 x"] byteSwap32_def [of "byteSwap32 y"]
      byteSwap16_def [of "byteSwap16 z"] le_bytes_byteSwap le_word_le_bytes)

section \<open>Fixed-width codecs\<close>

text \<open>
  What a typed accessor of the byte array needs of the encoding of its value type: a fixed
  number of bytes, from which the value can be recovered.
\<close>

locale fixed_codec =
  fixes enc :: "'v \<Rightarrow> u8 list"
    and dec :: "u8 list \<Rightarrow> 'v"
    and width :: nat
  assumes width_enc: "length (enc v) = width"
    and dec_enc: "dec (enc v) = v"
begin

lemma enc_inj: "enc v = enc v' \<longleftrightarrow> v = v'"
  by (metis dec_enc)

lemma dec_split: "dec (take width (enc v @ bs)) = v \<and> drop width (enc v @ bs) = bs"
  by (simp add: width_enc dec_enc)

end

end
