(* ===== verification/Byte_Array.thy ===== *)
theory Byte_Array
  imports Endian
begin

text \<open>
  The serialisation buffer (\<open>src/src/bytearray/ByteArray.hpp\<close>, \<open>ByteArray.cpp\<close>): a chain
  of blocks of one size with a read/write cursor, and on top of it fixed-width integers,
  zigzag and variable-length integers, and length-prefixed strings.

  The chain of \<open>Node\<close>s reachable from \<open>m_head\<close> is the list \<open>m_blocks\<close>, \<open>m_cur\<close> is the
  index of the current node, and the index one past the last stands for the null pointer
  (\<open>m_next\<close> of the last node). Nodes that \<open>allocate\<close> cuts off are leaked by the code and
  are not part of the state. \<open>m_fresh\<close> gives the bytes that \<open>new char[size]\<close> happens to
  hold; nothing is assumed about it.
\<close>

section \<open>State\<close>

datatype ba_error =
    OutOfRange \<comment> \<open>\<open>std::out_of_range\<close>\<close>
  | LogicError \<comment> \<open>\<open>std::logic_error\<close>\<close>
  | NullDeref \<comment> \<open>a null \<open>Node*\<close> is dereferenced (undefined behaviour)\<close>
  | DivByZero \<comment> \<open>a modulus by a zero block size (undefined behaviour)\<close>
  | StackSmash \<comment> \<open>a write past the end of a local array (undefined behaviour)\<close>

record byte_array =
  m_endian :: endian
  m_totalSize :: nat
  m_blockSize :: nat
  m_position :: nat
  m_capacity :: nat
  m_blocks :: "u8 list list"
  m_cur :: nat
  m_fresh :: "nat \<Rightarrow> u8"

type_synonym 'a ba = "(byte_array, ba_error, 'a) st_exn"

text \<open>\<open>Node::Node\<close>: a new block with whatever bytes the allocator returns.\<close>

definition newNode :: "byte_array \<Rightarrow> u8 list" where
  "newNode s = map (m_fresh s) [0..<m_blockSize s]"

definition ByteArray :: "(nat \<Rightarrow> u8) \<Rightarrow> nat \<Rightarrow> byte_array" where
  "ByteArray fresh blockSize =
     (let bs = (if blockSize = 0 then 4096 else blockSize)
      in \<lparr>m_endian = BYTE_ORDER, m_totalSize = blockSize, m_blockSize = bs, m_position = 0,
          m_capacity = blockSize, m_blocks = [map fresh [0..<bs]], m_cur = 0,
          m_fresh = fresh\<rparr>)"

definition getPosition :: "byte_array \<Rightarrow> nat" where
  "getPosition s = m_position s"

definition getBlockSize :: "byte_array \<Rightarrow> nat" where
  "getBlockSize s = m_blockSize s"

definition getReadableSize :: "byte_array \<Rightarrow> nat" where
  "getReadableSize s = usub (m_totalSize s) (m_position s)"

definition isLittleEndian :: "byte_array \<Rightarrow> bool" where
  "isLittleEndian s \<longleftrightarrow> m_endian s = LITTLE_ENDIAN"

definition setLittleEndian :: "bool \<Rightarrow> byte_array \<Rightarrow> byte_array" where
  "setLittleEndian v s = s\<lparr>m_endian := (if v then LITTLE_ENDIAN else BIG_ENDIAN)\<rparr>"

definition getDataSize :: "byte_array \<Rightarrow> nat" where
  "getDataSize s = m_totalSize s"

definition getCapacity :: "byte_array \<Rightarrow> nat" where
  "getCapacity s = m_capacity s"

definition getRemain :: "byte_array \<Rightarrow> nat" where
  "getRemain s = usub (m_capacity s) (m_position s)"

section \<open>The chain of blocks\<close>

text \<open>
  The loop of \<open>allocate\<close>: while \<open>size\<close> bytes are missing, hang a new node after \<open>cur\<close>.
  Hanging a node after \<open>cur\<close> drops what followed it.
\<close>

function allocate_loop :: "nat \<Rightarrow> nat \<Rightarrow> byte_array \<Rightarrow> byte_array" where
  "allocate_loop sz cur s =
     (if sz = 0 \<or> m_blockSize s = 0 then s
      else allocate_loop (sz - min sz (m_blockSize s)) (Suc cur)
             (s\<lparr>m_capacity := m_capacity s + m_blockSize s,
                m_blocks := take (Suc cur) (m_blocks s) @ [newNode s]\<rparr>))"
  by pat_completeness auto
termination
  by (relation "measure (\<lambda>(sz, cur, s). sz)") auto

definition allocate :: "nat \<Rightarrow> byte_array \<Rightarrow> byte_array" where
  "allocate sz s =
     (if sz < getRemain s then s
      else allocate_loop (usub sz (getRemain s)) (m_cur s) s)"

definition clear :: "byte_array \<Rightarrow> byte_array" where
  "clear s = s\<lparr>m_totalSize := 0, m_position := 0, m_capacity := m_blockSize s,
                m_blocks := take 1 (m_blocks s), m_cur := 0\<rparr>"

text \<open>Is the node pointer with this index null?\<close>

definition null_node :: "nat \<Rightarrow> byte_array \<Rightarrow> bool" where
  "null_node cur s \<longleftrightarrow> length (m_blocks s) \<le> cur"

text \<open>
  Does \<open>allocate\<close> hang a new node behind a null current node? A preceding write may have
  moved \<open>m_cur\<close> past the end of the chain.
\<close>

definition allocate_null :: "nat \<Rightarrow> byte_array \<Rightarrow> bool" where
  "allocate_null sz s \<longleftrightarrow> getRemain s < sz \<and> null_node (m_cur s) s"

text \<open>The copying loop of \<open>write\<close>.\<close>

function write_loop :: "u8 list \<Rightarrow> unit ba" where
  "write_loop buff s =
     (if buff = [] then (Inr (), s)
      else if m_blockSize s = 0 then (Inl DivByZero, s)
      else if null_node (m_cur s) s then (Inl NullDeref, s)
      else
        let rm = m_blockSize s - m_position s mod m_blockSize s;
            nblockPos = m_position s mod m_blockSize s;
            nwrite = min (length buff) rm;
            rest = drop nwrite buff;
            s1 = s\<lparr>m_blocks := (m_blocks s)[m_cur s :=
                      overlay nblockPos (take nwrite buff) (m_blocks s ! m_cur s)],
                    m_position := m_position s + nwrite\<rparr>;
            s2 = (if m_blockSize s \<le> nwrite + nblockPos \<and> rest \<noteq> []
                  then s1\<lparr>m_cur := Suc (m_cur s)\<rparr> else s1)
        in if null_node (m_cur s2) s2 then (Inl LogicError, s2) else write_loop rest s2)"
  by pat_completeness auto
termination
proof (relation "measure (\<lambda>(buff, s). length buff)", goal_cases)
  case (2 buff s x xa xb xc xd xe)
  then have "x = m_blockSize s - m_position s mod m_blockSize s" "0 < m_blockSize s" by simp_all
  then have "0 < x" by (simp only: mod_room)
  with 2 show ?case by (cases buff) auto
qed simp

text \<open>
  \<open>write\<close>: \<open>newtag\<close> is initialised to 1 and never cleared, so a further block is
  requested, and the current node advanced, after every non-empty write.
\<close>

definition ba_write :: "u8 list \<Rightarrow> unit ba" where
  "ba_write buff s =
     (if buff = [] then (Inr (), s)
      else if allocate_null (length buff) s then (Inl NullDeref, s)
      else sbind (write_loop buff)
        (\<lambda>_ s1.
          let s2 = (if m_totalSize s1 \<le> m_position s1
                    then s1\<lparr>m_totalSize := m_position s1\<rparr> else s1);
              s3 = allocate (m_blockSize s2) s2
          in (Inr (), s3\<lparr>m_cur := Suc (m_cur s3)\<rparr>))
        (allocate (length buff) s))"

text \<open>The copying loop of \<open>read(void*,size_t)\<close>; it returns the bytes it copied out.\<close>

function read_loop :: "nat \<Rightarrow> (u8 list) ba" where
  "read_loop sz s =
     (if sz = 0 then (Inr [], s)
      else if m_blockSize s = 0 then (Inl DivByZero, s)
      else if null_node (m_cur s) s then (Inl NullDeref, s)
      else
        let rm = m_blockSize s - m_position s mod m_blockSize s;
            nblockPos = m_position s mod m_blockSize s;
            nread = min sz rm;
            out = take nread (drop nblockPos (m_blocks s ! m_cur s));
            s1 = s\<lparr>m_position := m_position s + nread\<rparr>;
            s2 = (if m_blockSize s \<le> nread + nblockPos then s1\<lparr>m_cur := Suc (m_cur s)\<rparr> else s1)
        in if null_node (m_cur s2) s2 then (Inl LogicError, s2)
           else sbind (read_loop (sz - nread)) (\<lambda>rest. sret (out @ rest)) s2)"
  by pat_completeness auto
termination
proof (relation "measure (\<lambda>(sz, s). sz)", goal_cases)
  case (2 sz s x xa xb xc xd xe)
  then have "x = m_blockSize s - m_position s mod m_blockSize s" "0 < m_blockSize s" by simp_all
  then have "0 < x" by (simp only: mod_room)
  with 2 show ?case by auto
qed simp

definition ba_read :: "nat \<Rightarrow> (u8 list) ba" where
  "ba_read sz s =
     (if getReadableSize s < sz then (Inl OutOfRange, s) else read_loop sz s)"

text \<open>
  \<open>while(step--) cur = cur->m_next\<close>, from the head: a negative \<open>step\<close> (an \<open>int\<close> made from
  a \<open>size_t\<close>) runs off the end of the chain.
\<close>

definition seek_node :: "int \<Rightarrow> byte_array \<Rightarrow> ba_error + nat" where
  "seek_node step s =
     (if step < 0 \<or> null_node (nat step) s then Inl LogicError else Inr (nat step))"

text \<open>The copying loop of \<open>read(void*,size_t,size_t) const\<close>, with its own cursor.\<close>

function read_at_loop :: "nat \<Rightarrow> nat \<Rightarrow> nat \<Rightarrow> byte_array \<Rightarrow> ba_error + u8 list" where
  "read_at_loop sz pos cur s =
     (if sz = 0 then Inr []
      else if m_blockSize s = 0 then Inl DivByZero
      else if null_node cur s then Inl NullDeref
      else
        let rm = m_blockSize s - pos mod m_blockSize s;
            nblockPos = pos mod m_blockSize s;
            nread = min sz rm;
            out = take nread (drop nblockPos (m_blocks s ! cur));
            cur' = (if m_blockSize s \<le> nread + nblockPos then Suc cur else cur)
        in if null_node cur' s then Inl LogicError
           else case read_at_loop (sz - nread) (pos + nread) cur' s of
                  Inl e \<Rightarrow> Inl e | Inr rest \<Rightarrow> Inr (out @ rest))"
  by pat_completeness auto
termination
proof (relation "measure (\<lambda>(sz, pos, cur, s). sz)", goal_cases)
  case (2 sz pos cur s x xa xb xc xd)
  then have "x = m_blockSize s - pos mod m_blockSize s" "0 < m_blockSize s" by simp_all
  then have "0 < x" by (simp only: mod_room)
  with 2 show ?case by auto
qed simp

definition ba_read_at :: "nat \<Rightarrow> nat \<Rightarrow> byte_array \<Rightarrow> ba_error + u8 list" where
  "ba_read_at sz pos s =
     (if usub (m_totalSize s) pos < sz then Inl OutOfRange
      else if m_blockSize s = 0 then Inl DivByZero
      else case seek_node (int_of_size (pos div m_blockSize s)) s of
             Inl e \<Rightarrow> Inl e
           | Inr cur \<Rightarrow> read_at_loop sz pos cur s)"

definition setPosition :: "nat \<Rightarrow> unit ba" where
  "setPosition v s =
     (if m_capacity s < v then (Inl OutOfRange, s)
      else
        let s1 = (if m_totalSize s \<le> v then s\<lparr>m_totalSize := v\<rparr> else s)
        in if m_blockSize s = 0 then (Inl DivByZero, s1)
           else case seek_node (int_of_size (v div m_blockSize s)) s1 of
                  Inl e \<Rightarrow> (Inl e, s1)
                | Inr cur \<Rightarrow> (Inr (), s1\<lparr>m_cur := cur, m_position := v\<rparr>))"

section \<open>Files, dumps and scatter/gather views\<close>

text \<open>
  The loop of \<open>dumpToFile\<close>, as the bytes handed to the stream: it moves to the next node
  after every chunk, and throws when there is none.
\<close>

fun dump_loop :: "nat \<Rightarrow> nat \<Rightarrow> nat \<Rightarrow> u8 list list \<Rightarrow> ba_error + u8 list" where
  "dump_loop bs sz pos [] = (if sz = 0 then Inr [] else Inl NullDeref)"
| "dump_loop bs sz pos (b # bls) =
     (if sz = 0 then Inr []
      else
        let rm = bs - pos mod bs;
            nblockPos = pos mod bs;
            nwrite = min rm sz
        in if bls = [] then Inl LogicError
           else case dump_loop bs (sz - nwrite) (pos + nwrite) bls of
                  Inl e \<Rightarrow> Inl e
                | Inr out \<Rightarrow> Inr (take nwrite (drop nblockPos b) @ out))"

text \<open>
  \<open>dumpToFile\<close>: \<open>opened\<close> says whether the file could be opened. The result is the boolean
  returned and the contents of the file, \<open>None\<close> when the file is not touched.
\<close>

definition dumpToFile :: "bool \<Rightarrow> byte_array \<Rightarrow> ba_error + (bool \<times> u8 list option)" where
  "dumpToFile opened s =
     (if m_position s = m_totalSize s then Inr (True, None)
      else if \<not> opened then Inr (False, None)
      else if m_blockSize s = 0 then Inl DivByZero
      else case dump_loop (m_blockSize s) (getReadableSize s) (m_position s)
                  (drop (m_cur s) (m_blocks s)) of
             Inl e \<Rightarrow> Inl e
           | Inr out \<Rightarrow> Inr (True, Some out))"

text \<open>
  The loop of \<open>loadFromFile\<close>: \<open>ifs.read\<close> delivers a full block or what is left of the
  file, and sets the end-of-file flag when it delivers less than a block.
\<close>

function load_loop :: "u8 list \<Rightarrow> bool ba" where
  "load_loop file s =
     (if m_blockSize s = 0 then (Inl DivByZero, s)
      else if length file < m_blockSize s
      then sbind (ba_write file) (\<lambda>_. sret True) s
      else sbind (ba_write (take (m_blockSize s) file))
             (\<lambda>_. load_loop (drop (m_blockSize s) file)) s)"
  by pat_completeness auto
termination
  by (relation "measure (\<lambda>(file, s). length file)") auto

definition loadFromFile :: "u8 list option \<Rightarrow> bool ba" where
  "loadFromFile path s =
     (case path of None \<Rightarrow> (Inr False, s) | Some file \<Rightarrow> load_loop file s)"

definition dump :: "byte_array \<Rightarrow> ba_error + u8 list" where
  "dump s = (let sz = getReadableSize s
             in if sz = 0 then Inr [] else ba_read_at sz (m_position s) s)"

text \<open>A byte as two lower-case hexadecimal digits, as \<open>setw(2)\<close>, \<open>setfill('0')\<close> and \<open>hex\<close> print it.\<close>

definition hex_digit :: "nat \<Rightarrow> char" where
  "hex_digit n = ''0123456789abcdef'' ! n"

definition hex_byte :: "u8 \<Rightarrow> string" where
  "hex_byte b = [hex_digit (unat b div 16), hex_digit (unat b mod 16)]"

fun hex_loop :: "nat \<Rightarrow> u8 list \<Rightarrow> string" where
  "hex_loop i [] = []"
| "hex_loop i (b # bs) =
     (if 0 < i \<and> i mod 32 = 0 then [CHR 0x0A] else []) @ hex_byte b @ '' '' @ hex_loop (Suc i) bs"

definition dumpToHex :: "byte_array \<Rightarrow> ba_error + string" where
  "dumpToHex s = (case dump s of Inl e \<Rightarrow> Inl e | Inr str \<Rightarrow> Inr (hex_loop 0 str))"

text \<open>An \<open>iovec\<close>: the node it points into, the offset in its buffer, and the length.\<close>

record iovec =
  iov_node :: nat
  iov_base :: nat
  iov_len :: nat

text \<open>
  The loops that collect \<open>iovec\<close>s. In \<open>getReadBuffers\<close> the chunk length passes through an
  \<open>int\<close>: with a block of 2 GiB or more it is truncated, which \<open>iov_len\<close> and the
  subtraction from \<open>size\<close> then see sign-extended to 64 bits.
\<close>

definition size_of_int :: "int \<Rightarrow> nat" where
  "size_of_int i = nat (i mod 2 ^ 64)"

fun read_iovs :: "nat \<Rightarrow> nat \<Rightarrow> nat \<Rightarrow> nat \<Rightarrow> u8 list list \<Rightarrow> ba_error + iovec list" where
  "read_iovs bs sz pos cur [] = (if sz = 0 then Inr [] else Inl NullDeref)"
| "read_iovs bs sz pos cur (b # bls) =
     (if sz = 0 then Inr []
      else
        let nblockPos = pos mod bs;
            rm = bs - pos mod bs;
            nread = size_of_int (int_of_size (min sz rm))
        in case read_iovs bs (usub sz nread) (pos + nread) (Suc cur) bls of
             Inl e \<Rightarrow> Inl e
           | Inr iovs \<Rightarrow> Inr (\<lparr>iov_node = cur, iov_base = nblockPos, iov_len = nread\<rparr> # iovs))"

definition getReadBuffers :: "nat \<Rightarrow> byte_array \<Rightarrow> ba_error + (nat \<times> iovec list)" where
  "getReadBuffers n s =
     (let sz = (if getReadableSize s < n then getReadableSize s else n)
      in if sz = 0 then Inr (0, [])
         else if m_blockSize s = 0 then Inl DivByZero
         else case read_iovs (m_blockSize s) sz (m_position s) (m_cur s)
                     (drop (m_cur s) (m_blocks s)) of
                Inl e \<Rightarrow> Inl e | Inr iovs \<Rightarrow> Inr (sz, iovs))"

text \<open>
  The overload with an explicit position starts at that offset but still at the current
  node, and clips \<open>size\<close> to the readable size counted from \<open>m_position\<close>.
\<close>

definition getReadBuffersAt :: "nat \<Rightarrow> nat \<Rightarrow> byte_array \<Rightarrow> ba_error + (nat \<times> iovec list)" where
  "getReadBuffersAt n pos s =
     (if m_totalSize s \<le> pos then Inr (0, [])
      else
        let sz = (if usub (m_totalSize s) pos < n then getReadableSize s else n)
        in if sz = 0 then Inr (0, [])
           else if m_blockSize s = 0 then Inl DivByZero
           else case read_iovs (m_blockSize s) sz pos (m_cur s)
                       (drop (m_cur s) (m_blocks s)) of
                  Inl e \<Rightarrow> Inl e | Inr iovs \<Rightarrow> Inr (sz, iovs))"

fun write_iovs :: "nat \<Rightarrow> nat \<Rightarrow> nat \<Rightarrow> nat \<Rightarrow> u8 list list \<Rightarrow> ba_error + iovec list" where
  "write_iovs bs sz pos cur [] = (if sz = 0 then Inr [] else Inl NullDeref)"
| "write_iovs bs sz pos cur (b # bls) =
     (if sz = 0 then Inr []
      else
        let nblockPos = pos mod bs;
            rm = bs - pos mod bs;
            nread = min sz rm
        in case write_iovs bs (sz - nread) (pos + nread) (Suc cur) bls of
             Inl e \<Rightarrow> Inl e
           | Inr iovs \<Rightarrow> Inr (\<lparr>iov_node = cur, iov_base = nblockPos, iov_len = nread\<rparr> # iovs))"

definition getWriteBuffers :: "nat \<Rightarrow> (nat \<times> iovec list) ba" where
  "getWriteBuffers sz s0 =
     (let s = allocate sz s0
      in if allocate_null sz s0 then (Inl NullDeref, s0)
         else if sz = 0 then (Inr (0, []), s)
         else if m_blockSize s = 0 then (Inl DivByZero, s)
         else case write_iovs (m_blockSize s) sz (m_position s) (m_cur s)
                     (drop (m_cur s) (m_blocks s)) of
                Inl e \<Rightarrow> (Inl e, s) | Inr iovs \<Rightarrow> (Inr (sz, iovs), s))"

section \<open>The flat view and the invariants\<close>

text \<open>All blocks, one after the other: the bytes the positions of the array index.\<close>

definition flat :: "byte_array \<Rightarrow> u8 list" where
  "flat s = concat (m_blocks s)"

text \<open>The chain is made of full-size blocks and reaches past the recorded data.\<close>

definition chain_ok :: "byte_array \<Rightarrow> bool" where
  "chain_ok s \<longleftrightarrow> 0 < m_blockSize s \<and> uniform (m_blockSize s) (m_blocks s) \<and>
     m_totalSize s < m_blockSize s * length (m_blocks s)"

text \<open>The current node is the one the position lies in.\<close>

definition cursor_ok :: "byte_array \<Rightarrow> bool" where
  "cursor_ok s \<longleftrightarrow> m_cur s = m_position s div m_blockSize s"

text \<open>
  The states from which appending works: the current node is the last of the chain and
  holds the position. The constructor with \<open>blockSize = 0\<close> records a capacity of 0 although
  it allocates a block, hence the second alternative.
\<close>

definition tail_ok :: "byte_array \<Rightarrow> bool" where
  "tail_ok s \<longleftrightarrow> 0 < m_blockSize s \<and> uniform (m_blockSize s) (m_blocks s) \<and>
     Suc (m_cur s) = length (m_blocks s) \<and>
     m_position s \<le> m_totalSize s \<and> m_totalSize s \<le> m_capacity s \<and>
     (m_capacity s = m_blockSize s * length (m_blocks s) \<or>
      m_capacity s + m_blockSize s = m_blockSize s * length (m_blocks s))"

lemma length_flat: "uniform (m_blockSize s) (m_blocks s) \<Longrightarrow>
    length (flat s) = m_blockSize s * length (m_blocks s)"
  by (simp add: flat_def length_concat_uniform)

end
