(* ===== verification/Byte_Array_Props.thy ===== *)
theory Byte_Array_Props
  imports Byte_Array
begin

text \<open>
  What the block chain guarantees: the copying loops move data between a buffer and the
  flat view of the chain, appending to the tail stores the data, and a positioned read
  returns it.
\<close>

declare allocate_loop.simps [simp del] write_loop.simps [simp del] read_loop.simps [simp del]
  read_at_loop.simps [simp del] load_loop.simps [simp del]

section \<open>The loops\<close>

text \<open>The number of blocks that cover \<open>n\<close> bytes.\<close>

definition blocks_for :: "nat \<Rightarrow> nat \<Rightarrow> nat" where
  "blocks_for bs n = (if n = 0 then 0 else Suc ((n - 1) div bs))"

lemma blocks_for_step:
  assumes "0 < bs" "0 < n"
  shows "blocks_for bs n = Suc (blocks_for bs (n - min n bs))"
proof (cases "n \<le> bs")
  case True
  with assms show ?thesis by (simp add: blocks_for_def)
next
  case False
  then have "(n - 1) div bs = Suc ((n - 1 - bs) div bs)"
    using assms by (simp add: div_if)
  with False assms show ?thesis by (simp add: blocks_for_def)
qed

lemma blocks_for_bounds:
  assumes "0 < bs"
  shows "n \<le> bs * blocks_for bs n" "bs * blocks_for bs n < n + bs"
proof -
  have "n \<le> bs * blocks_for bs n \<and> bs * blocks_for bs n < n + bs"
  proof (cases n)
    case (Suc m)
    have "bs * (m div bs) \<le> m" "m < bs * (m div bs) + bs"
      using mult_div_mod_eq [of bs m] mod_less_divisor [OF assms, of m] by linarith+
    then have "Suc m \<le> bs * Suc (m div bs) \<and> bs * Suc (m div bs) < Suc m + bs"
      by (simp only: mult_Suc_right) linarith
    with Suc show ?thesis by (simp add: blocks_for_def del: mult_Suc_right)
  qed (use assms in \<open>simp add: blocks_for_def\<close>)
  then show "n \<le> bs * blocks_for bs n" "bs * blocks_for bs n < n + bs" by auto
qed

lemma allocate_loop_eq:
  assumes "0 < m_blockSize s" "cur < length (m_blocks s)"
  shows "allocate_loop sz cur s =
    (if sz = 0 then s
     else s\<lparr>m_capacity := m_capacity s + m_blockSize s * blocks_for (m_blockSize s) sz,
            m_blocks := take (Suc cur) (m_blocks s) @
              replicate (blocks_for (m_blockSize s) sz) (newNode s)\<rparr>)"
  using assms
proof (induction sz cur s rule: allocate_loop.induct)
  case (1 sz cur s)
  show ?case
  proof (cases "sz = 0")
    case True
    then show ?thesis by (simp add: allocate_loop.simps)
  next
    case False
    let ?bs = "m_blockSize s"
    let ?s' = "s\<lparr>m_capacity := m_capacity s + ?bs,
                 m_blocks := take (Suc cur) (m_blocks s) @ [newNode s]\<rparr>"
    have len: "length (take (Suc cur) (m_blocks s)) = Suc cur" using 1 by simp
    have new: "newNode ?s' = newNode s" by (simp add: newNode_def)
    have step: "allocate_loop sz cur s = allocate_loop (sz - min sz ?bs) (Suc cur) ?s'"
      using False 1 by (subst allocate_loop.simps) simp
    have bf: "blocks_for ?bs sz = Suc (blocks_for ?bs (sz - min sz ?bs))"
      using False 1 by (intro blocks_for_step) auto
    have IH: "allocate_loop (sz - min sz ?bs) (Suc cur) ?s' =
      (if sz - min sz ?bs = 0 then ?s'
       else ?s'\<lparr>m_capacity := m_capacity ?s' + ?bs * blocks_for ?bs (sz - min sz ?bs),
                m_blocks := take (Suc (Suc cur)) (m_blocks ?s') @
                  replicate (blocks_for ?bs (sz - min sz ?bs)) (newNode s)\<rparr>)"
      using 1(1) [OF _ _ _] 1(2,3) False new by simp
    show ?thesis
    proof (cases "sz - min sz ?bs = 0")
      case True
      with step IH bf False show ?thesis by (simp add: blocks_for_def)
    next
      case rest: False
      have tk: "take (Suc (Suc cur)) (m_blocks ?s') = take (Suc cur) (m_blocks s) @ [newNode s]"
        using len by simp
      show ?thesis
        unfolding step IH bf tk using rest False by (simp add: algebra_simps)
    qed
  qed
qed

text \<open>One round of the writing loop: the data ends in the current block, or fills it.\<close>

lemma write_loop_within:
  assumes "0 < m_blockSize s" "m_cur s < length (m_blocks s)" "buff \<noteq> []"
    and "m_position s mod m_blockSize s + length buff \<le> m_blockSize s"
  shows "write_loop buff s =
    (Inr (), s\<lparr>m_blocks := (m_blocks s)[m_cur s :=
                 overlay (m_position s mod m_blockSize s) buff (m_blocks s ! m_cur s)],
               m_position := m_position s + length buff\<rparr>)"
proof -
  have "length buff \<le> m_blockSize s - m_position s mod m_blockSize s"
    using assms(4) by linarith
  then show ?thesis
    using assms(1-3)
    by (subst write_loop.simps) (simp add: Let_def null_node_def write_loop.simps)
qed

lemma write_loop_across:
  assumes "0 < m_blockSize s" "Suc (m_cur s) < length (m_blocks s)"
    and "m_blockSize s < m_position s mod m_blockSize s + length buff"
    and "n = m_blockSize s - m_position s mod m_blockSize s"
  shows "write_loop buff s =
    write_loop (drop n buff)
      (s\<lparr>m_blocks := (m_blocks s)[m_cur s :=
            overlay (m_position s mod m_blockSize s) (take n buff) (m_blocks s ! m_cur s)],
         m_position := m_position s + n, m_cur := Suc (m_cur s)\<rparr>)"
proof -
  have "n < length buff" "m_blockSize s = n + m_position s mod m_blockSize s"
    using assms mod_less_divisor [OF assms(1), of "m_position s"] by linarith+
  then have "min (length buff) n = n" "drop n buff \<noteq> []" "buff \<noteq> []"
    "m_blockSize s \<le> n + m_position s mod m_blockSize s" by auto
  then show ?thesis
    using assms(1,2,4)
    by (subst write_loop.simps) (simp add: Let_def null_node_def)
qed

text \<open>
  The whole loop: with \<open>q\<close> the place in the flat view that the current node and the offset
  of the position select, the data is stored at \<open>q\<close> and the current node is the one that
  holds the last byte written.
\<close>

lemma write_loop_spec:
  assumes "0 < m_blockSize s" "uniform (m_blockSize s) (m_blocks s)" "buff \<noteq> []"
    and "q = m_blockSize s * m_cur s + m_position s mod m_blockSize s"
    and "q + length buff \<le> m_blockSize s * length (m_blocks s)"
  shows "\<exists>B. write_loop buff s =
      (Inr (), s\<lparr>m_blocks := B, m_position := m_position s + length buff,
                  m_cur := (q + length buff - 1) div m_blockSize s\<rparr>) \<and>
    uniform (m_blockSize s) B \<and> length B = length (m_blocks s) \<and>
    concat B = overlay q buff (flat s)"
  using assms
proof (induction "length buff" arbitrary: buff s q rule: less_induct)
  case less
  let ?bs = "m_blockSize s" and ?cur = "m_cur s" and ?p = "m_position s"
  let ?nb = "?p mod ?bs"
  have nb: "?nb < ?bs" using less.prems by simp
  have buff0: "0 < length buff" using less.prems by simp
  have room0: "?bs * ?cur + ?nb + length buff \<le> ?bs * length (m_blocks s)"
    using less.prems by simp
  note cur = block_index_less [OF room0 buff0]
  show ?case
  proof (cases "?nb + length buff \<le> ?bs")
    case True
    have "(q + length buff - 1) div ?bs = ?cur"
    proof -
      have "q + length buff - 1 = ?bs * ?cur + (?nb + length buff - 1)"
        using less.prems(4) buff0 by linarith
      moreover have "?nb + length buff - 1 < ?bs" using True buff0 by linarith
      ultimately show ?thesis by (simp only: div_in_block)
    qed
    with write_loop_within [OF less.prems(1) cur less.prems(3) True] show ?thesis
      using less.prems(2,4) cur True concat_update_overlay [OF less.prems(2) cur True]
      by (intro exI) (auto simp: flat_def uniform_nth)
  next
    case False
    define n where "n = ?bs - ?nb"
    define B1 where "B1 = (m_blocks s)[?cur := overlay ?nb (take n buff) (m_blocks s ! ?cur)]"
    let ?s2 = "s\<lparr>m_blocks := B1, m_position := ?p + n, m_cur := Suc ?cur\<rparr>"
    have n: "n < length buff" "?nb + n = ?bs" "0 < n" using False nb by (auto simp: n_def)
    have q2: "q + n = ?bs * Suc ?cur" using n less.prems(4) by simp
    have "?bs * Suc ?cur + 0 + length (drop n buff) \<le> ?bs * length (m_blocks s)"
      using less.prems(5) n unfolding q2 [symmetric] by simp
    note cur2 = block_index_less [OF this]
    have step: "write_loop buff s = write_loop (drop n buff) ?s2"
      using write_loop_across [OF less.prems(1) cur2 _ n_def] False n by (simp add: B1_def)
    have fit: "?nb + length (take n buff) \<le> ?bs" using n by simp
    have B1: "uniform ?bs B1" "concat B1 = overlay q (take n buff) (flat s)"
      "length B1 = length (m_blocks s)"
      using concat_update_overlay [OF less.prems(2) cur fit] less.prems(2,4) cur n
      by (simp_all add: B1_def flat_def uniform_nth)
    obtain B where B: "write_loop (drop n buff) ?s2 =
        (Inr (), ?s2\<lparr>m_blocks := B, m_position := ?p + n + length (drop n buff),
                    m_cur := (q + n + length (drop n buff) - 1) div ?bs\<rparr>)"
      "uniform ?bs B" "length B = length B1" "concat B = overlay (q + n) (drop n buff) (concat B1)"
      using less.hyps [of "drop n buff" ?s2 "q + n"] n less.prems B1 q2
        round_up_mod [OF less.prems(1), of ?p]
      by (auto simp: flat_def n_def [symmetric])
    have "concat B = overlay q buff (flat s)"
      using overlay_overlay [of q "take n buff" "drop n buff" "flat s"] B(4) B1(2) n less.prems
      by (simp add: length_flat)
    with B B1(3) n step show ?thesis by (intro exI [of _ B]) simp
  qed
qed

text \<open>The reading loop, from the place \<open>q\<close> of the flat view.\<close>

lemma read_loop_spec:
  assumes "0 < m_blockSize s" "uniform (m_blockSize s) (m_blocks s)"
    and "q = m_blockSize s * m_cur s + m_position s mod m_blockSize s"
    and "q + sz < m_blockSize s * length (m_blocks s)"
  shows "read_loop sz s =
    (Inr (take sz (drop q (flat s))),
     s\<lparr>m_position := m_position s + sz, m_cur := (q + sz) div m_blockSize s\<rparr>)"
  using assms
proof (induction sz arbitrary: s q rule: less_induct)
  case (less sz)
  let ?bs = "m_blockSize s" and ?cur = "m_cur s" and ?p = "m_position s"
  let ?nb = "?p mod ?bs"
  have nb: "?nb < ?bs" using less.prems by simp
  have "?bs * ?cur + ?nb + Suc sz \<le> ?bs * length (m_blocks s)" using less.prems by simp
  note cur = block_index_less [OF this, simplified]
  show ?case
  proof (cases "sz < ?bs - ?nb")
    case True
    have "(q + sz) div ?bs = ?cur"
      using True less.prems(3) div_in_block(1) [of "?nb + sz" ?bs ?cur] by (simp add: add.assoc)
    moreover have "read_loop sz s =
      (Inr (take sz (drop ?nb (m_blocks s ! ?cur))), s\<lparr>m_position := ?p + sz\<rparr>)"
    proof -
      have "\<not> ?bs \<le> sz + ?nb" "min sz (?bs - ?nb) = sz" using True by linarith+
      with cur less.prems(1) show ?thesis
        by (subst read_loop.simps)
          (simp add: Let_def null_node_def read_loop.simps sbind_def sret_def)
    qed
    ultimately show ?thesis
      using take_drop_nth_concat [OF less.prems(2) cur, of ?nb sz] True less.prems(3)
      by (simp add: flat_def)
  next
    case False
    define n where "n = ?bs - ?nb"
    let ?s2 = "s\<lparr>m_position := ?p + n, m_cur := Suc ?cur\<rparr>"
    have n: "n \<le> sz" "?nb + n = ?bs" "0 < n" using False nb by (auto simp: n_def)
    have q2: "q + n = ?bs * Suc ?cur" using n less.prems(3) by simp
    have "?bs * Suc ?cur + 0 + Suc (sz - n) \<le> ?bs * length (m_blocks s)"
      using less.prems(4) n unfolding q2 [symmetric] by simp
    note cur2 = block_index_less [OF this, simplified]
    have IH: "read_loop (sz - n) ?s2 =
      (Inr (take (sz - n) (drop (q + n) (flat s))),
       s\<lparr>m_position := ?p + sz, m_cur := (q + sz) div ?bs\<rparr>)"
    proof -
      have "q + n = m_blockSize ?s2 * m_cur ?s2 + m_position ?s2 mod m_blockSize ?s2"
        using q2 round_up_mod [OF less.prems(1), of ?p] by (simp add: n_def)
      moreover have "flat ?s2 = flat s" "q + n + (sz - n) = q + sz" "?p + n + (sz - n) = ?p + sz"
        using n by (simp_all add: flat_def)
      ultimately show ?thesis
        using less.IH [of "sz - n" ?s2 "q + n"] n less.prems(1,2,4) by simp
    qed
    have "read_loop sz s =
      sbind (read_loop (sz - n)) (\<lambda>rest. sret (take n (drop ?nb (m_blocks s ! ?cur)) @ rest)) ?s2"
      using n cur cur2 less.prems(1)
      by (subst read_loop.simps) (simp add: Let_def null_node_def n_def [symmetric])
    with IH show ?thesis
      using take_drop_nth_concat [OF less.prems(2) cur, of ?nb n] n less.prems(3)
        take_add [of n "sz - n" "drop q (flat s)"]
      by (simp add: sbind_Inr sret_def flat_def add.commute)
  qed
qed

section \<open>Appending\<close>

lemma length_newNode [simp]: "length (newNode s) = m_blockSize s"
  by (simp add: newNode_def)

lemma newNode_cong:
  "m_fresh s' = m_fresh s \<Longrightarrow> m_blockSize s' = m_blockSize s \<Longrightarrow> newNode s' = newNode s"
  by (simp add: newNode_def)

text \<open>Growing the tail: room for \<open>n\<close> more bytes, and less than a block beyond that if it grew.\<close>

lemma allocate_tail:
  assumes "tail_ok s"
  obtains k where "allocate n s = s\<lparr>m_capacity := m_capacity s + m_blockSize s * k,
      m_blocks := m_blocks s @ replicate k (newNode s)\<rparr>"
    and "m_position s + n \<le> m_capacity s + m_blockSize s * k"
    and "0 < k \<Longrightarrow> m_capacity s + m_blockSize s * k < m_position s + n + m_blockSize s"
proof (cases "n < getRemain s")
  case True
  then show ?thesis
    using assms by (intro that [of 0]) (auto simp: allocate_def getRemain_def tail_ok_def)
next
  case False
  let ?r = "m_capacity s - m_position s"
  have r: "getRemain s = ?r" "?r \<le> n" "m_position s \<le> m_capacity s"
    and bs: "0 < m_blockSize s" and cur: "m_cur s < length (m_blocks s)"
    using assms False by (auto simp: getRemain_def tail_ok_def)
  have tk: "take (Suc (m_cur s)) (m_blocks s) = m_blocks s"
    using assms by (simp add: tail_ok_def)
  show ?thesis
  proof (rule that [of "blocks_for (m_blockSize s) (n - ?r)"])
    show "allocate n s =
      s\<lparr>m_capacity := m_capacity s + m_blockSize s * blocks_for (m_blockSize s) (n - ?r),
         m_blocks := m_blocks s @ replicate (blocks_for (m_blockSize s) (n - ?r)) (newNode s)\<rparr>"
      using False r by (simp add: allocate_def allocate_loop_eq [OF bs cur] tk blocks_for_def)
  qed (use r blocks_for_bounds [OF bs, of "n - ?r"] in auto)
qed

text \<open>The step that follows every write: one new block after the current one.\<close>

lemma allocate_one:
  assumes "0 < m_blockSize s" "m_cur s < length (m_blocks s)"
    and "m_position s \<le> m_capacity s" "m_capacity s < m_position s + m_blockSize s"
  shows "allocate (m_blockSize s) s =
    s\<lparr>m_capacity := m_capacity s + m_blockSize s,
       m_blocks := take (Suc (m_cur s)) (m_blocks s) @ [newNode s]\<rparr>"
proof -
  let ?r = "m_capacity s - m_position s"
  have "getRemain s = ?r" "?r < m_blockSize s" using assms by (auto simp: getRemain_def)
  moreover have "blocks_for (m_blockSize s) (m_blockSize s - ?r) = 1"
    using calculation assms by (simp add: blocks_for_def)
  ultimately show ?thesis
    by (simp add: allocate_def allocate_loop_eq [OF assms(1,2)])
qed

lemma multiple_between:
  fixes b c x y :: nat
  assumes "b * c < x" "x \<le> b * Suc c" "x \<le> b * y" "b * y < x + b"
  shows "y = Suc c"
proof (rule antisym)
  have "b * y < b * Suc (Suc c)" using assms by (simp add: algebra_simps)
  then show "y \<le> Suc c" by (metis less_Suc_eq_le mult_less_cancel1)
  have "b * c < b * y" using assms by linarith
  then show "Suc c \<le> y" by (metis Suc_leI mult_less_cancel1)
qed

lemma last_block_bounds:
  fixes b x :: nat
  assumes "0 < b" "0 < x"
  shows "b * ((x - 1) div b) < x" "x \<le> b * Suc ((x - 1) div b)"
proof -
  have "b * ((x - 1) div b) + (x - 1) mod b = x - 1" by simp
  moreover have "(x - 1) mod b < b" using assms by simp
  ultimately show "b * ((x - 1) div b) < x" "x \<le> b * Suc ((x - 1) div b)"
    using assms unfolding mult_Suc_right by linarith+
qed

lemma tail_okD:
  assumes "tail_ok s"
  shows "0 < m_blockSize s" "uniform (m_blockSize s) (m_blocks s)"
    and "m_blockSize s dvd m_capacity s" "m_position s \<le> m_totalSize s"
    and "m_totalSize s \<le> m_capacity s" "m_capacity s \<le> m_blockSize s * length (m_blocks s)"
    and "length (m_blocks s) = Suc (m_cur s)"
proof -
  show "m_blockSize s dvd m_capacity s"
    using assms unfolding tail_ok_def by (metis dvd_add_left_iff dvd_refl dvd_triv_left)
qed (use assms in \<open>auto simp: tail_ok_def\<close>)

text \<open>The first half of a write at the tail: growing the chain and copying the data.\<close>

lemma append_loop:
  assumes tail: "tail_ok s" and cursor: "cursor_ok s" and buff: "buff \<noteq> []"
    and x: "x = m_position s + length buff" and c: "c = (x - 1) div m_blockSize s"
  obtains B where "write_loop buff (allocate (length buff) s) =
      (Inr (), s\<lparr>m_capacity := m_blockSize s * Suc c, m_blocks := B, m_position := x, m_cur := c\<rparr>)"
    and "uniform (m_blockSize s) B" "Suc c \<le> length B"
    and "take x (concat B) = take (m_position s) (flat s) @ buff"
    and "m_totalSize s \<le> m_blockSize s * Suc c" "x \<le> m_blockSize s * Suc c"
    and "m_blockSize s * c < x"
proof -
  let ?bs = "m_blockSize s" and ?p = "m_position s" and ?n = "length buff"
  note t = tail_okD [OF tail]
  have n0: "0 < ?n" using buff by simp
  obtain k where al: "allocate ?n s = s\<lparr>m_capacity := m_capacity s + ?bs * k,
      m_blocks := m_blocks s @ replicate k (newNode s)\<rparr>"
    and room: "x \<le> m_capacity s + ?bs * k"
    and tight: "0 < k \<Longrightarrow> m_capacity s + ?bs * k < x + ?bs"
    using allocate_tail [OF tail, of ?n] x by blast
  let ?cap = "m_capacity s + ?bs * k"
  let ?s1 = "s\<lparr>m_capacity := ?cap, m_blocks := m_blocks s @ replicate k (newNode s)\<rparr>"
  have len1: "?cap \<le> ?bs * length (m_blocks ?s1)"
    using t(6) by (simp add: algebra_simps)
  have pcur: "?bs * m_cur s \<le> ?p" using cursor by (simp add: cursor_ok_def)
  have "m_capacity s \<le> ?bs + ?bs * m_cur s" using t(6,7) by simp
  then have "m_capacity s < x + ?bs" using pcur n0 x by linarith
  with tight have caplt: "?cap < x + ?bs" by (cases "k = 0") auto
  obtain y where y: "?cap = ?bs * y" using t(3) by (metis dvd_add dvd_def dvd_triv_left)
  have lb: "?bs * c < x" "x \<le> ?bs * Suc c"
    using last_block_bounds [OF t(1), of x] n0 x c by auto
  have cap: "?cap = ?bs * Suc c"
    using multiple_between [OF lb] room caplt y by simp
  have "0 < m_blockSize ?s1" "uniform (m_blockSize ?s1) (m_blocks ?s1)"
    "?p = m_blockSize ?s1 * m_cur ?s1 + m_position ?s1 mod m_blockSize ?s1"
    "?p + ?n \<le> m_blockSize ?s1 * length (m_blocks ?s1)"
    using t(1,2) cursor room len1 x by (simp_all add: cursor_ok_def)
  from write_loop_spec [OF this(1,2) buff this(3,4)]
  obtain B where B: "write_loop buff ?s1 =
      (Inr (), ?s1\<lparr>m_blocks := B, m_position := x, m_cur := c\<rparr>)"
    "uniform ?bs B" "length B = length (m_blocks ?s1)" "concat B = overlay ?p buff (flat ?s1)"
    by (auto simp: x c)
  have fl: "flat ?s1 = flat s @ concat (replicate k (newNode s))" "?p \<le> length (flat s)"
    using t by (auto simp: flat_def length_concat_uniform)
  show ?thesis
  proof (rule that [of B])
    show "write_loop buff (allocate ?n s) =
      (Inr (), s\<lparr>m_capacity := ?bs * Suc c, m_blocks := B, m_position := x, m_cur := c\<rparr>)"
      unfolding al B(1) unfolding cap by simp
    show "take x (concat B) = take ?p (flat s) @ buff"
      using B(4) fl take_overlay_end [of ?p "flat ?s1" buff] x by simp
    have "?bs * Suc c \<le> ?bs * length B" using len1 B(3) unfolding cap by simp
    then show "Suc c \<le> length B" using t(1) by (metis mult_le_cancel1 not_less0)
    show "m_totalSize s \<le> ?bs * Suc c" using t(5) cap by linarith
  qed (use B(2) lb in simp_all)
qed

text \<open>The second half: the total size is raised, a block is added, the node advanced.\<close>

lemma ba_write_eq:
  assumes "buff \<noteq> []" "\<not> null_node (m_cur s) s"
    and "write_loop buff (allocate (length buff) s) = (Inr (), s1)"
    and "s2 = s1\<lparr>m_totalSize := max (m_totalSize s1) (m_position s1)\<rparr>"
    and "s3 = allocate (m_blockSize s2) s2"
  shows "ba_write buff s = (Inr (), s3\<lparr>m_cur := Suc (m_cur s3)\<rparr>)"
proof -
  have "(if m_totalSize s1 \<le> m_position s1 then s1\<lparr>m_totalSize := m_position s1\<rparr> else s1) = s2"
    using assms(4) by (simp add: max_def)
  with assms show ?thesis by (simp add: ba_write_def allocate_null_def sbind_Inr Let_def)
qed

text \<open>
  Writing at the tail: the data is stored at the position, the invariant is kept, and the
  current node afterwards is the one after the block of the last byte, whether or not that
  block is full.
\<close>

lemma ba_write_tail:
  assumes tail: "tail_ok s" and cursor: "cursor_ok s" and buff: "buff \<noteq> []"
  obtains s' where "ba_write buff s = (Inr (), s')" "tail_ok s'" "chain_ok s'"
    and "m_position s' = m_position s + length buff"
    and "take (m_position s') (flat s') = take (m_position s) (flat s) @ buff"
    and "m_cur s' = Suc ((m_position s' - 1) div m_blockSize s)"
    and "m_totalSize s' = max (m_totalSize s) (m_position s')"
    and "m_capacity s' = m_blockSize s * length (m_blocks s')"
    and "m_blockSize s' = m_blockSize s" "m_fresh s' = m_fresh s" "m_endian s' = m_endian s"
proof -
  let ?bs = "m_blockSize s"
  define x where "x = m_position s + length buff"
  define c where "c = (x - 1) div ?bs"
  obtain B where B: "write_loop buff (allocate (length buff) s) =
      (Inr (), s\<lparr>m_capacity := ?bs * Suc c, m_blocks := B, m_position := x, m_cur := c\<rparr>)"
    "uniform ?bs B" "Suc c \<le> length B" "take x (concat B) = take (m_position s) (flat s) @ buff"
    and lb: "m_totalSize s \<le> ?bs * Suc c" "x \<le> ?bs * Suc c" "?bs * c < x"
    using append_loop [OF tail cursor buff x_def c_def] by blast
  define s1 where "s1 = s\<lparr>m_capacity := ?bs * Suc c, m_blocks := B, m_position := x, m_cur := c\<rparr>"
  define s2 where "s2 = s1\<lparr>m_totalSize := max (m_totalSize s1) (m_position s1)\<rparr>"
  define s3 where "s3 = s2\<lparr>m_capacity := ?bs * Suc c + ?bs,
                            m_blocks := take (Suc c) B @ [newNode s]\<rparr>"
  have "newNode s2 = newNode s" by (simp add: newNode_def s1_def s2_def)
  then have al: "s3 = allocate (m_blockSize s2) s2"
    using allocate_one [of s2] tail_okD(1) [OF tail] B(3) lb
    by (simp add: s1_def s2_def s3_def)
  have "\<not> null_node (m_cur s) s" using tail_okD(7) [OF tail] by (simp add: null_node_def)
  from ba_write_eq [OF buff this B(1) [folded s1_def] s2_def al]
  have run: "ba_write buff s = (Inr (), s3\<lparr>m_cur := Suc c\<rparr>)"
    by (simp add: s1_def s2_def s3_def)
  have pre: "concat (take (Suc c) B) = take (?bs * Suc c) (concat B)"
    by (rule concat_take_uniform [OF B(2,3)])
  have "length (concat (take (Suc c) B)) = ?bs * Suc c"
    using B(2,3) by (subst length_concat_uniform [of ?bs]) (auto simp: min_def)
  then have "take x (concat (take (Suc c) B @ [newNode s])) = take x (concat B)"
    using lb(2) by (simp add: take_append pre)
  moreover have "length (take (Suc c) B) = Suc c" "(x - Suc 0) div ?bs = c"
    using B(3) by (simp_all add: c_def)
  ultimately show ?thesis
    using run B lb tail
    by (intro that [of "s3\<lparr>m_cur := Suc c\<rparr>"])
      (auto simp: tail_ok_def chain_ok_def flat_def s1_def s2_def s3_def x_def [symmetric])
qed

section \<open>Positioning and reading back\<close>

lemma ByteArray_tail_ok: "tail_ok (ByteArray fresh b)" "cursor_ok (ByteArray fresh b)"
  by (simp_all add: ByteArray_def tail_ok_def cursor_ok_def Let_def)

lemma ByteArray_sel [simp]:
  "m_position (ByteArray fresh b) = 0"
  "m_blockSize (ByteArray fresh b) = (if b = 0 then 4096 else b)"
  "m_endian (ByteArray fresh b) = BYTE_ORDER"
  "m_totalSize (ByteArray fresh b) = b" "m_capacity (ByteArray fresh b) = b"
  "m_fresh (ByteArray fresh b) = fresh" "m_cur (ByteArray fresh b) = 0"
  "m_blocks (ByteArray fresh b) = [map fresh [0..<(if b = 0 then 4096 else b)]]"
  by (simp_all add: ByteArray_def Let_def)

lemma setPosition_ok:
  assumes "0 < m_blockSize s" "v \<le> m_capacity s" "v < m_blockSize s * length (m_blocks s)"
    and "v < 2 ^ 31"
  shows "setPosition v s =
    (Inr (), s\<lparr>m_totalSize := max (m_totalSize s) v, m_position := v,
                m_cur := v div m_blockSize s\<rparr>)"
proof -
  have "v div m_blockSize s < 2 ^ 31"
    using assms(4) div_le_dividend [of v "m_blockSize s"] by linarith
  moreover have "v div m_blockSize s < length (m_blocks s)"
    by (rule div_mod_less_block [OF assms(1,3)])
  ultimately show ?thesis
    using assms(1,2) by (simp add: setPosition_def seek_node_def null_node_def Let_def max_def)
qed

lemma ba_read_ok:
  assumes "0 < m_blockSize s" "uniform (m_blockSize s) (m_blocks s)" "cursor_ok s"
    and "m_position s + n \<le> m_totalSize s"
    and "m_position s + n < m_blockSize s * length (m_blocks s)"
  shows "ba_read n s =
    (Inr (take n (drop (m_position s) (flat s))),
     s\<lparr>m_position := m_position s + n, m_cur := (m_position s + n) div m_blockSize s\<rparr>)"
proof -
  have "m_position s = m_blockSize s * m_cur s + m_position s mod m_blockSize s"
    using assms(3) by (simp add: cursor_ok_def)
  from read_loop_spec [OF assms(1,2) this, of n] assms(4,5) show ?thesis
    by (simp add: ba_read_def getReadableSize_def)
qed

text \<open>
  Every byte below the total size can be read back while the chain reaches further: seek to
  \<open>v\<close> and read \<open>n\<close> bytes.
\<close>

lemma seek_read:
  assumes "0 < m_blockSize s" "uniform (m_blockSize s) (m_blocks s)"
    and "v + n < m_blockSize s * length (m_blocks s)"
    and "v + n \<le> m_totalSize s" "m_totalSize s \<le> m_capacity s" "v < 2 ^ 31"
  shows "sbind (setPosition v) (\<lambda>_. ba_read n) s =
    (Inr (take n (drop v (flat s))),
     s\<lparr>m_position := v + n, m_cur := (v + n) div m_blockSize s\<rparr>)"
proof -
  let ?s1 = "s\<lparr>m_position := v, m_cur := v div m_blockSize s\<rparr>"
  have "max (m_totalSize s) v = m_totalSize s" using assms(4) by simp
  then have "setPosition v s = (Inr (), ?s1)"
    using setPosition_ok [of s v] assms by simp
  moreover have "ba_read n ?s1 =
      (Inr (take n (drop v (flat s))), s\<lparr>m_position := v + n, m_cur := (v + n) div m_blockSize s\<rparr>)"
    using ba_read_ok [of ?s1 n] assms by (simp add: cursor_ok_def flat_def)
  ultimately show ?thesis by (simp add: sbind_Inr)
qed

text \<open>A write at the tail, followed by a seek back and a read of the same length.\<close>

lemma write_seek_read:
  assumes "tail_ok s" "cursor_ok s" "buff \<noteq> []" "m_position s < 2 ^ 31"
  shows "\<exists>s'. sbind (ba_write buff)
      (\<lambda>_. sbind (setPosition (m_position s)) (\<lambda>_. ba_read (length buff))) s = (Inr buff, s')"
proof -
  obtain w where w: "ba_write buff s = (Inr (), w)" "tail_ok w" "chain_ok w"
    "m_position w = m_position s + length buff"
    "take (m_position w) (flat w) = take (m_position s) (flat s) @ buff"
    using ba_write_tail [OF assms(1-3)] by metis
  have "m_position s \<le> length (flat s)"
    using tail_okD [OF assms(1)] by (simp add: length_flat)
  then have "take (length buff) (drop (m_position s) (flat w)) = buff"
    using w(4,5) by (metis add_diff_cancel_left' append_eq_conv_conj drop_take length_take min_absorb2)
  then show ?thesis
    using seek_read [of w "m_position s" "length buff"] tail_okD(4,5) [OF w(2)] w assms(4)
    by (simp add: sbind_Inr chain_ok_def)
qed

section \<open>A log of chunks\<close>

text \<open>
  The contract a client of an append-only store relies on: an accepted chunk is appended
  to the log, and accepting one chunk does not change which chunks are accepted.
\<close>

locale chunk_log =
  fixes put :: "u8 list \<Rightarrow> ('s, 'e, unit) st_exn"
    and log :: "'s \<Rightarrow> u8 list"
    and inv :: "'s \<Rightarrow> bool"
    and accepts :: "'s \<Rightarrow> u8 list \<Rightarrow> bool"
  assumes put_ok: "inv s \<Longrightarrow> accepts s c \<Longrightarrow>
      \<exists>s'. put c s = (Inr (), s') \<and> inv s' \<and> log s' = log s @ c \<and> accepts s' = accepts s"
begin

fun put_all :: "u8 list list \<Rightarrow> ('s, 'e, unit) st_exn" where
  "put_all [] = sret ()"
| "put_all (c # cs) = sbind (put c) (\<lambda>_. put_all cs)"

lemma put_all_log:
  assumes "inv s" "\<forall>c \<in> set cs. accepts s c"
  shows "\<exists>s'. put_all cs s = (Inr (), s') \<and> inv s' \<and> log s' = log s @ concat cs"
  using assms
proof (induction cs arbitrary: s)
  case Nil
  then show ?case by (simp add: sret_def)
next
  case (Cons c cs)
  then obtain s1 where s1: "put c s = (Inr (), s1)" "inv s1" "log s1 = log s @ c"
    "accepts s1 = accepts s"
    using put_ok by fastforce
  with Cons.IH [of s1] Cons.prems show ?case by (auto simp: sbind_Inr)
qed

end

text \<open>The writes of a byte array in sequence, as a client issues them.\<close>

fun write_all :: "u8 list list \<Rightarrow> unit ba" where
  "write_all [] = sret ()"
| "write_all (c # cs) = sbind (ba_write c) (\<lambda>_. write_all cs)"

definition ba_log :: "byte_array \<Rightarrow> u8 list" where
  "ba_log s = take (m_position s) (flat s)"

definition aligned_tail :: "byte_array \<Rightarrow> bool" where
  "aligned_tail s \<longleftrightarrow> tail_ok s \<and> cursor_ok s \<and> m_blockSize s dvd m_position s"

definition whole_blocks :: "byte_array \<Rightarrow> u8 list \<Rightarrow> bool" where
  "whole_blocks s c \<longleftrightarrow> m_blockSize s dvd length c"

lemma dvd_pred_div:
  fixes b x :: nat
  assumes "b dvd x" "0 < x" "0 < b"
  shows "Suc ((x - 1) div b) = x div b"
proof -
  obtain k where k: "x = b * k" using assms by (auto simp: dvd_def)
  obtain j where j: "k = Suc j" using k assms by (cases k) auto
  have "x - 1 = b * j + (b - 1)" using k j assms by simp
  then have "(x - 1) div b = j" using assms div_in_block(1) [of "b - 1" b j] by simp
  with k j assms show ?thesis by simp
qed

interpretation ba_chunks: chunk_log ba_write ba_log aligned_tail whole_blocks
proof
  fix s c
  assume s: "aligned_tail s" "whole_blocks s c"
  show "\<exists>s'. ba_write c s = (Inr (), s') \<and> aligned_tail s' \<and> ba_log s' = ba_log s @ c \<and>
      whole_blocks s' = whole_blocks s"
  proof (cases "c = []")
    case True
    with s show ?thesis by (simp add: ba_write_def)
  next
    case False
    with s obtain w where w: "ba_write c s = (Inr (), w)" "tail_ok w"
      "m_position w = m_position s + length c"
      "take (m_position w) (flat w) = take (m_position s) (flat s) @ c"
      "m_cur w = Suc ((m_position w - 1) div m_blockSize s)" "m_blockSize w = m_blockSize s"
      using ba_write_tail [of s c] by (metis aligned_tail_def)
    have "m_blockSize s dvd m_position w" using s w(3) by (simp add: aligned_tail_def whole_blocks_def)
    moreover have "cursor_ok w"
      using dvd_pred_div [OF calculation] w False tail_okD(1) [OF w(2)]
      by (simp add: cursor_ok_def)
    ultimately show ?thesis
      using w by (auto simp: aligned_tail_def whole_blocks_def ba_log_def fun_eq_iff)
  qed
qed

lemma write_all_eq: "write_all cs = ba_chunks.put_all cs"
  by (induction cs) simp_all

lemma aligned_log_read:
  assumes "aligned_tail s" "v + n \<le> m_position s" "v < 2 ^ 31"
  shows "\<exists>s'. sbind (setPosition v) (\<lambda>_. ba_read n) s = (Inr (take n (drop v (ba_log s))), s')"
proof -
  have t: "tail_ok s" and c: "cursor_ok s" using assms(1) by (simp_all add: aligned_tail_def)
  note t = tail_okD [OF t]
  have "m_position s = m_blockSize s * m_cur s + m_position s mod m_blockSize s"
    "m_position s mod m_blockSize s < m_blockSize s"
    using c t(1) by (simp_all add: cursor_ok_def)
  then have "m_position s < m_blockSize s * length (m_blocks s)"
    unfolding t(7) mult_Suc_right by linarith
  then show ?thesis
    using seek_read [of s v n] t assms
    by (simp add: ba_log_def drop_take min_def)
qed

text \<open>
  C5. Appending any sequence of chunks that fill whole blocks to a new array, seeking back
  to the start and reading everything returns the concatenation of the chunks. With a block
  size of 1, which every client in the repository uses, each chunk qualifies.
\<close>

theorem append_then_read_back:
  assumes "\<forall>c \<in> set cs. m_blockSize (ByteArray fresh b) dvd length c"
  shows "\<exists>s'. sbind (write_all cs)
      (\<lambda>_. sbind (setPosition 0) (\<lambda>_. ba_read (length (concat cs)))) (ByteArray fresh b) =
    (Inr (concat cs), s')"
proof -
  have "aligned_tail (ByteArray fresh b)" "ba_log (ByteArray fresh b) = []"
    using ByteArray_tail_ok [of fresh b] by (auto simp: aligned_tail_def ba_log_def)
  then obtain s1 where s1: "write_all cs (ByteArray fresh b) = (Inr (), s1)" "aligned_tail s1"
    "ba_log s1 = concat cs"
    using ba_chunks.put_all_log [of "ByteArray fresh b" cs] assms
    by (auto simp: write_all_eq whole_blocks_def)
  have "length (ba_log s1) \<le> m_position s1" by (simp add: ba_log_def)
  then show ?thesis
    using aligned_log_read [OF s1(2), of 0 "length (concat cs)"] s1 by (simp add: sbind_Inr)
qed

theorem append_then_read_back_witness:
  "\<exists>s'. sbind (write_all [[1, 2, 3], [4]])
      (\<lambda>_. sbind (setPosition 0) (\<lambda>_. ba_read 4)) (ByteArray (\<lambda>_. 170) 1) =
    (Inr [1, 2, 3, 4], s')"
  using append_then_read_back [of "[[1, 2, 3], [4]]" "\<lambda>_. 170" 1]
  by (simp add: eval_nat_numeral)

text \<open>
  A single write to a new array of any block size, read back from the start, returns the
  bytes written.
\<close>

theorem single_write_read_back:
  assumes "buff \<noteq> []"
  shows "\<exists>s'. sbind (ba_write buff)
      (\<lambda>_. sbind (setPosition 0) (\<lambda>_. ba_read (length buff))) (ByteArray fresh b) = (Inr buff, s')"
  using write_seek_read [OF ByteArray_tail_ok assms, of fresh b]
  by simp

theorem single_write_read_back_witness:
  "\<exists>s'. sbind (ba_write [7, 8, 9])
      (\<lambda>_. sbind (setPosition 0) (\<lambda>_. ba_read 3)) (ByteArray (\<lambda>_. 0) 2) = (Inr [7, 8, 9], s')"
  using single_write_read_back [of "[7, 8, 9]" "\<lambda>_. 0" 2] by (simp add: eval_nat_numeral)

text \<open>The state after two one-byte writes to an array whose blocks hold more than one byte.\<close>

lemma ba_write_first:
  assumes "1 < b"
  shows "ba_write [x] (ByteArray fresh b) =
    (Inr (), (ByteArray fresh b)\<lparr>m_position := 1, m_capacity := 2 * b,
       m_blocks := [x # map fresh [1..<b], map fresh [0..<b]], m_cur := 1\<rparr>)"
proof -
  let ?s = "ByteArray fresh b"
  let ?s1 = "?s\<lparr>m_blocks := [overlay 0 [x] (map fresh [0..<b])], m_position := 1\<rparr>"
  have "allocate 1 ?s = ?s" using assms by (simp add: allocate_def getRemain_def)
  then have loop: "write_loop [x] (allocate (length [x]) ?s) = (Inr (), ?s1)"
    using assms write_loop_within [of ?s "[x]"] by simp
  have tot: "?s1\<lparr>m_totalSize := max (m_totalSize ?s1) (m_position ?s1)\<rparr> = ?s1"
    using assms by (simp add: max_def ByteArray_def Let_def)
  have al: "allocate (m_blockSize ?s1) ?s1 = ?s1\<lparr>m_capacity := 2 * b,
      m_blocks := [overlay 0 [x] (map fresh [0..<b]), map fresh [0..<b]]\<rparr>"
    using assms allocate_one [of ?s1] by (simp add: newNode_def)
  have "overlay 0 [x] (map fresh [0..<b]) = x # map fresh [1..<b]"
    using assms by (simp add: overlay_def drop_map)
  then show ?thesis
    using ba_write_eq [OF _ _ loop, of _ "allocate (m_blockSize ?s1) ?s1"] assms tot al
    by (simp add: ByteArray_def Let_def null_node_def)
qed

lemma ba_write_second:
  assumes "1 < b"
    and s: "s = (ByteArray fresh b)\<lparr>m_position := 1, m_capacity := 2 * b,
       m_blocks := [x # map fresh [1..<b], map fresh [0..<b]], m_cur := 1\<rparr>"
  shows "ba_write [y] s =
    (Inr (), s\<lparr>m_position := 2, m_cur := 2,
       m_blocks := [x # map fresh [1..<b], overlay 1 [y] (map fresh [0..<b])]\<rparr>)"
proof -
  let ?s1 = "s\<lparr>m_blocks := [x # map fresh [1..<b], overlay 1 [y] (map fresh [0..<b])],
               m_position := 2\<rparr>"
  have "allocate 1 s = s" using assms by (simp add: allocate_def getRemain_def)
  then have loop: "write_loop [y] (allocate (length [y]) s) = (Inr (), ?s1)"
    using assms write_loop_within [of s "[y]"] by (simp add: numeral_2_eq_2)
  have tot: "?s1\<lparr>m_totalSize := max (m_totalSize ?s1) (m_position ?s1)\<rparr> = ?s1"
    using assms by (simp add: max_def ByteArray_def Let_def)
  have al: "allocate (m_blockSize ?s1) ?s1 = ?s1"
    using assms by (simp add: allocate_def getRemain_def allocate_loop.simps)
  show ?thesis
    using ba_write_eq [OF _ _ loop, of _ "allocate (m_blockSize ?s1) ?s1"] assms tot al
    by (simp add: ByteArray_def Let_def null_node_def)
qed

text \<open>
  A second write that starts inside a block is lost: with a block size above 1, write one
  byte, then another, seek to the start and read two bytes. The second byte read is not the
  one written but what the allocator left in the first block.
\<close>

theorem unaligned_write_lost:
  assumes "1 < b"
  shows "\<exists>s'. sbind (write_all [[x], [y]]) (\<lambda>_. sbind (setPosition 0) (\<lambda>_. ba_read 2))
      (ByteArray fresh b) = (Inr [x, fresh 1], s')"
proof -
  let ?s = "(ByteArray fresh b)\<lparr>m_position := 1, m_capacity := 2 * b,
       m_blocks := [x # map fresh [1..<b], map fresh [0..<b]], m_cur := 1\<rparr>"
  let ?t = "?s\<lparr>m_position := 2, m_cur := 2,
       m_blocks := [x # map fresh [1..<b], overlay 1 [y] (map fresh [0..<b])]\<rparr>"
  have w: "write_all [[x], [y]] (ByteArray fresh b) = (Inr (), ?t)"
    using ba_write_first [OF assms] ba_write_second [OF assms refl]
    by (simp add: sbind_Inr sret_def)
  have "\<exists>s'. sbind (setPosition 0) (\<lambda>_. ba_read 2) ?t = (Inr (take 2 (drop 0 (flat ?t))), s')"
    using seek_read [of ?t 0 2] assms by simp
  moreover have "take 2 (drop 0 (flat ?t)) = [x, fresh 1]"
    using assms by (simp add: flat_def numeral_2_eq_2 upt_conv_Cons)
  ultimately show ?thesis using w by (simp add: sbind_Inr)
qed

theorem unaligned_write_lost_witness:
  "\<exists>s'. sbind (write_all [[5], [6]]) (\<lambda>_. sbind (setPosition 0) (\<lambda>_. ba_read 2))
      (ByteArray (\<lambda>_. 0) 4096) = (Inr [5, 0], s')"
  using unaligned_write_lost [of 4096 5 6 "\<lambda>_. 0"] by simp

text \<open>
  A third such write dereferences a null node: the cursor has been moved past the end of
  the chain although no data reached there.
\<close>

theorem third_write_null_deref:
  assumes "1 < b"
  shows "\<exists>s'. write_all [[x], [y], [z]] (ByteArray fresh b) = (Inl NullDeref, s')"
proof -
  let ?s = "(ByteArray fresh b)\<lparr>m_position := 1, m_capacity := 2 * b,
       m_blocks := [x # map fresh [1..<b], map fresh [0..<b]], m_cur := 1\<rparr>"
  let ?t = "?s\<lparr>m_position := 2, m_cur := 2,
       m_blocks := [x # map fresh [1..<b], overlay 1 [y] (map fresh [0..<b])]\<rparr>"
  have "allocate 1 ?t = ?t" using assms by (simp add: allocate_def getRemain_def)
  then have "ba_write [z] ?t = (Inl NullDeref, ?t)"
    using assms by (simp add: ba_write_def sbind_def write_loop.simps null_node_def allocate_null_def getRemain_def)
  then show ?thesis
    using ba_write_first [OF assms] ba_write_second [OF assms refl]
    by (simp add: sbind_Inr sbind_Inl)
qed

theorem third_write_null_deref_witness:
  "\<exists>s'. write_all [[5], [6], [7]] (ByteArray (\<lambda>_. 0) 4096) = (Inl NullDeref, s')"
  using third_write_null_deref [of 4096 5 6 7 "\<lambda>_. 0"] by simp

end
