(* ===== verification/Byte_Codec.thy ===== *)
theory Byte_Codec
  imports Byte_Array_Props
begin

text \<open>
  The typed accessors of the byte array (\<open>src/src/bytearray/ByteArray.cpp\<close>): fixed-width
  integers in either byte order, floating-point images, zigzag and variable-length
  integers, and the four kinds of length-prefixed strings. Signed integers are words read
  through \<open>sint\<close>; floating-point values are their bit patterns.
\<close>

section \<open>Fixed-width values\<close>

definition writeInt8 :: "u8 \<Rightarrow> unit ba" where
  "writeInt8 val = ba_write (le_bytes 1 val)"

definition writeInt16 :: "u16 \<Rightarrow> unit ba" where
  "writeInt16 val s =
     ba_write (le_bytes 2 (if m_endian s \<noteq> BYTE_ORDER then byteSwap16 val else val)) s"

definition writeInt32 :: "u32 \<Rightarrow> unit ba" where
  "writeInt32 val s =
     ba_write (le_bytes 4 (if m_endian s \<noteq> BYTE_ORDER then byteSwap32 val else val)) s"

definition writeInt64 :: "u64 \<Rightarrow> unit ba" where
  "writeInt64 val s =
     ba_write (le_bytes 8 (if m_endian s \<noteq> BYTE_ORDER then byteSwap64 val else val)) s"

definition writeUint8 :: "u8 \<Rightarrow> unit ba" where
  "writeUint8 val = ba_write (le_bytes 1 val)"

definition writeUint16 :: "u16 \<Rightarrow> unit ba" where
  "writeUint16 val s =
     ba_write (le_bytes 2 (if m_endian s \<noteq> BYTE_ORDER then byteSwap16 val else val)) s"

definition writeUint32 :: "u32 \<Rightarrow> unit ba" where
  "writeUint32 val s =
     ba_write (le_bytes 4 (if m_endian s \<noteq> BYTE_ORDER then byteSwap32 val else val)) s"

definition writeUint64 :: "u64 \<Rightarrow> unit ba" where
  "writeUint64 val s =
     ba_write (le_bytes 8 (if m_endian s \<noteq> BYTE_ORDER then byteSwap64 val else val)) s"

definition readInt8 :: "u8 ba" where
  "readInt8 = sbind (ba_read 1) (\<lambda>v. sret (le_word v))"

definition readInt16 :: "u16 ba" where
  "readInt16 = sbind (ba_read 2)
     (\<lambda>v s. (Inr (if m_endian s = BYTE_ORDER then le_word v else byteSwap16 (le_word v)), s))"

definition readInt32 :: "u32 ba" where
  "readInt32 = sbind (ba_read 4)
     (\<lambda>v s. (Inr (if m_endian s = BYTE_ORDER then le_word v else byteSwap32 (le_word v)), s))"

definition readInt64 :: "u64 ba" where
  "readInt64 = sbind (ba_read 8)
     (\<lambda>v s. (Inr (if m_endian s = BYTE_ORDER then le_word v else byteSwap64 (le_word v)), s))"

definition readUint8 :: "u8 ba" where
  "readUint8 = sbind (ba_read 1) (\<lambda>v. sret (le_word v))"

definition readUint16 :: "u16 ba" where
  "readUint16 = sbind (ba_read 2)
     (\<lambda>v s. (Inr (if m_endian s = BYTE_ORDER then le_word v else byteSwap16 (le_word v)), s))"

definition readUint32 :: "u32 ba" where
  "readUint32 = sbind (ba_read 4)
     (\<lambda>v s. (Inr (if m_endian s = BYTE_ORDER then le_word v else byteSwap32 (le_word v)), s))"

definition readUint64 :: "u64 ba" where
  "readUint64 = sbind (ba_read 8)
     (\<lambda>v s. (Inr (if m_endian s = BYTE_ORDER then le_word v else byteSwap64 (le_word v)), s))"

text \<open>Floating-point values are stored in host order whatever the array's byte order is.\<close>

definition writeFloat :: "u32 \<Rightarrow> unit ba" where
  "writeFloat val = ba_write (le_bytes 4 val)"

definition writeDouble :: "u64 \<Rightarrow> unit ba" where
  "writeDouble val = ba_write (le_bytes 8 val)"

definition readFloat :: "u32 ba" where
  "readFloat = sbind (ba_read 4) (\<lambda>v. sret (le_word v))"

definition readDouble :: "u64 ba" where
  "readDouble = sbind (ba_read 8) (\<lambda>v. sret (le_word v))"

section \<open>Zigzag and variable-length integers\<close>

text \<open>
  \<open>Encode\<close> negates in the signed type. For the least value that negation overflows, which
  C++ leaves undefined; the model has the two's complement result.
\<close>

definition Encode32 :: "u32 \<Rightarrow> u32" where
  "Encode32 v = (if sint v < 0 then (- v) * 2 - 1 else v * 2)"

definition Encode64 :: "u64 \<Rightarrow> u64" where
  "Encode64 v = (if sint v < 0 then (- v) * 2 - 1 else v * 2)"

definition Decode32 :: "u32 \<Rightarrow> u32" where
  "Decode32 v = drop_bit 1 v XOR - (v AND 1)"

definition Decode64 :: "u64 \<Rightarrow> u64" where
  "Decode64 v = drop_bit 1 v XOR - (v AND 1)"

text \<open>
  The encoding loop over a local buffer of \<open>cap\<close> bytes: \<open>tmp\<close> holds the bytes stored so
  far. A store at index \<open>cap\<close> or above is outside the buffer.
\<close>

function varint_loop :: "nat \<Rightarrow> 'a::len word \<Rightarrow> u8 list \<Rightarrow> ba_error + u8 list" where
  "varint_loop cap v tmp =
     (if cap \<le> length tmp then Inl StackSmash
      else if 128 \<le> unat v
      then varint_loop cap (drop_bit 7 v) (tmp @ [ucast ((v AND 0x7f) OR 0x80)])
      else Inr (tmp @ [ucast v]))"
  by pat_completeness auto
termination
  by (relation "measure (\<lambda>(cap, v, tmp). cap - length tmp)") auto

definition write_varint :: "nat \<Rightarrow> 'a::len word \<Rightarrow> unit ba" where
  "write_varint cap v =
     (case varint_loop cap v [] of Inl e \<Rightarrow> sthrow e | Inr tmp \<Rightarrow> ba_write tmp)"

definition writeVint32 :: "u32 \<Rightarrow> unit ba" where
  "writeVint32 val = write_varint 5 (Encode32 val)"

definition writeVint64 :: "u64 \<Rightarrow> unit ba" where
  "writeVint64 val = write_varint 10 (Encode64 val)"

definition writeVuint32 :: "u32 \<Rightarrow> unit ba" where
  "writeVuint32 val = write_varint 5 val"

text \<open>The buffer of \<open>writeVuint64\<close> is declared with 5 bytes, as in the 32-bit version.\<close>

definition writeVuint64 :: "u64 \<Rightarrow> unit ba" where
  "writeVuint64 val = write_varint 5 val"

text \<open>
  The decoding loop \<open>for(i = 0; i < bound; i += 7)\<close>; a continuation byte with
  \<open>i + 7 > w\<close> is refused.
\<close>

function vread_loop :: "nat \<Rightarrow> nat \<Rightarrow> nat \<Rightarrow> 'a::len word \<Rightarrow> ('a word) ba" where
  "vread_loop bound w i v =
     (if i < bound
      then sbind (ba_read 1)
        (\<lambda>bs. let tmp = le_word bs :: u8 in
           if 128 \<le> unat tmp
           then if w < i + 7 then sthrow LogicError
                else vread_loop bound w (i + 7) (v OR push_bit i (ucast (tmp AND 0x7f)))
           else sret (v OR push_bit i (ucast tmp)))
      else sret v)"
  by pat_completeness auto
termination
  by (relation "measure (\<lambda>(bound, w, i, v). bound - i)") auto

definition readVint32 :: "u32 ba" where
  "readVint32 = sbind (vread_loop 32 32 0 0) (\<lambda>v. sret (Decode32 v))"

definition readVint64 :: "u64 ba" where
  "readVint64 = sbind (vread_loop 64 64 0 0) (\<lambda>v. sret (Decode64 v))"

definition readVuint32 :: "u32 ba" where
  "readVuint32 = vread_loop 64 32 0 0"

definition readVuint64 :: "u64 ba" where
  "readVuint64 = vread_loop 64 64 0 0"

section \<open>Strings\<close>

definition writeStringU16 :: "u8 list \<Rightarrow> unit ba" where
  "writeStringU16 val =
     (if 65535 < length val then sthrow OutOfRange
      else sbind (writeUint16 (of_nat (length val))) (\<lambda>_. ba_write val))"

definition writeStringU32 :: "u8 list \<Rightarrow> unit ba" where
  "writeStringU32 val = sbind (writeUint32 (of_nat (length val))) (\<lambda>_. ba_write val)"

definition writeStringU64 :: "u8 list \<Rightarrow> unit ba" where
  "writeStringU64 val = sbind (writeUint64 (of_nat (length val))) (\<lambda>_. ba_write val)"

definition writeStringV64 :: "u8 list \<Rightarrow> unit ba" where
  "writeStringV64 val = sbind (writeVuint64 (of_nat (length val))) (\<lambda>_. ba_write val)"

definition writeString :: "u8 list \<Rightarrow> unit ba" where
  "writeString val = ba_write val"

definition readStringU16 :: "(u8 list) ba" where
  "readStringU16 = sbind readUint16 (\<lambda>len. ba_read (unat len))"

definition readStringU32 :: "(u8 list) ba" where
  "readStringU32 = sbind readUint32 (\<lambda>len. ba_read (unat len))"

definition readStringU64 :: "(u8 list) ba" where
  "readStringU64 = sbind readUint64 (\<lambda>len. ba_read (unat len))"

definition readStringV64 :: "(u8 list) ba" where
  "readStringV64 = sbind readVuint64 (\<lambda>len. ba_read (unat len))"

end
