(* ===== verification/Byte_Codec_Props.thy ===== *)
theory Byte_Codec_Props
  imports Byte_Codec
begin

text \<open>
  Round trips of the typed accessors. A reader \<open>consumes\<close> a byte string to a value when,
  from any readable state whose remaining bytes start with it, it returns the value and
  leaves the rest; a writer \<open>produces\<close> a byte string when it appends it to the log of an
  array with one-byte blocks. Both compose along \<open>sbind\<close>.
\<close>

declare varint_loop.simps [simp del] vread_loop.simps [simp del]

section \<open>Readable states\<close>

definition rd_ok :: "endian \<Rightarrow> byte_array \<Rightarrow> bool" where
  "rd_ok e s \<longleftrightarrow> chain_ok s \<and> cursor_ok s \<and> m_position s \<le> m_totalSize s \<and> m_endian s = e"

definition unread :: "byte_array \<Rightarrow> u8 list" where
  "unread s = drop (m_position s) (take (m_totalSize s) (flat s))"

definition consumes :: "endian \<Rightarrow> 'a ba \<Rightarrow> u8 list \<Rightarrow> 'a \<Rightarrow> bool" where
  "consumes e m xs v \<longleftrightarrow> (\<forall>s ys. rd_ok e s \<and> unread s = xs @ ys \<longrightarrow>
     (\<exists>s'. m s = (Inr v, s') \<and> rd_ok e s' \<and> unread s' = ys))"

lemma consumes_read:
  assumes "length xs = n"
  shows "consumes e (ba_read n) xs xs"
  unfolding consumes_def
proof (intro allI impI)
  fix s ys
  assume s: "rd_ok e s \<and> unread s = xs @ ys"
  let ?p = "m_position s"
  have c: "0 < m_blockSize s" "uniform (m_blockSize s) (m_blocks s)" "cursor_ok s"
    "m_totalSize s < m_blockSize s * length (m_blocks s)" "?p \<le> m_totalSize s"
    using s by (auto simp: rd_ok_def chain_ok_def)
  have "length (unread s) = m_totalSize s - ?p"
    using c by (simp add: unread_def length_flat)
  then have n: "?p + n \<le> m_totalSize s" using s assms c(5) by simp
  have "take n (drop ?p (flat s)) = take n (unread s)"
    using n by (simp add: unread_def drop_take min_def)
  then have xs: "take n (drop ?p (flat s)) = xs" using s assms by simp
  have "unread (s\<lparr>m_position := ?p + n, m_cur := (?p + n) div m_blockSize s\<rparr>) = drop n (unread s)"
    by (simp add: unread_def flat_def add.commute)
  with ba_read_ok [OF c(1-3) n] c xs n s assms
  show "\<exists>s'. ba_read n s = (Inr xs, s') \<and> rd_ok e s' \<and> unread s' = ys"
    by (auto simp: rd_ok_def chain_ok_def cursor_ok_def)
qed

lemma consumes_ret: "consumes e (sret v) [] v"
  by (simp add: consumes_def sret_def)

lemma consumes_bind:
  assumes "consumes e m xs v" "consumes e (f v) ys w"
  shows "consumes e (sbind m f) (xs @ ys) w"
  unfolding consumes_def
proof (intro allI impI)
  fix s zs
  assume "rd_ok e s \<and> unread s = (xs @ ys) @ zs"
  then obtain s1 where "m s = (Inr v, s1)" "rd_ok e s1" "unread s1 = ys @ zs"
    using assms(1) unfolding consumes_def by (metis append_assoc)
  moreover from this obtain s2 where "f v s1 = (Inr w, s2)" "rd_ok e s2" "unread s2 = zs"
    using assms(2) unfolding consumes_def by blast
  ultimately show "\<exists>s'. sbind m f s = (Inr w, s') \<and> rd_ok e s' \<and> unread s' = zs"
    by (auto simp: sbind_Inr)
qed

lemma consumes_bind_ret:
  assumes "consumes e m xs v"
  shows "consumes e (sbind m (\<lambda>x. sret (g x))) xs (g v)"
  using assms unfolding consumes_def by (fastforce simp: sbind_Inr sret_def)

lemma consumes_bind_endian:
  assumes "consumes e m xs v"
  shows "consumes e (sbind m (\<lambda>x s. (Inr (g (m_endian s) x), s))) xs (g e v)"
  using assms unfolding consumes_def by (fastforce simp: sbind_Inr rd_ok_def)

lemma take_split_at:
  assumes "a \<le> b" "b \<le> c"
  shows "drop a (take c xs) = drop a (take b xs) @ drop b (take c xs)"
proof -
  have "take c xs = take b xs @ drop b (take c xs)"
    using assms append_take_drop_id [of b "take c xs"] by (simp add: min_def)
  then have "drop a (take c xs) =
      drop a (take b xs) @ drop (a - length (take b xs)) (drop b (take c xs))"
    by (metis drop_append)
  moreover have "length xs < b \<Longrightarrow> drop b (take c xs) = []" by simp
  ultimately show ?thesis using assms by (cases "length xs < b") (auto simp: min_def)
qed

section \<open>Writing, then reading\<close>

text \<open>One write at the tail, in blocks of any size, leaves its bytes readable at the position.\<close>

lemma write_seek_readable:
  assumes "tail_ok s" "cursor_ok s" "buff \<noteq> []" "m_position s < 2 ^ 31"
  shows "\<exists>s' junk. sbind (ba_write buff) (\<lambda>_. setPosition (m_position s)) s = (Inr (), s') \<and>
    rd_ok (m_endian s) s' \<and> unread s' = buff @ junk"
proof -
  obtain w where w: "ba_write buff s = (Inr (), w)" "tail_ok w" "chain_ok w"
    "m_position w = m_position s + length buff"
    "take (m_position w) (flat w) = take (m_position s) (flat s) @ buff"
    "m_endian w = m_endian s"
    using ba_write_tail [OF assms(1-3)] by metis
  note t = tail_okD [OF w(2)]
  let ?w = "w\<lparr>m_position := m_position s, m_cur := m_position s div m_blockSize w\<rparr>"
  have "m_position s \<le> m_totalSize w" using w(4) t(4) by linarith
  moreover from this have "m_position s < m_blockSize w * length (m_blocks w)"
    using w(3) by (auto simp: chain_ok_def)
  ultimately have run: "setPosition (m_position s) w = (Inr (), ?w)"
    using setPosition_ok [of w "m_position s"] t assms(4) by (simp add: max_def)
  have len: "m_position s \<le> length (flat s)"
    using tail_okD [OF assms(1)] by (simp add: length_flat)
  have "drop (m_position s) (take (m_position w) (flat w)) = buff"
    using w(5) len by simp
  then have "unread ?w = buff @ drop (m_position w) (take (m_totalSize w) (flat w))"
    using take_split_at [of "m_position s" "m_position w" "m_totalSize w" "flat w"] w(4) t(4)
    by (simp add: unread_def flat_def)
  moreover have "rd_ok (m_endian s) ?w"
    using w t(4) by (simp add: rd_ok_def chain_ok_def cursor_ok_def)
  ultimately show ?thesis using run w(1) by (auto simp: sbind_Inr)
qed

lemma write_seek_consume:
  assumes "tail_ok s" "cursor_ok s" "m_position s < 2 ^ 31"
    and "m s = ba_write xs s" "xs \<noteq> []" "consumes (m_endian s) r xs v"
  shows "\<exists>s'. sbind m (\<lambda>_. sbind (setPosition (m_position s)) (\<lambda>_. r)) s = (Inr v, s')"
proof -
  obtain t junk where t: "sbind (ba_write xs) (\<lambda>_. setPosition (m_position s)) s = (Inr (), t)"
    "rd_ok (m_endian s) t" "unread t = xs @ junk"
    using write_seek_readable [OF assms(1,2,5,3)] by blast
  then obtain t' where "r t = (Inr v, t')" using assms(6) unfolding consumes_def by blast
  with t(1) assms(4) show ?thesis by (auto simp: sbind_Inr_iff sbind_def split: prod.splits sum.splits)
qed

text \<open>With one-byte blocks any number of writes can follow each other.\<close>

definition bytewise :: "endian \<Rightarrow> byte_array \<Rightarrow> bool" where
  "bytewise e s \<longleftrightarrow> tail_ok s \<and> cursor_ok s \<and> m_blockSize s = 1 \<and> m_endian s = e"

definition produces :: "endian \<Rightarrow> unit ba \<Rightarrow> u8 list \<Rightarrow> bool" where
  "produces e m xs \<longleftrightarrow> (\<forall>s. bytewise e s \<longrightarrow>
     (\<exists>s'. m s = (Inr (), s') \<and> bytewise e s' \<and> ba_log s' = ba_log s @ xs \<and>
        (chain_ok s \<or> xs \<noteq> [] \<longrightarrow> chain_ok s')))"

lemma produces_write: "produces e (ba_write xs) xs"
  unfolding produces_def
proof (intro allI impI)
  fix s
  assume s: "bytewise e s"
  show "\<exists>s'. ba_write xs s = (Inr (), s') \<and> bytewise e s' \<and> ba_log s' = ba_log s @ xs \<and>
      (chain_ok s \<or> xs \<noteq> [] \<longrightarrow> chain_ok s')"
  proof (cases "xs = []")
    case True
    with s show ?thesis by (simp add: ba_write_def)
  next
    case False
    have t: "tail_ok s" and c: "cursor_ok s" and b: "m_blockSize s = 1" "m_endian s = e"
      using s by (simp_all add: bytewise_def)
    obtain w where w: "ba_write xs s = (Inr (), w)" "tail_ok w"
      "m_position w = m_position s + length xs"
      "take (m_position w) (flat w) = take (m_position s) (flat s) @ xs"
      "m_cur w = Suc ((m_position w - 1) div m_blockSize s)" "m_blockSize w = m_blockSize s"
      "m_endian w = m_endian s" "chain_ok w"
      using ba_write_tail [OF t c False] by metis
    have "cursor_ok w" using w(3,5,6) b False by (simp add: cursor_ok_def)
    then have "bytewise e w" using w(2,6,7) b by (simp add: bytewise_def)
    then show ?thesis using w(1,4,8) by (auto simp: ba_log_def)
  qed
qed

lemma produces_bind:
  assumes "produces e m xs" "produces e (f ()) ys"
  shows "produces e (sbind m f) (xs @ ys)"
  unfolding produces_def
proof (intro allI impI)
  fix s
  assume "bytewise e s"
  then obtain s1 where "m s = (Inr (), s1)" "bytewise e s1" "ba_log s1 = ba_log s @ xs"
    "chain_ok s \<or> xs \<noteq> [] \<longrightarrow> chain_ok s1"
    using assms(1) unfolding produces_def by blast
  moreover from this obtain s2 where "f () s1 = (Inr (), s2)" "bytewise e s2"
    "ba_log s2 = ba_log s1 @ ys" "chain_ok s1 \<or> ys \<noteq> [] \<longrightarrow> chain_ok s2"
    using assms(2) unfolding produces_def by blast
  ultimately show "\<exists>s'. sbind m f s = (Inr (), s') \<and> bytewise e s' \<and>
      ba_log s' = ba_log s @ xs @ ys \<and> (chain_ok s \<or> xs @ ys \<noteq> [] \<longrightarrow> chain_ok s')"
    by (auto simp: sbind_Inr)
qed

lemma produces_endian:
  "(\<And>s. m_endian s = e \<Longrightarrow> m s = ba_write xs s) \<Longrightarrow> produces e m xs"
  using produces_write [of e xs] by (auto simp: produces_def bytewise_def)

text \<open>What was produced can be consumed after seeking back to where the writing began.\<close>

lemma produce_seek_consume:
  assumes "bytewise e s" "m_position s < 2 ^ 31" "produces e m xs" "xs \<noteq> []" "consumes e r xs v"
  shows "\<exists>s'. sbind m (\<lambda>_. sbind (setPosition (m_position s)) (\<lambda>_. r)) s = (Inr v, s')"
proof -
  obtain w where w: "m s = (Inr (), w)" "bytewise e w" "ba_log w = ba_log s @ xs" "chain_ok w"
    using assms(1,3,4) unfolding produces_def by blast
  have t: "tail_ok w" "tail_ok s" using w(2) assms(1) by (simp_all add: bytewise_def)
  note tw = tail_okD [OF t(1)] and ts = tail_okD [OF t(2)]
  have fits: "m_position u \<le> length (flat u)" if "tail_ok u" for u
    using tail_okD [OF that] by (simp add: length_flat)
  have "m_position w = m_position s + length xs"
    using arg_cong [OF w(3), of length] fits [OF t(1)] fits [OF t(2)] by (simp add: ba_log_def)
  then have le: "m_position s \<le> m_totalSize w" using tw(4) by linarith
  then have "m_position s < m_blockSize w * length (m_blocks w)"
    using w(4) by (auto simp: chain_ok_def)
  let ?w = "w\<lparr>m_position := m_position s, m_cur := m_position s div m_blockSize w\<rparr>"
  have run: "setPosition (m_position s) w = (Inr (), ?w)"
    using setPosition_ok [of w "m_position s"] tw(1,5) le assms(2)
      \<open>m_position s < m_blockSize w * length (m_blocks w)\<close> by (simp add: max_def)
  have "drop (m_position s) (take (m_position w) (flat w)) = xs"
    using w(3) fits [OF t(2)] by (simp add: ba_log_def)
  then have "unread ?w = xs @ drop (m_position w) (take (m_totalSize w) (flat w))"
    using take_split_at [of "m_position s" "m_position w" "m_totalSize w" "flat w"]
      \<open>m_position w = m_position s + length xs\<close> tw(4)
    by (simp add: unread_def flat_def)
  moreover have "rd_ok e ?w"
    using w le by (simp add: rd_ok_def chain_ok_def cursor_ok_def bytewise_def)
  ultimately obtain w' where "r ?w = (Inr v, w')"
    using assms(5) unfolding consumes_def by blast
  with run w(1) show ?thesis by (simp add: sbind_Inr)
qed

section \<open>Fixed-width accessors\<close>

text \<open>
  A writer and a reader of one value type over a fixed-width codec, for an array with byte
  order \<open>e\<close>. The laws are what the two bodies do with the codec; the round trips follow once
  for all the value types.
\<close>

locale typed_accessor = fixed_codec enc dec width
  for enc :: "'v \<Rightarrow> u8 list" and dec :: "u8 list \<Rightarrow> 'v" and width :: nat +
  fixes e :: endian
    and put :: "'v \<Rightarrow> unit ba"
    and get :: "'v ba"
  assumes width_pos: "0 < width"
    and put_eq: "m_endian s = e \<Longrightarrow> put v s = ba_write (enc v) s"
    and get_eq: "ba_read width s = (Inr bs, s') \<Longrightarrow> m_endian s' = e \<Longrightarrow> get s = (Inr (dec bs), s')"
begin

lemma get_consumes: "consumes e get (enc v) v"
  using consumes_read [OF width_enc, of e v] get_eq
  unfolding consumes_def by (fastforce simp: dec_enc rd_ok_def)

lemma put_produces: "produces e (put v) (enc v)"
  by (rule produces_endian) (rule put_eq)

lemma enc_not_Nil: "enc v \<noteq> []"
  using width_enc [of v] width_pos by auto

lemma put_get:
  assumes "tail_ok s" "cursor_ok s" "m_position s < 2 ^ 31" "m_endian s = e"
  shows "\<exists>s'. sbind (put v) (\<lambda>_. sbind (setPosition (m_position s)) (\<lambda>_. get)) s = (Inr v, s')"
  using write_seek_consume [of s "put v" "enc v" get v] assms put_eq enc_not_Nil get_consumes
  by simp

end

text \<open>The encodings the accessors use, by byte order of the array.\<close>

definition enc16 :: "endian \<Rightarrow> u16 \<Rightarrow> u8 list" where
  "enc16 e v = le_bytes 2 (if e \<noteq> BYTE_ORDER then byteSwap16 v else v)"

definition dec16 :: "endian \<Rightarrow> u8 list \<Rightarrow> u16" where
  "dec16 e bs = (if e = BYTE_ORDER then le_word bs else byteSwap16 (le_word bs))"

definition enc32 :: "endian \<Rightarrow> u32 \<Rightarrow> u8 list" where
  "enc32 e v = le_bytes 4 (if e \<noteq> BYTE_ORDER then byteSwap32 v else v)"

definition dec32 :: "endian \<Rightarrow> u8 list \<Rightarrow> u32" where
  "dec32 e bs = (if e = BYTE_ORDER then le_word bs else byteSwap32 (le_word bs))"

definition enc64 :: "endian \<Rightarrow> u64 \<Rightarrow> u8 list" where
  "enc64 e v = le_bytes 8 (if e \<noteq> BYTE_ORDER then byteSwap64 v else v)"

definition dec64 :: "endian \<Rightarrow> u8 list \<Rightarrow> u64" where
  "dec64 e bs = (if e = BYTE_ORDER then le_word bs else byteSwap64 (le_word bs))"

lemmas codec_defs = enc16_def dec16_def enc32_def dec32_def enc64_def dec64_def

lemmas accessor_defs =
  writeInt8_def writeInt16_def writeInt32_def writeInt64_def
  writeUint8_def writeUint16_def writeUint32_def writeUint64_def
  readInt8_def readInt16_def readInt32_def readInt64_def
  readUint8_def readUint16_def readUint32_def readUint64_def
  writeFloat_def writeDouble_def readFloat_def readDouble_def

interpretation codec8: fixed_codec "le_bytes 1" "le_word :: u8 list \<Rightarrow> u8" 1
  by unfold_locales (simp_all add: le_word_le_bytes)

interpretation codec16: fixed_codec "enc16 e" "dec16 e" 2 for e
  by unfold_locales (simp_all add: codec_defs le_word_le_bytes)

interpretation codec32: fixed_codec "enc32 e" "dec32 e" 4 for e
  by unfold_locales (simp_all add: codec_defs le_word_le_bytes)

interpretation codec64: fixed_codec "enc64 e" "dec64 e" 8 for e
  by unfold_locales (simp_all add: codec_defs le_word_le_bytes)






interpretation accUint16: typed_accessor "enc16 e" "dec16 e" 2 e writeUint16 readUint16 for e
  by unfold_locales (auto simp: accessor_defs codec_defs sbind_Inr sret_def)

interpretation accUint32: typed_accessor "enc32 e" "dec32 e" 4 e writeUint32 readUint32 for e
  by unfold_locales (auto simp: accessor_defs codec_defs sbind_Inr sret_def)

interpretation accUint64: typed_accessor "enc64 e" "dec64 e" 8 e writeUint64 readUint64 for e
  by unfold_locales (auto simp: accessor_defs codec_defs sbind_Inr sret_def)



section \<open>Variable-length integers\<close>

text \<open>The reference encoding: seven bits a byte, low bits first, the top bit set on all but the last.\<close>

lemma unat_drop7: "unat (drop_bit 7 v) = unat v div 128"
  by (simp only: unat_drop_bit_eq) (simp add: drop_bit_eq_div)

lemma bit_7f: "bit (0x7f :: 'a::len word) n \<longleftrightarrow> n < LENGTH('a) \<and> n < 7"
proof -
  have "(0x7f :: 'a word) = mask 7" by (simp add: mask_eq_exp_minus_1)
  then show ?thesis by (simp only: bit_mask_iff possible_bit_word)
qed

lemma bit_80: "bit (0x80 :: 'a::len word) n \<longleftrightarrow> n < LENGTH('a) \<and> n = 7"
proof -
  have "(0x80 :: 'a word) = 2 ^ 7" by simp
  then show ?thesis by (simp only: bit_exp_iff possible_bit_word)
qed

function vbytes :: "'a::len word \<Rightarrow> u8 list" where
  "vbytes v = (if 128 \<le> unat v then ucast ((v AND 0x7f) OR 0x80) # vbytes (drop_bit 7 v)
               else [ucast v])"
  by pat_completeness auto
termination
proof (relation "measure unat")
  fix v :: "'a word"
  assume "128 \<le> unat v"
  then show "(drop_bit 7 v, v) \<in> measure unat" unfolding in_measure unat_drop7 by simp
qed simp

declare vbytes.simps [simp del]

lemma vbytes_not_Nil [simp]: "vbytes v \<noteq> []"
  by (subst vbytes.simps) simp

lemma varint_loop_eq:
  "varint_loop cap v tmp =
    (if length tmp + length (vbytes v) \<le> cap then Inr (tmp @ vbytes v) else Inl StackSmash)"
proof (induction v arbitrary: tmp rule: vbytes.induct)
  case (1 v)
  have pos: "0 < length (vbytes (drop_bit 7 v))" by simp
  show ?case
  proof (cases "128 \<le> unat v")
    case True
    with 1 [OF True] pos show ?thesis
      by (subst varint_loop.simps, subst (1 2) vbytes.simps) auto
  next
    case False
    then show ?thesis by (subst varint_loop.simps, subst (1 2) vbytes.simps) auto
  qed
qed

lemma length_vbytes_le:
  "0 < n \<Longrightarrow> length (vbytes v) \<le> n \<longleftrightarrow> unat v < 2 ^ (7 * n)"
proof (induction v arbitrary: n rule: vbytes.induct)
  case (1 v)
  obtain m where n: "n = Suc m" using 1(2) by (cases n) auto
  have p: "(2::nat) ^ (7 * n) = 128 * 2 ^ (7 * m)" by (simp add: n power_add)
  show ?case
  proof (cases "128 \<le> unat v")
    case True
    have "length (vbytes (drop_bit 7 v)) \<le> m \<longleftrightarrow> unat v div 128 < 2 ^ (7 * m)"
    proof (cases "m = 0")
      case True
      then show ?thesis using \<open>128 \<le> unat v\<close> by simp
    next
      case False
      then show ?thesis using 1(1) [OF \<open>128 \<le> unat v\<close>, of m]
        by (simp only: unat_drop7)
    qed
    moreover have "unat v div 128 < 2 ^ (7 * m) \<longleftrightarrow> unat v < 2 ^ (7 * n)"
      unfolding p by (subst div_less_iff_less_mult) (simp_all add: mult.commute)
    ultimately show ?thesis using True by (subst vbytes.simps) (simp add: n)
  next
    case False
    have "(1::nat) \<le> 2 ^ (7 * m)" by simp
    then have "unat v < 2 ^ (7 * n)" using False unfolding p by linarith
    then show ?thesis using False 1(2) by (subst vbytes.simps) simp
  qed
qed

lemma vbyte_more:
  fixes v :: "'a::len word"
  assumes "8 \<le> LENGTH('a)"
  defines "b \<equiv> (ucast ((v AND 0x7f) OR 0x80) :: u8)"
  shows "128 \<le> unat b" "(ucast (b AND 0x7f) :: 'a word) = v AND 0x7f"
proof -
  have "bit b 7" using assms(1) by (simp add: b_def bit_unsigned_iff bit_or_iff bit_80 del: bit_numeral_word_iff)
  then have "odd (unat b div 2 ^ 7)" unfolding bit_iff_odd [of "unat b", symmetric] by (simp add: bit_unsigned_iff)
  then show "128 \<le> unat b" by (cases "unat b < 128") simp_all
  show "(ucast (b AND 0x7f) :: 'a word) = v AND 0x7f"
    using assms(1)
    by (intro bit_word_eqI) (auto simp: b_def bit_unsigned_iff bit_and_iff bit_or_iff bit_7f bit_80 simp del: bit_numeral_word_iff)
qed

lemma vbyte_last:
  fixes v :: "'a::len word"
  assumes "unat v < 128"
  shows "unat (ucast v :: u8) = unat v" "(ucast (ucast v :: u8) :: 'a word) = v"
proof -
  show *: "unat (ucast v :: u8) = unat v" using assms by (simp add: unsigned_ucast_eq take_bit_nat_eq_self)
  have "unat (ucast (ucast v :: u8) :: 'a word) = unat v"
    using * unsigned_less [of v, where 'a = nat] by (simp only: unsigned_ucast_eq [of "ucast v :: u8"] take_bit_nat_eq_self)
  then show "(ucast (ucast v :: u8) :: 'a word) = v" by (simp add: word_unat_eq_iff)
qed

lemma split7:
  "push_bit i (v AND 0x7f) OR push_bit (i + 7) (drop_bit 7 v) = push_bit i (v :: 'a::len word)"
proof (rule bit_word_eqI)
  fix n
  assume "n < LENGTH('a)"
  moreover have "7 + (n - (i + 7)) = n - i" if "i + 7 \<le> n" using that by simp
  ultimately show "bit (push_bit i (v AND 0x7f) OR push_bit (i + 7) (drop_bit 7 v)) n = bit (push_bit i v) n"
    by (cases "i + 7 \<le> n")
       (auto simp: bit_or_iff bit_push_bit_iff bit_and_iff bit_7f bit_drop_bit_eq
         simp del: bit_numeral_word_iff dest: bit_imp_le_length)
qed

lemma zigzag:
  fixes v :: "'a::len word"
  defines "z \<equiv> (if sint v < 0 then (- v) * 2 - 1 else v * 2)"
  shows "drop_bit 1 z XOR - (z AND 1) = v"
proof -
  have top: "bit v (LENGTH('a) - Suc 0) \<longleftrightarrow> sint v < 0" by (simp add: bit_last_iff)
  have z: "bit z n \<longleftrightarrow> n < LENGTH('a) \<and>
      (if n = 0 then sint v < 0 else bit v (n - 1) \<noteq> (sint v < 0))" for n
  proof (cases "sint v < 0")
    case True
    have "push_bit 1 (NOT v) AND 1 = 0"
      by (intro bit_word_eqI) (simp only: bit_and_iff bit_push_bit_iff bit_1_iff bit_0_eq bot_apply bot_bool_def, auto)
    then have "push_bit 1 (NOT v) + 1 = push_bit 1 (NOT v) OR 1" by (rule disjunctive_add_eq_or)
    moreover have "z = push_bit 1 (NOT v) + 1"
      using True by (simp add: z_def push_bit_eq_mult not_eq_complement algebra_simps)
    ultimately have "bit z n = bit (push_bit 1 (NOT v) OR 1) n" by simp
    with True show ?thesis
      by (cases n) (auto simp only: bit_or_iff bit_push_bit_iff bit_1_iff bit_not_iff possible_bit_word, auto)
  next
    case False
    then have "z = push_bit 1 v" by (simp add: z_def push_bit_eq_mult mult.commute)
    then have "bit z n = bit (push_bit 1 v) n" by simp
    with False show ?thesis
      by (cases n) (auto simp only: bit_push_bit_iff possible_bit_word, auto)
  qed
  have "drop_bit 1 z = (if sint v < 0 then NOT v else v)"
  proof (rule bit_word_eqI)
    fix n
    assume "n < LENGTH('a)"
    then show "bit (drop_bit 1 z) n = bit (if sint v < 0 then NOT v else v) n"
      using top by (cases "n = LENGTH('a) - Suc 0")
        (auto simp: bit_drop_bit_eq z bit_not_iff possible_bit_word)
  qed
  moreover have "z AND 1 = (if sint v < 0 then 1 else 0)"
    by (intro bit_word_eqI) (auto simp: bit_and_iff z bit_1_iff)
  ultimately show ?thesis by simp
qed
lemma vread_consumes:
  fixes v :: "'a::len word"
  assumes "8 \<le> LENGTH('a)" "i + 7 * (length (vbytes v) - 1) < bound"
    and "i + 7 * (length (vbytes v) - 1) \<le> w"
  shows "consumes e (vread_loop bound w i acc) (vbytes v) (acc OR push_bit i v)"
  using assms(2,3)
proof (induction v arbitrary: i acc rule: vbytes.induct)
  case (1 v)
  show ?case
  proof (cases "128 \<le> unat v")
    case True
    let ?b = "ucast ((v AND 0x7f) OR 0x80) :: u8"
    have vb: "vbytes v = [?b] @ vbytes (drop_bit 7 v)" using True by (subst vbytes.simps) simp
    obtain k where k: "length (vbytes (drop_bit 7 v)) = Suc k"
      by (cases "length (vbytes (drop_bit 7 v))") auto
    have len: "i + 7 \<le> w" "i < bound" "i + 7 + 7 * k < bound" "i + 7 + 7 * k \<le> w"
      using 1(2,3) k by (simp_all add: vb)
    have "consumes e (vread_loop bound w (i + 7) (acc OR push_bit i (ucast (?b AND 0x7f))))
        (vbytes (drop_bit 7 v)) (acc OR push_bit i v)"
      using 1(1) [OF True, of "i + 7" "acc OR push_bit i (v AND 0x7f)"] len k
      by (simp add: vbyte_more(2) [OF assms(1)] or.assoc split7 del: push_bit_and)
    then show ?thesis
      unfolding vb using len vbyte_more(1) [OF assms(1), of v]
      by (subst vread_loop.simps, simp only: if_True)
         (rule consumes_bind [OF consumes_read], simp_all add: Let_def)
  next
    case False
    then have vb: "vbytes v = [ucast v] @ []" by (subst vbytes.simps) simp
    have "consumes e (sret (acc OR push_bit i (ucast (ucast v :: u8))) ) [] (acc OR push_bit i v)"
      using False by (simp add: vbyte_last consumes_ret)
    moreover have "i < bound" using 1(2) by linarith
    ultimately show ?thesis
      unfolding vb using False
      by (subst vread_loop.simps, simp only: if_True)
         (rule consumes_bind [OF consumes_read], simp_all add: Let_def vbyte_last)
  qed
qed

lemma length_vbytes32: "length (vbytes (v :: u32)) \<le> 5"
  using unsigned_less [of v, where 'a = nat] by (subst length_vbytes_le) auto

lemma length_vbytes64: "length (vbytes (v :: u64)) \<le> 10"
  using unsigned_less [of v, where 'a = nat] by (subst length_vbytes_le) auto

lemma readV_consumes:
  "consumes e readVuint32 (vbytes a) a" "consumes e readVuint64 (vbytes b) b"
  "consumes e readVint32 (vbytes (Encode32 c)) c" "consumes e readVint64 (vbytes (Encode64 d)) d"
proof -
  have 32: "consumes e (vread_loop n 32 0 0) (vbytes x) x" if "n \<in> {32, 64}" for x :: u32 and n
    using vread_consumes [of 0 x n 32 e 0] length_vbytes32 [of x] that by auto
  have 64: "consumes e (vread_loop 64 64 0 0) (vbytes x) x" for x :: u64
    using vread_consumes [of 0 x 64 64 e 0] length_vbytes64 [of x] by auto
  show "consumes e readVuint32 (vbytes a) a" "consumes e readVuint64 (vbytes b) b"
    using 32 64 by (simp_all add: readVuint32_def readVuint64_def)
  have "Decode32 (Encode32 c) = c" "Decode64 (Encode64 d) = d"
    using zigzag [of c] zigzag [of d]
    by (simp_all only: Decode32_def Decode64_def Encode32_def Encode64_def)
  then show "consumes e readVint32 (vbytes (Encode32 c)) c"
    "consumes e readVint64 (vbytes (Encode64 d)) d"
    using consumes_bind_ret [OF 32 [of 32 "Encode32 c"], of Decode32]
      consumes_bind_ret [OF 64 [of "Encode64 d"], of Decode64]
    by (simp_all add: readVint32_def readVint64_def)
qed

lemma write_varint_eq:
  "length (vbytes v) \<le> cap \<Longrightarrow> write_varint cap v = ba_write (vbytes v)"
  "cap < length (vbytes v) \<Longrightarrow> write_varint cap v = sthrow StackSmash"
  by (simp_all add: write_varint_def varint_loop_eq)

lemma writeV_eq:
  "writeVuint32 a = ba_write (vbytes a)" "writeVint32 a = ba_write (vbytes (Encode32 a))"
  "writeVint64 d = ba_write (vbytes (Encode64 d))"
  "writeVuint64 b = (if unat b < 2 ^ 35 then ba_write (vbytes b) else sthrow StackSmash)"
proof -
  have "length (vbytes b) \<le> 5 \<longleftrightarrow> unat b < 2 ^ 35"
    using length_vbytes_le [of 5 b] by simp
  then show "writeVuint64 b = (if unat b < 2 ^ 35 then ba_write (vbytes b) else sthrow StackSmash)"
    by (simp only: writeVuint64_def write_varint_def varint_loop_eq) simp
qed (simp_all add: writeVuint32_def writeVint32_def writeVint64_def write_varint_eq
      length_vbytes32 length_vbytes64)

section \<open>Strings\<close>

lemma readString_consumes:
  "length val < 2 ^ 16 \<Longrightarrow> consumes e readStringU16 (enc16 e (of_nat (length val)) @ val) val"
  "length val < 2 ^ 32 \<Longrightarrow> consumes e readStringU32 (enc32 e (of_nat (length val)) @ val) val"
  "length val < 2 ^ 64 \<Longrightarrow> consumes e readStringU64 (enc64 e (of_nat (length val)) @ val) val"
  "length val < 2 ^ 64 \<Longrightarrow> consumes e readStringV64 (vbytes (of_nat (length val) :: u64) @ val) val"
  unfolding readStringU16_def readStringU32_def readStringU64_def readStringV64_def
  by (rule consumes_bind [OF accUint16.get_consumes consumes_read]
        consumes_bind [OF accUint32.get_consumes consumes_read]
        consumes_bind [OF accUint64.get_consumes consumes_read]
        consumes_bind [OF readV_consumes(2) consumes_read],
      simp add: unsigned_of_nat take_bit_nat_eq_self)+

lemma writeString_produces:
  "length val \<le> 65535 \<Longrightarrow> produces e (writeStringU16 val) (enc16 e (of_nat (length val)) @ val)"
  "produces e (writeStringU32 val) (enc32 e (of_nat (length val)) @ val)"
  "produces e (writeStringU64 val) (enc64 e (of_nat (length val)) @ val)"
  "length val < 2 ^ 35 \<Longrightarrow> produces e (writeStringV64 val) (vbytes (of_nat (length val) :: u64) @ val)"
  unfolding writeStringU32_def writeStringU64_def
  subgoal
    using produces_bind [OF accUint16.put_produces produces_write] by (simp add: writeStringU16_def)
  subgoal by (rule produces_bind [OF accUint32.put_produces produces_write])
  subgoal by (rule produces_bind [OF accUint64.put_produces produces_write])
  subgoal
    using produces_bind [OF produces_write produces_write]
    by (simp add: writeStringV64_def writeV_eq unsigned_of_nat take_bit_nat_eq_self)
  done


section \<open>Properties of the accessors\<close>





text \<open>
  A length-prefixed string round-trips when it follows its prefix in an array with
  one-byte blocks, as long as its length fits the prefix; \<open>writeStringU16\<close> refuses a longer
  string and leaves the array unchanged.
\<close>

theorem string_round_trip:
  assumes "bytewise e s" "m_position s < 2 ^ 31"
  shows "(if length val \<le> 65535
      then (\<exists>s'. sbind (writeStringU16 val) (\<lambda>_. sbind (setPosition (m_position s)) (\<lambda>_. readStringU16)) s = (Inr val, s'))
      else writeStringU16 val s = (Inl OutOfRange, s)) \<and>
    (length val < 2 ^ 32 \<longrightarrow>
       (\<exists>s'. sbind (writeStringU32 val) (\<lambda>_. sbind (setPosition (m_position s)) (\<lambda>_. readStringU32)) s = (Inr val, s'))) \<and>
    (length val < 2 ^ 64 \<longrightarrow>
       (\<exists>s'. sbind (writeStringU64 val) (\<lambda>_. sbind (setPosition (m_position s)) (\<lambda>_. readStringU64)) s = (Inr val, s'))) \<and>
    (length val < 2 ^ 35 \<longrightarrow>
       (\<exists>s'. sbind (writeStringV64 val) (\<lambda>_. sbind (setPosition (m_position s)) (\<lambda>_. readStringV64)) s = (Inr val, s')))"
proof -
  note rt = produce_seek_consume [OF assms]
  have nn: "enc16 e (of_nat (length val)) @ val \<noteq> []" "enc32 e (of_nat (length val)) @ val \<noteq> []"
    "enc64 e (of_nat (length val)) @ val \<noteq> []" "vbytes (of_nat (length val) :: u64) @ val \<noteq> []"
    using accUint16.enc_not_Nil accUint32.enc_not_Nil accUint64.enc_not_Nil by simp_all
  show ?thesis
    using rt [OF writeString_produces(1) nn(1) readString_consumes(1)]
      rt [OF writeString_produces(2) nn(2) readString_consumes(2)]
      rt [OF writeString_produces(3) nn(3) readString_consumes(3)]
      rt [OF writeString_produces(4) nn(4) readString_consumes(4)]
    by (auto simp: writeStringU16_def sthrow_def)
qed

theorem string_round_trip_witness:
  "\<exists>s'. sbind (writeStringV64 [104, 105]) (\<lambda>_. sbind (setPosition 0) (\<lambda>_. readStringV64))
      (ByteArray (\<lambda>_. 0) 1) = (Inr [104, 105], s')"
  using string_round_trip [of BYTE_ORDER "ByteArray (\<lambda>_. 0) 1" "[104, 105]"]
  by (simp add: bytewise_def tail_ok_def cursor_ok_def)

end
