(* ===== verification/Ts_Queue.thy ===== *)
theory Ts_Queue
  imports Zy_Prelude
begin

text \<open>
  The locked double-ended queues (\<open>src/src/scheduler/TSQueue.hpp\<close>). Every member function
  holds the queue's lock from its first to its last access, so each is one atomic
  operation on the state; the blocking functions give the lock up while they wait on the
  semaphore \<open>m_nput\<close> and are modelled as steps of a transition system.

  The interface the clients of either queue rely on is the locale \<open>work_deque\<close>.
\<close>

section \<open>State and non-blocking operations of \<open>TSQueue\<close>\<close>

record 'a ts_queue =
  m_deq :: "'a list"
  m_nput :: nat \<comment> \<open>the count of the semaphore\<close>
  m_limit :: int

definition TSQueue :: "int \<Rightarrow> 'a ts_queue" where
  "TSQueue limit = \<lparr>m_deq = [], m_nput = 0, m_limit = limit\<rparr>"

text \<open>
  The loops that move up to \<open>k\<close> elements to the end of \<open>c\<close>; the result is the rest of the
  deque, the grown list and the number of elements moved.
\<close>

fun popk_front_loop :: "nat \<Rightarrow> 'a list \<Rightarrow> 'a list \<Rightarrow> 'a list \<times> 'a list \<times> nat" where
  "popk_front_loop 0 deq c = (deq, c, 0)"
| "popk_front_loop (Suc k) [] c = ([], c, 0)"
| "popk_front_loop (Suc k) (v # deq) c =
     (case popk_front_loop k deq (c @ [v]) of (d, c', real) \<Rightarrow> (d, c', Suc real))"

fun popk_back_loop :: "nat \<Rightarrow> 'a list \<Rightarrow> 'a list \<Rightarrow> 'a list \<times> 'a list \<times> nat" where
  "popk_back_loop 0 deq c = (deq, c, 0)"
| "popk_back_loop (Suc k) deq c =
     (if deq = [] then ([], c, 0)
      else case popk_back_loop k (butlast deq) (c @ [last deq]) of (d, c', real) \<Rightarrow> (d, c', Suc real))"

definition try_popk_front :: "int \<Rightarrow> 'a list \<Rightarrow> 'a ts_queue \<Rightarrow> bool \<times> 'a list \<times> 'a ts_queue" where
  "try_popk_front k c q =
     (if m_deq q = [] then (False, c, q)
      else case popk_front_loop (nat k) (m_deq q) c of (d, c', _) \<Rightarrow> (True, c', q\<lparr>m_deq := d\<rparr>))"

definition try_popk_back :: "int \<Rightarrow> 'a list \<Rightarrow> 'a ts_queue \<Rightarrow> bool \<times> 'a list \<times> 'a ts_queue" where
  "try_popk_back k c q =
     (if m_deq q = [] then (False, c, q)
      else case popk_back_loop (nat k) (m_deq q) c of (d, c', _) \<Rightarrow> (True, c', q\<lparr>m_deq := d\<rparr>))"

text \<open>The single pops return the element through a reference, which stays as it was on failure.\<close>

definition try_pop_back :: "'a ts_queue \<Rightarrow> 'a option \<times> 'a ts_queue" where
  "try_pop_back q =
     (if m_deq q = [] then (None, q)
      else (Some (last (m_deq q)), q\<lparr>m_deq := butlast (m_deq q)\<rparr>))"

definition try_pop_front :: "'a ts_queue \<Rightarrow> 'a option \<times> 'a ts_queue" where
  "try_pop_front q =
     (if m_deq q = [] then (None, q)
      else (Some (hd (m_deq q)), q\<lparr>m_deq := tl (m_deq q)\<rparr>))"

text \<open>The bulk pushes empty the caller's list and post the semaphore once.\<close>

definition pushk_front :: "'a list \<Rightarrow> 'a ts_queue \<Rightarrow> 'a list \<times> 'a ts_queue" where
  "pushk_front c q = ([], q\<lparr>m_deq := foldl (\<lambda>d v. v # d) (m_deq q) c, m_nput := Suc (m_nput q)\<rparr>)"

definition pushk_back :: "'a list \<Rightarrow> 'a ts_queue \<Rightarrow> 'a list \<times> 'a ts_queue" where
  "pushk_back c q = ([], q\<lparr>m_deq := foldl (\<lambda>d v. d @ [v]) (m_deq q) c, m_nput := Suc (m_nput q)\<rparr>)"

definition push_back :: "'a \<Rightarrow> 'a ts_queue \<Rightarrow> 'a ts_queue" where
  "push_back v q = q\<lparr>m_deq := m_deq q @ [v], m_nput := Suc (m_nput q)\<rparr>"

definition push_front :: "'a \<Rightarrow> 'a ts_queue \<Rightarrow> 'a ts_queue" where
  "push_front v q = q\<lparr>m_deq := v # m_deq q, m_nput := Suc (m_nput q)\<rparr>"

definition tsq_empty :: "'a ts_queue \<Rightarrow> bool" where
  "tsq_empty q \<longleftrightarrow> m_deq q = []"

definition tsq_clear :: "'a ts_queue \<Rightarrow> 'a ts_queue" where
  "tsq_clear q = q\<lparr>m_deq := []\<rparr>"

definition setLimit :: "int \<Rightarrow> 'a ts_queue \<Rightarrow> 'a ts_queue" where
  "setLimit limit q = q\<lparr>m_limit := limit\<rparr>"

section \<open>Blocking operations\<close>

text \<open>
  One locked section of a blocking pop: either the deque is empty and the caller goes to
  \<open>m_nput.wait()\<close> (\<open>None\<close>), or it takes its elements. The four functions differ only in what
  they take.
\<close>

definition pop_front :: "'a ts_queue \<Rightarrow> ('a \<times> 'a ts_queue) option" where
  "pop_front q =
     (if m_deq q = [] then None else Some (hd (m_deq q), q\<lparr>m_deq := tl (m_deq q)\<rparr>))"

definition pop_back :: "'a ts_queue \<Rightarrow> ('a \<times> 'a ts_queue) option" where
  "pop_back q =
     (if m_deq q = [] then None else Some (last (m_deq q), q\<lparr>m_deq := butlast (m_deq q)\<rparr>))"

definition popk_front :: "int \<Rightarrow> 'a list \<Rightarrow> 'a ts_queue \<Rightarrow> (nat \<times> 'a list \<times> 'a ts_queue) option" where
  "popk_front k c q =
     (if m_deq q = [] then None
      else case popk_front_loop (nat k) (m_deq q) c of (d, c', real) \<Rightarrow> Some (real, c', q\<lparr>m_deq := d\<rparr>))"

definition popk_back :: "int \<Rightarrow> 'a list \<Rightarrow> 'a ts_queue \<Rightarrow> (nat \<times> 'a list \<times> 'a ts_queue) option" where
  "popk_back k c q =
     (if m_deq q = [] then None
      else case popk_back_loop (nat k) (m_deq q) c of (d, c', real) \<Rightarrow> Some (real, c', q\<lparr>m_deq := d\<rparr>))"

text \<open>
  Producers and consumers of one queue. A consumer inside \<open>pop_front\<close> is about to take the
  lock (\<open>Testing\<close>), in \<open>sem_wait\<close> (\<open>Waiting\<close>), or has returned with an element (\<open>Got\<close>). The
  fields \<open>pushed\<close> and \<open>taken\<close> record the history. The parameter of the relation bounds the
  number of elements handed to one \<open>pushk_back\<close>.
\<close>

datatype 'a consumer = Idle | Testing | Waiting | Got 'a

record 'a tsq_system =
  queue :: "'a ts_queue"
  consumers :: "'a consumer list"
  pushed :: "'a list"
  taken :: "'a list"

inductive tsq_step :: "nat \<Rightarrow> 'a tsq_system \<Rightarrow> 'a tsq_system \<Rightarrow> bool" for m where
  push: "tsq_step m S (S\<lparr>queue := push_back v (queue S), pushed := pushed S @ [v]\<rparr>)"
| pushk: "length c \<le> m \<Longrightarrow>
    tsq_step m S (S\<lparr>queue := snd (pushk_back c (queue S)), pushed := pushed S @ c\<rparr>)"
| enter: "i < length (consumers S) \<Longrightarrow> consumers S ! i = Idle \<Longrightarrow>
    tsq_step m S (S\<lparr>consumers := (consumers S)[i := Testing]\<rparr>)"
| sleep: "i < length (consumers S) \<Longrightarrow> consumers S ! i = Testing \<Longrightarrow> pop_front (queue S) = None \<Longrightarrow>
    tsq_step m S (S\<lparr>consumers := (consumers S)[i := Waiting]\<rparr>)"
| take: "i < length (consumers S) \<Longrightarrow> consumers S ! i = Testing \<Longrightarrow>
    pop_front (queue S) = Some (v, q') \<Longrightarrow>
    tsq_step m S (S\<lparr>queue := q', consumers := (consumers S)[i := Got v], taken := taken S @ [v]\<rparr>)"
| wake: "i < length (consumers S) \<Longrightarrow> consumers S ! i = Waiting \<Longrightarrow> 0 < m_nput (queue S) \<Longrightarrow>
    tsq_step m S (S\<lparr>queue := (queue S)\<lparr>m_nput := m_nput (queue S) - 1\<rparr>,
                    consumers := (consumers S)[i := Testing]\<rparr>)"
| leave: "i < length (consumers S) \<Longrightarrow> consumers S ! i = Got v \<Longrightarrow>
    tsq_step m S (S\<lparr>consumers := (consumers S)[i := Idle]\<rparr>)"

definition tsq_start :: "nat \<Rightarrow> 'a tsq_system" where
  "tsq_start n = \<lparr>queue = TSQueue (- 1), consumers = replicate n Idle, pushed = [], taken = []\<rparr>"

section \<open>\<open>NonbTSQueue\<close>\<close>

record 'a nonb_queue =
  nb_deq :: "'a list"

definition NonbTSQueue :: "'a nonb_queue" where
  "NonbTSQueue = \<lparr>nb_deq = []\<rparr>"

definition nb_try_popk_front :: "int \<Rightarrow> 'a list \<Rightarrow> 'a nonb_queue \<Rightarrow> bool \<times> 'a list \<times> 'a nonb_queue" where
  "nb_try_popk_front k c q =
     (if nb_deq q = [] then (False, c, q)
      else case popk_front_loop (nat k) (nb_deq q) c of (d, c', _) \<Rightarrow> (True, c', q\<lparr>nb_deq := d\<rparr>))"

definition nb_try_popk_back :: "int \<Rightarrow> 'a list \<Rightarrow> 'a nonb_queue \<Rightarrow> bool \<times> 'a list \<times> 'a nonb_queue" where
  "nb_try_popk_back k c q =
     (if nb_deq q = [] then (False, c, q)
      else case popk_back_loop (nat k) (nb_deq q) c of (d, c', _) \<Rightarrow> (True, c', q\<lparr>nb_deq := d\<rparr>))"

definition nb_try_pop_back :: "'a nonb_queue \<Rightarrow> 'a option \<times> 'a nonb_queue" where
  "nb_try_pop_back q =
     (if nb_deq q = [] then (None, q)
      else (Some (last (nb_deq q)), q\<lparr>nb_deq := butlast (nb_deq q)\<rparr>))"

definition nb_try_pop_front :: "'a nonb_queue \<Rightarrow> 'a option \<times> 'a nonb_queue" where
  "nb_try_pop_front q =
     (if nb_deq q = [] then (None, q)
      else (Some (hd (nb_deq q)), q\<lparr>nb_deq := tl (nb_deq q)\<rparr>))"

definition nb_pushk_front :: "'a list \<Rightarrow> 'a nonb_queue \<Rightarrow> 'a list \<times> 'a nonb_queue" where
  "nb_pushk_front c q = ([], q\<lparr>nb_deq := foldl (\<lambda>d v. v # d) (nb_deq q) c\<rparr>)"

definition nb_pushk_back :: "'a list \<Rightarrow> 'a nonb_queue \<Rightarrow> 'a list \<times> 'a nonb_queue" where
  "nb_pushk_back c q = ([], q\<lparr>nb_deq := foldl (\<lambda>d v. d @ [v]) (nb_deq q) c\<rparr>)"

definition nb_push_back :: "'a \<Rightarrow> 'a nonb_queue \<Rightarrow> 'a nonb_queue" where
  "nb_push_back v q = q\<lparr>nb_deq := nb_deq q @ [v]\<rparr>"

definition nb_push_front :: "'a \<Rightarrow> 'a nonb_queue \<Rightarrow> 'a nonb_queue" where
  "nb_push_front v q = q\<lparr>nb_deq := v # nb_deq q\<rparr>"

definition nb_empty :: "'a nonb_queue \<Rightarrow> bool" where
  "nb_empty q \<longleftrightarrow> nb_deq q = []"

definition nb_clear :: "'a nonb_queue \<Rightarrow> 'a nonb_queue" where
  "nb_clear q = q\<lparr>nb_deq := []\<rparr>"

text \<open>The return type of \<open>size\<close> is \<open>bool\<close>.\<close>

definition nb_size :: "'a nonb_queue \<Rightarrow> bool" where
  "nb_size q \<longleftrightarrow> length (nb_deq q) \<noteq> 0"

section \<open>The loops\<close>

lemma popk_front_loop_eq:
  "popk_front_loop k deq c = (drop k deq, c @ take k deq, min k (length deq))"
  by (induction k deq c rule: popk_front_loop.induct) simp_all

lemma popk_back_loop_eq:
  "popk_back_loop k deq c =
    (take (length deq - k) deq, c @ take k (rev deq), min k (length deq))"
proof (induction k arbitrary: deq c)
  case 0
  then show ?case by simp
next
  case (Suc k)
  show ?case
  proof (cases deq rule: rev_cases)
    case Nil
    then show ?thesis by simp
  next
    case (snoc ys y)
    then show ?thesis by (simp add: Suc)
  qed
qed

lemma foldl_cons_rev: "foldl (\<lambda>d v. v # d) d c = rev c @ d"
  by (induction c arbitrary: d) simp_all

lemma foldl_snoc: "foldl (\<lambda>d v. d @ [v]) d c = d @ c"
  by (induction c arbitrary: d) simp_all

lemmas deque_loops = popk_front_loop_eq popk_back_loop_eq foldl_cons_rev foldl_snoc

section \<open>The interface of a work deque\<close>

text \<open>
  What a client relies on: the contents seen as a list, and the effect of each operation on
  it. The client's lemmas are about bulk transfers between two queues, which is how work is
  stolen and rebalanced.
\<close>

locale work_deque =
  fixes deq :: "'q \<Rightarrow> 'a list"
    and pushb :: "'a \<Rightarrow> 'q \<Rightarrow> 'q"
    and popf :: "'q \<Rightarrow> 'a option \<times> 'q"
    and popkf :: "int \<Rightarrow> 'a list \<Rightarrow> 'q \<Rightarrow> bool \<times> 'a list \<times> 'q"
    and popkb :: "int \<Rightarrow> 'a list \<Rightarrow> 'q \<Rightarrow> bool \<times> 'a list \<times> 'q"
    and pushkb :: "'a list \<Rightarrow> 'q \<Rightarrow> 'a list \<times> 'q"
  assumes deq_pushb: "deq (pushb v q) = deq q @ [v]"
    and popf_Nil: "deq q = [] \<Longrightarrow> popf q = (None, q)"
    and popf_Cons: "deq q = v # vs \<Longrightarrow> fst (popf q) = Some v \<and> deq (snd (popf q)) = vs"
    and popkf_eq: "deq q \<noteq> [] \<Longrightarrow> fst (popkf k c q) \<and>
      fst (snd (popkf k c q)) = c @ take (nat k) (deq q) \<and>
      deq (snd (snd (popkf k c q))) = drop (nat k) (deq q)"
    and popkb_eq: "deq q \<noteq> [] \<Longrightarrow> fst (popkb k c q) \<and>
      fst (snd (popkb k c q)) = c @ take (nat k) (rev (deq q)) \<and>
      deq (snd (snd (popkb k c q))) = take (length (deq q) - nat k) (deq q)"
    and popk_Nil: "deq q = [] \<Longrightarrow> popkf k c q = (False, c, q) \<and> popkb k c q = (False, c, q)"
    and pushkb_eq: "fst (pushkb c q) = [] \<and> deq (snd (pushkb c q)) = deq q @ c"
begin

text \<open>Take up to \<open>k\<close> elements from the back of one queue and append them to another.\<close>

definition steal_back :: "int \<Rightarrow> 'q \<Rightarrow> 'q \<Rightarrow> 'q \<times> 'q" where
  "steal_back k src dst =
     (case popkb k [] src of (_, c, src') \<Rightarrow> (src', snd (pushkb c dst)))"

lemma steal_back_moves:
  assumes "steal_back k src dst = (src', dst')"
  shows "\<exists>c. deq src = deq src' @ rev c \<and> deq dst' = deq dst @ c \<and>
    length c = min (nat k) (length (deq src))"
proof -
  obtain b c s where p: "popkb k [] src = (b, c, s)" by (cases "popkb k [] src") auto
  then have e: "src' = s" "deq dst' = deq dst @ c"
    using assms pushkb_eq [of c dst] by (auto simp: steal_back_def)
  have "deq src = deq s @ rev c \<and> length c = min (nat k) (length (deq src))"
  proof (cases "deq src = []")
    case True
    then show ?thesis using p popk_Nil [of src k "[]"] by simp
  next
    case False
    let ?n = "length (deq src) - nat k"
    have c: "c = take (nat k) (rev (deq src))" and s: "deq s = take ?n (deq src)"
      using popkb_eq [OF False, of k "[]"] p by simp_all
    have "take ?n (deq src) @ rev (take (nat k) (rev (deq src))) = deq src" by (simp add: rev_take)
    then show ?thesis unfolding c s by (simp add: min.commute)
  qed
  with e show ?thesis by blast
qed

text \<open>What is pushed in bulk and fetched in bulk keeps its order.\<close>

lemma pushk_popk:
  assumes "deq q = []" "c \<noteq> []"
  shows "fst (snd (popkf k [] (snd (pushkb c q)))) = take (nat k) c"
proof -
  have "deq (snd (pushkb c q)) = c" using pushkb_eq [of c q] assms(1) by simp
  then show ?thesis using popkf_eq [of "snd (pushkb c q)" k "[]"] assms(2) by simp
qed

end

interpretation tsq: work_deque m_deq push_back try_pop_front try_popk_front try_popk_back pushk_back
  by unfold_locales
     (auto simp: push_back_def try_pop_front_def try_popk_front_def try_popk_back_def pushk_back_def
       deque_loops)

interpretation nbq: work_deque nb_deq nb_push_back nb_try_pop_front nb_try_popk_front nb_try_popk_back
    nb_pushk_back
  by unfold_locales
     (auto simp: nb_push_back_def nb_try_pop_front_def nb_try_popk_front_def nb_try_popk_back_def
       nb_pushk_back_def deque_loops)

section \<open>Producers and consumers\<close>

lemma count_list_update:
  "i < length xs \<Longrightarrow> count_list (xs[i := y]) z + (if xs ! i = z then 1 else 0) =
    count_list xs z + (if y = z then 1 else 0)"
proof (induction xs arbitrary: i)
  case Nil
  then show ?case by simp
next
  case (Cons x xs)
  show ?case
  proof (cases i)
    case 0
    then show ?thesis by simp
  next
    case (Suc k)
    then show ?thesis using Cons.IH [of k] Cons.prems by (auto split: if_splits)
  qed
qed

text \<open>
  Single pushes keep a token or a consumer about to look for every element in the queue.
\<close>

definition tokens_ok :: "'a tsq_system \<Rightarrow> bool" where
  "tokens_ok S \<longleftrightarrow>
     length (m_deq (queue S)) \<le> m_nput (queue S) + count_list (consumers S) Testing"

lemma tokens_ok_step:
  assumes "tsq_step m S T" "m \<le> 1" "tokens_ok S"
  shows "tokens_ok T"
  using assms
proof cases
  case (take i v q')
  then show ?thesis
    using assms(3) count_list_update [of i "consumers S" "Got v" Testing]
    by (auto simp: tokens_ok_def pop_front_def split: if_splits)
next
  case (wake i)
  then show ?thesis
    using assms(3) count_list_update [of i "consumers S" Testing Testing]
    by (auto simp: tokens_ok_def)
next
  case (enter i)
  then show ?thesis
    using assms(3) count_list_update [of i "consumers S" Testing Testing]
    by (auto simp: tokens_ok_def)
next
  case (leave i v)
  then show ?thesis
    using assms(3) count_list_update [of i "consumers S" Idle Testing]
    by (auto simp: tokens_ok_def)
qed (auto simp: tokens_ok_def pop_front_def push_back_def pushk_back_def foldl_snoc split: if_splits)

lemma fifo_step:
  "tsq_step m S T \<Longrightarrow> pushed S = taken S @ m_deq (queue S) \<Longrightarrow> pushed T = taken T @ m_deq (queue T)"
  by (induction rule: tsq_step.induct)
     (auto simp: push_back_def pushk_back_def foldl_snoc pop_front_def split: if_splits)

text \<open>
  C25. First in, first out, for any interleaving of producers and consumers: the elements
  delivered so far followed by the elements still queued are the elements pushed, in the
  order of the pushes. Nothing is lost or delivered twice.
\<close>

theorem tsq_fifo:
  assumes "(tsq_step m)\<^sup>*\<^sup>* (tsq_start n) S"
  shows "pushed S = taken S @ m_deq (queue S)"
  using assms
  by (induction rule: rtranclp_induct) (auto simp: tsq_start_def TSQueue_def dest: fifo_step)

lemma run_fifo_example:
  "(tsq_step 0)\<^sup>*\<^sup>* (tsq_start 1)
     \<lparr>queue = \<lparr>m_deq = [], m_nput = 1, m_limit = - 1\<rparr>, consumers = [Got (5::nat)], pushed = [5], taken = [5]\<rparr>"
proof -
  let ?q = "\<lparr>m_deq = [5::nat], m_nput = 1, m_limit = - 1\<rparr>"
  let ?S1 = "\<lparr>queue = ?q, consumers = [Idle], pushed = [5], taken = []\<rparr>"
  let ?S2 = "\<lparr>queue = ?q, consumers = [Testing], pushed = [5], taken = []\<rparr>"
  have "tsq_step 0 (tsq_start 1) ?S1"
    using tsq_step.push [of 0 "tsq_start 1" 5] by (simp add: tsq_start_def push_back_def TSQueue_def)
  moreover have "tsq_step 0 ?S1 ?S2"
    using tsq_step.enter [of 0 ?S1 0] by simp
  moreover have "tsq_step 0 ?S2 \<lparr>queue = \<lparr>m_deq = [], m_nput = 1, m_limit = - 1\<rparr>,
      consumers = [Got 5], pushed = [5], taken = [5]\<rparr>"
    using tsq_step.take [of 0 ?S2 5 "?q\<lparr>m_deq := []\<rparr>" 0] by (simp add: pop_front_def)
  ultimately show ?thesis by (meson converse_rtranclp_into_rtranclp r_into_rtranclp)
qed

theorem tsq_fifo_witness:
  "pushed \<lparr>queue = \<lparr>m_deq = [], m_nput = 1, m_limit = - 1\<rparr>, consumers = [Got (5::nat)], pushed = [5], taken = [5]\<rparr> = [5]"
  using tsq_fifo [OF run_fifo_example] by simp

text \<open>
  No wake-up is lost while elements are pushed one at a time: in every reachable state in
  which no consumer is about to look at the queue and no token is left, the queue is empty,
  so a consumer asleep in \<open>pop_front\<close> has nothing to take.
\<close>

theorem tsq_no_lost_wakeup:
  assumes "(tsq_step m)\<^sup>*\<^sup>* (tsq_start n) S" "m \<le> 1"
    and "Testing \<notin> set (consumers S)" "m_nput (queue S) = 0"
  shows "m_deq (queue S) = []"
proof -
  have "tokens_ok (tsq_start n :: 'a tsq_system)"
    by (simp add: tokens_ok_def tsq_start_def TSQueue_def)
  with assms(1) have "tokens_ok S"
    by (induction rule: rtranclp_induct) (use assms(2) tokens_ok_step in blast)+
  with assms(3,4) show ?thesis by (simp add: tokens_ok_def count_list_0_iff)
qed

lemma run_sleep:
  assumes "i < length (consumers S)" "consumers S ! i = Idle" "m_deq (queue S) = []"
  shows "(tsq_step m)\<^sup>*\<^sup>* S (S\<lparr>consumers := (consumers S)[i := Waiting]\<rparr>)"
proof -
  let ?T = "S\<lparr>consumers := (consumers S)[i := Testing]\<rparr>"
  have "tsq_step m S ?T" using assms by (intro tsq_step.enter)
  moreover have "tsq_step m ?T (S\<lparr>consumers := (consumers S)[i := Waiting]\<rparr>)"
    using tsq_step.sleep [of i ?T m] assms by (simp add: pop_front_def)
  ultimately show ?thesis by (meson converse_rtranclp_into_rtranclp r_into_rtranclp)
qed

theorem tsq_no_lost_wakeup_witness:
  "m_deq (queue ((tsq_start 1 :: nat tsq_system)\<lparr>consumers := [Waiting]\<rparr>)) = []"
proof (rule tsq_no_lost_wakeup)
  show "(tsq_step 1)\<^sup>*\<^sup>* (tsq_start 1) ((tsq_start 1 :: nat tsq_system)\<lparr>consumers := [Waiting]\<rparr>)"
    using run_sleep [of 0 "tsq_start 1 :: nat tsq_system" 1] by (simp add: tsq_start_def TSQueue_def)
qed (simp_all add: tsq_start_def TSQueue_def)

text \<open>
  A bulk push posts the semaphore once for all its elements, so a wake-up can be lost:
  with two consumers asleep, pushing two elements with \<open>pushk_back\<close> lets one consumer take the
  first element while the other stays asleep although the queue still holds the second one
  and no token or active consumer is left to wake it.
\<close>

theorem pushk_lost_wakeup:
  "\<exists>S. (tsq_step 2)\<^sup>*\<^sup>* (tsq_start 2) S \<and> consumers S = [Got a, Waiting] \<and>
     m_nput (queue S) = 0 \<and> m_deq (queue S) = [b]"
proof -
  let ?s = "tsq_start 2 :: 'a tsq_system"
  let ?W = "?s\<lparr>consumers := [Waiting, Waiting]\<rparr>"
  let ?P = "?W\<lparr>queue := snd (pushk_back [a, b] (queue ?W)), pushed := [a, b]\<rparr>"
  let ?K = "?P\<lparr>queue := (queue ?P)\<lparr>m_nput := 0\<rparr>, consumers := [Testing, Waiting]\<rparr>"
  let ?T = "?K\<lparr>queue := (queue ?K)\<lparr>m_deq := [b]\<rparr>, consumers := [Got a, Waiting], taken := [a]\<rparr>"
  have s: "consumers ?s = [Idle, Idle]" "m_deq (queue ?s) = []" "pushed ?s = []" "taken ?s = []"
    "m_nput (queue ?s) = 0"
    by (simp_all add: tsq_start_def TSQueue_def numeral_2_eq_2)
  have "(tsq_step 2)\<^sup>*\<^sup>* ?s (?s\<lparr>consumers := [Waiting, Idle]\<rparr>)"
    using run_sleep [of 0 ?s 2] s by simp
  moreover have "(tsq_step 2)\<^sup>*\<^sup>* (?s\<lparr>consumers := [Waiting, Idle]\<rparr>) ?W"
    using run_sleep [of 1 "?s\<lparr>consumers := [Waiting, Idle]\<rparr>" 2] s by simp
  moreover have "tsq_step 2 ?W ?P"
    using tsq_step.pushk [of "[a, b]" 2 ?W] s by simp
  moreover have "tsq_step 2 ?P ?K"
    using tsq_step.wake [of 0 ?P 2] s by (simp add: pushk_back_def)
  moreover have "tsq_step 2 ?K ?T"
    using tsq_step.take [of 0 ?K a "(queue ?K)\<lparr>m_deq := [b]\<rparr>" 2] s by (simp add: pushk_back_def pop_front_def)
  ultimately have "(tsq_step 2)\<^sup>*\<^sup>* ?s ?T"
    by (meson rtranclp.rtrancl_into_rtrancl rtranclp_trans)
  then show ?thesis by (intro exI [of _ ?T]) (simp add: pushk_back_def)
qed

text \<open>
  \<open>pushk_front\<close> reverses the pushed list in front of the queue and \<open>try_popk_back\<close> takes
  from the back in reverse order, for both queue classes; the caller's list is emptied, and
  a pop on an empty queue changes nothing and reports failure.
\<close>

theorem bulk_order:
  "nb_deq (snd (nb_pushk_front c q)) = rev c @ nb_deq q \<and>
   m_deq (snd (pushk_front c p)) = rev c @ m_deq p \<and>
   nb_try_popk_back k d q = (if nb_deq q = [] then (False, d, q)
     else (True, d @ take (nat k) (rev (nb_deq q)),
           q\<lparr>nb_deq := take (length (nb_deq q) - nat k) (nb_deq q)\<rparr>)) \<and>
   try_popk_back k d p = (if m_deq p = [] then (False, d, p)
     else (True, d @ take (nat k) (rev (m_deq p)),
           p\<lparr>m_deq := take (length (m_deq p) - nat k) (m_deq p)\<rparr>))"
  by (simp add: nb_pushk_front_def pushk_front_def nb_try_popk_back_def try_popk_back_def deque_loops)

end
