(* ===== verification/Work_Queue.thy ===== *)
theory Work_Queue
  imports Zy_Prelude
begin

text \<open>
  The priority queue of runnable fibers (\<open>src/src/scheduler/WorkQueue.hpp\<close>) with its default
  number of levels. A \<open>Fiber::ptr\<close> is an optional fiber, \<open>None\<close> for the null pointer; the
  queues hold non-null pointers only, which the operations check before they push. All
  operations run under the queue's mutex.
\<close>

section \<open>Priorities\<close>

datatype Priority = LOW | NORMAL | EMERG | NONE

fun prio_index :: "Priority \<Rightarrow> nat" where
  "prio_index LOW = 0"
| "prio_index NORMAL = 1"
| "prio_index EMERG = 2"
| "prio_index NONE = 3"

instantiation Priority :: linorder
begin

definition less_eq_Priority :: "Priority \<Rightarrow> Priority \<Rightarrow> bool" where
  "p \<le> q \<longleftrightarrow> prio_index p \<le> prio_index q"

definition less_Priority :: "Priority \<Rightarrow> Priority \<Rightarrow> bool" where
  "p < q \<longleftrightarrow> prio_index p < prio_index q"

instance
proof
  fix p q :: Priority
  show "p \<le> q \<Longrightarrow> q \<le> p \<Longrightarrow> p = q"
    by (cases p; cases q) (simp_all add: less_eq_Priority_def)
qed (auto simp: less_eq_Priority_def less_Priority_def)

end

definition LEVEL :: nat where
  "LEVEL = 3"

text \<open>The cast \<open>(Priority)i\<close> of a level.\<close>

definition prio_of :: "nat \<Rightarrow> Priority" where
  "prio_of i = (if i = 0 then LOW else if i = 1 then NORMAL else if i = 2 then EMERG else NONE)"

definition getPriorityName :: "Priority \<Rightarrow> string" where
  "getPriorityName prio =
     (if prio = LOW then ''LOW'' else if prio = NORMAL then ''NORMAL''
      else if prio = EMERG then ''EMERG'' else ''NONE'')"

section \<open>State and operations\<close>

text \<open>\<open>((size_t)-1)\<close>\<close>

definition NO_LIMIT :: nat where
  "NO_LIMIT = 2 ^ 64 - 1"

record 'f work_queue =
  m_limit :: nat
  m_queue :: "'f list list"

definition WorkQueue :: "nat \<Rightarrow> 'f work_queue" where
  "WorkQueue limit = \<lparr>m_limit = limit, m_queue = replicate LEVEL []\<rparr>"

text \<open>\<open>m_queue[prio]\<close>, and its update.\<close>

abbreviation lane :: "Priority \<Rightarrow> 'f work_queue \<Rightarrow> 'f list" where
  "lane prio q \<equiv> m_queue q ! prio_index prio"

abbreviation set_lane :: "Priority \<Rightarrow> 'f list \<Rightarrow> 'f work_queue \<Rightarrow> 'f work_queue" where
  "set_lane prio l q \<equiv> q\<lparr>m_queue := (m_queue q)[prio_index prio := l]\<rparr>"

text \<open>What the destructor asserts.\<close>

definition destroyable :: "'f work_queue \<Rightarrow> bool" where
  "destroyable q \<longleftrightarrow> (\<forall>i < LEVEL. m_queue q ! i = [])"

definition isLimited :: "'f work_queue \<Rightarrow> bool" where
  "isLimited q \<longleftrightarrow> m_limit q \<noteq> NO_LIMIT"

definition getLimit :: "'f work_queue \<Rightarrow> nat" where
  "getLimit q = m_limit q"

definition sizeRelax :: "Priority \<Rightarrow> 'f work_queue \<Rightarrow> nat" where
  "sizeRelax prio q = (if LEVEL \<le> prio_index prio then NO_LIMIT else length (lane prio q))"

definition sizeStrong :: "Priority \<Rightarrow> 'f work_queue \<Rightarrow> nat" where
  "sizeStrong prio q = sizeRelax prio q"

definition emptyRelax :: "'f work_queue \<Rightarrow> bool" where
  "emptyRelax q = list_all (\<lambda>i. m_queue q ! i = []) [0..<LEVEL]"

definition emptyStrong :: "'f work_queue \<Rightarrow> bool" where
  "emptyStrong q = emptyRelax q"

definition addFiber :: "'f option \<Rightarrow> Priority \<Rightarrow> 'f work_queue \<Rightarrow> bool \<times> 'f work_queue" where
  "addFiber fiber prio q =
     (case fiber of
        None \<Rightarrow> (False, q)
      | Some f \<Rightarrow>
          if NONE \<le> prio then (False, q)
          else if isLimited q \<and> m_limit q < length (lane prio q) + 1 then (False, q)
          else (True, set_lane prio (lane prio q @ [f]) q))"

text \<open>
  The first loop of \<open>addFibers\<close>: push until the input ends or the counter, decremented
  before the test, reaches zero. The iterator is left on the element just pushed when the
  loop breaks. The result is the lane, the number pushed, and what the iterator still
  ranges over.
\<close>

fun push_loop :: "nat \<Rightarrow> 'f option list \<Rightarrow> 'f list \<Rightarrow> nat \<Rightarrow> 'f list \<times> nat \<times> 'f option list" where
  "push_loop nFiber [] l res = (l, res, [])"
| "push_loop nFiber (None # fs) l res = push_loop nFiber fs l res"
| "push_loop nFiber (Some f # fs) l res =
     (let n = (if nFiber = 0 then NO_LIMIT else nFiber - 1)
      in if n = 0 then (l @ [f], Suc res, Some f # fs)
         else push_loop n fs (l @ [f]) (Suc res))"

fun left_loop :: "'f option list \<Rightarrow> 'f list \<Rightarrow> 'f list" where
  "left_loop [] left = left"
| "left_loop (None # fs) left = left_loop fs left"
| "left_loop (Some f # fs) left = left_loop fs (left @ [f])"

definition addFibers ::
  "'f option list \<Rightarrow> 'f list \<Rightarrow> Priority \<Rightarrow> 'f work_queue \<Rightarrow> nat \<times> 'f list \<times> 'f work_queue" where
  "addFibers fibers left prio q =
     (if NONE \<le> prio \<or> fibers = [] then (0, left, q)
      else
        let nFiber = (if isLimited q
                      then min (length fibers) (usub (m_limit q) (length (lane prio q)))
                      else length fibers)
        in case push_loop nFiber fibers (lane prio q) 0 of
             (l, res, it) \<Rightarrow> (res, left_loop it left, set_lane prio l q))"

text \<open>\<open>fetchFiber\<close> scans the levels upwards, so \<open>LOW\<close> comes first.\<close>

fun fetch_loop :: "nat list \<Rightarrow> 'f work_queue \<Rightarrow> Priority \<times> 'f option \<times> 'f work_queue" where
  "fetch_loop [] q = (NONE, None, q)"
| "fetch_loop (i # is) q =
     (case m_queue q ! i of
        [] \<Rightarrow> fetch_loop is q
      | f # fs \<Rightarrow> (prio_of i, Some f, q\<lparr>m_queue := (m_queue q)[i := fs]\<rparr>))"

definition fetchFiber :: "'f work_queue \<Rightarrow> Priority \<times> 'f option \<times> 'f work_queue" where
  "fetchFiber q = fetch_loop [0..<LEVEL] q"

definition fetchFiberPrio :: "Priority \<Rightarrow> 'f work_queue \<Rightarrow> 'f option \<times> 'f work_queue" where
  "fetchFiberPrio prio q =
     (if NONE \<le> prio then (None, q)
      else case lane prio q of
             [] \<Rightarrow> (None, q)
           | f # fs \<Rightarrow> (Some f, set_lane prio fs q))"

fun fetchk_loop :: "nat \<Rightarrow> 'f list \<Rightarrow> 'f list \<Rightarrow> nat \<Rightarrow> 'f list \<times> 'f list \<times> nat" where
  "fetchk_loop nr [] out res = ([], out, res)"
| "fetchk_loop nr (f # l) out res =
     (if nr = 0 then (f # l, out, res) else fetchk_loop (nr - 1) l (out @ [f]) (Suc res))"

definition fetchFibers ::
  "nat \<Rightarrow> 'f list \<Rightarrow> Priority \<Rightarrow> 'f work_queue \<Rightarrow> nat \<times> 'f list \<times> 'f work_queue" where
  "fetchFibers nr fibers prio q =
     (if NONE \<le> prio then (0, fibers, q)
      else case fetchk_loop nr (lane prio q) fibers 0 of
             (l, out, res) \<Rightarrow> (res, out, set_lane prio l q))"

section \<open>Invariant\<close>

text \<open>There are \<open>LEVEL\<close> lanes, and a limited queue keeps each within the limit.\<close>

definition wq_ok :: "'f work_queue \<Rightarrow> bool" where
  "wq_ok q \<longleftrightarrow> length (m_queue q) = LEVEL \<and>
     (isLimited q \<longrightarrow> (\<forall>l \<in> set (m_queue q). length l \<le> m_limit q))"

lemma not_NONE_le: "\<not> NONE \<le> prio \<longleftrightarrow> prio_index prio < LEVEL"
  by (cases prio) (simp_all add: less_eq_Priority_def LEVEL_def)

lemma upt_LEVEL: "[0..<LEVEL] = [0, 1, 2]"
  by (simp add: LEVEL_def upt_rec)

lemma fetchk_loop_eq:
  "fetchk_loop nr l out res = (drop nr l, out @ take nr l, res + min nr (length l))"
proof (induction l arbitrary: nr out res)
  case Nil
  then show ?case by simp
next
  case (Cons f l)
  then show ?case by (cases nr) simp_all
qed

text \<open>The non-null pointers of a list.\<close>

definition live :: "'f option list \<Rightarrow> 'f list" where
  "live fs = concat (map (\<lambda>p. case p of None \<Rightarrow> [] | Some f \<Rightarrow> [f]) fs)"

lemma live_simps [simp]:
  "live [] = []" "live (None # fs) = live fs" "live (Some f # fs) = f # live fs"
  by (simp_all add: live_def)

lemma left_loop_eq: "left_loop fs left = left @ live fs"
  by (induction fs left rule: left_loop.induct) simp_all

text \<open>
  The first loop of \<open>addFibers\<close> on a counter that is not zero, and on a counter of zero,
  which the first decrement turns into \<open>NO_LIMIT\<close>.
\<close>

lemma push_loop_eq:
  assumes "0 < n"
  shows "\<exists>it. push_loop n fs l res =
      (l @ take n (live fs), res + min n (length (live fs)), it) \<and> live it = drop (n - 1) (live fs)"
  using assms
proof (induction n fs l res rule: push_loop.induct)
  case (3 n f fs l res)
  show ?case
  proof (cases "n = 1")
    case False
    then obtain k where k: "n = Suc (Suc k)" using 3(2) by (metis One_nat_def gr0_conv_Suc not_gr0)
    with 3(1) [OF refl] show ?thesis by (simp add: Let_def)
  qed simp
qed simp_all

lemma push_loop_zero:
  assumes "length (live fs) < NO_LIMIT"
  shows "push_loop 0 fs l res = (l @ live fs, res + length (live fs), [])"
proof -
  have all: "push_loop n fs l res = (l @ live fs, res + length (live fs), [])"
    if "length (live fs) < n" for n fs and l :: "'a list" and res
    using that
  proof (induction n fs l res rule: push_loop.induct)
    case (3 n f fs l res)
    then show ?case by (simp add: Let_def)
  qed simp_all
  show ?thesis
    using assms
  proof (induction fs)
    case (Cons x fs)
    then show ?case
      by (cases x) (use all [of fs NO_LIMIT] in \<open>simp_all add: Let_def NO_LIMIT_def\<close>)
  qed simp
qed

section \<open>A work queue as one list\<close>

text \<open>
  What the processer relies on: a queue of fibers with the items in fetching order. The
  client's lemma: a queue filled item by item and drained gives the items back in order.
\<close>

locale fiber_fifo =
  fixes ok :: "'q \<Rightarrow> bool"
    and items :: "'q \<Rightarrow> 'f list"
    and put :: "'f \<Rightarrow> 'q \<Rightarrow> 'q"
    and get :: "'q \<Rightarrow> 'f option \<times> 'q"
  assumes put_ok: "ok q \<Longrightarrow> ok (put f q) \<and> items (put f q) = items q @ [f]"
    and get_Nil: "ok q \<Longrightarrow> items q = [] \<Longrightarrow> get q = (None, q)"
    and get_Cons: "ok q \<Longrightarrow> items q = f # fs \<Longrightarrow>
      fst (get q) = Some f \<and> ok (snd (get q)) \<and> items (snd (get q)) = fs"
begin

lemma put_all: "ok q \<Longrightarrow> ok (fold put fs q) \<and> items (fold put fs q) = items q @ fs"
  by (induction fs arbitrary: q) (simp_all add: put_ok)

fun drain :: "nat \<Rightarrow> 'q \<Rightarrow> 'f list" where
  "drain 0 q = []"
| "drain (Suc n) q = (case get q of (None, _) \<Rightarrow> [] | (Some f, q') \<Rightarrow> f # drain n q')"

lemma drain_items: "ok q \<Longrightarrow> drain n q = take n (items q)"
proof (induction n arbitrary: q)
  case 0
  then show ?case by simp
next
  case (Suc n)
  show ?case
  proof (cases "items q")
    case Nil
    then show ?thesis using get_Nil [OF Suc.prems] by simp
  next
    case (Cons f fs)
    then have g: "fst (get q) = Some f" "ok (snd (get q))" "items (snd (get q)) = fs"
      using get_Cons [OF Suc.prems] by simp_all
    then show ?thesis using Suc.IH [OF g(2)] Cons by (cases "get q") simp
  qed
qed

end

text \<open>
  The processer's queue: unlimited, and only ever filled at \<open>NORMAL\<close> priority.
\<close>

definition wq_normal :: "'f work_queue \<Rightarrow> bool" where
  "wq_normal q \<longleftrightarrow> \<not> isLimited q \<and> (\<exists>l. m_queue q = [[], l, []])"

definition wq_put :: "'f \<Rightarrow> 'f work_queue \<Rightarrow> 'f work_queue" where
  "wq_put f q = snd (addFiber (Some f) NORMAL q)"

definition wq_get :: "'f work_queue \<Rightarrow> 'f option \<times> 'f work_queue" where
  "wq_get q = snd (fetchFiber q)"

interpretation wq: fiber_fifo wq_normal "lane NORMAL" wq_put wq_get
  by unfold_locales
     (auto simp: wq_normal_def wq_put_def wq_get_def addFiber_def isLimited_def fetchFiber_def
       upt_LEVEL less_eq_Priority_def)

section \<open>Properties\<close>

lemma wq_ok_set_lane:
  assumes "wq_ok q" "isLimited q \<longrightarrow> length l \<le> m_limit q"
  shows "wq_ok (q\<lparr>m_queue := (m_queue q)[i := l]\<rparr>)"
  using assms set_update_subset_insert [of "m_queue q" i l]
  by (fastforce simp: wq_ok_def isLimited_def)

lemma wq_ok_lane:
  "wq_ok q \<Longrightarrow> i < LEVEL \<Longrightarrow> isLimited q \<Longrightarrow> length (m_queue q ! i) \<le> m_limit q"
  by (simp add: wq_ok_def)

lemma wq_ok_fetch_loop:
  "wq_ok q \<Longrightarrow> \<forall>i \<in> set is. i < LEVEL \<Longrightarrow> wq_ok (snd (snd (fetch_loop is q)))"
proof (induction "is" q rule: fetch_loop.induct)
  case (2 i "is" q)
  then show ?case
    using wq_ok_lane [of q i] by (auto intro!: wq_ok_set_lane split: list.splits)
qed simp

text \<open>
  The lanes of a limited queue never grow beyond the limit under \<open>addFiber\<close> and the three
  fetching operations, and an add that would exceed it reports failure and changes nothing.
\<close>

theorem work_queue_within_limit:
  assumes "wq_ok q"
  shows "wq_ok (snd (addFiber fiber prio q)) \<and> wq_ok (snd (snd (fetchFiber q))) \<and>
    wq_ok (snd (fetchFiberPrio prio q)) \<and> wq_ok (snd (snd (fetchFibers nr out prio q))) \<and>
    (\<not> fst (addFiber fiber prio q) \<longrightarrow> snd (addFiber fiber prio q) = q)"
proof -
  have len: "length (lane prio q) \<le> m_limit q" if "\<not> NONE \<le> prio" "isLimited q"
    using that wq_ok_lane [OF assms] by (simp add: not_NONE_le)
  have "wq_ok (snd (addFiber fiber prio q))"
    using assms len by (auto simp: addFiber_def intro!: wq_ok_set_lane split: option.split)
  moreover have "wq_ok (snd (snd (fetchFiber q)))"
    using wq_ok_fetch_loop [OF assms] by (simp add: fetchFiber_def)
  moreover have "wq_ok (snd (fetchFiberPrio prio q))"
    using assms len by (auto simp: fetchFiberPrio_def intro!: wq_ok_set_lane split: list.split)
  moreover have "wq_ok (snd (snd (fetchFibers nr out prio q)))"
    using assms len by (auto simp: fetchFibers_def fetchk_loop_eq intro!: wq_ok_set_lane)
  ultimately show ?thesis by (auto simp: addFiber_def split: option.split)
qed

theorem work_queue_within_limit_witness:
  "wq_ok (snd (addFiber (Some (7::nat)) EMERG (WorkQueue 1))) \<and> wq_ok (WorkQueue 1 :: nat work_queue)"
  using work_queue_within_limit [of "WorkQueue 1 :: nat work_queue" "Some 7" EMERG]
  by (simp add: wq_ok_def WorkQueue_def)

text \<open>
  C26. Fetching serves the lanes as one list in the order \<open>LOW\<close>, \<open>NORMAL\<close>, \<open>EMERG\<close>: the fiber
  returned is the head of their concatenation, the rest stays queued in order, and \<open>NONE\<close>
  is returned, with the queue unchanged, exactly when \<open>emptyRelax\<close> holds. In particular an
  \<open>EMERG\<close> fiber waits for every \<open>LOW\<close> and \<open>NORMAL\<close> one.
\<close>

theorem fetchFiber_serves_concat:
  assumes "length (m_queue q) = LEVEL" "fetchFiber q = (p, fiber, q')"
  shows "concat (m_queue q) = (case fiber of None \<Rightarrow> [] | Some f \<Rightarrow> [f]) @ concat (m_queue q') \<and>
    (p = NONE \<longleftrightarrow> emptyRelax q) \<and> (p = NONE \<longrightarrow> fiber = None \<and> q' = q) \<and>
    (p \<noteq> NONE \<longrightarrow> (\<exists>f. fiber = Some f \<and> lane p q = f # lane p q') \<and> (\<forall>r < p. lane r q = []))"
proof -
  obtain n a b c where q: "q = \<lparr>m_limit = n, m_queue = [a, b, c]\<rparr>"
    using assms(1) by (cases q) (auto simp: LEVEL_def numeral_3_eq_3 length_Suc_conv)
  have lt: "(r < LOW) = False" "(r < NORMAL) = (r = LOW)" "(r < EMERG) = (r = LOW \<or> r = NORMAL)" for r
    by (cases r; simp add: less_Priority_def)+
  show ?thesis
    using assms(2)
    by (cases a; cases b; cases c) (auto simp: fetchFiber_def upt_LEVEL q emptyRelax_def prio_of_def lt)
qed

theorem fetchFiber_serves_concat_witness:
  "concat (m_queue \<lparr>m_limit = 9, m_queue = [[], [], [4 :: nat]]\<rparr>) = [4]"
  using fetchFiber_serves_concat
    [of "\<lparr>m_limit = 9, m_queue = [[], [], [4 :: nat]]\<rparr>" EMERG "Some 4" "\<lparr>m_limit = 9, m_queue = [[], [], []]\<rparr>"]
  by (simp add: LEVEL_def fetchFiber_def upt_rec prio_of_def)

text \<open>
  What \<open>addFibers\<close> does at the limit of a lane. With \<open>room\<close> places left it pushes the
  first \<open>room\<close> fibers, but the list of fibers left over starts with the last one it pushed,
  which is therefore both queued and handed back. With no room left the counter wraps around
  and every fiber is pushed past the limit.
\<close>

theorem addFibers_at_limit:
  assumes "prio \<noteq> NONE" "length (m_queue q) = LEVEL" "isLimited q"
    and "length (lane prio q) + room = m_limit q" "room < length (live fibers)"
    and "length fibers < NO_LIMIT" "live fibers = fibers'"
  shows "\<exists>q'. addFibers fibers left prio q =
      (if room = 0 then (length fibers', left, q') else (room, left @ drop (room - 1) fibers', q')) \<and>
    lane prio q' = lane prio q @ (if room = 0 then fibers' else take room fibers')"
proof -
  have ix: "prio_index prio < length (m_queue q)" and nn: "\<not> NONE \<le> prio"
    using assms(1,2) by (cases prio; simp add: LEVEL_def less_eq_Priority_def)+
  have le: "length (live fibers) \<le> length fibers"
  proof (induction fibers)
    case (Cons x xs)
    then show ?case by (cases x) simp_all
  qed simp
  then have ne: "fibers \<noteq> []" using assms(5) by auto
  have n: "min (length fibers) (usub (m_limit q) (length (lane prio q))) = room"
    using assms(4,5) le by simp
  show ?thesis
  proof (cases "room = 0")
    case True
    then show ?thesis
      using n nn ne ix assms(3,6,7) le push_loop_zero [of fibers "lane prio q" 0]
      by (simp add: addFibers_def)
  next
    case False
    then obtain it where "push_loop room fibers (lane prio q) 0 =
        (lane prio q @ take room fibers', room, it)" "live it = drop (room - 1) fibers'"
      using push_loop_eq [of room fibers "lane prio q" 0] assms(5,7) by auto
    then show ?thesis
      using False n nn ne ix assms(3) by (simp add: addFibers_def left_loop_eq)
  qed
qed

theorem addFibers_at_limit_witness:
  "\<exists>q'. addFibers [Some 1, Some 2, Some (3::nat)] [] NORMAL (WorkQueue 2) = (2, [2, 3], q') \<and>
    lane NORMAL q' = [1, 2]"
  using addFibers_at_limit [of NORMAL "WorkQueue 2" 2 "[Some 1, Some 2, Some (3::nat)]" "[1, 2, 3]" "[]"]
  by (simp add: WorkQueue_def LEVEL_def isLimited_def NO_LIMIT_def)

end
