(* ===== verification/Fiber.thy ===== *)
theory Fiber
  imports Zy_Prelude
begin

text \<open>
  Fibers (\<open>src/src/concurrent/fiber.hpp\<close>, \<open>fiber.cpp\<close>): the state machine of a fiber and the
  star-shaped switching between the fibers of one thread and its main fiber. Fibers live in
  a store indexed by address; \<open>jump_fcontext\<close>, which is assembly, transfers control, and the
  field \<open>control\<close> names the fiber whose code the thread executes. Where the code allocates a
  fiber, the address is an argument. A failed \<open>ASSERT\<close> is an error outcome.
\<close>

section \<open>State\<close>

datatype State = INIT | READY | HOLD | EXEC | TERM_state | EXCEPT

definition getStateName :: "State \<Rightarrow> string" where
  "getStateName S =
     (if S = INIT then ''INIT'' else if S = READY then ''READY'' else if S = HOLD then ''HOLD''
      else if S = EXEC then ''EXEC'' else if S = TERM_state then ''TERM'' else ''EXCEPT'')"

record fiber =
  f_cb :: bool \<comment> \<open>\<open>_cb\<close> is set\<close>
  f_fid :: u32
  f_state :: State
  f_stack :: bool \<comment> \<open>\<open>_stack\<close> is not null\<close>
  f_main :: bool
  f_stackSize :: nat
  f_pagesProtect :: nat

datatype fb_error = FiberAssert | NoMainFiber

record fiber_sys =
  fib :: "nat \<Rightarrow> fiber"
  this_fiber :: "nat option"
  main_fiber :: "nat option"
  fiber_id :: u32
  control :: "nat option" \<comment> \<open>\<open>None\<close>: a thread that has no main fiber yet\<close>

type_synonym 'a fs = "(fiber_sys, fb_error, 'a) st_exn"

definition setThis :: "nat option \<Rightarrow> fiber_sys \<Rightarrow> fiber_sys" where
  "setThis f s = s\<lparr>this_fiber := f\<rparr>"

definition set_state :: "nat \<Rightarrow> State \<Rightarrow> fiber_sys \<Rightarrow> fiber_sys" where
  "set_state a st s = s\<lparr>fib := (fib s)(a := (fib s a)\<lparr>f_state := st\<rparr>)\<rparr>"

section \<open>Construction\<close>

text \<open>\<open>Fiber::Fiber()\<close>, the main fiber of a thread, at address \<open>a\<close>.\<close>

definition Fiber_main :: "nat \<Rightarrow> fiber_sys \<Rightarrow> fiber_sys" where
  "Fiber_main a s =
     setThis (Some a)
       (s\<lparr>fib := (fib s)(a := \<lparr>f_cb = False, f_fid = 0, f_state = EXEC, f_stack = False, f_main = True,
                               f_stackSize = 0, f_pagesProtect = 0\<rparr>)\<rparr>)"

text \<open>
  \<open>Fiber::Fiber(cb, size)\<close>: \<open>dflt\<close> is the configured stack size, \<open>page\<close> the page size, \<open>pages\<close>
  the number of guard pages and \<open>prot\<close> whether protecting them succeeded.
\<close>

definition Fiber_new :: "nat \<Rightarrow> nat \<Rightarrow> nat \<Rightarrow> bool \<Rightarrow> nat \<Rightarrow> nat \<Rightarrow> fiber_sys \<Rightarrow> fiber_sys" where
  "Fiber_new dflt page pages prot sz a s =
     s\<lparr>fiber_id := fiber_id s + 1,
       fib := (fib s)(a := \<lparr>f_cb = True, f_fid = fiber_id s + 1, f_state = INIT, f_stack = True,
                            f_main = False,
                            f_stackSize = (if sz \<noteq> 0 then sz else dflt) + page * pages,
                            f_pagesProtect = (if prot then pages else 0)\<rparr>)\<rparr>"

text \<open>The destructor's assertions; the main fiber of the thread forgets itself.\<close>

definition Fiber_destroy :: "nat \<Rightarrow> unit fs" where
  "Fiber_destroy a s =
     (let f = fib s a in
      if f_stack f
      then if f_state f \<in> {TERM_state, INIT, EXCEPT}
           then (Inr (), s\<lparr>fib := (fib s)(a := f\<lparr>f_stack := False\<rparr>)\<rparr>)
           else (Inl FiberAssert, s)
      else
        let f1 = (if f_main f then f\<lparr>f_state := EXEC\<rparr> else f);
            s1 = s\<lparr>fib := (fib s)(a := f1)\<rparr>
        in if f_cb f1 \<or> f_state f1 \<noteq> EXEC then (Inl FiberAssert, s1)
           else if this_fiber s1 = Some a then (Inr (), setThis None s1) else (Inr (), s1))"

definition reset :: "nat \<Rightarrow> unit fs" where
  "reset a s =
     (let f = fib s a in
      if f_state f \<in> {INIT, TERM_state, EXCEPT} \<and> f_stack f
      then (Inr (), s\<lparr>fib := (fib s)(a := f\<lparr>f_cb := True, f_state := INIT\<rparr>)\<rparr>)
      else (Inl FiberAssert, s))"

section \<open>Switching\<close>

text \<open>
  \<open>getThis\<close>: the running fiber, or a new main fiber at \<open>fresh\<close>. The thread's own code becomes
  the code of that main fiber.
\<close>

definition getThis :: "nat \<Rightarrow> fiber_sys \<Rightarrow> nat \<times> fiber_sys" where
  "getThis fresh s =
     (case this_fiber s of
        Some f \<Rightarrow> (f, s)
      | None \<Rightarrow>
          (fresh, (Fiber_main fresh s)\<lparr>main_fiber := Some fresh, control := Some fresh\<rparr>))"

definition getFid :: "fiber_sys \<Rightarrow> u32" where
  "getFid s = (case this_fiber s of Some f \<Rightarrow> f_fid (fib s f) | None \<Rightarrow> 0)"

definition swapIn :: "nat \<Rightarrow> unit fs" where
  "swapIn a s =
     (let s1 = setThis (Some a) s in
      if f_state (fib s1 a) = EXEC then (Inl FiberAssert, s1)
      else
        let s2 = set_state a EXEC s1
        in if main_fiber s2 = None then (Inl FiberAssert, s2)
           else (Inr (), s2\<lparr>control := Some a\<rparr>))"

text \<open>Jumping back to the main fiber.\<close>

definition jump_main :: "unit fs" where
  "jump_main s =
     (case main_fiber s of
        None \<Rightarrow> (Inl NoMainFiber, s)
      | Some m \<Rightarrow> (Inr (), (setThis (Some m) s)\<lparr>control := Some m\<rparr>))"

definition swapOut :: "nat \<Rightarrow> unit fs" where
  "swapOut fresh s =
     (case getThis fresh s of
        (cur, s1) \<Rightarrow> if Some cur = main_fiber s1 then (Inr (), s1) else jump_main s1)"

definition swapTo :: "nat \<Rightarrow> nat \<Rightarrow> unit fs" where
  "swapTo fresh f s =
     (case getThis fresh s of
        (cur, s1) \<Rightarrow>
          if f = cur then (Inr (), s1)
          else (Inr (), (setThis (Some f) s1)\<lparr>control := Some f\<rparr>))"

definition YieldToReady :: "nat \<Rightarrow> unit fs" where
  "YieldToReady fresh s =
     (case getThis fresh s of (cur, s1) \<Rightarrow> swapOut fresh (set_state cur READY s1))"

definition YieldToHold :: "nat \<Rightarrow> unit fs" where
  "YieldToHold fresh s =
     (case getThis fresh s of
        (cur, s1) \<Rightarrow> if Some cur = main_fiber s1 then (Inr (), s1) else jump_main s1)"

text \<open>
  The part of \<open>Fiber::run\<close> after the callback: it returned (\<open>ok\<close>) or threw. The callback is
  user code; what it does before is a sequence of the other operations.
\<close>

definition run_end :: "nat \<Rightarrow> bool \<Rightarrow> unit fs" where
  "run_end fresh ok s =
     (case getThis fresh s of
        (cur, s1) \<Rightarrow>
          let f = fib s1 cur;
              s2 = (if ok then s1\<lparr>fib := (fib s1)(cur := f\<lparr>f_cb := False, f_state := TERM_state\<rparr>)\<rparr>
                    else s1\<lparr>fib := (fib s1)(cur := f\<lparr>f_state := EXCEPT\<rparr>)\<rparr>)
          in swapOut fresh s2)"

section \<open>Invariant\<close>

text \<open>
  A thread with a main fiber executes the fiber it calls current, the main fiber is marked
  as such, and a running fiber other than the main one is in state \<open>EXEC\<close>. Before that,
  nothing is current.
\<close>

definition fs_ok :: "fiber_sys \<Rightarrow> bool" where
  "fs_ok s \<longleftrightarrow>
     (case main_fiber s of
        None \<Rightarrow> this_fiber s = None \<and> control s = None
      | Some m \<Rightarrow> f_main (fib s m) \<and> this_fiber s = control s \<and> control s \<noteq> None \<and>
          (control s \<noteq> Some m \<longrightarrow> f_state (fib s (the (control s))) = EXEC))"

lemmas fiber_defs = setThis_def set_state_def Fiber_main_def getThis_def swapIn_def jump_main_def
  swapOut_def YieldToReady_def YieldToHold_def run_end_def Let_def

text \<open>From a fiber other than the main one, the three ways back.\<close>

lemma back_to_main:
  assumes "fs_ok s" "main_fiber s = Some m" "control s = Some a" "a \<noteq> m"
  shows "YieldToReady fresh s =
      (Inr (), (set_state a READY s)\<lparr>this_fiber := Some m, control := Some m\<rparr>)"
    and "YieldToHold fresh s = (Inr (), s\<lparr>this_fiber := Some m, control := Some m\<rparr>)"
    and "run_end fresh ok s =
      (Inr (), s\<lparr>fib := (fib s)(a := (if ok then (fib s a)\<lparr>f_cb := False, f_state := TERM_state\<rparr>
                                      else (fib s a)\<lparr>f_state := EXCEPT\<rparr>)),
                 this_fiber := Some m, control := Some m\<rparr>)"
  using assms by (simp_all add: fs_ok_def fiber_defs)

text \<open>The four ways out of a fiber, with the state in which they leave it, given the one it had.\<close>

definition ways_out :: "nat \<Rightarrow> (unit fs \<times> (State \<Rightarrow> State)) set" where
  "ways_out fresh = {(YieldToReady fresh, \<lambda>_. READY), (YieldToHold fresh, \<lambda>st. st),
     (run_end fresh True, \<lambda>_. TERM_state), (run_end fresh False, \<lambda>_. EXCEPT)}"

lemma way_out:
  assumes "fs_ok s" "(op, st) \<in> ways_out fresh"
  shows "\<exists>s'. op s = (Inr (), s') \<and> fs_ok s' \<and> control s' = main_fiber s' \<and>
    main_fiber s' = (if main_fiber s = None then Some fresh else main_fiber s) \<and>
    (\<forall>c. control s = Some c \<and> main_fiber s \<noteq> Some c \<longrightarrow>
       f_state (fib s' c) = st (f_state (fib s c)) \<and> (\<forall>b. b \<noteq> c \<longrightarrow> fib s' b = fib s b))"
proof (cases "main_fiber s")
  case None
  then show ?thesis using assms by (auto simp: ways_out_def fs_ok_def fiber_defs)
next
  case (Some m)
  show ?thesis
  proof (cases "control s = Some m")
    case True
    then show ?thesis using assms Some by (auto simp: ways_out_def fs_ok_def fiber_defs)
  next
    case False
    then obtain c where c: "control s = Some c" "c \<noteq> m" using assms(1) Some by (auto simp: fs_ok_def)
    note home = back_to_main [OF assms(1) Some c]
    show ?thesis
      using assms Some c unfolding ways_out_def
      by (auto simp: home fs_ok_def set_state_def)
  qed
qed

text \<open>
  C23. Fibers of a thread switch in a star, and the invariant (the thread executes the fiber it
  calls current, in state \<open>EXEC\<close> unless it is the main fiber) holds all the way. Switching in a fiber
  that is not executing makes the thread execute it, in state \<open>EXEC\<close>, and changes no other fiber;
  one that executes, or a thread without a main fiber, is refused. Every way out (yielding,
  blocking, returning and throwing) succeeds and leads to the main fiber of the thread, which is made if
  there is none; it leaves the fiber in the state of that way and changes no other.
\<close>

theorem fiber_star_invariant:
  assumes "fs_ok s" "\<not> f_main (fib s a)"
  shows "(if f_state (fib s a) = EXEC \<or> main_fiber s = None then fst (swapIn a s) = Inl FiberAssert
     else \<exists>s'. swapIn a s = (Inr (), s') \<and> fs_ok s' \<and> control s' = Some a \<and> f_state (fib s' a) = EXEC \<and>
       main_fiber s' = main_fiber s \<and> (\<forall>b. b \<noteq> a \<longrightarrow> fib s' b = fib s b)) \<and>
    (\<forall>(op, st) \<in> ways_out fresh. \<exists>s'. op s = (Inr (), s') \<and> fs_ok s' \<and> control s' = main_fiber s' \<and>
       main_fiber s' = (if main_fiber s = None then Some fresh else main_fiber s) \<and>
       (\<forall>c. control s = Some c \<and> main_fiber s \<noteq> Some c \<longrightarrow>
          f_state (fib s' c) = st (f_state (fib s c)) \<and> (\<forall>b. b \<noteq> c \<longrightarrow> fib s' b = fib s b)))"
proof (rule conjI)
  show "if f_state (fib s a) = EXEC \<or> main_fiber s = None then fst (swapIn a s) = Inl FiberAssert
     else \<exists>s'. swapIn a s = (Inr (), s') \<and> fs_ok s' \<and> control s' = Some a \<and> f_state (fib s' a) = EXEC \<and>
       main_fiber s' = main_fiber s \<and> (\<forall>b. b \<noteq> a \<longrightarrow> fib s' b = fib s b)"
    using assms by (auto simp: fs_ok_def fiber_defs)
qed (use way_out [OF assms(1)] in fastforce)

definition example_thread :: fiber_sys where
  "example_thread = snd (getThis 1 (Fiber_new 65536 4096 1 True 0 2
     \<lparr>fib = \<lambda>_. undefined, this_fiber = None, main_fiber = None, fiber_id = 0, control = None\<rparr>))"

lemma example_thread_ok: "fs_ok example_thread" "\<not> f_main (fib example_thread 2)"
  by (simp_all add: example_thread_def fs_ok_def getThis_def Fiber_main_def Fiber_new_def setThis_def)

theorem fiber_star_invariant_witness:
  "\<exists>s1 s2. swapIn 2 example_thread = (Inr (), s1) \<and> control s1 = Some 2 \<and>
     run_end 3 True example_thread = (Inr (), s2) \<and> control s2 = Some 1"
proof -
  have "f_state (fib example_thread 2) = INIT" "main_fiber example_thread = Some 1"
    by (simp_all add: example_thread_def getThis_def Fiber_main_def Fiber_new_def setThis_def)
  then show ?thesis
    using fiber_star_invariant [OF example_thread_ok, of 3] by (auto simp: ways_out_def)
qed

text \<open>
  The life cycle of a fiber under the main fiber: a fiber that is not executing can be
  switched in; when it yields, blocks, returns or throws, control is back at the main fiber
  and the fiber is in state \<open>READY\<close>, \<open>EXEC\<close> (the caller turns it into \<open>HOLD\<close>), \<open>TERM\<close> or
  \<open>EXCEPT\<close>; a finished fiber can be destroyed, a blocked or ready one cannot. A fiber already
  executing is refused.
\<close>

theorem fiber_life_cycle:
  assumes "fs_ok s" "main_fiber s = Some m" "control s = Some m" "a \<noteq> m" "f_stack (fib s a)"
  shows "if f_state (fib s a) = EXEC then fst (swapIn a s) = Inl FiberAssert
    else \<exists>s1. swapIn a s = (Inr (), s1) \<and> control s1 = Some a \<and> f_state (fib s1 a) = EXEC \<and>
      (\<forall>op \<in> {(YieldToReady fresh, READY), (YieldToHold fresh, EXEC),
              (run_end fresh True, TERM_state), (run_end fresh False, EXCEPT)}.
        \<exists>s2. fst op s1 = (Inr (), s2) \<and> fs_ok s2 \<and> control s2 = Some m \<and>
          f_state (fib s2 a) = snd op \<and>
          (fst (Fiber_destroy a s2) = Inr () \<longleftrightarrow> snd op \<in> {TERM_state, EXCEPT}))"
proof (cases "f_state (fib s a) = EXEC")
  case True
  then show ?thesis by (simp add: fiber_defs)
next
  case False
  let ?s1 = "(set_state a EXEC s)\<lparr>this_fiber := Some a, control := Some a\<rparr>"
  have sw: "swapIn a s = (Inr (), ?s1)" using False assms by (simp add: fiber_defs)
  have ok: "fs_ok ?s1" and m: "main_fiber ?s1 = Some m" and st: "f_stack (fib ?s1 a)"
    using assms by (auto simp: fs_ok_def set_state_def)
  note home = back_to_main [OF ok m _ assms(4)]
  show ?thesis
    using False sw ok m st assms home
    by (auto simp: fs_ok_def set_state_def Fiber_destroy_def)
qed

theorem fiber_life_cycle_witness:
  "\<exists>s1. swapIn 2 example_thread = (Inr (), s1) \<and> control s1 = Some 2"
  using fiber_life_cycle [OF example_thread_ok(1), of 1 2]
  by (auto simp: example_thread_def getThis_def Fiber_main_def Fiber_new_def setThis_def)

end
