(* ===== verification/Ordered.thy ===== *)
theory Ordered
  imports Zy_Prelude
begin

text \<open>
  The ordered containers of the standard library, \<open>std::set\<close> and \<open>std::map\<close> with a user
  comparator: the elements are kept as a list in comparator order, two elements that neither
  precede each other count as equal, and \<open>insert\<close> does not replace an equal element. The
  locale \<open>weak_order\<close> is what the standard requires of a comparator; it is interpreted for
  the comparators of the library in the theories that define them.
\<close>

section \<open>Sets\<close>

fun os_insert :: "('a \<Rightarrow> 'a \<Rightarrow> bool) \<Rightarrow> 'a \<Rightarrow> 'a list \<Rightarrow> 'a list" where
  "os_insert lt x [] = [x]"
| "os_insert lt x (y # ys) =
     (if lt x y then x # y # ys
      else if lt y x then y # os_insert lt x ys else y # ys)"

fun os_member :: "('a \<Rightarrow> 'a \<Rightarrow> bool) \<Rightarrow> 'a \<Rightarrow> 'a list \<Rightarrow> bool" where
  "os_member lt x [] = False"
| "os_member lt x (y # ys) = (if lt y x then os_member lt x ys else \<not> lt x y)"

fun os_erase :: "('a \<Rightarrow> 'a \<Rightarrow> bool) \<Rightarrow> 'a \<Rightarrow> 'a list \<Rightarrow> 'a list" where
  "os_erase lt x [] = []"
| "os_erase lt x (y # ys) =
     (if lt y x then y # os_erase lt x ys else if lt x y then y # ys else ys)"

lemma os_insert_not_Nil [simp]: "os_insert lt x ys \<noteq> []"
  by (cases ys) simp_all

section \<open>Maps\<close>

fun om_find :: "('k \<Rightarrow> 'k \<Rightarrow> bool) \<Rightarrow> 'k \<Rightarrow> ('k \<times> 'v) list \<Rightarrow> 'v option" where
  "om_find lt k [] = None"
| "om_find lt k ((l, v) # m) =
     (if lt l k then om_find lt k m else if lt k l then None else Some v)"

text \<open>\<open>m[k] = v\<close>: an existing entry keeps its key and takes the new value.\<close>

fun om_assign :: "('k \<Rightarrow> 'k \<Rightarrow> bool) \<Rightarrow> 'k \<Rightarrow> 'v \<Rightarrow> ('k \<times> 'v) list \<Rightarrow> ('k \<times> 'v) list" where
  "om_assign lt k v [] = [(k, v)]"
| "om_assign lt k v ((l, w) # m) =
     (if lt k l then (k, v) # (l, w) # m
      else if lt l k then (l, w) # om_assign lt k v m else (l, v) # m)"

fun om_erase :: "('k \<Rightarrow> 'k \<Rightarrow> bool) \<Rightarrow> 'k \<Rightarrow> ('k \<times> 'v) list \<Rightarrow> ('k \<times> 'v) list" where
  "om_erase lt k [] = []"
| "om_erase lt k ((l, w) # m) =
     (if lt l k then (l, w) # om_erase lt k m else if lt k l then (l, w) # m else m)"

section \<open>Strict weak orders\<close>

locale weak_order =
  fixes lt :: "'a \<Rightarrow> 'a \<Rightarrow> bool"
  assumes irrefl: "\<not> lt x x"
    and trans: "lt x y \<Longrightarrow> lt y z \<Longrightarrow> lt x z"
    and incomparable_trans: "\<not> lt x y \<Longrightarrow> \<not> lt y z \<Longrightarrow> \<not> lt x z"
begin

definition same :: "'a \<Rightarrow> 'a \<Rightarrow> bool" where
  "same x y \<longleftrightarrow> \<not> lt x y \<and> \<not> lt y x"

lemma same_refl [simp]: "same x x"
  by (simp add: same_def irrefl)

lemma same_sym: "same x y \<Longrightarrow> same y x"
  by (simp add: same_def)

lemma same_trans: "same x y \<Longrightarrow> same y z \<Longrightarrow> same x z"
  unfolding same_def using incomparable_trans by blast

lemma asym: "lt x y \<Longrightarrow> \<not> lt y x"
  using irrefl trans by blast

lemma less_same: "lt x y \<Longrightarrow> same y z \<Longrightarrow> lt x z" "same x y \<Longrightarrow> lt y z \<Longrightarrow> lt x z"
  unfolding same_def using incomparable_trans by blast+

lemma set_os_insert_subset: "set (os_insert lt x ys) \<subseteq> insert x (set ys)"
  by (induction ys) auto

lemma sorted_os_insert:
  "sorted_wrt lt ys \<Longrightarrow> sorted_wrt lt (os_insert lt x ys)"
proof (induction ys)
  case (Cons y ys)
  then show ?case
    using set_os_insert_subset [of x ys] trans by fastforce
qed simp

lemma os_member_iff:
  "sorted_wrt lt ys \<Longrightarrow> os_member lt x ys \<longleftrightarrow> (\<exists>y \<in> set ys. same y x)"
proof (induction ys)
  case (Cons y ys)
  have "\<not> same z x" if "z \<in> set ys" "\<not> lt y x" for z
    using that Cons.prems less_same(1) [of y z x] by auto
  with Cons show ?case by (auto simp: same_def)
qed simp

lemma sorted_os_erase: "sorted_wrt lt ys \<Longrightarrow> sorted_wrt lt (os_erase lt x ys)"
  and set_os_erase_subset: "set (os_erase lt x ys) \<subseteq> set ys"
proof -
  show sub: "set (os_erase lt x ys) \<subseteq> set ys" for ys by (induction ys) auto
  show "sorted_wrt lt ys \<Longrightarrow> sorted_wrt lt (os_erase lt x ys)"
  proof (induction ys)
    case (Cons y ys)
    then show ?case using sub [of ys] by auto
  qed simp
qed

lemma set_os_erase:
  "sorted_wrt lt ys \<Longrightarrow> set (os_erase lt x ys) = {y \<in> set ys. \<not> same y x}"
proof (induction ys)
  case (Cons y ys)
  have "\<not> same z x" if "z \<in> set ys" "\<not> lt y x" for z
    using that Cons.prems less_same(1) [of y z x] by auto
  with Cons show ?case by (auto simp: same_def)
qed simp

text \<open>Lookups after an assignment or an erasure in a map.\<close>

lemma om_find_assign:
  assumes "sorted_wrt (\<lambda>p q. lt (fst p) (fst q)) m"
  shows "om_find lt k' (om_assign lt k v m) = (if same k k' then Some v else om_find lt k' m)"
  using assms
proof (induction m)
  case Nil
  then show ?case by (auto simp: same_def)
next
  case (Cons p m)
  obtain l w where p: "p = (l, w)" by fastforce
  have IH: "om_find lt k' (om_assign lt k v m) = (if same k k' then Some v else om_find lt k' m)"
    using Cons by simp
  consider "lt k l" | "lt l k" | "same l k" unfolding same_def by blast
  then show ?case
  proof cases
    case 1
    then have "lt k' k \<Longrightarrow> lt k' l \<and> \<not> lt l k' \<and> \<not> lt k k'" using trans asym by blast
    then show ?thesis using p 1 by (cases "lt k k'"; cases "lt k' k") (simp_all add: same_def)
  next
    case 2
    then show ?thesis
      using p IH asym less_same(1) [of l k k'] by (auto simp: same_def)
  next
    case 3
    then have e: "lt l k' \<longleftrightarrow> lt k k'" "lt k' l \<longleftrightarrow> lt k' k"
      using less_same same_sym by blast+
    with 3 p show ?thesis by (auto simp: same_def)
  qed
qed

lemma fst_om_assign: "fst ` set (om_assign lt k v m) \<subseteq> insert k (fst ` set m)"
  by (induction lt k v m rule: om_assign.induct) auto

lemma sorted_om_assign:
  "sorted_wrt (\<lambda>p q. lt (fst p) (fst q)) m \<Longrightarrow>
   sorted_wrt (\<lambda>p q. lt (fst p) (fst q)) (om_assign lt k v m)"
proof (induction m)
  case (Cons p m)
  obtain l w where p: "p = (l, w)" by fastforce
  have "\<forall>q \<in> set (om_assign lt k v m). lt l (fst q)" if "lt l k"
    using that fst_om_assign [of k v m] Cons.prems p by fastforce
  then show ?case using Cons p trans by auto
qed simp

lemma om_find_erase:
  assumes "sorted_wrt (\<lambda>p q. lt (fst p) (fst q)) m"
  shows "om_find lt k' (om_erase lt k m) = (if same k k' then None else om_find lt k' m)"
  using assms
proof (induction m)
  case Nil
  then show ?case by simp
next
  case (Cons p m)
  obtain l w where p: "p = (l, w)" by fastforce
  have gt: "om_find lt j m = None" if "\<not> lt l j" for j
  proof (cases m)
    case (Cons q m')
    obtain a b where q: "q = (a, b)" by fastforce
    have "lt l a" using Cons.prems p q Cons by simp
    then have "lt j a" using that incomparable_trans by blast
    then show ?thesis using Cons q asym by auto
  qed simp
  consider "lt k l" | "lt l k" | "same l k" unfolding same_def by blast
  then show ?case
  proof cases
    case 1
    then have "same k k' \<Longrightarrow> lt k' l \<and> \<not> lt l k'" using less_same(2) same_sym asym by blast
    then show ?thesis using p 1 asym [of k l] by simp
  next
    case 2
    then show ?thesis
      using p Cons asym less_same(1) [of l k k'] by (auto simp: same_def)
  next
    case 3
    then have e: "lt l k' \<longleftrightarrow> lt k k'" "lt k' l \<longleftrightarrow> lt k' k"
      using less_same same_sym by blast+
    with 3 p gt [of k'] show ?thesis by (auto simp: same_def)
  qed
qed

text \<open>Assigning a list of entries in turn.\<close>

lemma sorted_fold_om_assign:
  "sorted_wrt (\<lambda>p q. lt (fst p) (fst q)) m \<Longrightarrow>
   sorted_wrt (\<lambda>p q. lt (fst p) (fst q)) (fold (\<lambda>(k, v). om_assign lt k v) kvs m)"
  by (induction kvs arbitrary: m) (auto simp: sorted_om_assign)

lemma om_find_fold_other:
  assumes "sorted_wrt (\<lambda>p q. lt (fst p) (fst q)) m" "\<forall>p \<in> set kvs. \<not> same (fst p) k"
  shows "om_find lt k (fold (\<lambda>(k, v). om_assign lt k v) kvs m) = om_find lt k m"
  using assms by (induction kvs arbitrary: m) (auto simp: sorted_om_assign om_find_assign)

lemma om_find_fold_assign:
  assumes "sorted_wrt (\<lambda>p q. lt (fst p) (fst q)) m"
    and "sorted_wrt (\<lambda>p q. \<not> same (fst p) (fst q)) kvs" "(k, v) \<in> set kvs"
  shows "om_find lt k (fold (\<lambda>(k, v). om_assign lt k v) kvs m) = Some v"
  using assms
proof (induction kvs arbitrary: m)
  case (Cons p kvs)
  show ?case
  proof (cases "p = (k, v)")
    case True
    then have "\<forall>q \<in> set kvs. \<not> same (fst q) k" using Cons.prems(2) same_sym by fastforce
    then show ?thesis
      using True Cons.prems(1) by (simp add: om_find_fold_other sorted_om_assign om_find_assign)
  next
    case False
    then show ?thesis
      using Cons.IH [OF sorted_om_assign [OF Cons.prems(1)]] Cons.prems by (auto split: prod.split)
  qed
qed simp

text \<open>Assigning the entries of a map in its order builds it again.\<close>

lemma om_assign_last: "\<forall>p \<in> set m. lt (fst p) k \<Longrightarrow> om_assign lt k v m = m @ [(k, v)]"
  using asym by (induction m) auto

lemma fold_om_assign_sorted:
  "sorted_wrt (\<lambda>p q. lt (fst p) (fst q)) (m @ kvs) \<Longrightarrow> fold (\<lambda>(k, v). om_assign lt k v) kvs m = m @ kvs"
proof (induction kvs arbitrary: m)
  case (Cons p kvs)
  obtain k v where p: "p = (k, v)" by fastforce
  have "om_assign lt k v m = m @ [p]"
    using om_assign_last [of m k v] Cons.prems p by (auto simp: sorted_wrt_append)
  then show ?case using Cons.IH [of "m @ [p]"] Cons.prems p by simp
qed simp

lemma om_find_member:
  assumes "sorted_wrt (\<lambda>p q. lt (fst p) (fst q)) m" "(l, v) \<in> set m" "same k l"
  shows "om_find lt k m = Some v"
  using assms
proof (induction m)
  case (Cons p m)
  show ?case
  proof (cases "p = (l, v)")
    case True
    then show ?thesis using Cons.prems(3) by (simp add: same_def)
  next
    case False
    then have "lt (fst p) l" "(l, v) \<in> set m" using Cons.prems by auto
    then have "lt (fst p) k" using less_same(1) [of "fst p" l k] same_sym Cons.prems(3) by blast
    then show ?thesis using Cons \<open>(l, v) \<in> set m\<close> by (cases p) simp
  qed
qed simp

lemma om_find_none:
  "\<forall>p \<in> set m. \<not> same k (fst p) \<Longrightarrow> sorted_wrt (\<lambda>p q. lt (fst p) (fst q)) m \<Longrightarrow> om_find lt k m = None"
  by (induction m) (auto simp: same_def)

lemma om_find_filter:
  assumes "sorted_wrt (\<lambda>p q. lt (fst p) (fst q)) m"
  shows "om_find lt k (filter (\<lambda>p. \<not> same (fst p) x) m) = (if same k x then None else om_find lt k m)"
proof -
  have s: "sorted_wrt (\<lambda>p q. lt (fst p) (fst q)) (filter (\<lambda>p. \<not> same (fst p) x) m)"
    using assms by (rule sorted_wrt_filter)
  show ?thesis
  proof (cases "\<exists>p \<in> set m. same k (fst p) \<and> \<not> same k x")
    case True
    then obtain l v where "(l, v) \<in> set m" "same k l" "\<not> same k x" by auto
    moreover then have "\<not> same l x" using same_trans by blast
    ultimately show ?thesis
      using om_find_member [OF assms, of l v k] om_find_member [OF s, of l v k] by simp
  next
    case False
    have "\<not> same k (fst p)" if "p \<in> set m" "\<not> same (fst p) x" for p
      using that False same_trans [OF same_sym, of k "fst p" x] by blast
    then have "om_find lt k (filter (\<lambda>p. \<not> same (fst p) x) m) = None"
      by (intro om_find_none [OF _ s]) simp
    moreover have "\<not> same k x \<Longrightarrow> om_find lt k m = None"
      using False by (intro om_find_none [OF _ assms]) auto
    ultimately show ?thesis by simp
  qed
qed

lemma sorted_fold_os_insert:
  "sorted_wrt lt ys \<Longrightarrow> sorted_wrt lt (fold (os_insert lt) xs ys)"
  by (induction xs arbitrary: ys) (simp_all add: sorted_os_insert)

end

end
