(* ===== verification/Timer.thy ===== *)
theory Timer
  imports Ordered
begin

text \<open>
  Timers (\<open>src/src/scheduler/TimerManager.hpp\<close>, \<open>TimerManager.cpp\<close>). Timers live in a store
  indexed by their address, which the comparator uses to order timers that expire together;
  a manager keeps the set of armed timers in comparator order. Times are milliseconds of the
  monotonic clock in 64 bits. A failed \<open>ASSERT\<close> logs at level \<open>FATAL\<close>, on which the log
  thread ends the process: it is an error outcome here. Every operation of the manager runs
  under its mutex.
\<close>

section \<open>Timers\<close>

datatype TimerType = SINGLE | LOOP

record timer =
  m_fiber :: "nat option" \<comment> \<open>\<open>Fiber::ptr\<close>\<close>
  m_started :: bool
  m_cancelled :: bool
  m_type :: TimerType
  m_interval :: u64
  m_nxtExpireTime :: u64
  m_manager :: bool \<comment> \<open>the manager pointer is not null\<close>

datatype tm_error =
    AssertFail
  | NullManager \<comment> \<open>the null \<open>m_manager\<close> is dereferenced\<close>
  | EraseEnd \<comment> \<open>\<open>erase(end())\<close>, undefined behaviour\<close>

definition Timer :: "u64 \<Rightarrow> int \<Rightarrow> int \<Rightarrow> int \<Rightarrow> int \<Rightarrow> tm_error + timer" where
  "Timer now sec msec usec nsec =
     (if 0 \<le> sec \<and> 0 \<le> msec \<and> 0 \<le> usec \<and> 0 \<le> nsec
      then
        let usec' = usec + nsec div 1000;
            msec' = msec + usec' div 1000;
            interval = of_int msec' + of_int sec * 1000
        in Inr \<lparr>m_fiber = None, m_started = False, m_cancelled = False, m_type = SINGLE,
                m_interval = interval, m_nxtExpireTime = interval + now, m_manager = False\<rparr>
      else Inl AssertFail)"

text \<open>The constructor from an absolute time.\<close>

definition Timer_at :: "u64 \<Rightarrow> timer" where
  "Timer_at msec =
     \<lparr>m_fiber = None, m_started = False, m_cancelled = False, m_type = SINGLE,
      m_interval = 0, m_nxtExpireTime = msec, m_manager = False\<rparr>"

text \<open>\<open>Timer::getCurrentTime\<close> on the two fields of the clock.\<close>

definition getCurrentTime :: "nat \<Rightarrow> nat \<Rightarrow> u64" where
  "getCurrentTime tv_sec tv_nsec = of_nat (tv_nsec div 1000000) + of_nat tv_sec * 1000"

definition getTimerType :: "timer \<Rightarrow> TimerType" where
  "getTimerType t = m_type t"

definition isCancelled :: "timer \<Rightarrow> bool" where
  "isCancelled t = m_cancelled t"

definition getTask :: "timer \<Rightarrow> nat option" where
  "getTask t = m_fiber t"

definition timer_start :: "timer \<Rightarrow> tm_error + timer" where
  "timer_start t =
     (if m_started t \<or> m_fiber t = None then Inl AssertFail else Inr (t\<lparr>m_started := True\<rparr>))"

definition setLoop :: "timer \<Rightarrow> timer" where
  "setLoop t = (if m_started t then t else t\<lparr>m_type := LOOP\<rparr>)"

definition setManager :: "bool \<Rightarrow> timer \<Rightarrow> timer" where
  "setManager manager t = t\<lparr>m_manager := manager\<rparr>"

definition setNextExpireTime :: "timer \<Rightarrow> timer" where
  "setNextExpireTime t =
     (if m_type t = SINGLE then t else t\<lparr>m_nxtExpireTime := m_nxtExpireTime t + m_interval t\<rparr>)"

text \<open>\<open>setTask\<close>: the fiber of the caller, or a new one (its address) for a callback.\<close>

definition setTask :: "nat \<Rightarrow> nat option \<Rightarrow> timer \<Rightarrow> tm_error + timer" where
  "setTask this_fiber new_fiber t =
     (if m_cancelled t \<or> m_started t then Inl AssertFail
      else Inr (t\<lparr>m_fiber := (case new_fiber of None \<Rightarrow> Some this_fiber | Some f \<Rightarrow> Some f)\<rparr>))"

section \<open>The manager\<close>

record timer_mgr =
  heap :: "nat \<Rightarrow> timer"
  m_timers :: "nat list"

type_synonym 'a tm = "(timer_mgr, tm_error, 'a) st_exn"

definition Comparator :: "(nat \<Rightarrow> timer) \<Rightarrow> nat option \<Rightarrow> nat option \<Rightarrow> bool" where
  "Comparator h o1 o2 =
     (case o1 of
        None \<Rightarrow> o2 \<noteq> None
      | Some a \<Rightarrow>
         (case o2 of
            None \<Rightarrow> False
          | Some b \<Rightarrow>
              if m_nxtExpireTime (h a) < m_nxtExpireTime (h b) then True
              else if m_nxtExpireTime (h b) < m_nxtExpireTime (h a) then False
              else a < b))"

abbreviation timer_lt :: "(nat \<Rightarrow> timer) \<Rightarrow> nat \<Rightarrow> nat \<Rightarrow> bool" where
  "timer_lt h a b \<equiv> Comparator h (Some a) (Some b)"

abbreviation upd_timer :: "nat \<Rightarrow> timer \<Rightarrow> timer_mgr \<Rightarrow> timer_mgr" where
  "upd_timer a t s \<equiv> s\<lparr>heap := (heap s)(a := t)\<rparr>"

definition cancel :: "nat \<Rightarrow> bool tm" where
  "cancel a s =
     (let t = heap s a in
      if \<not> m_manager t then (Inl NullManager, s)
      else if m_cancelled t then (Inr False, s)
      else if m_fiber t \<noteq> None
      then
        let s1 = upd_timer a (t\<lparr>m_cancelled := True\<rparr>) s
        in if os_member (timer_lt (heap s1)) a (m_timers s1)
           then (Inr True, s1\<lparr>m_timers := os_erase (timer_lt (heap s1)) a (m_timers s1)\<rparr>)
           else (Inl EraseEnd, s1)
      else (Inr False, s))"

text \<open>
  \<open>addTimer\<close>: the result tells whether \<open>notify\<close> is called, which wakes the reactor because
  the new timer is the first to expire.
\<close>

definition addTimer :: "nat \<Rightarrow> nat option \<Rightarrow> nat option \<Rightarrow> TimerType \<Rightarrow> bool tm" where
  "addTimer this_fiber p cb type s =
     (case p of
        None \<Rightarrow> (Inl AssertFail, s)
      | Some a \<Rightarrow>
          let t0 = heap s a;
              t1 = (if type = LOOP then setLoop t0 else t0);
              t2 = setManager True (t1\<lparr>m_cancelled := False\<rparr>);
              s2 = upd_timer a t2 s
          in case setTask this_fiber cb t2 of
               Inl e \<Rightarrow> (Inl e, s2)
             | Inr t3 \<Rightarrow>
                 let s3 = upd_timer a t3 s;
                     s4 = s3\<lparr>m_timers := os_insert (timer_lt (heap s3)) a (m_timers s3)\<rparr>;
                     headTag = (m_timers s4 \<noteq> [] \<and> hd (m_timers s4) = a)
                 in case timer_start t3 of
                      Inl e \<Rightarrow> (Inl e, s4)
                    | Inr t4 \<Rightarrow> (Inr headTag, upd_timer a t4 s4))"

text \<open>The overload that takes the pointer out of the caller's variable (\<open>None\<close>: a null address).\<close>

definition addTimer_swap ::
  "nat \<Rightarrow> nat option option \<Rightarrow> nat option \<Rightarrow> TimerType \<Rightarrow> (bool \<times> nat option) tm" where
  "addTimer_swap this_fiber timer cb type s =
     (case timer of
        None \<Rightarrow> (Inl AssertFail, s)
      | Some p \<Rightarrow> sbind (addTimer this_fiber p cb type) (\<lambda>b. sret (b, None)) s)"

definition getNextExpireTime :: "timer_mgr \<Rightarrow> u64" where
  "getNextExpireTime s =
     (case m_timers s of [] \<Rightarrow> - 1 | a # _ \<Rightarrow> m_nxtExpireTime (heap s a))"

definition getNextExpireInterval :: "u64 \<Rightarrow> timer_mgr \<Rightarrow> u64" where
  "getNextExpireInterval cur s =
     (let nxt = getNextExpireTime s in
      if nxt = - 1 then - 1 else if cur \<le> nxt then nxt - cur else 0)"

text \<open>The loop over the expired timers: a \<open>LOOP\<close> timer goes back, a \<open>SINGLE\<close> one gives up its fiber.\<close>

fun expire_loop :: "nat list \<Rightarrow> timer_mgr \<Rightarrow> nat option list \<times> timer_mgr" where
  "expire_loop [] s = ([], s)"
| "expire_loop (a # as) s =
     (let t = heap s a;
          s1 = (if m_type t = LOOP
                then s\<lparr>m_timers := os_insert (timer_lt (heap s)) a (m_timers s)\<rparr>
                else upd_timer a (t\<lparr>m_fiber := None\<rparr>) s)
      in case expire_loop as s1 of (res, s') \<Rightarrow> (m_fiber t # res, s'))"

definition getExpiredTasks :: "u64 \<Rightarrow> timer_mgr \<Rightarrow> nat option list \<times> timer_mgr" where
  "getExpiredTasks now s =
     (if m_timers s = [] then ([], s)
      else
        let due = (\<lambda>a. m_nxtExpireTime (heap s a) \<le> 0 + now);
            tms = takeWhile due (m_timers s)
        in expire_loop tms (s\<lparr>m_timers := dropWhile due (m_timers s)\<rparr>))"

section \<open>The comparator\<close>

interpretation cmp: weak_order "Comparator h" for h
  by unfold_locales (auto simp: Comparator_def split: option.splits if_splits)

interpretation tl: weak_order "timer_lt h" for h
  by unfold_locales (auto intro: cmp.irrefl [THEN notE] cmp.trans dest: cmp.incomparable_trans)

lemma tl_same [simp]: "tl.same h a b \<longleftrightarrow> a = b"
  unfolding tl.same_def by (auto simp: Comparator_def)

lemma Comparator_cong:
  "(\<And>a. m_nxtExpireTime (g a) = m_nxtExpireTime (h a)) \<Longrightarrow> Comparator g = Comparator h"
  by (simp add: Comparator_def fun_eq_iff split: option.split)

lemma Comparator_upd:
  "m_nxtExpireTime t = m_nxtExpireTime (h a) \<Longrightarrow> Comparator (h(a := t)) = Comparator h"
  by (rule Comparator_cong) simp

lemma timer_lt_le: "timer_lt h a b \<Longrightarrow> m_nxtExpireTime (h a) \<le> m_nxtExpireTime (h b)"
  by (auto simp: Comparator_def split: if_splits)

lemma set_timer_insert: "set (os_insert (timer_lt h) a as) = insert a (set as)"
proof (induction as)
  case (Cons b as)
  moreover have "\<not> timer_lt h a b \<Longrightarrow> \<not> timer_lt h b a \<Longrightarrow> a = b"
    using tl_same [of h a b] unfolding tl.same_def by simp
  ultimately show ?case by auto
qed simp

section \<open>Invariant\<close>

text \<open>
  The armed timers are in order, and they are exactly the timers that have a manager and a
  fiber and are not cancelled.
\<close>

definition armed :: "timer \<Rightarrow> bool" where
  "armed t \<longleftrightarrow> m_manager t \<and> m_fiber t \<noteq> None \<and> \<not> m_cancelled t"

definition tm_ok :: "timer_mgr \<Rightarrow> bool" where
  "tm_ok s \<longleftrightarrow> sorted_wrt (timer_lt (heap s)) (m_timers s) \<and>
     (\<forall>a. a \<in> set (m_timers s) \<longleftrightarrow> armed (heap s a)) \<and>
     (\<forall>a \<in> set (m_timers s). m_started (heap s a))"

lemma addTimer_Inr:
  assumes "addTimer this p cb type s = (Inr b, s')"
  obtains a t where "p = Some a" "\<not> m_started (heap s a)" "armed t" "m_started t"
    "m_nxtExpireTime t = m_nxtExpireTime (heap s a)"
    "s' = s\<lparr>heap := (heap s)(a := t), m_timers := os_insert (timer_lt (heap s)) a (m_timers s)\<rparr>"
    "b \<longleftrightarrow> hd (m_timers s') = a"
proof -
  obtain a where p: "p = Some a" using assms by (cases p) (auto simp: addTimer_def)
  show thesis
    using assms p
    by (intro that [of a "heap s' a"])
       (auto simp: addTimer_def setTask_def setLoop_def setManager_def Let_def timer_start_def
         armed_def Comparator_upd split: if_splits option.splits)
qed

lemma hd_timer_insert:
  assumes "sorted_wrt (timer_lt h) as"
  shows "hd (os_insert (timer_lt h) a as) = a \<longleftrightarrow> (\<forall>c \<in> set as. c = a \<or> timer_lt h a c)"
proof (cases as)
  case (Cons b bs)
  consider "timer_lt h a b" | "timer_lt h b a" | "a = b"
    using tl_same [of h a b] unfolding tl.same_def by blast
  then show ?thesis
    using Cons assms tl.trans [of h a b] tl.asym [of h b a] tl.irrefl [of h] by cases auto
qed simp

lemma tm_ok_addTimer:
  assumes "tm_ok s" "addTimer this p cb type s = (Inr b, s')"
  shows "tm_ok s'"
  using assms(1)
  by (rule_tac addTimer_Inr [OF assms(2)])
     (auto simp: tm_ok_def Comparator_upd set_timer_insert tl.sorted_os_insert)

lemma cancel_eq:
  assumes "tm_ok s"
  shows "cancel a s =
    (if \<not> m_manager (heap s a) then (Inl NullManager, s)
     else if armed (heap s a)
     then (Inr True, s\<lparr>heap := (heap s)(a := (heap s a)\<lparr>m_cancelled := True\<rparr>),
                      m_timers := os_erase (timer_lt (heap s)) a (m_timers s)\<rparr>)
     else (Inr False, s))"
proof -
  have "os_member (timer_lt (heap s)) a (m_timers s)" if "armed (heap s a)"
    using assms that tl.os_member_iff [of "heap s" "m_timers s" a] by (auto simp: tm_ok_def)
  then show ?thesis by (auto simp: cancel_def Let_def armed_def Comparator_upd)
qed

lemma tm_ok_cancel:
  assumes "tm_ok s"
  shows "tm_ok (snd (cancel a s))"
  using assms tl.set_os_erase [of "heap s" "m_timers s" a] tl.sorted_os_erase [of "heap s" "m_timers s" a]
  by (auto simp: cancel_eq tm_ok_def Comparator_upd armed_def)

lemma expire_loop_eq:
  "distinct as \<Longrightarrow> expire_loop as s =
    (map (\<lambda>a. m_fiber (heap s a)) as,
     s\<lparr>heap := \<lambda>a. if a \<in> set as \<and> m_type (heap s a) \<noteq> LOOP then (heap s a)\<lparr>m_fiber := None\<rparr> else heap s a,
       m_timers := fold (os_insert (timer_lt (heap s)))
         (filter (\<lambda>a. m_type (heap s a) = LOOP) as) (m_timers s)\<rparr>)"
proof (induction as arbitrary: s)
  case (Cons a as)
  let ?s1 = "upd_timer a ((heap s a)\<lparr>m_fiber := None\<rparr>) s"
  have eqs: "map (\<lambda>b. m_fiber (heap ?s1 b)) as = map (\<lambda>b. m_fiber (heap s b)) as"
    "filter (\<lambda>b. m_type (heap ?s1 b) = LOOP) as = filter (\<lambda>b. m_type (heap s b) = LOOP) as"
    "Comparator (heap ?s1) = Comparator (heap s)"
    using Cons.prems by (auto simp: Comparator_upd intro: filter_cong)
  show ?case
  proof (cases "m_type (heap s a) = LOOP")
    case True
    then show ?thesis using Cons.IH Cons.prems by (auto simp: Let_def fun_eq_iff)
  next
    case False
    let ?g = "\<lambda>h A b. if b \<in> A \<and> m_type (h b) \<noteq> LOOP then (h b)\<lparr>m_fiber := None\<rparr> else h b :: timer"
    have "?g (heap ?s1) (set as) = ?g (heap s) (set (a # as))"
      using False Cons.prems by (intro ext) auto
    then have "expire_loop as ?s1 =
      (map (\<lambda>b. m_fiber (heap s b)) as, ?s1\<lparr>heap := ?g (heap s) (set (a # as)),
         m_timers := fold (os_insert (timer_lt (heap s)))
           (filter (\<lambda>b. m_type (heap s b) = LOOP) as) (m_timers s)\<rparr>)"
      using Cons.IH [of ?s1] Cons.prems unfolding eqs by simp
    then show ?thesis using False by (simp add: Let_def)
  qed
qed simp

text \<open>In comparator order the expired timers are a prefix.\<close>

lemma due_prefix:
  assumes "sorted_wrt (timer_lt h) as"
  shows "takeWhile (\<lambda>a. m_nxtExpireTime (h a) \<le> now) as = filter (\<lambda>a. m_nxtExpireTime (h a) \<le> now) as"
    and "dropWhile (\<lambda>a. m_nxtExpireTime (h a) \<le> now) as = filter (\<lambda>a. \<not> m_nxtExpireTime (h a) \<le> now) as"
proof -
  have "filter (\<lambda>a. m_nxtExpireTime (h a) \<le> now) as = [] \<and>
      filter (\<lambda>a. \<not> m_nxtExpireTime (h a) \<le> now) as = as"
    if "sorted_wrt (timer_lt h) as" "as \<noteq> []" "\<not> m_nxtExpireTime (h (hd as)) \<le> now" for as
    using that timer_lt_le [of h "hd as"]
    by (cases as) (fastforce simp: filter_empty_conv filter_id_conv)+
  with assms show "takeWhile (\<lambda>a. m_nxtExpireTime (h a) \<le> now) as = filter (\<lambda>a. m_nxtExpireTime (h a) \<le> now) as"
    "dropWhile (\<lambda>a. m_nxtExpireTime (h a) \<le> now) as = filter (\<lambda>a. \<not> m_nxtExpireTime (h a) \<le> now) as"
    by (induction as) (fastforce split: if_splits)+
qed

lemma distinct_timers: "sorted_wrt (timer_lt h) as \<Longrightarrow> distinct as"
  by (induction as) (auto simp: tl.irrefl)

lemma set_fold_timer_insert: "set (fold (os_insert (timer_lt h)) xs ys) = set xs \<union> set ys"
  by (induction xs arbitrary: ys) (auto simp: set_timer_insert)

text \<open>What \<open>getExpiredTasks\<close> computes, from a manager in order.\<close>

lemma getExpiredTasks_eq:
  fixes now :: u64
  assumes "sorted_wrt (timer_lt (heap s)) (m_timers s)"
  defines "due \<equiv> \<lambda>a. m_nxtExpireTime (heap s a) \<le> now"
  shows "getExpiredTasks now s =
    (map (\<lambda>a. m_fiber (heap s a)) (filter due (m_timers s)),
     s\<lparr>heap := \<lambda>a. if (a \<in> set (m_timers s) \<and> due a) \<and> m_type (heap s a) \<noteq> LOOP
                 then (heap s a)\<lparr>m_fiber := None\<rparr> else heap s a,
       m_timers := fold (os_insert (timer_lt (heap s)))
         (filter (\<lambda>a. m_type (heap s a) = LOOP) (filter due (m_timers s)))
         (filter (\<lambda>a. \<not> due a) (m_timers s))\<rparr>)"
proof (cases "m_timers s = []")
  case False
  have "distinct (filter due (m_timers s))" using distinct_timers [OF assms(1)] by simp
  from expire_loop_eq [OF this] show ?thesis
    using False due_prefix [OF assms(1), of now]
    by (simp add: getExpiredTasks_def due_def Let_def cong: if_cong)
qed (simp add: getExpiredTasks_def)

lemma tm_ok_getExpiredTasks:
  assumes "tm_ok s"
  shows "tm_ok (snd (getExpiredTasks now s))"
proof -
  have srt: "sorted_wrt (timer_lt (heap s)) (m_timers s)" using assms by (simp add: tm_ok_def)
  let ?s = "snd (getExpiredTasks now s)"
  have h: "Comparator (heap ?s) = Comparator (heap s)"
    by (rule Comparator_cong) (simp add: getExpiredTasks_eq [OF srt])
  have "sorted_wrt (timer_lt (heap s)) (m_timers ?s)"
    using srt by (simp add: getExpiredTasks_eq tl.sorted_fold_os_insert sorted_wrt_filter)
  moreover have "a \<in> set (m_timers ?s) \<longleftrightarrow> armed (heap ?s a)" for a
    using assms by (auto simp: getExpiredTasks_eq [OF srt] set_fold_timer_insert tm_ok_def armed_def)
  moreover have "m_started (heap ?s a)" if "a \<in> set (m_timers ?s)" for a
    using that assms by (auto simp: getExpiredTasks_eq [OF srt] set_fold_timer_insert tm_ok_def)
  ultimately show ?thesis by (simp add: tm_ok_def h)
qed

section \<open>Properties\<close>

text \<open>
  C12. The manager's set stays in comparator order and holds exactly the armed timers under
  every operation that returns normally.
\<close>

theorem timer_manager_invariant:
  assumes "tm_ok s"
  shows "(\<forall>b s'. addTimer this p cb type s = (Inr b, s') \<longrightarrow> tm_ok s') \<and>
    tm_ok (snd (cancel a s)) \<and> tm_ok (snd (getExpiredTasks now s))"
  using assms tm_ok_addTimer tm_ok_cancel tm_ok_getExpiredTasks by blast

definition example_mgr :: timer_mgr where
  "example_mgr = \<lparr>heap = \<lambda>a. if a = 1 then \<lparr>m_fiber = Some 8, m_started = True, m_cancelled = False,
       m_type = LOOP, m_interval = 10, m_nxtExpireTime = 50, m_manager = True\<rparr> else Timer_at 90,
     m_timers = [1]\<rparr>"

lemma example_mgr_ok: "tm_ok example_mgr"
  by (simp add: tm_ok_def example_mgr_def armed_def Timer_at_def)

theorem timer_manager_invariant_witness:
  "tm_ok (snd (cancel 1 example_mgr)) \<and> tm_ok (snd (getExpiredTasks 60 example_mgr))"
  using timer_manager_invariant [OF example_mgr_ok] by blast

text \<open>
  C15. \<open>getExpiredTasks\<close> returns the fibers of exactly the armed timers whose time has come,
  earliest first, each once; afterwards the set holds the timers that are not due and the
  due \<open>LOOP\<close> timers.
\<close>

theorem getExpiredTasks_exact:
  assumes "tm_ok s" "getExpiredTasks now s = (res, s')"
  shows "\<exists>as. res = map (\<lambda>a. m_fiber (heap s a)) as \<and> distinct as \<and>
      sorted_wrt (\<lambda>a b. m_nxtExpireTime (heap s a) \<le> m_nxtExpireTime (heap s b)) as \<and>
      set as = {a. armed (heap s a) \<and> m_nxtExpireTime (heap s a) \<le> now} \<and>
      set (m_timers s') = {a. armed (heap s a) \<and>
        (now < m_nxtExpireTime (heap s a) \<or> m_type (heap s a) = LOOP)}"
proof -
  have srt: "sorted_wrt (timer_lt (heap s)) (m_timers s)"
    and mem: "a \<in> set (m_timers s) \<longleftrightarrow> armed (heap s a)" for a
    using assms(1) by (simp_all add: tm_ok_def)
  let ?as = "filter (\<lambda>a. m_nxtExpireTime (heap s a) \<le> now) (m_timers s)"
  have f: "sorted_wrt (timer_lt (heap s)) ?as" using srt by (rule sorted_wrt_filter)
  have "sorted_wrt (\<lambda>a b. m_nxtExpireTime (heap s a) \<le> m_nxtExpireTime (heap s b)) ?as"
    by (rule sorted_wrt_mono_rel [OF _ f]) (rule timer_lt_le)
  moreover have "distinct ?as" using f by (rule distinct_timers)
  moreover have "res = map (\<lambda>a. m_fiber (heap s a)) ?as" "set (m_timers s') = {a. armed (heap s a) \<and>
        (now < m_nxtExpireTime (heap s a) \<or> m_type (heap s a) = LOOP)}"
    using assms(2) by (auto simp: getExpiredTasks_eq [OF srt] set_fold_timer_insert mem)
  ultimately show ?thesis using mem by (intro exI [of _ ?as]) auto
qed

lemma example_mgr_expired:
  "getExpiredTasks 60 example_mgr = ([Some 8], example_mgr)"
  by (simp add: getExpiredTasks_def example_mgr_def Let_def)

theorem getExpiredTasks_exact_witness:
  "set (m_timers example_mgr) = {a. armed (heap example_mgr a) \<and>
     (60 < m_nxtExpireTime (heap example_mgr a) \<or> m_type (heap example_mgr a) = LOOP)}"
  using getExpiredTasks_exact [OF example_mgr_ok example_mgr_expired] by (elim exE conjE)

text \<open>
  \<open>addTimer\<close> asks for a wake-up of the reactor exactly when the new timer is the first of
  the set, in which case \<open>getNextExpireTime\<close> is its time; the time reported is never later
  than that of any armed timer.
\<close>

theorem addTimer_wakes_for_first:
  assumes "tm_ok s" "addTimer this (Some a) cb type s = (Inr b, s')"
  shows "(b \<longleftrightarrow> (\<forall>c \<in> set (m_timers s). c = a \<or> timer_lt (heap s) a c)) \<and>
    (b \<longrightarrow> getNextExpireTime s' = m_nxtExpireTime (heap s' a)) \<and>
    (\<forall>c \<in> set (m_timers s'). getNextExpireTime s' \<le> m_nxtExpireTime (heap s' c))"
proof -
  have srt: "sorted_wrt (timer_lt (heap s)) (m_timers s)" using assms(1) by (simp add: tm_ok_def)
  from assms(2) obtain t where t: "m_nxtExpireTime t = m_nxtExpireTime (heap s a)"
    "s' = s\<lparr>heap := (heap s)(a := t), m_timers := os_insert (timer_lt (heap s)) a (m_timers s)\<rparr>"
    "b \<longleftrightarrow> hd (m_timers s') = a"
    by (rule addTimer_Inr) auto
  have "sorted_wrt (timer_lt (heap s')) (m_timers s')"
    using tm_ok_addTimer [OF assms] by (simp add: tm_ok_def)
  moreover obtain c cs where "m_timers s' = c # cs"
    using t(2) by (cases "m_timers s'") auto
  ultimately have "getNextExpireTime s' = m_nxtExpireTime (heap s' (hd (m_timers s')))"
    "\<forall>c \<in> set (m_timers s'). getNextExpireTime s' \<le> m_nxtExpireTime (heap s' c)"
    using timer_lt_le by (auto simp: getNextExpireTime_def)
  moreover have "b \<longleftrightarrow> (\<forall>c \<in> set (m_timers s). c = a \<or> timer_lt (heap s) a c)"
    using t(2,3) hd_timer_insert [OF srt, of a] by simp
  ultimately show ?thesis using t(3) by auto
qed

lemma example_mgr_add:
  "addTimer 3 (Some 2) None SINGLE example_mgr =
    (Inr False, example_mgr\<lparr>heap := (heap example_mgr)(2 := (Timer_at 90)\<lparr>m_manager := True, m_fiber := Some 3,
        m_started := True\<rparr>), m_timers := [1, 2]\<rparr>)"
  by (simp add: addTimer_def example_mgr_def Timer_at_def setManager_def setTask_def timer_start_def
      Let_def Comparator_def)

theorem addTimer_wakes_for_first_witness:
  "\<exists>c \<in> set (m_timers example_mgr). c \<noteq> 2 \<and> \<not> timer_lt (heap example_mgr) 2 c"
  using addTimer_wakes_for_first [OF example_mgr_ok example_mgr_add] by blast

text \<open>
  Under the invariant \<open>cancel\<close> never erases the end iterator: it answers \<open>true\<close> exactly for
  an armed timer, and from then on the timer is out of the set and \<open>getExpiredTasks\<close>, at any
  time, leaves it alone. (The only failure left is a timer that never had a manager.)
\<close>

theorem cancel_disarms:
  assumes "tm_ok s" "m_manager (heap s a)"
  shows "\<exists>s'. cancel a s = (Inr (armed (heap s a)), s') \<and> tm_ok s' \<and> a \<notin> set (m_timers s') \<and>
    (\<forall>now. heap (snd (getExpiredTasks now s')) a = heap s' a) \<and>
    (\<forall>now. a \<notin> set (m_timers (snd (getExpiredTasks now s'))))"
proof -
  obtain b s' where c: "cancel a s = (b, s')" by fastforce
  have ok: "tm_ok s'" using tm_ok_cancel [OF assms(1), of a] c by simp
  have b: "b = Inr (armed (heap s a))" and un: "\<not> armed (heap s' a)"
    using c assms by (auto simp: cancel_eq armed_def split: if_splits)
  then have out: "a \<notin> set (m_timers s')" using ok by (simp add: tm_ok_def)
  have "sorted_wrt (timer_lt (heap s')) (m_timers s')" using ok by (simp add: tm_ok_def)
  then have "heap (snd (getExpiredTasks now s')) a = heap s' a"
    "a \<notin> set (m_timers (snd (getExpiredTasks now s')))" for now
    using out by (auto simp: getExpiredTasks_eq set_fold_timer_insert)
  with b c ok out show ?thesis by simp
qed

theorem cancel_disarms_witness:
  "\<exists>s'. cancel 1 example_mgr = (Inr True, s') \<and> 1 \<notin> set (m_timers s')"
  using cancel_disarms [OF example_mgr_ok, of 1] by (auto simp: example_mgr_def armed_def)

text \<open>
  A \<open>LOOP\<close> timer is re-armed with its old time, because \<open>setNextExpireTime\<close> is never
  called: once it is due, the interval to the next expiry is 0 and every later call of
  \<open>getExpiredTasks\<close> returns its fiber again, whatever its interval.
\<close>

theorem loop_timer_never_advances:
  assumes "tm_ok s" "a \<in> set (m_timers s)" "m_type (heap s a) = LOOP"
    and "m_nxtExpireTime (heap s a) \<le> now" "now \<le> later" "later \<noteq> - 1"
    and "getExpiredTasks now s = (res, s')"
  shows "m_fiber (heap s a) \<in> set res \<and> m_fiber (heap s a) \<in> set (fst (getExpiredTasks later s')) \<and>
    getNextExpireInterval later s' = 0"
proof -
  have srt: "sorted_wrt (timer_lt (heap s)) (m_timers s)" using assms(1) by (simp add: tm_ok_def)
  have ok: "tm_ok s'" using tm_ok_getExpiredTasks [OF assms(1), of now] assms(7) by simp
  then have srt': "sorted_wrt (timer_lt (heap s')) (m_timers s')" by (simp add: tm_ok_def)
  have r: "m_fiber (heap s a) \<in> set res" and h: "heap s' a = heap s a" and m: "a \<in> set (m_timers s')"
    using assms(2-7) by (auto simp: getExpiredTasks_eq [OF srt] set_fold_timer_insert)
  have le: "m_nxtExpireTime (heap s' a) \<le> later" using assms(4,5) h by simp
  then have again: "m_fiber (heap s a) \<in> set (fst (getExpiredTasks later s'))"
    using m h by (simp add: getExpiredTasks_eq [OF srt']) (metis (mono_tags, lifting) image_eqI mem_Collect_eq)
  obtain c cs where cs: "m_timers s' = c # cs" using m by (cases "m_timers s'") auto
  then have "m_nxtExpireTime (heap s' c) \<le> m_nxtExpireTime (heap s' a)"
    using srt' m timer_lt_le by auto
  then have n: "getNextExpireTime s' \<le> later" using cs le by (simp add: getNextExpireTime_def)
  then have "getNextExpireTime s' \<noteq> - 1" using assms(6) word_order.extremum_uniqueI by metis
  with n have "getNextExpireInterval later s' = 0"
    by (auto simp: getNextExpireInterval_def Let_def)
  with r again show ?thesis by simp
qed

theorem loop_timer_never_advances_witness:
  "Some 8 \<in> set (fst (getExpiredTasks 70 example_mgr)) \<and> getNextExpireInterval 70 example_mgr = 0"
  using loop_timer_never_advances [OF example_mgr_ok _ _ _ _ _ example_mgr_expired, of 1 70]
  by (simp add: example_mgr_def)

end
