(* ===== verification/Reactor.thy ===== *)
theory Reactor
  imports Timer
begin

text \<open>
  The epoll reactor (\<open>src/src/scheduler/Reactor.hpp\<close>, \<open>Reactor.cpp\<close>): the table of pending
  read and write events per descriptor, the count of held fibers, and one turn of the event
  loop. The reactor is a timer manager; that part of it is the field \<open>timers\<close>.

  The kernel is a parameter: \<open>ctl op fd events\<close> is the result of \<open>epoll_ctl\<close> and \<open>nonb fd\<close>
  that of \<open>setNonb\<close>; nothing is assumed about either. The fibers passed to
  \<open>m_sched->addFiber\<close> are collected, in order, in the field \<open>ready\<close> for the scheduler. A
  failed \<open>ASSERT\<close> is an error outcome. Each operation on a descriptor runs under the lock of
  its table entry.
\<close>

section \<open>State\<close>

type_synonym EventType = u32

definition EV_NONE :: EventType where "EV_NONE = 0"

definition READ :: EventType where "READ = 0x001"

definition WRITE :: EventType where "WRITE = 0x004"

definition EPOLLERR :: u32 where "EPOLLERR = 0x008"

definition EPOLLHUP :: u32 where "EPOLLHUP = 0x010"

definition EPOLLET :: u32 where "EPOLLET = push_bit 31 1"

datatype epoll_op = EPOLL_CTL_ADD | EPOLL_CTL_DEL | EPOLL_CTL_MOD

type_synonym kernel = "epoll_op \<Rightarrow> int \<Rightarrow> u32 \<Rightarrow> int"

record FdEvent =
  fd :: int
  event :: EventType
  rdtask :: "nat option"
  wrtask :: "nat option"

record reactor =
  timers :: timer_mgr
  m_eventMap :: "FdEvent list"
  m_holdCount :: int
  m_stopping :: bool
  ready :: "nat option list"
  wakes :: nat \<comment> \<open>bytes written to the notification pipe\<close>

datatype re_error =
    ReactorAssert
  | BadIndex \<comment> \<open>\<open>m_eventMap[fd]\<close> out of range (undefined behaviour)\<close>

type_synonym 'a re = "(reactor, re_error, 'a) st_exn"

abbreviation ev_at :: "reactor \<Rightarrow> int \<Rightarrow> FdEvent" where
  "ev_at r f \<equiv> m_eventMap r ! nat f"

abbreviation set_ev :: "int \<Rightarrow> FdEvent \<Rightarrow> reactor \<Rightarrow> reactor" where
  "set_ev f e r \<equiv> r\<lparr>m_eventMap := (m_eventMap r)[nat f := e]\<rparr>"

text \<open>\<open>(size_t)fd < m_eventMap.size()\<close>: a negative descriptor becomes a huge unsigned number.\<close>

definition in_map :: "int \<Rightarrow> reactor \<Rightarrow> bool" where
  "in_map f r \<longleftrightarrow> 0 \<le> f \<and> nat f < length (m_eventMap r)"

section \<open>The table\<close>

definition resizeMap :: "nat \<Rightarrow> reactor \<Rightarrow> reactor" where
  "resizeMap sz r =
     r\<lparr>m_eventMap := take sz (m_eventMap r) @
        map (\<lambda>i. \<lparr>fd = int i, event = EV_NONE, rdtask = None, wrtask = None\<rparr>)
          [length (m_eventMap r)..<sz]\<rparr>"

text \<open>The state the constructor leaves.\<close>

definition Reactor :: reactor where
  "Reactor = resizeMap 4096
     \<lparr>timers = \<lparr>heap = \<lambda>_. Timer_at 0, m_timers = []\<rparr>, m_eventMap = [], m_holdCount = 0,
      m_stopping = False, ready = [], wakes = 0\<rparr>"

definition notify :: "reactor \<Rightarrow> reactor" where
  "notify r = r\<lparr>wakes := Suc (wakes r)\<rparr>"

definition reactor_stop :: "reactor \<Rightarrow> reactor" where
  "reactor_stop r = notify (r\<lparr>m_stopping := True\<rparr>)"

definition isStopping :: "int \<Rightarrow> reactor \<Rightarrow> bool" where
  "isStopping totalFibers r \<longleftrightarrow> m_holdCount r = 0 \<and> m_stopping r \<and> totalFibers = 0"

section \<open>Events\<close>

definition addEvent :: "(int \<Rightarrow> int) \<Rightarrow> kernel \<Rightarrow> int \<Rightarrow> nat option \<Rightarrow> EventType \<Rightarrow> int re" where
  "addEvent nonb ctl f fiber type r =
     (if \<not> (type = READ \<or> type = WRITE) then (Inl ReactorAssert, r)
      else if f < 0 then (Inl ReactorAssert, r)
      else
        let r1 = (if in_map f r then r else resizeMap (length (m_eventMap r) * 2) r)
        in if \<not> in_map f r1 then (Inl BadIndex, r1)
           else
             let epEv = ev_at r1 f
             in if nonb f < 0 then (Inr (- 1), r1)
                else if type AND event epEv \<noteq> 0 then (Inr (- 1), r1)
                else if ctl (if event epEv = EV_NONE then EPOLL_CTL_ADD else EPOLL_CTL_MOD) f
                          (event epEv OR EPOLLET OR type) \<noteq> 0
                then (Inr (- 1), r1)
                else if type AND READ \<noteq> 0
                then if rdtask epEv \<noteq> None then (Inl ReactorAssert, r1)
                     else (Inr 0, (set_ev f (epEv\<lparr>rdtask := fiber, event := event epEv OR READ\<rparr>) r1)
                             \<lparr>m_holdCount := m_holdCount r1 + 1\<rparr>)
                else if wrtask epEv \<noteq> None then (Inl ReactorAssert, r1)
                     else (Inr 0, (set_ev f (epEv\<lparr>wrtask := fiber, event := event epEv OR WRITE\<rparr>) r1)
                             \<lparr>m_holdCount := m_holdCount r1 + 1\<rparr>))"

definition delEvent :: "kernel \<Rightarrow> int \<Rightarrow> EventType \<Rightarrow> int re" where
  "delEvent ctl f type r =
     (if \<not> (type = READ \<or> type = WRITE) then (Inl ReactorAssert, r)
      else if \<not> in_map f r then (Inr (- 1), r)
      else
        let epEv = ev_at r f
        in if type AND event epEv = EV_NONE then (Inr (- 1), r)
           else
             let tevent = NOT type AND event epEv
             in if ctl (if tevent \<noteq> 0 then EPOLL_CTL_MOD else EPOLL_CTL_DEL) f (tevent OR EPOLLET) \<noteq> 0
                then (Inr (- 1), r)
                else
                  let e1 = epEv\<lparr>event := tevent\<rparr>;
                      e2 = (if type AND READ \<noteq> 0 then e1\<lparr>rdtask := None\<rparr> else e1\<lparr>wrtask := None\<rparr>)
                  in (Inr 0, (set_ev f e2 r)\<lparr>m_holdCount := m_holdCount r - 1\<rparr>))"

text \<open>
  \<open>triggerEvent\<close>: \<open>m_sched->addFiber\<close> is called with the swapped-out pointer. Only the read
  branch asserts that there is one.
\<close>

definition triggerEvent :: "int \<Rightarrow> EventType \<Rightarrow> unit re" where
  "triggerEvent f type r =
     (let epEv = ev_at r f in
      if \<not> (type = READ \<or> type = WRITE) \<or> type AND event epEv = 0 then (Inl ReactorAssert, r)
      else
        let e1 = epEv\<lparr>event := event epEv AND NOT type\<rparr>
        in if type AND READ \<noteq> 0
           then if rdtask epEv = None then (Inl ReactorAssert, set_ev f e1 r)
                else (Inr (), (set_ev f (e1\<lparr>rdtask := None\<rparr>) r)\<lparr>ready := ready r @ [rdtask epEv]\<rparr>)
           else (Inr (), (set_ev f (e1\<lparr>wrtask := None\<rparr>) r)\<lparr>ready := ready r @ [wrtask epEv]\<rparr>))"

text \<open>Trigger an event and take it off the count.\<close>

definition trigger_release :: "int \<Rightarrow> EventType \<Rightarrow> unit re" where
  "trigger_release f type =
     sbind (triggerEvent f type) (\<lambda>_ r. (Inr (), r\<lparr>m_holdCount := m_holdCount r - 1\<rparr>))"

definition cancelEvent :: "kernel \<Rightarrow> int \<Rightarrow> EventType \<Rightarrow> int re" where
  "cancelEvent ctl f type r =
     (if \<not> (type = READ \<or> type = WRITE) then (Inl ReactorAssert, r)
      else if \<not> in_map f r then (Inr (- 1), r)
      else
        let epEv = ev_at r f
        in if event epEv AND type = EV_NONE then (Inr (- 1), r)
           else
             let tevent = event epEv AND NOT type
             in if ctl (if tevent \<noteq> 0 then EPOLL_CTL_MOD else EPOLL_CTL_DEL) f (EPOLLET OR tevent) \<noteq> 0
                then (Inr (- 2), r)
                else sbind (trigger_release f type) (\<lambda>_. sret 0) r)"

definition cancelAll :: "kernel \<Rightarrow> int \<Rightarrow> int re" where
  "cancelAll ctl f r =
     (if \<not> in_map f r then (Inr (- 1), r)
      else
        let epEv = ev_at r f
        in if event epEv = EV_NONE then (Inr 0, r)
           else if ctl EPOLL_CTL_DEL f 0 \<noteq> 0 then (Inr (- 1), r)
           else
             sbind (if event epEv AND READ \<noteq> 0 then trigger_release f READ else sret ())
               (\<lambda>_ r1. sbind (if event (ev_at r1 f) AND WRITE \<noteq> 0 then trigger_release f WRITE else sret ())
                  (\<lambda>_. sret 0) r1) r)"

section \<open>The event loop\<close>

text \<open>The timeout handed to \<open>epoll_wait\<close>.\<close>

definition next_timeout :: "u64 \<Rightarrow> reactor \<Rightarrow> u64" where
  "next_timeout cur r = min (getNextExpireInterval cur (timers r)) 1000"

text \<open>
  One reported event, on the descriptor of a table entry: \<open>evs\<close> are the bits the kernel
  reported when \<open>epoll_wait\<close> returned; the entry may have changed since.
\<close>

definition handle_event :: "kernel \<Rightarrow> int \<times> u32 \<Rightarrow> unit re" where
  "handle_event ctl ev r =
     (let f = fst ev;
          epEv = ev_at r f;
          evs = (if snd ev AND (EPOLLERR OR EPOLLHUP) \<noteq> 0
                 then snd ev OR ((READ OR WRITE) AND event epEv) else snd ev);
          real_event = (if evs AND READ \<noteq> 0 then READ else EV_NONE) OR
                       (if evs AND WRITE \<noteq> 0 then WRITE else EV_NONE)
      in if real_event AND event epEv = EV_NONE then (Inr (), r)
         else
           let tevent = NOT real_event AND event epEv
           in if ctl (if tevent = EV_NONE then EPOLL_CTL_DEL else EPOLL_CTL_MOD) f (tevent OR EPOLLET) \<noteq> 0
              then (Inr (), r)
              else
                sbind (if real_event AND READ \<noteq> 0 then trigger_release f READ else sret ())
                  (\<lambda>_. if real_event AND WRITE \<noteq> 0 then trigger_release f WRITE else sret ()) r)"

fun handle_events :: "kernel \<Rightarrow> (int \<times> u32) list \<Rightarrow> unit re" where
  "handle_events ctl [] = sret ()"
| "handle_events ctl (ev # evs) = sbind (handle_event ctl ev) (\<lambda>_. handle_events ctl evs)"

text \<open>
  One turn of \<open>run\<close> after \<open>epoll_wait\<close> returned at time \<open>now\<close>: the expired timers' fibers go
  to the scheduler, then the events are handled; \<open>notified\<close> says whether the notification
  pipe was among them, which is then drained.
\<close>

definition run_turn :: "kernel \<Rightarrow> u64 \<Rightarrow> bool \<Rightarrow> (int \<times> u32) list \<Rightarrow> unit re" where
  "run_turn ctl now notified evs r =
     (case getExpiredTasks now (timers r) of
        (fibers, t) \<Rightarrow>
          handle_events ctl evs
            (r\<lparr>timers := t, ready := ready r @ fibers, wakes := (if notified then 0 else wakes r)\<rparr>))"

section \<open>Invariant\<close>

text \<open>
  Each entry describes its own descriptor, has only the two event bits, and holds a fiber
  for a bit exactly when the bit is set.
\<close>

definition fd_ok :: "FdEvent \<Rightarrow> bool" where
  "fd_ok e \<longleftrightarrow> event e \<in> {0, READ, WRITE, READ OR WRITE} \<and>
     (event e AND READ \<noteq> 0 \<longleftrightarrow> rdtask e \<noteq> None) \<and> (event e AND WRITE \<noteq> 0 \<longleftrightarrow> wrtask e \<noteq> None)"

definition re_ok :: "reactor \<Rightarrow> bool" where
  "re_ok r \<longleftrightarrow> (\<forall>i < length (m_eventMap r). fd (m_eventMap r ! i) = int i \<and> fd_ok (m_eventMap r ! i))"

text \<open>The number of fibers parked in the table, and the fibers among them.\<close>

definition parked :: "FdEvent \<Rightarrow> nat" where
  "parked e = (if rdtask e = None then 0 else 1) + (if wrtask e = None then 0 else 1)"

definition pending :: "reactor \<Rightarrow> int" where
  "pending r = int (sum_list (map parked (m_eventMap r)))"

text \<open>Holds that do not come from the table: fibers waiting on a \<open>CoSemaphore\<close>.\<close>

definition other_holds :: "reactor \<Rightarrow> int" where
  "other_holds r = m_holdCount r - pending r"

lemmas ev_defs = READ_def WRITE_def EV_NONE_def

lemma ev_cases:
  assumes "fd_ok e"
  obtains "event e = 0" "rdtask e = None" "wrtask e = None"
  | x where "event e = 1" "rdtask e = Some x" "wrtask e = None"
  | y where "event e = 4" "rdtask e = None" "wrtask e = Some y"
  | x y where "event e = 5" "rdtask e = Some x" "wrtask e = Some y"
  using assms by (auto simp: fd_ok_def ev_defs)

lemma pending_update:
  "i < length (m_eventMap r) \<Longrightarrow>
   pending (r\<lparr>m_eventMap := (m_eventMap r)[i := e]\<rparr>) =
     pending r + int (parked e) - int (parked (m_eventMap r ! i))"
proof -
  have "i < length xs \<Longrightarrow> sum_list (map parked (xs[i := e])) + parked (xs ! i) =
      sum_list (map parked xs) + parked e" for xs
  proof (induction xs arbitrary: i)
    case (Cons x xs)
    then show ?case by (cases i) (simp_all add: algebra_simps)
  qed simp
  from this [of "m_eventMap r"] show "i < length (m_eventMap r) \<Longrightarrow> ?thesis"
    by (simp add: pending_def)
qed

lemma re_ok_update:
  "re_ok r \<Longrightarrow> fd e = int i \<Longrightarrow> fd_ok e \<Longrightarrow> re_ok (r\<lparr>m_eventMap := (m_eventMap r)[i := e]\<rparr>)"
  by (cases "i < length (m_eventMap r)") (auto simp: re_ok_def nth_list_update)

lemma re_ok_entry: "re_ok r \<Longrightarrow> in_map f r \<Longrightarrow> fd (ev_at r f) = f \<and> fd_ok (ev_at r f)"
  by (auto simp: re_ok_def in_map_def)

lemma re_ok_resizeMap: "re_ok r \<Longrightarrow> length (m_eventMap r) \<le> sz \<Longrightarrow> re_ok (resizeMap sz r)"
  by (auto simp: re_ok_def resizeMap_def nth_append fd_ok_def ev_defs)

lemma pending_resizeMap: "length (m_eventMap r) \<le> sz \<Longrightarrow> pending (resizeMap sz r) = pending r"
  by (simp add: pending_def resizeMap_def parked_def comp_def)

text \<open>What a reactor operation keeps: the invariant and the holds from outside the table.\<close>

definition keeps :: "reactor \<Rightarrow> reactor \<Rightarrow> bool" where
  "keeps r r' \<longleftrightarrow> re_ok r' \<and> other_holds r' = other_holds r \<and>
     length (m_eventMap r) \<le> length (m_eventMap r') \<and> timers r' = timers r"

lemma keeps_trans: "keeps r r1 \<Longrightarrow> keeps r1 r2 \<Longrightarrow> keeps r r2"
  by (simp add: keeps_def)

lemma keeps_refl: "re_ok r \<Longrightarrow> keeps r r"
  by (simp add: keeps_def)

lemma keeps_set_ev:
  assumes "re_ok r" "in_map f r" "fd e = f" "fd_ok e"
    and "h = int (parked e) - int (parked (ev_at r f))"
    and "r' = (set_ev f e r)\<lparr>m_holdCount := m_holdCount r + h, ready := q\<rparr>"
  shows "keeps r r'"
proof -
  have i: "nat f < length (m_eventMap r)" "f = int (nat f)" using assms(2) by (simp_all add: in_map_def)
  have "re_ok (set_ev f e r)" using re_ok_update [OF assms(1)] assms(3,4) i by simp
  moreover have "pending r' = pending (set_ev f e r)" by (simp add: assms(6) pending_def)
  ultimately show ?thesis
    using pending_update [OF i(1), of e] assms(5,6) by (simp add: keeps_def re_ok_def other_holds_def)
qed

text \<open>Releasing an event that is registered.\<close>

definition clear_ev :: "EventType \<Rightarrow> FdEvent \<Rightarrow> FdEvent" where
  "clear_ev type e = (if type = READ then e\<lparr>event := event e AND NOT type, rdtask := None\<rparr>
     else e\<lparr>event := event e AND NOT type, wrtask := None\<rparr>)"

lemma clear_ev_ok:
  assumes "fd_ok e" "type = READ \<or> type = WRITE" "type AND event e \<noteq> 0"
  shows "fd_ok (clear_ev type e)" "int (parked (clear_ev type e)) - int (parked e) = - 1"
  using assms by (cases rule: ev_cases; auto simp: fd_ok_def clear_ev_def ev_defs parked_def)+

lemma trigger_release_ok:
  assumes "re_ok r" "in_map f r" "type = READ \<or> type = WRITE" "type AND event (ev_at r f) \<noteq> 0"
  defines "r' \<equiv> (set_ev f (clear_ev type (ev_at r f)) r)
    \<lparr>ready := ready r @ [if type = READ then rdtask (ev_at r f) else wrtask (ev_at r f)],
     m_holdCount := m_holdCount r - 1\<rparr>"
  shows "trigger_release f type r = (Inr (), r')" "keeps r r'"
    "(if type = READ then rdtask (ev_at r f) else wrtask (ev_at r f)) \<noteq> None"
    "ev_at r' f = clear_ev type (ev_at r f)" "in_map f r'"
proof -
  let ?e = "ev_at r f"
  have e: "fd ?e = f" "fd_ok ?e" using re_ok_entry [OF assms(1,2)] by simp_all
  show x: "(if type = READ then rdtask ?e else wrtask ?e) \<noteq> None"
    using assms(3,4) e(2) by (auto simp: fd_ok_def ev_defs and.commute)
  then show "trigger_release f type r = (Inr (), r')"
    using assms(3,4)
    by (auto simp: trigger_release_def triggerEvent_def sbind_def Let_def ev_defs clear_ev_def r'_def)
  note c = clear_ev_ok [OF e(2) assms(3,4)]
  have "fd (clear_ev type ?e) = f" using e(1) by (simp add: clear_ev_def)
  from keeps_set_ev [OF assms(1,2) this c(1), of "- 1" r' "ready r'"] c(2)
  show "keeps r r'" by (simp add: r'_def)
  show "ev_at r' f = clear_ev type ?e" "in_map f r'"
    using assms(2) by (simp_all add: in_map_def r'_def)
qed

section \<open>Operations\<close>

lemma addEvent_keeps:
  assumes "re_ok r" "addEvent nonb ctl f (Some x) type r = (Inr rt, r')"
  shows "keeps r r'" and "rt = 0 \<Longrightarrow> in_map f r' \<and> event (ev_at r' f) AND type = type \<and>
    (if type = READ then rdtask (ev_at r' f) else wrtask (ev_at r' f)) = Some x"
proof -
  define r1 where "r1 = (if in_map f r then r else resizeMap (length (m_eventMap r) * 2) r)"
  have k1: "keeps r r1"
    using assms(1) re_ok_resizeMap [of r] pending_resizeMap [of r]
    by (auto simp: keeps_def r1_def other_holds_def resizeMap_def)
  then have ok1: "re_ok r1" by (simp add: keeps_def)
  have ty: "type = READ \<or> type = WRITE" and im: "in_map f r1"
    using assms(2) by (auto simp: addEvent_def r1_def Let_def split: if_splits)
  let ?e = "ev_at r1 f"
  let ?e' = "if type = READ then ?e\<lparr>rdtask := Some x, event := event ?e OR READ\<rparr>
    else ?e\<lparr>wrtask := Some x, event := event ?e OR WRITE\<rparr>"
  have e: "fd ?e = f" "fd_ok ?e" using re_ok_entry [OF ok1 im] by simp_all
  have res: "(rt = - 1 \<and> r' = r1) \<or> (rt = 0 \<and> type AND event ?e = 0 \<and>
      r' = (set_ev f ?e' r1)\<lparr>m_holdCount := m_holdCount r1 + 1\<rparr>)"
    using assms(2) ty im
    by (auto simp: addEvent_def r1_def [symmetric] Let_def ev_defs split: if_splits)
  have e': "fd_ok ?e'" "int (parked ?e') - int (parked ?e) = 1" "event ?e' AND type = type"
    if "type AND event ?e = 0"
    using e(2) ty that by (cases rule: ev_cases; auto simp: fd_ok_def ev_defs parked_def)+
  have fe: "fd ?e' = f" using e(1) by simp
  have k2: "keeps r1 ((set_ev f ?e' r1)\<lparr>m_holdCount := m_holdCount r1 + 1\<rparr>)" if "type AND event ?e = 0"
    using keeps_set_ev [OF ok1 im fe e'(1) [OF that] _ refl, of 1 "ready r1"] e'(2) [OF that] by simp
  show "keeps r r'" using res k1 k2 keeps_trans by blast
  show "in_map f r' \<and> event (ev_at r' f) AND type = type \<and>
    (if type = READ then rdtask (ev_at r' f) else wrtask (ev_at r' f)) = Some x" if "rt = 0"
    using that res im e'(3) by (auto simp: in_map_def)
qed

lemma delEvent_keeps:
  assumes "re_ok r" "delEvent ctl f type r = (Inr rt, r')"
  shows "keeps r r'"
proof (cases "rt = 0 \<and> in_map f r \<and> type AND event (ev_at r f) \<noteq> 0")
  case True
  have ty: "type = READ \<or> type = WRITE" using assms(2) by (auto simp: delEvent_def split: if_splits)
  let ?e = "ev_at r f"
  let ?e' = "if type = READ then ?e\<lparr>event := NOT type AND event ?e, rdtask := None\<rparr>
    else ?e\<lparr>event := NOT type AND event ?e, wrtask := None\<rparr>"
  have e: "fd ?e = f" "fd_ok ?e" using re_ok_entry [OF assms(1)] True by simp_all
  have r': "r' = (set_ev f ?e' r)\<lparr>m_holdCount := m_holdCount r - 1\<rparr>"
    using assms(2) ty True by (auto simp: delEvent_def Let_def ev_defs split: if_splits)
  have "fd_ok ?e'" "int (parked ?e') - int (parked ?e) = - 1"
    using e(2) ty True by (cases rule: ev_cases; auto simp: fd_ok_def ev_defs parked_def)+
  then show ?thesis
    using keeps_set_ev [OF assms(1), of f ?e' "- 1" r' "ready r"] True e(1) r' by simp
next
  case False
  then have "r' = r" using assms(2) by (auto simp: delEvent_def Let_def EV_NONE_def split: if_splits)
  then show ?thesis using assms(1) by (simp add: keeps_refl)
qed

text \<open>The fibers an entry holds for the given bits, read first.\<close>

definition fibers_for :: "EventType \<Rightarrow> FdEvent \<Rightarrow> nat option list" where
  "fibers_for m e = (if m AND READ \<noteq> 0 then [rdtask e] else []) @ (if m AND WRITE \<noteq> 0 then [wrtask e] else [])"

definition release :: "EventType \<Rightarrow> int \<Rightarrow> unit re" where
  "release m f = sbind (if m AND READ \<noteq> 0 then trigger_release f READ else sret ())
     (\<lambda>_. if m AND WRITE \<noteq> 0 then trigger_release f WRITE else sret ())"

lemma release_ok:
  assumes ok: "re_ok r" and im: "in_map f r" and m: "m \<in> {0, READ, WRITE, READ OR WRITE}"
    and sub: "m AND NOT (event (ev_at r f)) = 0"
  obtains r' where "release m f r = (Inr (), r')" "keeps r r'"
    "ready r' = ready r @ fibers_for m (ev_at r f)" "event (ev_at r' f) = event (ev_at r f) AND NOT m"
    "\<forall>x \<in> set (fibers_for m (ev_at r f)). x \<noteq> None"
    "\<forall>i. i \<noteq> nat f \<longrightarrow> m_eventMap r' ! i = m_eventMap r ! i"
proof -
  let ?e = "ev_at r f"
  have ev: "event ?e \<in> {0, READ, WRITE, READ OR WRITE}" using re_ok_entry [OF ok im] by (simp add: fd_ok_def)
  have bits: "m AND READ \<noteq> 0 \<Longrightarrow> READ AND event ?e \<noteq> 0" "m AND WRITE \<noteq> 0 \<Longrightarrow> WRITE AND event ?e \<noteq> 0"
    using m ev sub by (auto simp: ev_defs)
  note rd = trigger_release_ok [OF ok im disjI1 [OF refl] bits(1)]
  define r1 where "r1 = (if m AND READ \<noteq> 0 then (set_ev f (clear_ev READ ?e) r)
    \<lparr>ready := ready r @ [rdtask ?e], m_holdCount := m_holdCount r - 1\<rparr> else r)"
  have r1: "(if m AND READ \<noteq> 0 then trigger_release f READ else sret ()) r = (Inr (), r1)"
    "keeps r r1" "in_map f r1" "m AND READ \<noteq> 0 \<longrightarrow> rdtask ?e \<noteq> None"
    "ev_at r1 f = (if m AND READ \<noteq> 0 then clear_ev READ ?e else ?e)"
    using rd ok im by (auto simp: r1_def sret_def keeps_refl)
  have ok1: "re_ok r1" using r1(2) by (simp add: keeps_def)
  have w: "WRITE AND event (ev_at r1 f) \<noteq> 0" if "m AND WRITE \<noteq> 0"
    using bits(2) [OF that] ev by (auto simp: r1(5) clear_ev_def ev_defs)
  note wr = trigger_release_ok [OF ok1 r1(3) disjI2 [OF refl] w]
  define r2 where "r2 = (if m AND WRITE \<noteq> 0 then (set_ev f (clear_ev WRITE (ev_at r1 f)) r1)
    \<lparr>ready := ready r1 @ [wrtask (ev_at r1 f)], m_holdCount := m_holdCount r1 - 1\<rparr> else r1)"
  have ne: "WRITE \<noteq> READ" by (simp add: ev_defs)
  have r2: "release m f r = (Inr (), r2)" "keeps r1 r2" "m AND WRITE \<noteq> 0 \<longrightarrow> wrtask (ev_at r1 f) \<noteq> None"
    "ev_at r2 f = (if m AND WRITE \<noteq> 0 then clear_ev WRITE (ev_at r1 f) else ev_at r1 f)"
    using wr r1(1) ok1 ne by (auto simp: r2_def release_def sbind_Inr sret_def keeps_refl)
  have wt: "wrtask (ev_at r1 f) = wrtask ?e" by (simp add: r1(5) clear_ev_def)
  have "ready r2 = ready r @ fibers_for m ?e"
    by (simp add: r2_def r1_def [THEN arg_cong, of ready] fibers_for_def wt if_distrib)
  moreover have "event (ev_at r2 f) = event ?e AND NOT m"
    using m ev by (auto simp: r2(4) r1(5) clear_ev_def ev_defs)
  moreover have "\<forall>x \<in> set (fibers_for m ?e). x \<noteq> None"
    using r1(4) r2(3) wt by (auto simp: fibers_for_def)
  moreover have "\<forall>i. i \<noteq> nat f \<longrightarrow> m_eventMap r2 ! i = m_eventMap r ! i"
    by (simp add: r2_def r1_def)
  ultimately show thesis using that [OF r2(1)] r1(2) r2(2) keeps_trans by blast
qed

lemma cancelEvent_keeps:
  assumes "re_ok r" "type = READ \<or> type = WRITE"
  shows "\<exists>rt r'. cancelEvent ctl f type r = (Inr rt, r') \<and> keeps r r' \<and>
    (rt = 0 \<longrightarrow> ready r' = ready r @ fibers_for type (ev_at r f)) \<and> (rt \<noteq> 0 \<longrightarrow> r' = r)"
proof (cases "in_map f r \<and> type AND event (ev_at r f) \<noteq> 0")
  case True
  note t = trigger_release_ok [OF assms(1) _ assms(2), of f]
  have "fibers_for type (ev_at r f) = [if type = READ then rdtask (ev_at r f) else wrtask (ev_at r f)]"
    using assms(2) by (auto simp: fibers_for_def ev_defs)
  then show ?thesis
    using True t assms keeps_refl [OF assms(1)]
    by (auto simp: cancelEvent_def Let_def EV_NONE_def and.commute sbind_Inr sret_def)
next
  case False
  then show ?thesis
    using assms keeps_refl [OF assms(1)] by (auto simp: cancelEvent_def Let_def EV_NONE_def and.commute)
qed

lemma cancelAll_keeps:
  assumes "re_ok r"
  shows "\<exists>rt r'. cancelAll ctl f r = (Inr rt, r') \<and> keeps r r' \<and>
    (rt = 0 \<longrightarrow> event (ev_at r' f) = 0 \<and> ready r' = ready r @ fibers_for (event (ev_at r f)) (ev_at r f)) \<and>
    (rt \<noteq> 0 \<longrightarrow> r' = r)"
proof (cases "in_map f r \<and> event (ev_at r f) \<noteq> 0 \<and> ctl EPOLL_CTL_DEL f 0 = 0")
  case True
  let ?m = "event (ev_at r f)"
  have m: "?m \<in> {0, READ, WRITE, READ OR WRITE}" using re_ok_entry [OF assms, of f] True by (auto simp: fd_ok_def)
  obtain r' where r': "release ?m f r = (Inr (), r')" "keeps r r'" "ready r' = ready r @ fibers_for ?m (ev_at r f)"
    "event (ev_at r' f) = 0"
    by (rule release_ok [OF assms conjunct1 [OF True] m]) auto
  have b: "event (ev_at r1 f) AND WRITE = ?m AND WRITE"
    if "(if ?m AND READ \<noteq> 0 then trigger_release f READ else sret ()) r = (Inr (), r1)" for r1
  proof (cases "?m AND READ \<noteq> 0")
    case True
    then show ?thesis
      using that m trigger_release_ok [OF assms, of f READ] \<open>in_map f r \<and> _ \<and> _\<close>
      by (auto simp: clear_ev_def ev_defs and.commute)
  qed (use that in \<open>simp add: sret_def\<close>)
  let ?A = "if ?m AND READ \<noteq> 0 then trigger_release f READ else sret ()"
  let ?B = "if ?m AND WRITE \<noteq> 0 then trigger_release f WRITE else sret ()"
  obtain r1 where A: "?A r = (Inr (), r1)" and B: "?B r1 = (Inr (), r')"
    using r'(1) unfolding release_def sbind_Inr_iff by auto
  have "cancelAll ctl f r = (Inr 0, r')"
    unfolding cancelAll_def Let_def sbind_Inr [where m = ?A and s = r, OF A] b [OF A]
      sbind_Inr [where m = ?B and s = r1, OF B]
    using True by (simp add: EV_NONE_def sret_def)
  with r' show ?thesis by simp
next
  case False
  then show ?thesis
    using keeps_refl [OF assms]
    by (auto simp: cancelAll_def Let_def EV_NONE_def fibers_for_def)
qed

text \<open>The bits of an event the loop acts on, given what is registered.\<close>

definition real_bits :: "u32 \<Rightarrow> EventType \<Rightarrow> EventType" where
  "real_bits evs reg =
     (let evs' = (if evs AND (EPOLLERR OR EPOLLHUP) \<noteq> 0 then evs OR ((READ OR WRITE) AND reg) else evs)
      in (if evs' AND READ \<noteq> 0 then READ else EV_NONE) OR (if evs' AND WRITE \<noteq> 0 then WRITE else EV_NONE))"

lemma real_bits_cases: "real_bits evs reg \<in> {0, READ, WRITE, READ OR WRITE}"
  by (simp add: real_bits_def Let_def EV_NONE_def)

lemma handle_event_eq:
  "handle_event ctl (f, evs) r =
    (let m = real_bits evs (event (ev_at r f)); tev = NOT m AND event (ev_at r f)
     in if m AND event (ev_at r f) = EV_NONE \<or>
          ctl (if tev = EV_NONE then EPOLL_CTL_DEL else EPOLL_CTL_MOD) f (tev OR EPOLLET) \<noteq> 0
        then (Inr (), r) else release m f r)"
  by (simp add: handle_event_def real_bits_def release_def Let_def)

text \<open>The reported events agree with the table: every bit acted on is registered.\<close>

definition agrees :: "int \<times> u32 \<Rightarrow> reactor \<Rightarrow> bool" where
  "agrees ev r \<longleftrightarrow> in_map (fst ev) r \<and>
     real_bits (snd ev) (event (ev_at r (fst ev))) AND NOT (event (ev_at r (fst ev))) = 0"

text \<open>
  The bits of an event that are triggered: those the loop acts on, unless none of them is registered or
  the kernel refuses to change the registration.
\<close>

definition triggered :: "kernel \<Rightarrow> reactor \<Rightarrow> int \<times> u32 \<Rightarrow> EventType" where
  "triggered ctl r ev =
     (let reg = event (ev_at r (fst ev)); m = real_bits (snd ev) reg; left = reg AND NOT m
      in if m AND reg = 0 \<or> ctl (if left = 0 then EPOLL_CTL_DEL else EPOLL_CTL_MOD) (fst ev) (left OR EPOLLET) \<noteq> 0
         then 0 else m)"

definition woken :: "kernel \<Rightarrow> reactor \<Rightarrow> int \<times> u32 \<Rightarrow> nat option list" where
  "woken ctl r ev = fibers_for (triggered ctl r ev) (ev_at r (fst ev))"

lemma handle_event_keeps:
  assumes "re_ok r" "agrees ev r"
  shows "\<exists>r'. handle_event ctl ev r = (Inr (), r') \<and> keeps r r' \<and>
    ready r' = ready r @ woken ctl r ev \<and> None \<notin> set (woken ctl r ev) \<and>
    event (ev_at r' (fst ev)) = event (ev_at r (fst ev)) AND NOT (triggered ctl r ev) \<and>
    (\<forall>i. i \<noteq> nat (fst ev) \<longrightarrow> m_eventMap r' ! i = m_eventMap r ! i)"
proof -
  obtain f evs where ev: "ev = (f, evs)" by fastforce
  let ?m = "real_bits evs (event (ev_at r f))"
  obtain r' where r': "release ?m f r = (Inr (), r')" "keeps r r'"
    "ready r' = ready r @ fibers_for ?m (ev_at r f)" "event (ev_at r' f) = event (ev_at r f) AND NOT ?m"
    "\<forall>x \<in> set (fibers_for ?m (ev_at r f)). x \<noteq> None"
    "\<forall>i. i \<noteq> nat f \<longrightarrow> m_eventMap r' ! i = m_eventMap r ! i"
    using release_ok [OF assms(1) _ real_bits_cases] assms(2) by (metis agrees_def ev fst_conv snd_conv)
  have eq: "handle_event ctl ev r = (if triggered ctl r ev = 0 then (Inr (), r) else release ?m f r)"
    "triggered ctl r ev = 0 \<or> triggered ctl r ev = ?m"
    by (auto simp: ev handle_event_eq triggered_def Let_def EV_NONE_def and.commute)
  show ?thesis
  proof (cases "triggered ctl r ev = 0")
    case True
    then show ?thesis using eq(1) keeps_refl [OF assms(1)] by (simp add: woken_def fibers_for_def)
  next
    case False
    then have "triggered ctl r ev = ?m" using eq(2) by blast
    then show ?thesis using eq(1) False r' ev by (auto simp: woken_def)
  qed
qed

lemma handle_events_keeps:
  assumes "re_ok r" "\<forall>ev \<in> set evs. agrees ev r" "distinct (map fst evs)"
  shows "\<exists>r'. handle_events ctl evs r = (Inr (), r') \<and> keeps r r' \<and>
    ready r' = ready r @ concat (map (woken ctl r) evs) \<and> None \<notin> set (concat (map (woken ctl r) evs)) \<and>
    (\<forall>ev \<in> set evs. event (ev_at r' (fst ev)) = event (ev_at r (fst ev)) AND NOT (triggered ctl r ev)) \<and>
    (\<forall>i. i \<notin> nat ` fst ` set evs \<longrightarrow> m_eventMap r' ! i = m_eventMap r ! i)"
  using assms
proof (induction evs arbitrary: r)
  case Nil
  then show ?case by (simp add: sret_def keeps_refl)
next
  case (Cons ev evs)
  obtain r1 where r1: "handle_event ctl ev r = (Inr (), r1)" "keeps r r1" "ready r1 = ready r @ woken ctl r ev"
    "None \<notin> set (woken ctl r ev)" "event (ev_at r1 (fst ev)) = event (ev_at r (fst ev)) AND NOT (triggered ctl r ev)"
    "\<forall>i. i \<noteq> nat (fst ev) \<longrightarrow> m_eventMap r1 ! i = m_eventMap r ! i"
    using handle_event_keeps [of r ev ctl] Cons.prems by auto
  have other: "ev_at r1 (fst e) = ev_at r (fst e)" "agrees e r1" "nat (fst e) \<noteq> nat (fst ev)" if "e \<in> set evs" for e
  proof -
    have "fst e \<noteq> fst ev" "agrees e r" using that Cons.prems by (auto simp: rev_image_eqI)
    moreover have "in_map (fst ev) r" using Cons.prems by (simp add: agrees_def)
    ultimately show ne: "nat (fst e) \<noteq> nat (fst ev)" by (auto simp: agrees_def in_map_def)
    then show "ev_at r1 (fst e) = ev_at r (fst e)" using r1(6) by blast
    with r1(2) \<open>agrees e r\<close> show "agrees e r1" by (auto simp: agrees_def in_map_def keeps_def)
  qed
  then have same: "triggered ctl r1 e = triggered ctl r e" "woken ctl r1 e = woken ctl r e" if "e \<in> set evs" for e
    using that by (simp_all add: triggered_def woken_def)
  have "re_ok r1" "\<forall>ev \<in> set evs. agrees ev r1" "distinct (map fst evs)"
    using r1(2) other(2) Cons.prems(3) by (auto simp: keeps_def)
  from Cons.IH [OF this] obtain r2 where r2: "handle_events ctl evs r1 = (Inr (), r2)" "keeps r1 r2"
    "ready r2 = ready r1 @ concat (map (woken ctl r1) evs)" "None \<notin> set (concat (map (woken ctl r1) evs))"
    "\<forall>e \<in> set evs. event (ev_at r2 (fst e)) = event (ev_at r1 (fst e)) AND NOT (triggered ctl r1 e)"
    "\<forall>i. i \<notin> nat ` fst ` set evs \<longrightarrow> m_eventMap r2 ! i = m_eventMap r1 ! i" by blast
  have w: "map (woken ctl r1) evs = map (woken ctl r) evs" using same(2) by simp
  have "nat (fst ev) \<notin> nat ` fst ` set evs" using other(3) by force
  then have e: "ev_at r2 (fst ev) = ev_at r1 (fst ev)" using r2(6) by blast
  have "event (ev_at r2 (fst x)) = event (ev_at r (fst x)) AND NOT (triggered ctl r x)" if "x \<in> set (ev # evs)" for x
    using that e r1(5) r2(5) other(1) same(1) by auto
  moreover have "m_eventMap r2 ! i = m_eventMap r ! i" if "i \<notin> nat ` fst ` set (ev # evs)" for i
    using that r1(6) r2(6) by auto
  moreover have "handle_events ctl (ev # evs) r = (Inr (), r2)" using r1(1) r2(1) by (simp add: sbind_Inr)
  moreover have "keeps r r2" using keeps_trans [OF r1(2) r2(2)] .
  moreover have "ready r2 = ready r @ concat (map (woken ctl r) (ev # evs))" "None \<notin> set (concat (map (woken ctl r) (ev # evs)))"
    using r1(3,4) r2(3,4) unfolding w by auto
  ultimately show ?case by blast
qed

section \<open>Properties\<close>

text \<open>
  C8. Every operation on the event table keeps its invariant (a fiber is parked for exactly
  the registered bits, an entry describes its descriptor) and the hold count exact: the count
  minus the number of parked fibers does not change. This holds whatever the kernel answers.
\<close>

theorem reactor_hold_count_exact:
  assumes "re_ok r" "type = READ \<or> type = WRITE"
  shows "(\<forall>rt r'. addEvent nonb ctl f (Some x) type r = (Inr rt, r') \<longrightarrow>
       re_ok r' \<and> other_holds r' = other_holds r) \<and>
    (\<forall>rt r'. delEvent ctl f type r = (Inr rt, r') \<longrightarrow> re_ok r' \<and> other_holds r' = other_holds r) \<and>
    (\<exists>rt r'. cancelEvent ctl f type r = (Inr rt, r') \<and> re_ok r' \<and> other_holds r' = other_holds r) \<and>
    (\<exists>rt r'. cancelAll ctl f r = (Inr rt, r') \<and> re_ok r' \<and> other_holds r' = other_holds r)"
  using addEvent_keeps(1) [OF assms(1)] delEvent_keeps [OF assms(1)] cancelEvent_keeps [OF assms]
    cancelAll_keeps [OF assms(1)]
  unfolding keeps_def by metis

lemma Reactor_ok: "re_ok Reactor" "in_map f Reactor \<longleftrightarrow> 0 \<le> f \<and> f < 4096"
  by (auto simp: re_ok_def Reactor_def resizeMap_def fd_ok_def ev_defs in_map_def)

theorem reactor_hold_count_exact_witness:
  "\<exists>rt r'. cancelAll (\<lambda>_ _ _. 0) 7 Reactor = (Inr rt, r') \<and> re_ok r' \<and>
    other_holds r' = other_holds Reactor"
  using reactor_hold_count_exact [OF Reactor_ok(1), of READ] by blast

text \<open>
  C21. One turn of the event loop, when the reported bits agree with the table (each bit acted on is
  registered) and name each descriptor once: it does not fail, keeps the table invariant, the timer
  invariant and the exactness of the hold count. It hands to the scheduler first the fibers of the expired
  timers, then for each event in order, reading before writing, exactly the fibers parked for the bits that are
  triggered: the reported ones, both registered ones for an error or a hang-up, and none when the
  kernel refuses to change the registration. Exactly these bits are cleared in the table, the fibers are
  taken off the hold count, and no fiber is null.
\<close>

theorem reactor_turn_ok:
  assumes "re_ok r" "tm_ok (timers r)" "\<forall>ev \<in> set evs. agrees ev r" "distinct (map fst evs)"
  shows "\<exists>r' fs. run_turn ctl now notified evs r = (Inr (), r') \<and> re_ok r' \<and>
    tm_ok (timers r') \<and> other_holds r' = other_holds r \<and>
    ready r' = ready r @ fst (getExpiredTasks now (timers r)) @ fs \<and> None \<notin> set fs \<and>
    fs = concat (map (\<lambda>ev. fibers_for (triggered ctl r ev) (ev_at r (fst ev))) evs) \<and>
    (\<forall>ev \<in> set evs. event (ev_at r' (fst ev)) = event (ev_at r (fst ev)) AND NOT (triggered ctl r ev)) \<and>
    (\<forall>i. i \<notin> nat ` fst ` set evs \<longrightarrow> m_eventMap r' ! i = m_eventMap r ! i)"
proof -
  obtain fibers t where g: "getExpiredTasks now (timers r) = (fibers, t)" by fastforce
  let ?r = "r\<lparr>timers := t, ready := ready r @ fibers, wakes := (if notified then 0 else wakes r)\<rparr>"
  have "re_ok ?r" "\<forall>ev \<in> set evs. agrees ev ?r" "other_holds ?r = other_holds r"
    using assms(1,3) by (simp_all add: re_ok_def agrees_def in_map_def other_holds_def pending_def)
  moreover have "triggered ctl ?r = triggered ctl r" by (simp add: triggered_def fun_eq_iff)
  moreover have "woken ctl ?r = (\<lambda>ev. fibers_for (triggered ctl r ev) (ev_at r (fst ev)))"
    by (simp add: triggered_def woken_def fun_eq_iff)
  ultimately obtain r' where r': "handle_events ctl evs ?r = (Inr (), r')" "keeps ?r r'"
    "ready r' = ready ?r @ concat (map (\<lambda>ev. fibers_for (triggered ctl r ev) (ev_at r (fst ev))) evs)"
    "None \<notin> set (concat (map (\<lambda>ev. fibers_for (triggered ctl r ev) (ev_at r (fst ev))) evs))"
    "\<forall>ev \<in> set evs. event (ev_at r' (fst ev)) = event (ev_at r (fst ev)) AND NOT (triggered ctl r ev)"
    "\<forall>i. i \<notin> nat ` fst ` set evs \<longrightarrow> m_eventMap r' ! i = m_eventMap r ! i"
    using handle_events_keeps [of ?r evs ctl] assms(4) by auto
  have "tm_ok (timers r')" using r'(2) tm_ok_getExpiredTasks [OF assms(2), of now] g by (simp add: keeps_def)
  moreover have "run_turn ctl now notified evs r = (Inr (), r')" using r'(1) g by (simp add: run_turn_def)
  ultimately show ?thesis
    using r'(2-) g \<open>other_holds ?r = other_holds r\<close> by (intro exI [of _ r'] exI conjI refl) (simp_all add: keeps_def)
qed

definition one_reader :: reactor where
  "one_reader = Reactor\<lparr>m_eventMap := (m_eventMap Reactor)[3 := \<lparr>fd = 3, event = READ, rdtask = Some 9, wrtask = None\<rparr>], m_holdCount := 1\<rparr>"

theorem reactor_turn_ok_witness:
  "\<exists>r'. run_turn (\<lambda>_ _ _. 0) 5 False [(3, EPOLLHUP)] one_reader = (Inr (), r') \<and> other_holds r' = other_holds one_reader \<and>
    ready r' = [Some 9] \<and> event (ev_at r' 3) = 0"
proof -
  let ?e = "\<lparr>fd = 3, event = READ, rdtask = Some 9, wrtask = None\<rparr>"
  have len: "length (m_eventMap Reactor) = 4096" by (simp add: Reactor_def resizeMap_def)
  then have ev: "ev_at one_reader 3 = ?e" "in_map 3 one_reader" by (simp_all add: one_reader_def in_map_def)
  have "re_ok one_reader"
    using re_ok_update [OF Reactor_ok(1), of ?e 3] by (simp add: one_reader_def re_ok_def fd_ok_def ev_defs)
  moreover have "agrees (3, EPOLLHUP) one_reader"
    using ev by (simp add: agrees_def real_bits_def ev_defs EPOLLHUP_def EPOLLERR_def)
  moreover have "tm_ok (timers one_reader)" "ready one_reader = []" "fst (getExpiredTasks 5 (timers one_reader)) = []"
    by (simp_all add: one_reader_def Reactor_def resizeMap_def tm_ok_def armed_def Timer_at_def getExpiredTasks_def Let_def)
  moreover have "triggered (\<lambda>_ _ _. 0) one_reader (3, EPOLLHUP) = READ"
    using ev by (simp add: triggered_def real_bits_def ev_defs EPOLLHUP_def EPOLLERR_def)
  ultimately show ?thesis
    using reactor_turn_ok [of one_reader "[(3, EPOLLHUP)]" "\<lambda>_ _ _. 0" 5 False] ev
    by (auto simp: fibers_for_def ev_defs)
qed

text \<open>
  An event that was cancelled between \<open>epoll_wait\<close> and its handling ends the process: the
  entry waits for reading only, the kernel had reported both directions, and the loop
  triggers the write event without checking that it is still registered.
\<close>

theorem stale_event_asserts:
  assumes "re_ok r" "in_map f r" "event (ev_at r f) = READ" "\<And>op g e. ctl op g e = 0"
  shows "\<exists>r'. handle_event ctl (f, READ OR WRITE) r = (Inl ReactorAssert, r')"
proof -
  have m: "real_bits (READ OR WRITE) READ = READ OR WRITE"
    by (simp add: real_bits_def ev_defs EPOLLERR_def EPOLLHUP_def)
  obtain r1 where r1: "trigger_release f READ r = (Inr (), r1)" "event (ev_at r1 f) = 0"
    using trigger_release_ok [OF assms(1,2), of READ] assms(3) by (auto simp: clear_ev_def ev_defs)
  then have "trigger_release f WRITE r1 = (Inl ReactorAssert, r1)"
    by (simp add: trigger_release_def triggerEvent_def sbind_def Let_def)
  then show ?thesis
    using r1(1) m assms(3,4)
    by (simp add: handle_event_eq release_def sbind_Inr Let_def ev_defs)
qed

theorem stale_event_asserts_witness:
  "\<exists>r'. handle_event (\<lambda>_ _ _. 0) (0, READ OR WRITE) (Reactor\<lparr>m_eventMap := [\<lparr>fd = 0, event = READ,
      rdtask = Some 9, wrtask = None\<rparr>]\<rparr>) = (Inl ReactorAssert, r')"
  by (rule stale_event_asserts) (simp_all add: re_ok_def fd_ok_def in_map_def ev_defs)

text \<open>
  \<open>addEvent\<close> doubles the table once when the descriptor is beyond its end; a descriptor at
  or above twice the size is then used as an index out of range.
\<close>

theorem addEvent_index_out_of_range:
  assumes "2 * int (length (m_eventMap r)) \<le> f" "type = READ \<or> type = WRITE"
  shows "\<exists>r'. addEvent nonb ctl f fiber type r = (Inl BadIndex, r')"
  using assms by (auto simp: addEvent_def in_map_def resizeMap_def Let_def)

theorem addEvent_index_out_of_range_witness:
  "\<exists>r'. addEvent (\<lambda>_. 0) (\<lambda>_ _ _. 0) 8192 (Some 1) READ Reactor = (Inl BadIndex, r')"
  by (rule addEvent_index_out_of_range) (simp_all add: Reactor_def resizeMap_def)

end
