(* ===== verification/Scheduler.thy ===== *)
theory Scheduler
  imports Work_Queue Fiber Reactor
begin

text \<open>
  The scheduler and its processers (\<open>src/src/scheduler/Processer.hpp\<close>, \<open>Processer.cpp\<close>,
  \<open>Scheduler.hpp\<close>, \<open>Scheduler.cpp\<close>): dispatching fibers to the least loaded processer, the
  processer's loop over its work queue, the accounting of load, live fibers and held fibers,
  rebalancing, start and stop.

  The state of a scheduler holds its processers in a list, so that a \<open>Processer::ptr\<close> is an
  index; fibers are addresses, with their \<open>State\<close> in \<open>fstate\<close>. Code of the user, which runs
  between \<open>swapIn\<close> and the switch back, is a parameter. A failed \<open>ASSERT\<close> is an error outcome.
\<close>

section \<open>State\<close>

record processer =
  m_payLoad :: int
  m_que :: "nat work_queue"
  p_stop :: bool
  p_stopping :: bool
  p_idle :: bool
  m_sem :: nat

record scheduler =
  m_pcsQue :: "processer list"
  m_totalFibers :: int
  m_currentThread :: int
  m_minThread :: int
  m_maxThread :: int
  s_stopping :: bool
  s_stop :: bool
  m_reactor :: "reactor option"
  fstate :: "nat \<Rightarrow> State"

datatype sc_error = SchedAssert | NullProcesser | NullReactor

type_synonym 'a sc = "(scheduler, sc_error, 'a) st_exn"

definition Processer :: processer where
  "Processer = \<lparr>m_payLoad = 0, m_que = WorkQueue NO_LIMIT, p_stop = True, p_stopping = False,
     p_idle = True, m_sem = 0\<rparr>"

abbreviation prc_at :: "scheduler \<Rightarrow> nat \<Rightarrow> processer" where
  "prc_at s i \<equiv> m_pcsQue s ! i"

definition upd_prc :: "nat \<Rightarrow> (processer \<Rightarrow> processer) \<Rightarrow> scheduler \<Rightarrow> scheduler" where
  "upd_prc i g s = s\<lparr>m_pcsQue := (m_pcsQue s)[i := g (prc_at s i)]\<rparr>"

definition upd_reactor :: "(reactor \<Rightarrow> reactor) \<Rightarrow> unit sc" where
  "upd_reactor g s =
     (case m_reactor s of
        None \<Rightarrow> (Inl NullReactor, s)
      | Some r \<Rightarrow> (Inr (), s\<lparr>m_reactor := Some (g r)\<rparr>))"

section \<open>Processers\<close>

definition prc_notify :: "processer \<Rightarrow> processer" where
  "prc_notify p = p\<lparr>m_sem := Suc (m_sem p)\<rparr>"

text \<open>\<open>waitForNotify\<close>: \<open>None\<close> while the semaphore is zero and the thread sleeps.\<close>

definition prc_waitForNotify :: "processer \<Rightarrow> processer option" where
  "prc_waitForNotify p = (if m_sem p = 0 then None else Some (p\<lparr>m_sem := m_sem p - 1\<rparr>))"

text \<open>Queue a fiber and count it.\<close>

definition prc_push :: "nat \<Rightarrow> processer \<Rightarrow> processer" where
  "prc_push f p = prc_notify (p\<lparr>m_que := snd (addFiber (Some f) NORMAL (m_que p)),
                              m_payLoad := m_payLoad p + 1\<rparr>)"

definition prc_addFiber :: "nat \<Rightarrow> nat option \<Rightarrow> scheduler \<Rightarrow> bool \<times> scheduler" where
  "prc_addFiber i fiber s =
     (case fiber of None \<Rightarrow> (False, s) | Some f \<Rightarrow> (True, upd_prc i (prc_push f) s))"

text \<open>The overload taking the address of the caller's pointer, which it empties.\<close>

definition prc_addFiber_swap ::
  "nat \<Rightarrow> nat option option \<Rightarrow> scheduler \<Rightarrow> bool \<times> nat option option \<times> scheduler" where
  "prc_addFiber_swap i fiber s =
     (case fiber of
        None \<Rightarrow> (False, None, s)
      | Some p \<Rightarrow> (case prc_addFiber i p s of (b, s') \<Rightarrow> (b, Some None, s')))"

text \<open>\<open>addFiber(CbType)\<close>: the callback, if any, becomes a new fiber at the given address.\<close>

definition prc_addFiber_cb :: "nat \<Rightarrow> nat option \<Rightarrow> scheduler \<Rightarrow> bool \<times> scheduler" where
  "prc_addFiber_cb i cb s =
     (case cb of
        None \<Rightarrow> (False, s)
      | Some f \<Rightarrow>
          (True, upd_prc i (prc_push f)
             (s\<lparr>m_totalFibers := m_totalFibers s + 1, fstate := (fstate s)(f := INIT)\<rparr>)))"

text \<open>The overload taking the address of the caller's callback, which it empties.\<close>

definition prc_addFiber_cb_swap ::
  "nat \<Rightarrow> nat option option \<Rightarrow> scheduler \<Rightarrow> bool \<times> nat option option \<times> scheduler" where
  "prc_addFiber_cb_swap i cb s =
     (case cb of
        None \<Rightarrow> (False, None, s)
      | Some c \<Rightarrow> (case prc_addFiber_cb i c s of (b, s') \<Rightarrow> (b, Some None, s')))"

text \<open>The \<open>int\<close> argument of \<open>steal\<close> as the \<open>size_t\<close> of \<open>fetchFibers\<close>.\<close>

definition steal :: "int \<Rightarrow> processer \<Rightarrow> nat list \<times> processer" where
  "steal k p =
     (case fetchFibers (nat (k mod 2 ^ 64)) [] NORMAL (m_que p) of
        (res, fibers, q) \<Rightarrow>
          (fibers, if res \<noteq> 0 then p\<lparr>m_que := q, m_payLoad := m_payLoad p - int (length fibers)\<rparr>
                   else p\<lparr>m_que := q\<rparr>))"

definition store :: "nat list \<Rightarrow> processer \<Rightarrow> bool \<times> processer" where
  "store fibers p =
     (case addFibers (map Some fibers) [] NORMAL (m_que p) of
        (nr, _, q) \<Rightarrow> (True, p\<lparr>m_que := q, m_payLoad := m_payLoad p + int nr\<rparr>))"

definition prc_stop :: "processer \<Rightarrow> processer" where
  "prc_stop p = prc_notify (p\<lparr>p_stopping := True\<rparr>)"

definition prc_isStopping :: "processer \<Rightarrow> bool" where
  "prc_isStopping p \<longleftrightarrow> emptyStrong (m_que p) \<and> p_stopping p"

definition prc_getStopping :: "processer \<Rightarrow> bool" where
  "prc_getStopping p = p_stopping p"

section \<open>Choosing a processer\<close>

text \<open>\<open>getMaxPayLoad\<close> and \<open>getMinPayLoad\<close>: the scans, as indices; \<open>None\<close> is the null pointer.\<close>

fun max_loop :: "processer list \<Rightarrow> nat \<Rightarrow> (nat \<times> int) option \<Rightarrow> nat option" where
  "max_loop [] i prc = map_option fst prc"
| "max_loop (p # ps) i prc =
     max_loop ps (Suc i)
       (case prc of
          None \<Rightarrow> Some (i, m_payLoad p)
        | Some (j, l) \<Rightarrow> if m_payLoad p < l then prc else Some (i, m_payLoad p))"

definition getMaxPayLoad :: "scheduler \<Rightarrow> nat option" where
  "getMaxPayLoad s = max_loop (m_pcsQue s) 0 None"

fun min_loop :: "processer list \<Rightarrow> nat \<Rightarrow> (nat \<times> int) option \<Rightarrow> nat option" where
  "min_loop [] i prc = map_option fst prc"
| "min_loop (p # ps) i prc =
     (if m_payLoad p = 0 then Some i
      else min_loop ps (Suc i)
             (case prc of
                None \<Rightarrow> Some (i, m_payLoad p)
              | Some (j, l) \<Rightarrow> if l < m_payLoad p then prc else Some (i, m_payLoad p)))"

definition getMinPayLoad :: "scheduler \<Rightarrow> nat option" where
  "getMinPayLoad s = min_loop (m_pcsQue s) 0 None"

section \<open>The scheduler\<close>

definition Scheduler :: "int \<Rightarrow> scheduler" where
  "Scheduler threads =
     \<lparr>m_pcsQue = replicate (nat threads) Processer, m_totalFibers = 0, m_currentThread = 0,
      m_minThread = threads, m_maxThread = threads, s_stopping = False, s_stop = True,
      m_reactor = None, fstate = \<lambda>_. INIT\<rparr>"

definition getHold :: "scheduler \<Rightarrow> int" where
  "getHold s = (case m_reactor s of None \<Rightarrow> 0 | Some r \<Rightarrow> m_holdCount r)"

definition sched_addFiber :: "nat option \<Rightarrow> unit sc" where
  "sched_addFiber fiber s =
     (case getMinPayLoad s of
        None \<Rightarrow> (Inl NullProcesser, s)
      | Some i \<Rightarrow> (Inr (), snd (prc_addFiber i fiber s)))"

definition sched_addFiber_cb :: "nat option \<Rightarrow> unit sc" where
  "sched_addFiber_cb cb s =
     (case getMinPayLoad s of
        None \<Rightarrow> (Inl NullProcesser, s)
      | Some i \<Rightarrow> (Inr (), snd (prc_addFiber_cb i cb s)))"

definition addNewFiber :: "nat option \<Rightarrow> unit sc" where
  "addNewFiber fiber s = (if s_stop s then (Inl SchedAssert, s) else sched_addFiber fiber s)"

definition addNewFiber_cb :: "nat option \<Rightarrow> unit sc" where
  "addNewFiber_cb cb s = (if s_stop s then (Inl SchedAssert, s) else sched_addFiber_cb cb s)"

definition addHold :: "unit sc" where
  "addHold = upd_reactor (\<lambda>r. r\<lparr>m_holdCount := m_holdCount r + 1\<rparr>)"

definition delHold :: "unit sc" where
  "delHold = upd_reactor (\<lambda>r. r\<lparr>m_holdCount := m_holdCount r - 1\<rparr>)"

definition activateFiber :: "nat option \<Rightarrow> unit sc" where
  "activateFiber fiber = sbind (addNewFiber fiber) (\<lambda>_. delHold)"

text \<open>
  \<open>balance\<close>, called by processer \<open>i\<close>; \<open>self j\<close> tells whether the thread of processer \<open>j\<close> is
  the calling one. The fibers are stolen from, and stored back to, the caller's own queue.
\<close>

definition balance :: "(nat \<Rightarrow> bool) \<Rightarrow> nat \<Rightarrow> nat sc" where
  "balance self i s =
     (if m_minThread s = 1 then (Inr 0, s)
      else
        case getMaxPayLoad s of
          None \<Rightarrow> (Inl NullProcesser, s)
        | Some j \<Rightarrow>
            if self j then (Inr 0, s)
            else
              let (fibers, p1) = steal (m_payLoad (prc_at s j) div 2) (prc_at s i);
                  p2 = snd (store fibers p1)
              in (Inr (length fibers), upd_prc i (\<lambda>_. p2) s))"

text \<open>
  Starting creates the reactor and the processers and starts their threads. With a callback
  (\<open>cb\<close> is the address of the fiber made of it) the last processer runs on the calling thread:
  the result is then the state in which \<open>Processer::run\<close> begins inside the call, and the two
  \<open>m_stop\<close> flags are cleared only when it has returned.
\<close>

definition start :: "nat option \<Rightarrow> unit sc" where
  "start cb s =
     (if \<not> s_stop s then (Inr (), s)
      else if \<not> (0 < m_minThread s \<and> m_minThread s \<le> m_maxThread s) then (Inl SchedAssert, s)
      else
        let n = nat (m_minThread s);
            ps = replicate (n - 1) (Processer\<lparr>p_stop := False\<rparr>) @ [Processer\<lparr>p_stop := cb \<noteq> None\<rparr>];
            s1 = s\<lparr>m_reactor := Some Reactor, m_currentThread := m_minThread s, m_pcsQue := ps\<rparr>
        in case cb of
             None \<Rightarrow> (Inr (), s1\<lparr>s_stop := False\<rparr>)
           | Some f \<Rightarrow> (Inr (), snd (prc_addFiber (n - 1) (Some f) s1)))"

text \<open>\<open>stop\<close> up to the joins, which wait for the threads to leave their loops.\<close>

definition stop :: "unit sc" where
  "stop s =
     (if s_stopping s then (Inr (), s)
      else sbind (upd_reactor reactor_stop)
             (\<lambda>_ s1. (Inr (), s1\<lparr>m_pcsQue := map prc_stop (m_pcsQue s1)\<rparr>)) (s\<lparr>s_stopping := True\<rparr>))"

text \<open>One round of the dispatcher thread.\<close>

definition dispatcher_round :: "scheduler \<Rightarrow> scheduler" where
  "dispatcher_round s =
     (if 0 < m_currentThread s then s\<lparr>m_pcsQue := map prc_notify (m_pcsQue s)\<rparr> else s)"

section \<open>The processer's loop\<close>

text \<open>
  What happens to a fiber that was switched in and came back in the given state: the
  bookkeeping of \<open>run\<close> on processer \<open>i\<close>.
\<close>

definition after_swap :: "nat \<Rightarrow> nat \<Rightarrow> State \<Rightarrow> unit sc" where
  "after_swap i f st s =
     (case st of
        INIT \<Rightarrow> (Inl SchedAssert, s)
      | READY \<Rightarrow> (Inr (), upd_prc i (\<lambda>p. p\<lparr>m_que := snd (addFiber (Some f) NORMAL (m_que p))\<rparr>) s)
      | EXEC \<Rightarrow> (Inr (), upd_prc i (\<lambda>p. p\<lparr>m_payLoad := m_payLoad p - 1\<rparr>)
                   (s\<lparr>fstate := (fstate s)(f := HOLD)\<rparr>))
      | HOLD \<Rightarrow> (Inr (), upd_prc i (\<lambda>p. p\<lparr>m_payLoad := m_payLoad p - 1\<rparr>) s)
      | TERM_state \<Rightarrow> (Inr (), upd_prc i (\<lambda>p. p\<lparr>m_payLoad := m_payLoad p - 1\<rparr>)
                   (s\<lparr>m_totalFibers := m_totalFibers s - 1\<rparr>))
      | EXCEPT \<Rightarrow> (Inr (), upd_prc i (\<lambda>p. p\<lparr>m_payLoad := m_payLoad p - 1\<rparr>)
                   (s\<lparr>m_totalFibers := m_totalFibers s - 1\<rparr>)))"

text \<open>
  One pass of the inner loop of \<open>run\<close>: \<open>None\<close> when the queue is empty. \<open>user\<close> is the code of
  the fiber until it switches out. A fiber that is still marked \<open>EXEC\<close> has not left its stack
  yet and is queued again.
\<close>

definition run_fiber :: "(scheduler \<Rightarrow> scheduler) \<Rightarrow> nat \<Rightarrow> scheduler \<Rightarrow> ((sc_error + unit) \<times> scheduler) option" where
  "run_fiber user i s =
     (case fetchFiber (m_que (prc_at s i)) of
        (p, None, q) \<Rightarrow> None
      | (p, Some f, q) \<Rightarrow>
          let s1 = upd_prc i (\<lambda>p. p\<lparr>m_que := q, p_idle := False\<rparr>) s
          in if fstate s f = EXEC
             then Some (Inr (), upd_prc i (\<lambda>p. p\<lparr>m_que := snd (addFiber (Some f) NORMAL (m_que p))\<rparr>) s1)
             else
               let s2 = user (s1\<lparr>fstate := (fstate s1)(f := EXEC)\<rparr>)
               in Some (after_swap i f (fstate s2 f) s2))"

text \<open>
  The exit test of \<open>run\<close> after a failed attempt to steal, before (\<open>waited = False\<close>) and after
  waiting for a notification. Only the second exit takes the thread off the count that keeps
  the dispatcher running.
\<close>

definition run_exit :: "bool \<Rightarrow> nat \<Rightarrow> scheduler \<Rightarrow> scheduler option" where
  "run_exit waited i s =
     (let p = prc_at s i in
      if p_stopping p \<and> m_totalFibers s \<le> 0 \<and> emptyRelax (m_que p) \<and> getHold s \<le> 0
      then Some (let s1 = upd_prc i (\<lambda>p. p\<lparr>p_stop := True\<rparr>) s
                 in if waited then s1\<lparr>m_currentThread := m_currentThread s1 - 1\<rparr> else s1)
      else None)"

text \<open>The fibers the reactor releases in a turn, dispatched in order.\<close>

fun dispatch_all :: "nat option list \<Rightarrow> unit sc" where
  "dispatch_all [] = sret ()"
| "dispatch_all (f # fs) = sbind (sched_addFiber f) (\<lambda>_. dispatch_all fs)"

section \<open>Load accounting\<close>

text \<open>
  The load of a processer counts its queued fibers, plus \<open>off i\<close> for the fibers it has in
  hand; the queue is unlimited and used at one priority.
\<close>

definition load_ok :: "(nat \<Rightarrow> int) \<Rightarrow> scheduler \<Rightarrow> bool" where
  "load_ok off s \<longleftrightarrow> (\<forall>i < length (m_pcsQue s). wq_normal (m_que (prc_at s i)) \<and>
     m_payLoad (prc_at s i) = int (length (lane NORMAL (m_que (prc_at s i)))) + off i)"

lemma load_ok_frame [simp]:
  "load_ok off (s\<lparr>m_totalFibers := n\<rparr>) = load_ok off s"
  "load_ok off (s\<lparr>fstate := h\<rparr>) = load_ok off s"
  "load_ok off (s\<lparr>m_reactor := r\<rparr>) = load_ok off s"
  by (simp_all add: load_ok_def)

text \<open>The work queue's interface at the processer's use of it.\<close>

lemma que_put:
  assumes "wq_normal q"
  shows "wq_normal (snd (addFiber (Some f) NORMAL q))"
    "m_queue (snd (addFiber (Some f) NORMAL q)) ! Suc 0 = m_queue q ! Suc 0 @ [f]"
  using wq.put_ok [OF assms, of f] by (simp_all add: wq_put_def)

lemma load_ok_upd:
  assumes "load_ok off s" "i < length (m_pcsQue s) \<Longrightarrow> wq_normal (m_que (g (prc_at s i))) \<and>
     m_payLoad (g (prc_at s i)) = int (length (lane NORMAL (m_que (g (prc_at s i))))) + off' i"
    and "\<And>j. j \<noteq> i \<Longrightarrow> off' j = off j"
  shows "load_ok off' (upd_prc i g s)"
  using assms by (cases "i < length (m_pcsQue s)") (auto simp: load_ok_def upd_prc_def nth_list_update)

lemma load_ok_at:
  assumes "load_ok off s" "i < length (m_pcsQue s)"
  shows "wq_normal (m_que (prc_at s i))"
    "m_payLoad (prc_at s i) = int (length (lane NORMAL (m_que (prc_at s i)))) + off i"
  using assms by (auto simp: load_ok_def)

lemma load_ok_push: "load_ok off s \<Longrightarrow> load_ok off (upd_prc i (prc_push f) s)"
  by (rule load_ok_upd) (auto simp: load_ok_def prc_push_def prc_notify_def que_put)

lemma load_ok_addFiber: "load_ok off s \<Longrightarrow> load_ok off (snd (prc_addFiber i fiber s))"
  by (simp add: prc_addFiber_def load_ok_push split: option.split)

lemma load_ok_addFiber_cb: "load_ok off s \<Longrightarrow> load_ok off (snd (prc_addFiber_cb i cb s))"
  by (simp add: prc_addFiber_cb_def load_ok_push split: option.split)

lemma load_ok_sched_addFiber: "load_ok off s \<Longrightarrow> load_ok off (snd (sched_addFiber fiber s))"
  by (simp add: sched_addFiber_def load_ok_addFiber split: option.split)

lemma load_ok_after_swap:
  assumes "load_ok (off(i := off i + 1)) s"
  shows "load_ok off (snd (after_swap i f st s)) \<or> st = INIT"
proof -
  have dec: "load_ok off (upd_prc i (\<lambda>p. p\<lparr>m_payLoad := m_payLoad p - 1\<rparr>) t)"
    if "load_ok (off(i := off i + 1)) t" for t
    using load_ok_at [OF that, of i] by (intro load_ok_upd [OF that]) auto
  have put: "load_ok off (upd_prc i (\<lambda>p. p\<lparr>m_que := snd (addFiber (Some f) NORMAL (m_que p))\<rparr>) s)"
    using load_ok_at [OF assms, of i] by (intro load_ok_upd [OF assms]) (auto simp: que_put)
  show ?thesis
    using assms put by (cases st) (simp_all add: after_swap_def dec)
qed

lemma que_get:
  assumes "wq_normal q" "m_queue q ! Suc 0 = f # fs"
  obtains p q' where "fetchFiber q = (p, Some f, q')" "wq_normal q'" "m_queue q' ! Suc 0 = fs"
  using wq.get_Cons [OF assms(1), of f fs] assms(2)
  by (cases "fetchFiber q") (auto simp: wq_get_def)

lemma que_get_Nil:
  assumes "wq_normal q" "m_queue q ! Suc 0 = []"
  shows "snd (fetchFiber q) = (None, q)"
  using wq.get_Nil [OF assms(1)] assms(2) by (simp add: wq_get_def)

section \<open>Properties\<close>

text \<open>The bookkeeping after a fiber came back in a state other than the initial one.\<close>

lemma after_swap_effect:
  assumes "st \<noteq> INIT" "load_ok (off(i := off i + 1)) s" "i < length (m_pcsQue s)" "fstate s f = st"
  shows "\<exists>s'. after_swap i f st s = (Inr (), s') \<and> load_ok off s' \<and>
    lane NORMAL (m_que (prc_at s' i)) = lane NORMAL (m_que (prc_at s i)) @ (if st = READY then [f] else []) \<and>
    fstate s' = (fstate s)(f := if st = EXEC then HOLD else st) \<and>
    m_totalFibers s' = m_totalFibers s - (if st \<in> {TERM_state, EXCEPT} then 1 else 0) \<and>
    (\<forall>j. j \<noteq> i \<longrightarrow> prc_at s' j = prc_at s j)"
proof -
  obtain s' where s': "after_swap i f st s = (Inr (), s')" using assms(1) by (cases st) (simp_all add: after_swap_def)
  moreover have "load_ok off s'" using load_ok_after_swap [OF assms(2), of f st] assms(1) s' by auto
  moreover have "lane NORMAL (m_que (prc_at s' i)) = lane NORMAL (m_que (prc_at s i)) @ (if st = READY then [f] else []) \<and>
    fstate s' = (fstate s)(f := if st = EXEC then HOLD else st) \<and>
    m_totalFibers s' = m_totalFibers s - (if st \<in> {TERM_state, EXCEPT} then 1 else 0) \<and>
    (\<forall>j. j \<noteq> i \<longrightarrow> prc_at s' j = prc_at s j)"
    using s' assms(1,3,4) que_put [OF load_ok_at(1) [OF assms(2,3)], of f]
    by (cases st) (auto simp: after_swap_def upd_prc_def)
  ultimately show ?thesis by blast
qed

text \<open>
  C9. A pass of a processer's loop takes the oldest queued fiber and keeps its books exact. A
  fiber that has not left its stack goes to the end of the queue without running. Any other one is
  marked \<open>EXEC\<close> and runs, on a state that is the old one without that fiber in the queue; when it comes
  back it goes to the end of the queue if it yielded, is held if it blocked, and leaves the count of live
  fibers if it ended; the load counts the queued fibers again. The fiber's own code has to keep the
  accounting and the processers, and cannot leave a running fiber in its initial state. A pass on
  an empty queue ends the loop.
\<close>

theorem processer_load_exact:
  assumes "load_ok off s" "i < length (m_pcsQue s)"
    and "\<And>t. load_ok (off(i := off i + 1)) t \<Longrightarrow> load_ok (off(i := off i + 1)) (user t)"
    and "\<And>t. length (m_pcsQue (user t)) = length (m_pcsQue t)"
    and "\<And>t f. fstate t f = EXEC \<Longrightarrow> fstate (user t) f \<noteq> INIT"
  shows "case lane NORMAL (m_que (prc_at s i)) of
      [] \<Rightarrow> run_fiber user i s = None
    | f # fs \<Rightarrow>
        if fstate s f = EXEC
        then \<exists>s'. run_fiber user i s = Some (Inr (), s') \<and> load_ok off s' \<and> fstate s' = fstate s \<and>
          m_totalFibers s' = m_totalFibers s \<and> lane NORMAL (m_que (prc_at s' i)) = fs @ [f] \<and>
          (\<forall>j. j \<noteq> i \<longrightarrow> prc_at s' j = prc_at s j)
        else \<exists>s1 s'. run_fiber user i s = Some (Inr (), s') \<and> load_ok off s' \<and>
          lane NORMAL (m_que (prc_at s1 i)) = fs \<and> m_payLoad (prc_at s1 i) = m_payLoad (prc_at s i) \<and>
          fstate s1 = (fstate s)(f := EXEC) \<and> m_totalFibers s1 = m_totalFibers s \<and> m_reactor s1 = m_reactor s \<and>
          (\<forall>j. j \<noteq> i \<longrightarrow> prc_at s1 j = prc_at s j) \<and>
          (let s2 = user s1; st = fstate s2 f
           in lane NORMAL (m_que (prc_at s' i)) = lane NORMAL (m_que (prc_at s2 i)) @ (if st = READY then [f] else []) \<and>
              fstate s' = (fstate s2)(f := if st = EXEC then HOLD else st) \<and>
              m_totalFibers s' = m_totalFibers s2 - (if st \<in> {TERM_state, EXCEPT} then 1 else 0) \<and>
              (\<forall>j. j \<noteq> i \<longrightarrow> prc_at s' j = prc_at s2 j))"
proof (cases "lane NORMAL (m_que (prc_at s i))")
  case Nil
  then show ?thesis
    using que_get_Nil [OF load_ok_at(1) [OF assms(1,2)]]
    by (cases "fetchFiber (m_que (prc_at s i))") (simp add: run_fiber_def)
next
  case (Cons f fs)
  note q = load_ok_at [OF assms(1,2)]
  obtain p q' where g: "fetchFiber (m_que (prc_at s i)) = (p, Some f, q')" "wq_normal q'"
    "m_queue q' ! Suc 0 = fs"
    using que_get [OF q(1)] Cons by auto
  let ?s1 = "upd_prc i (\<lambda>p. p\<lparr>m_que := q', p_idle := False\<rparr>) s"
  have s1: "load_ok (off(i := off i + 1)) ?s1"
    using q(2) g Cons by (intro load_ok_upd [OF assms(1)]) auto
  show ?thesis
  proof (cases "fstate s f = EXEC")
    case True
    let ?s' = "upd_prc i (\<lambda>p. p\<lparr>m_que := snd (addFiber (Some f) NORMAL (m_que p))\<rparr>) ?s1"
    have "load_ok off ?s'"
      using load_ok_at [OF s1, of i] by (intro load_ok_upd [OF s1]) (auto simp: que_put)
    moreover have "run_fiber user i s = Some (Inr (), ?s')" using g True by (simp add: run_fiber_def Let_def)
    moreover have "lane NORMAL (m_que (prc_at ?s' i)) = fs @ [f]"
      using assms(2) que_put(2) [OF g(2), of f] g(3) by (simp add: upd_prc_def)
    moreover have "fstate ?s' = fstate s" "m_totalFibers ?s' = m_totalFibers s" "\<forall>j. j \<noteq> i \<longrightarrow> prc_at ?s' j = prc_at s j"
      by (simp_all add: upd_prc_def)
    ultimately have "\<exists>s'. run_fiber user i s = Some (Inr (), s') \<and> load_ok off s' \<and> fstate s' = fstate s \<and>
          m_totalFibers s' = m_totalFibers s \<and> lane NORMAL (m_que (prc_at s' i)) = fs @ [f] \<and>
          (\<forall>j. j \<noteq> i \<longrightarrow> prc_at s' j = prc_at s j)" by blast
    then show ?thesis using Cons True by simp
  next
    case False
    define t where "t = ?s1\<lparr>fstate := (fstate ?s1)(f := EXEC)\<rparr>"
    have ok2: "load_ok (off(i := off i + 1)) (user t)" using s1 by (intro assms(3)) (simp add: t_def)
    have "fstate (user t) f \<noteq> INIT" by (rule assms(5)) (simp add: t_def)
    moreover have "i < length (m_pcsQue (user t))" using assms(2) by (simp add: assms(4) t_def upd_prc_def)
    ultimately obtain s' where s': "after_swap i f (fstate (user t) f) (user t) = (Inr (), s')" "load_ok off s'"
      "lane NORMAL (m_que (prc_at s' i)) = lane NORMAL (m_que (prc_at (user t) i)) @ (if fstate (user t) f = READY then [f] else [])"
      "fstate s' = (fstate (user t))(f := if fstate (user t) f = EXEC then HOLD else fstate (user t) f)"
      "m_totalFibers s' = m_totalFibers (user t) - (if fstate (user t) f \<in> {TERM_state, EXCEPT} then 1 else 0)"
      "\<forall>j. j \<noteq> i \<longrightarrow> prc_at s' j = prc_at (user t) j"
      using after_swap_effect [OF _ ok2 _ refl, of f] by blast
    have "run_fiber user i s = Some (Inr (), s')"
      using g False s'(1) unfolding t_def by (simp add: run_fiber_def Let_def)
    moreover have "lane NORMAL (m_que (prc_at t i)) = fs" "m_payLoad (prc_at t i) = m_payLoad (prc_at s i)"
      "fstate t = (fstate s)(f := EXEC)" "m_totalFibers t = m_totalFibers s" "m_reactor t = m_reactor s"
      "\<forall>j. j \<noteq> i \<longrightarrow> prc_at t j = prc_at s j"
      using assms(2) g(3) by (simp_all add: t_def upd_prc_def)
    ultimately show ?thesis
      using s'(2-) unfolding Let_def Cons list.case if_not_P [OF False]
      by (intro exI [of _ t] exI [of _ s'] conjI)
  qed
qed

text \<open>The body of a fiber that just returns.\<close>

definition finish :: "nat \<Rightarrow> scheduler \<Rightarrow> scheduler" where
  "finish f s = s\<lparr>fstate := (fstate s)(f := TERM_state)\<rparr>"

lemma Processer_que: "m_que Processer = \<lparr>m_limit = NO_LIMIT, m_queue = [[], [], []]\<rparr>" "m_payLoad Processer = 0"
  by (simp_all add: Processer_def WorkQueue_def LEVEL_def numeral_3_eq_3)

lemma wq_normal_Processer: "wq_normal (m_que Processer)"
  by (simp add: Processer_que wq_normal_def isLimited_def)

lemma load_ok_Scheduler: "load_ok (\<lambda>_. 0) (Scheduler n)"
  by (simp add: load_ok_def Scheduler_def Processer_que wq_normal_Processer [unfolded Processer_que])

theorem processer_load_exact_witness:
  "\<exists>s'. run_fiber (finish 7) 0 (upd_prc 0 (prc_push 7) (Scheduler 1)) = Some (Inr (), s') \<and> load_ok (\<lambda>_. 0) s' \<and>
     fstate s' = (\<lambda>_. INIT)(7 := TERM_state) \<and> m_totalFibers s' = - 1"
proof -
  let ?s = "upd_prc 0 (prc_push 7) (Scheduler 1)"
  have "lane NORMAL (m_que (prc_at ?s 0)) = [7]"
    by (simp add: upd_prc_def Scheduler_def prc_push_def prc_notify_def Processer_que addFiber_def
        isLimited_def less_eq_Priority_def)
  moreover have "load_ok (\<lambda>_. 0) ?s" by (rule load_ok_push [OF load_ok_Scheduler])
  moreover have "fstate ?s = (\<lambda>_. INIT)" "m_totalFibers ?s = 0" "length (m_pcsQue ?s) = 1"
    by (simp_all add: upd_prc_def Scheduler_def)
  moreover have "fstate (finish 7 t) f \<noteq> INIT" if "fstate t f = EXEC" for t f using that by (simp add: finish_def)
  moreover have "length (m_pcsQue (finish 7 t)) = length (m_pcsQue t)" "load_ok off (finish 7 t) = load_ok off t"
    "m_totalFibers (finish 7 t) = m_totalFibers t" "fstate (finish 7 t) = (fstate t)(7 := TERM_state)" for t off
    by (simp_all add: finish_def)
  ultimately show ?thesis
    using processer_load_exact [of "\<lambda>_. 0" ?s 0 "finish 7"] by (fastforce simp: Let_def)
qed

text \<open>The scans, from a candidate that is best among the processers seen so far.\<close>

lemma max_loop_best:
  assumes "i \<le> length qs" "j < i" "\<forall>a < i. m_payLoad (qs ! a) \<le> m_payLoad (qs ! j)"
  shows "\<exists>k < length qs. max_loop (drop i qs) i (Some (j, m_payLoad (qs ! j))) = Some k \<and>
    (\<forall>a < length qs. m_payLoad (qs ! a) \<le> m_payLoad (qs ! k))"
  using assms
proof (induction "length qs - i" arbitrary: i j)
  case 0
  then show ?case by auto
next
  case (Suc n)
  then have i: "i < length qs" by simp
  define j' where "j' = (if m_payLoad (qs ! i) < m_payLoad (qs ! j) then j else i)"
  have sizes: "n = length qs - Suc i" "Suc i \<le> length qs" "j' < Suc i"
    using Suc.hyps(2) Suc.prems(2) i by (simp_all add: j'_def)
  have "\<forall>a < Suc i. m_payLoad (qs ! a) \<le> m_payLoad (qs ! j')"
    using Suc.prems(3) by (force simp: less_Suc_eq j'_def)
  then obtain k where "k < length qs"
    "max_loop (drop (Suc i) qs) (Suc i) (Some (j', m_payLoad (qs ! j'))) = Some k"
    "\<forall>a < length qs. m_payLoad (qs ! a) \<le> m_payLoad (qs ! k)"
    using Suc.hyps(1) [OF sizes] by blast
  then show ?case using Cons_nth_drop_Suc [OF i, symmetric] by (auto simp: j'_def split: if_splits)
qed

lemma min_loop_best:
  assumes "i \<le> length qs" "j < i" "\<forall>a < i. m_payLoad (qs ! j) \<le> m_payLoad (qs ! a)"
    and "\<forall>a < length qs. 0 \<le> m_payLoad (qs ! a)"
  shows "\<exists>k < length qs. min_loop (drop i qs) i (Some (j, m_payLoad (qs ! j))) = Some k \<and>
    (\<forall>a < length qs. m_payLoad (qs ! k) \<le> m_payLoad (qs ! a))"
  using assms(1-3)
proof (induction "length qs - i" arbitrary: i j)
  case 0
  then show ?case by auto
next
  case (Suc n)
  then have i: "i < length qs" by simp
  show ?case
  proof (cases "m_payLoad (qs ! i) = 0")
    case True
    then show ?thesis using assms(4) i Cons_nth_drop_Suc [OF i, symmetric] by auto
  next
    case False
    define j' where "j' = (if m_payLoad (qs ! j) < m_payLoad (qs ! i) then j else i)"
    have sizes: "n = length qs - Suc i" "Suc i \<le> length qs" "j' < Suc i"
      using Suc.hyps(2) Suc.prems(2) i by (simp_all add: j'_def)
    have "\<forall>a < Suc i. m_payLoad (qs ! j') \<le> m_payLoad (qs ! a)"
      using Suc.prems(3) by (force simp: less_Suc_eq j'_def)
    then obtain k where "k < length qs"
      "min_loop (drop (Suc i) qs) (Suc i) (Some (j', m_payLoad (qs ! j'))) = Some k"
      "\<forall>a < length qs. m_payLoad (qs ! k) \<le> m_payLoad (qs ! a)"
      using Suc.hyps(1) [OF sizes] by blast
    then show ?thesis using False Cons_nth_drop_Suc [OF i, symmetric] by (auto simp: j'_def split: if_splits)
  qed
qed

lemma getMinPayLoad_best:
  assumes "m_pcsQue s \<noteq> []" "\<forall>p \<in> set (m_pcsQue s). 0 \<le> m_payLoad p"
  obtains k where "getMinPayLoad s = Some k" "k < length (m_pcsQue s)"
    "\<forall>a < length (m_pcsQue s). m_payLoad (prc_at s k) \<le> m_payLoad (prc_at s a)"
proof (cases "m_pcsQue s")
  case (Cons p ps)
  have nn: "\<forall>a < length (m_pcsQue s). 0 \<le> m_payLoad (prc_at s a)" using assms(2) by simp
  show thesis
  proof (cases "m_payLoad p = 0")
    case True
    then show thesis using that [of 0] Cons nn by (simp add: getMinPayLoad_def)
  next
    case False
    then have "getMinPayLoad s = min_loop (drop 1 (m_pcsQue s)) 1 (Some (0, m_payLoad (prc_at s 0)))"
      using Cons by (simp add: getMinPayLoad_def)
    then show thesis using that min_loop_best [of 1 "m_pcsQue s" 0] nn Cons by auto
  qed
qed (use assms in simp)

text \<open>
  Work goes to a least loaded processer: with non-negative loads \<open>addNewFiber\<close> on a running
  scheduler never fails, queues the fiber at the end of the queue of a processer whose load
  is minimal, raises that load by one and wakes that processer; all other processers are
  unchanged. \<open>getMaxPayLoad\<close> finds a maximal load.
\<close>

theorem dispatch_to_least_loaded:
  assumes "load_ok off s" "\<forall>p \<in> set (m_pcsQue s). 0 \<le> m_payLoad p" "m_pcsQue s \<noteq> []" "\<not> s_stop s"
  shows "\<exists>s' k. addNewFiber (Some f) s = (Inr (), s') \<and> k < length (m_pcsQue s) \<and>
      (\<forall>a < length (m_pcsQue s). m_payLoad (prc_at s k) \<le> m_payLoad (prc_at s a)) \<and>
      lane NORMAL (m_que (prc_at s' k)) = lane NORMAL (m_que (prc_at s k)) @ [f] \<and>
      m_payLoad (prc_at s' k) = m_payLoad (prc_at s k) + 1 \<and> m_sem (prc_at s' k) = Suc (m_sem (prc_at s k)) \<and>
      (\<forall>a. a \<noteq> k \<longrightarrow> prc_at s' a = prc_at s a) \<and> load_ok off s' \<and>
      (\<exists>m < length (m_pcsQue s). getMaxPayLoad s = Some m \<and>
        (\<forall>a < length (m_pcsQue s). m_payLoad (prc_at s a) \<le> m_payLoad (prc_at s m)))"
proof -
  obtain k where k: "getMinPayLoad s = Some k" "k < length (m_pcsQue s)"
    "\<forall>a < length (m_pcsQue s). m_payLoad (prc_at s k) \<le> m_payLoad (prc_at s a)"
    by (rule getMinPayLoad_best [OF assms(3,2)])
  obtain p ps where "m_pcsQue s = p # ps" using assms(3) by (cases "m_pcsQue s") auto
  then have max: "\<exists>m < length (m_pcsQue s). getMaxPayLoad s = Some m \<and>
      (\<forall>a < length (m_pcsQue s). m_payLoad (prc_at s a) \<le> m_payLoad (prc_at s m))"
    using max_loop_best [of 1 "m_pcsQue s" 0] by (simp add: getMaxPayLoad_def)
  let ?s = "upd_prc k (prc_push f) s"
  have "addNewFiber (Some f) s = (Inr (), ?s)"
    using k(1) assms(4) by (simp add: addNewFiber_def sched_addFiber_def prc_addFiber_def)
  moreover have "lane NORMAL (m_que (prc_at ?s k)) = lane NORMAL (m_que (prc_at s k)) @ [f]"
    "m_payLoad (prc_at ?s k) = m_payLoad (prc_at s k) + 1" "m_sem (prc_at ?s k) = Suc (m_sem (prc_at s k))"
    "\<forall>a. a \<noteq> k \<longrightarrow> prc_at ?s a = prc_at s a"
    using k(2) load_ok_at(1) [OF assms(1) k(2)]
    by (simp_all add: upd_prc_def prc_push_def prc_notify_def que_put)
  ultimately show ?thesis using k max load_ok_push [OF assms(1)] by blast
qed

theorem dispatch_to_least_loaded_witness:
  "\<exists>s' k. addNewFiber (Some 5) ((Scheduler 2)\<lparr>s_stop := False\<rparr>) = (Inr (), s') \<and>
     m_payLoad (prc_at s' k) = m_payLoad (prc_at ((Scheduler 2)\<lparr>s_stop := False\<rparr>) k) + 1"
proof -
  have "load_ok (\<lambda>_. 0) ((Scheduler 2)\<lparr>s_stop := False\<rparr>)"
    using load_ok_Scheduler [of 2] by (simp add: load_ok_def)
  from dispatch_to_least_loaded [OF this, of 5] show ?thesis
    by (fastforce simp: Scheduler_def Processer_que)
qed

text \<open>
  Rebalancing never moves a fiber: a processer calls \<open>balance\<close> when its own queue is empty,
  and since \<open>balance\<close> steals from the caller's queue instead of the one with the largest load,
  it returns 0 and leaves the whole scheduler unchanged, however loaded the others are.
\<close>

theorem balance_never_steals:
  assumes "load_ok off s" "i < length (m_pcsQue s)" "lane NORMAL (m_que (prc_at s i)) = []"
  shows "balance self i s = (Inr 0, s)"
proof -
  let ?p = "prc_at s i"
  have q: "m_queue (m_que ?p) = [[], [], []]"
    using load_ok_at(1) [OF assms(1,2)] assms(3) by (auto simp: wq_normal_def)
  then have "(m_que ?p)\<lparr>m_queue := (m_queue (m_que ?p))[Suc 0 := []]\<rparr> = m_que ?p" by simp
  then have st: "steal n ?p = ([], ?p)" for n
    using assms(3) by (simp add: steal_def fetchFibers_def less_eq_Priority_def fetchk_loop_eq)
  have "store [] ?p = (True, ?p)" by (simp add: store_def addFibers_def)
  with st have "(case steal n ?p of (fibers, p1) \<Rightarrow> let p2 = snd (store fibers p1)
      in (Inr (length fibers), upd_prc i (\<lambda>_. p2) s)) = (Inr 0 :: sc_error + nat, s)" for n
    by (simp add: upd_prc_def)
  moreover have "getMaxPayLoad s \<noteq> None"
    using assms(2) max_loop_best [of 1 "m_pcsQue s" 0] by (cases "m_pcsQue s") (auto simp: getMaxPayLoad_def)
  ultimately show ?thesis by (auto simp: balance_def Let_def split: option.split)
qed

theorem balance_never_steals_witness:
  "balance (\<lambda>_. False) 0 (Scheduler 4) = (Inr 0, Scheduler 4)"
  by (rule balance_never_steals [OF load_ok_Scheduler]) (simp_all add: Scheduler_def Processer_que)

text \<open>Processers leaving their loops one after the other, each by one of the two exits.\<close>

fun run_exits :: "(bool \<times> nat) list \<Rightarrow> scheduler \<Rightarrow> scheduler option" where
  "run_exits [] s = Some s"
| "run_exits ((waited, i) # es) s =
     (case run_exit waited i s of None \<Rightarrow> None | Some s' \<Rightarrow> run_exits es s')"

lemma run_exit_currentThread:
  "run_exit waited i s = Some s' \<Longrightarrow> m_currentThread s' = m_currentThread s - (if waited then 1 else 0)"
  by (auto simp: run_exit_def Let_def upd_prc_def split: if_splits)

lemma run_exits_currentThread:
  "run_exits es s = Some s' \<Longrightarrow> m_currentThread s' = m_currentThread s - int (length (filter fst es))"
proof (induction es s rule: run_exits.induct)
  case (2 waited i es s)
  then show ?case using run_exit_currentThread [of waited i s] by (auto split: option.splits)
qed simp

text \<open>
  The dispatcher thread does not end when a processer leaves its loop without having
  waited for a notification: that exit does not take the thread off \<open>m_currentThread\<close>, so after
  all processers have left the count is still positive and the dispatcher, which
  \<open>Scheduler::stop\<close> joins, goes on with another round.
\<close>

theorem dispatcher_outlives_early_exit:
  assumes "run_exits es s = Some s'" "m_currentThread s = int (length es)" "(False, i) \<in> set es"
  shows "0 < m_currentThread s' \<and> m_pcsQue (dispatcher_round s') = map prc_notify (m_pcsQue s')"
proof -
  have "length (filter fst es) < length es"
    using assms(3) by (metis fst_conv length_filter_less)
  then have "0 < m_currentThread s'" using run_exits_currentThread [OF assms(1)] assms(2) by simp
  then show ?thesis by (simp add: dispatcher_round_def)
qed

definition stopped_pair :: scheduler where
  "stopped_pair = (Scheduler 2)\<lparr>m_currentThread := 2, m_pcsQue := replicate 2 (prc_stop Processer)\<rparr>"

theorem dispatcher_outlives_early_exit_witness:
  "\<exists>s'. run_exits [(False, 0), (True, 1)] stopped_pair = Some s' \<and> 0 < m_currentThread s'"
proof -
  have "emptyRelax (m_que (prc_stop Processer))"
    by (simp add: emptyRelax_def upt_LEVEL prc_stop_def prc_notify_def Processer_que)
  then obtain s' where "run_exits [(False, 0), (True, 1)] stopped_pair = Some s'"
    by (simp add: run_exit_def stopped_pair_def Scheduler_def Let_def upd_prc_def getHold_def
        prc_stop_def prc_notify_def numeral_2_eq_2)
  then show ?thesis
    using dispatcher_outlives_early_exit [of "[(False, 0), (True, 1)]" stopped_pair s' 0]
    by (simp add: stopped_pair_def)
qed

text \<open>
  \<open>Scheduler::start\<close> with a callback runs the callback's fiber before the scheduler counts
  as started: while that call is in progress every \<open>addNewFiber\<close>, by the callback or by any
  other fiber, fails its assertion.
\<close>

theorem start_callback_before_started:
  assumes "s_stop s" "start (Some f) s = (Inr (), s')"
  shows "s_stop s' \<and> addNewFiber x s' = (Inl SchedAssert, s') \<and> addNewFiber_cb y s' = (Inl SchedAssert, s')"
  using assms
  by (auto simp: start_def Let_def prc_addFiber_def upd_prc_def addNewFiber_def addNewFiber_cb_def
      split: if_splits)

theorem start_callback_before_started_witness:
  "\<exists>s'. start (Some 3) (Scheduler 1) = (Inr (), s') \<and> addNewFiber (Some 4) s' = (Inl SchedAssert, s')"
proof -
  obtain s' where "start (Some 3) (Scheduler 1) = (Inr (), s')"
    by (cases "start (Some 3) (Scheduler 1)") (simp add: start_def Scheduler_def Let_def)
  then show ?thesis using start_callback_before_started [of "Scheduler 1" 3 s'] by (simp add: Scheduler_def)
qed

text \<open>A fiber handed over as a pointer to an otherwise idle scheduler, and run to its end.\<close>

lemma idle_dispatch_run:
  assumes "load_ok (\<lambda>_. 0) s" "m_pcsQue s \<noteq> []" "\<forall>p \<in> set (m_pcsQue s). lane NORMAL (m_que p) = []"
    and "fstate s f \<noteq> EXEC"
  obtains k s1 s2 where "sched_addFiber (Some f) s = (Inr (), s1)" "m_totalFibers s1 = m_totalFibers s"
    "run_fiber (finish f) k s1 = Some (Inr (), s2)" "m_totalFibers s2 = m_totalFibers s - 1"
    "m_reactor s2 = m_reactor s" "length (m_pcsQue s2) = length (m_pcsQue s)"
proof -
  have "0 \<le> m_payLoad p" if "p \<in> set (m_pcsQue s)" for p
    using that assms(1,3) by (auto simp: load_ok_def in_set_conv_nth)
  then obtain k where k: "getMinPayLoad s = Some k" "k < length (m_pcsQue s)"
    by (rule_tac getMinPayLoad_best [OF assms(2)]) auto
  let ?s1 = "upd_prc k (prc_push f) s"
  have run: "sched_addFiber (Some f) s = (Inr (), ?s1)"
    using k(1) by (simp add: sched_addFiber_def prc_addFiber_def)
  have k1: "k < length (m_pcsQue ?s1)" using k(2) by (simp add: upd_prc_def)
  have "wq_normal (m_que (prc_at ?s1 k))" using load_ok_at(1) [OF load_ok_push [OF assms(1)] k1] .
  moreover have "m_queue (m_que (prc_at ?s1 k)) ! Suc 0 = [f]"
    using k(2) assms(3) que_put(2) [OF load_ok_at(1) [OF assms(1) k(2)], of f]
    by (simp add: upd_prc_def prc_push_def prc_notify_def)
  ultimately obtain p q where "fetchFiber (m_que (prc_at ?s1 k)) = (p, Some f, q)"
    by (rule que_get)
  then have "\<exists>s2. run_fiber (finish f) k ?s1 = Some (Inr (), s2) \<and> m_totalFibers s2 = m_totalFibers s - 1 \<and>
      m_reactor s2 = m_reactor s \<and> length (m_pcsQue s2) = length (m_pcsQue s)"
    using assms(4) by (simp add: run_fiber_def Let_def finish_def after_swap_def upd_prc_def)
  then show thesis using that [OF run] by (auto simp: upd_prc_def)
qed

end
