(* ===== verification/Co_Lock.thy ===== *)
theory Co_Lock
  imports Scheduler
begin

text \<open>
  Semaphores and mutexes for fibers (\<open>src/src/latch/coLock.hpp\<close>, \<open>coLock.cpp\<close>). An operation
  acts on the semaphore and on the scheduler, under the semaphore's own mutex. A fiber that
  has to wait is queued, counted as held, and switches out (the result \<open>True\<close>); its \<open>wait\<close>
  returns when it is activated.
\<close>

section \<open>Operations\<close>

record CoSemaphore =
  co_value :: int
  holdQue :: "nat list"

type_synonym 'a co = "(CoSemaphore \<times> scheduler, sc_error, 'a) st_exn"

text \<open>Run a scheduler operation.\<close>

definition on_sched :: "'a sc \<Rightarrow> 'a co" where
  "on_sched m c = (case m (snd c) of (r, s) \<Rightarrow> (r, (fst c, s)))"

definition co_sem :: "int \<Rightarrow> CoSemaphore" where
  "co_sem value = \<lparr>co_value = value, holdQue = []\<rparr>"

definition tryWait :: "bool co" where
  "tryWait c =
     (if 0 < co_value (fst c)
      then (Inr True, ((fst c)\<lparr>co_value := co_value (fst c) - 1\<rparr>, snd c))
      else (Inr False, c))"

definition wait :: "nat \<Rightarrow> bool co" where
  "wait self c =
     (if 0 < co_value (fst c)
      then (Inr False, ((fst c)\<lparr>co_value := co_value (fst c) - 1\<rparr>, snd c))
      else sbind (on_sched addHold) (\<lambda>_. sret True)
             ((fst c)\<lparr>holdQue := holdQue (fst c) @ [self]\<rparr>, snd c))"

text \<open>\<open>notify\<close> reports the fiber it activated.\<close>

definition co_notify :: "(nat option) co" where
  "co_notify c =
     (case holdQue (fst c) of
        f # fs \<Rightarrow> sbind (on_sched (activateFiber (Some f))) (\<lambda>_. sret (Some f))
                   ((fst c)\<lparr>holdQue := fs\<rparr>, snd c)
      | [] \<Rightarrow> (Inr None, ((fst c)\<lparr>co_value := co_value (fst c) + 1\<rparr>, snd c)))"

definition CoMutex :: CoSemaphore where
  "CoMutex = co_sem 1"

definition co_lock :: "nat \<Rightarrow> bool co" where
  "co_lock self = wait self"

definition co_unlock :: "(nat option) co" where
  "co_unlock = co_notify"

section \<open>Fibers sharing a mutex\<close>

datatype co_pc = Outside | Queued | Inside

text \<open>
  Each fiber locks when it is outside and unlocks when it is inside; a fiber that is handed
  the mutex is inside. Scheduler errors end the run.
\<close>

inductive co_step :: "(CoSemaphore \<times> scheduler) \<times> (nat \<Rightarrow> co_pc) \<Rightarrow>
    (CoSemaphore \<times> scheduler) \<times> (nat \<Rightarrow> co_pc) \<Rightarrow> bool" where
  acquire: "pc f = Outside \<Longrightarrow> co_lock f c = (Inr False, c') \<Longrightarrow>
    co_step (c, pc) (c', pc(f := Inside))"
| enqueue: "pc f = Outside \<Longrightarrow> co_lock f c = (Inr True, c') \<Longrightarrow>
    co_step (c, pc) (c', pc(f := Queued))"
| free: "pc f = Inside \<Longrightarrow> co_unlock c = (Inr None, c') \<Longrightarrow>
    co_step (c, pc) (c', pc(f := Outside))"
| hand_over: "pc f = Inside \<Longrightarrow> co_unlock c = (Inr (Some g), c') \<Longrightarrow>
    co_step (c, pc) (c', (pc(f := Outside))(g := Inside))"

text \<open>
  The value and the fiber inside exclude each other, waiting implies a value of zero, and
  the queue holds exactly the waiting fibers.
\<close>

definition at_pc :: "co_pc \<Rightarrow> (nat \<Rightarrow> co_pc) \<Rightarrow> nat set" where
  "at_pc x pc = {f. pc f = x}"

definition co_ok :: "(CoSemaphore \<times> scheduler) \<times> (nat \<Rightarrow> co_pc) \<Rightarrow> bool" where
  "co_ok S \<longleftrightarrow>
     (let sem = fst (fst S); pc = snd S in
      distinct (holdQue sem) \<and> set (holdQue sem) = at_pc Queued pc \<and>
      ((co_value sem = 1 \<and> holdQue sem = [] \<and> at_pc Inside pc = {}) \<or>
       (co_value sem = 0 \<and> (\<exists>f. at_pc Inside pc = {f}))))"

lemma at_pc_upd: "at_pc x (pc(f := y)) = (if x = y then insert f (at_pc x pc) else at_pc x pc - {f})"
  by (auto simp: at_pc_def)

lemma at_pc_iff: "f \<in> at_pc x pc \<longleftrightarrow> pc f = x"
  by (simp add: at_pc_def)

lemma wait_Inr:
  assumes "wait f c = (Inr b, c')"
  shows "b = (\<not> 0 < co_value (fst c))"
    "fst c' = (if b then (fst c)\<lparr>holdQue := holdQue (fst c) @ [f]\<rparr>
               else (fst c)\<lparr>co_value := co_value (fst c) - 1\<rparr>)"
  using assms
  by (auto simp: wait_def sbind_def on_sched_def sret_def split: if_splits prod.splits sum.splits)

lemma notify_Inr:
  assumes "co_notify c = (Inr r, c')"
  shows "(holdQue (fst c) = [] \<and> r = None \<and> fst c' = (fst c)\<lparr>co_value := co_value (fst c) + 1\<rparr>) \<or>
    (\<exists>f fs. holdQue (fst c) = f # fs \<and> r = Some f \<and> fst c' = (fst c)\<lparr>holdQue := fs\<rparr>)"
  using assms
  by (auto simp: co_notify_def sbind_def on_sched_def sret_def split: list.splits prod.splits sum.splits)

lemma co_ok_step:
  assumes "co_step S T" "co_ok S"
  shows "co_ok T"
  using assms
proof (induction rule: co_step.induct)
  case (acquire pc f c c')
  have w: "0 < co_value (fst c)" "fst c' = (fst c)\<lparr>co_value := co_value (fst c) - 1\<rparr>"
    using wait_Inr [of f c False c'] acquire(2) by (auto simp: co_lock_def)
  then show ?case using acquire(3) by (auto simp: co_ok_def Let_def at_pc_upd)
next
  case (enqueue pc f c c')
  have w: "\<not> 0 < co_value (fst c)" "fst c' = (fst c)\<lparr>holdQue := holdQue (fst c) @ [f]\<rparr>"
    using wait_Inr [of f c True c'] enqueue(2) by (auto simp: co_lock_def)
  moreover have "f \<notin> at_pc Queued pc" "f \<notin> at_pc Inside pc" using enqueue(1) by (simp_all add: at_pc_iff)
  ultimately show ?case using enqueue(3) by (auto simp: co_ok_def Let_def at_pc_upd)
next
  case (free pc f c c')
  have "holdQue (fst c) = []" "fst c' = (fst c)\<lparr>co_value := co_value (fst c) + 1\<rparr>"
    using notify_Inr [of c None c'] free(2) by (auto simp: co_unlock_def)
  moreover have "f \<in> at_pc Inside pc" using free(1) by (simp add: at_pc_iff)
  ultimately show ?case using free(3) by (auto simp: co_ok_def Let_def at_pc_upd)
next
  case (hand_over pc f c g c')
  obtain fs where fs: "holdQue (fst c) = g # fs" "fst c' = (fst c)\<lparr>holdQue := fs\<rparr>"
    using notify_Inr [of c "Some g" c'] hand_over(2) by (auto simp: co_unlock_def)
  have f: "f \<in> at_pc Inside pc" "f \<notin> at_pc Queued pc" using hand_over(1) by (simp_all add: at_pc_iff)
  have "distinct (g # fs)" "insert g (set fs) = at_pc Queued pc" "co_value (fst c) = 0"
    "at_pc Inside pc = {f}"
    using hand_over(3) fs(1) f(1) by (auto simp: co_ok_def Let_def)
  moreover from this have "set fs = at_pc Queued pc - {g}" "g \<noteq> f" using f by auto
  ultimately show ?case using fs(2) f(2) by (simp add: co_ok_def Let_def at_pc_upd)
qed

section \<open>Properties\<close>

text \<open>
  C24. Mutual exclusion: in every state that fibers locking and unlocking one \<open>CoMutex\<close> can
  reach, at most one fiber is inside, and when one unlocks while others wait, the fiber that
  has waited longest is the one that gets in.
\<close>

theorem comutex_exclusion:
  assumes "co_step\<^sup>*\<^sup>* ((CoMutex, s), \<lambda>_. Outside) (c, pc)"
  shows "(pc f = Inside \<and> pc g = Inside \<longrightarrow> f = g) \<and>
    (\<forall>g c'. co_unlock c = (Inr (Some g), c') \<longrightarrow> g = hd (holdQue (fst c)) \<and> pc g = Queued)"
proof -
  have "co_ok ((CoMutex, s), \<lambda>_. Outside)"
    by (simp add: co_ok_def CoMutex_def co_sem_def at_pc_def)
  with assms have ok: "co_ok (c, pc)"
    by (induction rule: rtranclp_induct) (auto intro: co_ok_step)
  have "f = g" if "pc f = Inside" "pc g = Inside"
    using ok that at_pc_iff [of f Inside pc] at_pc_iff [of g Inside pc] by (auto simp: co_ok_def Let_def)
  moreover have "g = hd (holdQue (fst c)) \<and> pc g = Queued" if "co_unlock c = (Inr (Some g), c')" for g c'
    using ok notify_Inr [of c "Some g" c'] that at_pc_iff [of g Queued pc]
    by (auto simp: co_ok_def Let_def co_unlock_def)
  ultimately show ?thesis by blast
qed

lemma first_lock:
  "co_step\<^sup>*\<^sup>* ((CoMutex, s), \<lambda>_. Outside) ((CoMutex\<lparr>co_value := 0\<rparr>, s), (\<lambda>_. Outside)(3 := Inside))"
  by (rule r_into_rtranclp, rule co_step.acquire) (simp_all add: co_lock_def wait_def CoMutex_def co_sem_def)

theorem comutex_exclusion_witness:
  "\<not> (((\<lambda>_. Outside)(3 := Inside)) (3::nat) = Inside \<and> ((\<lambda>_. Outside)(3 := Inside)) (4::nat) = Inside)"
  using comutex_exclusion [OF first_lock, of 3 4] by simp

text \<open>
  A waiting fiber is accounted for: on a running scheduler, blocking in \<open>wait\<close> adds one to
  the reactor's hold count and one fiber to the queue; \<open>notify\<close> takes both back and hands the
  fiber to a processer, without ever failing.
\<close>

theorem cosem_hold_accounting:
  assumes "co_value sem \<le> 0" "m_reactor s = Some r" "\<not> s_stop s" "m_pcsQue s \<noteq> []"
    and "\<forall>p \<in> set (m_pcsQue s). 0 \<le> m_payLoad p"
  shows "\<exists>s1. wait f (sem, s) = (Inr True, (sem\<lparr>holdQue := holdQue sem @ [f]\<rparr>, s1)) \<and>
    getHold s1 = getHold s + 1 \<and>
    (\<exists>s2. co_notify (sem\<lparr>holdQue := holdQue sem @ [f]\<rparr>, s1) =
        (Inr (Some (hd (holdQue sem @ [f]))), (sem\<lparr>holdQue := tl (holdQue sem @ [f])\<rparr>, s2)) \<and>
      getHold s2 = getHold s)"
proof -
  let ?s1 = "s\<lparr>m_reactor := Some (r\<lparr>m_holdCount := m_holdCount r + 1\<rparr>)\<rparr>"
  have w: "wait f (sem, s) = (Inr True, (sem\<lparr>holdQue := holdQue sem @ [f]\<rparr>, ?s1))"
    using assms(1,2)
    by (simp add: wait_def on_sched_def addHold_def upd_reactor_def sbind_def sret_def)
  obtain g gs where g: "holdQue sem @ [f] = g # gs" by (cases "holdQue sem @ [f]") auto
  obtain k where "getMinPayLoad ?s1 = Some k"
    by (rule getMinPayLoad_best [of ?s1]) (use assms(4,5) in simp_all)
  then have "addNewFiber (Some g) ?s1 = (Inr (), upd_prc k (prc_push g) ?s1)"
    using assms(3) by (simp add: addNewFiber_def sched_addFiber_def prc_addFiber_def)
  then have "activateFiber (Some g) ?s1 =
      (Inr (), (upd_prc k (prc_push g) ?s1)\<lparr>m_reactor := Some (r\<lparr>m_holdCount := m_holdCount r\<rparr>)\<rparr>)"
    by (simp add: activateFiber_def sbind_Inr delHold_def upd_reactor_def upd_prc_def)
  then have "co_notify (sem\<lparr>holdQue := holdQue sem @ [f]\<rparr>, ?s1) = (Inr (Some g), (sem\<lparr>holdQue := gs\<rparr>,
      (upd_prc k (prc_push g) ?s1)\<lparr>m_reactor := Some (r\<lparr>m_holdCount := m_holdCount r\<rparr>)\<rparr>))"
    using g by (simp add: co_notify_def on_sched_def sbind_def sret_def)
  with w g assms(2) show ?thesis by (auto simp: getHold_def)
qed

theorem cosem_hold_accounting_witness:
  "\<exists>s1. wait 6 (co_sem 0, (Scheduler 1)\<lparr>m_reactor := Some Reactor, s_stop := False\<rparr>) =
    (Inr True, ((co_sem 0)\<lparr>holdQue := [6]\<rparr>, s1))"
  using cosem_hold_accounting [of "co_sem 0" "(Scheduler 1)\<lparr>m_reactor := Some Reactor, s_stop := False\<rparr>" Reactor 6]
  by (auto simp: co_sem_def Scheduler_def Processer_que)

end
