(* ===== verification/Stream.thy ===== *)
theory Stream
  imports Zy_Prelude
begin

text \<open>
  Streams (\<open>src/src/stream/Stream.hpp\<close>, \<open>Stream.cpp\<close>). The virtual \<open>read\<close> and \<open>write\<close> of a
  stream are functions on the stream's state, and the four \<open>FixSize\<close> methods are one loop over
  them. The loop need not end for every such function, so it is a partial function into
  options and \<open>None\<close> means that it runs for ever; that it returns is proved from the contract of
  the functions. The locale \<open>byte_source\<close> is the contract of \<open>read\<close>, the locale \<open>byte_sink\<close>
  that of \<open>write\<close>.
\<close>

section \<open>The loops\<close>

text \<open>
  \<open>io n\<close> is one call, asking for \<open>n\<close> bytes, of the virtual function. The result of the loop is \<open>None\<close> when all was
  moved and \<open>Some len\<close> when a call returned \<open>len \<le> 0\<close>.
\<close>

partial_function (option) fix_loop ::
  "(nat \<Rightarrow> ('s, 'e, int) st_exn) \<Rightarrow> nat \<Rightarrow> 's \<Rightarrow> (('e + int option) \<times> 's) option" where
  "fix_loop io n s =
     (if n = 0 then Some (Inr None, s)
      else case io n s of
             (Inl e, s') \<Rightarrow> Some (Inl e, s')
           | (Inr len, s') \<Rightarrow>
               if len \<le> 0 then Some (Inr (Some len), s')
               else fix_loop io (usub n (nat len)) s')"

definition fix_size :: "(nat \<Rightarrow> ('s, 'e, int) st_exn) \<Rightarrow> nat \<Rightarrow> 's \<Rightarrow> (('e + int) \<times> 's) option" where
  "fix_size io n s =
     (case fix_loop io n s of
        None \<Rightarrow> None
      | Some (Inl e, s') \<Rightarrow> Some (Inl e, s')
      | Some (Inr None, s') \<Rightarrow> Some (Inr (int_of_size n), s')
      | Some (Inr (Some len), s') \<Rightarrow> Some (Inr len, s'))"

text \<open>
  Reading into a buffer: \<open>rd n s\<close> is the result, the bytes stored and the new state; the bytes
  go behind those stored before. Writing from a buffer: \<open>wr bs s\<close> gets the bytes not yet sent.
\<close>

definition readFixSize ::
  "(nat \<Rightarrow> 's \<Rightarrow> int \<times> u8 list \<times> 's) \<Rightarrow> nat \<Rightarrow> 's \<Rightarrow> ((unit + int) \<times> u8 list \<times> 's) option" where
  "readFixSize rd n s =
     fix_size (\<lambda>k (buff, s). case rd k s of (len, bytes, s') \<Rightarrow> (Inr len, buff @ bytes, s')) n ([], s)"

definition writeFixSize ::
  "(u8 list \<Rightarrow> 's \<Rightarrow> int \<times> 's) \<Rightarrow> u8 list \<Rightarrow> 's \<Rightarrow> ((unit + int) \<times> u8 list \<times> 's) option" where
  "writeFixSize wr buff s =
     fix_size (\<lambda>k (rest, s). case wr rest s of (len, s') \<Rightarrow> (Inr len, drop (nat len) rest, s'))
       (length buff) (buff, s)"

text \<open>The overloads for byte arrays; the state holds the array. Both call \<open>read\<close>.\<close>

definition readFixSize_ba :: "(nat \<Rightarrow> ('s, 'e, int) st_exn) \<Rightarrow> nat \<Rightarrow> 's \<Rightarrow> (('e + int) \<times> 's) option" where
  "readFixSize_ba read_ba n s = fix_size read_ba n s"

definition writeFixSize_ba ::
  "(nat \<Rightarrow> ('s, 'e, int) st_exn) \<Rightarrow> (nat \<Rightarrow> ('s, 'e, int) st_exn) \<Rightarrow> nat \<Rightarrow> 's \<Rightarrow> (('e + int) \<times> 's) option" where
  "writeFixSize_ba read_ba write_ba n s = fix_size read_ba n s"

section \<open>Termination\<close>

text \<open>The contract that makes the loop end: no call moves more than it was asked to.\<close>

definition bounded :: "(nat \<Rightarrow> ('s, 'e, int) st_exn) \<Rightarrow> bool" where
  "bounded io \<longleftrightarrow> (\<forall>n s len s'. io n s = (Inr len, s') \<longrightarrow> len \<le> int n)"

lemma fix_loop_total:
  assumes "bounded io"
  shows "\<exists>r. fix_loop io n s = Some r"
proof (induction n arbitrary: s rule: less_induct)
  case (less n)
  show ?case
  proof (cases "n = 0")
    case False
    obtain x s' where c: "io n s = (x, s')" by fastforce
    show ?thesis
    proof (cases x)
      case (Inr len)
      then have "len \<le> int n" using assms c unfolding bounded_def by blast
      then have "0 < len \<Longrightarrow> usub n (nat len) < n" using False by simp
      then show ?thesis
        using less.IH [of "usub n (nat len)" s'] c Inr False
        by (subst fix_loop.simps) simp
    qed (use c False in \<open>subst fix_loop.simps; simp\<close>)
  qed (subst fix_loop.simps; simp)
qed

lemma fix_size_total: "bounded io \<Longrightarrow> \<exists>r. fix_size io n s = Some r"
  using fix_loop_total [of io n s] by (auto simp: fix_size_def split: option.splits sum.splits)

section \<open>Reading and writing\<close>

text \<open>
  A source holds the bytes that are still to come; a call that returns a positive length
  delivers the next bytes, as many as it says and at most as many as were asked for.
\<close>

locale byte_source =
  fixes rd :: "nat \<Rightarrow> 's \<Rightarrow> int \<times> u8 list \<times> 's" and incoming :: "'s \<Rightarrow> u8 list"
  assumes rd_positive: "rd n s = (len, bytes, s') \<Longrightarrow> 0 < len \<Longrightarrow>
      nat len \<le> n \<and> nat len \<le> length (incoming s) \<and>
      bytes = take (nat len) (incoming s) \<and> incoming s' = drop (nat len) (incoming s)"
    and rd_failed: "rd n s = (len, bytes, s') \<Longrightarrow> len \<le> 0 \<Longrightarrow> bytes = [] \<and> incoming s' = incoming s"
begin

lemma source_bounded: "bounded (\<lambda>n (buff, s). case rd n s of (len, bytes, s') \<Rightarrow> (Inr len, buff @ bytes, s'))"
proof (unfold bounded_def, clarify)
  fix n buff s len buff' s'
  assume "(case rd n s of (len, bytes, s') \<Rightarrow> (Inr len, buff @ bytes, s')) = (Inr len, buff', s')"
  then show "len \<le> int n" using rd_positive [of n s len] by (cases "0 < len") (auto split: prod.splits)
qed

lemma source_loop_spec:
  assumes "fix_loop (\<lambda>n (buff, s). case rd n s of (len, bytes, s') \<Rightarrow> (Inr len, buff @ bytes, s')) n (buff, s) =
    Some (r, buff', s')"
  shows "\<exists>k \<le> n. k \<le> length (incoming s) \<and> buff' = buff @ take k (incoming s) \<and>
    incoming s' = drop k (incoming s) \<and> (r = Inr None \<and> k = n \<or> (\<exists>len \<le> 0. r = Inr (Some len)))"
  using assms
proof (induction n arbitrary: buff s rule: less_induct)
  case (less n)
  obtain len bytes s1 where c: "rd n s = (len, bytes, s1)" using prod_cases3 by blast
  consider "n = 0" | "n \<noteq> 0" "len \<le> 0" | "n \<noteq> 0" "0 < len" by linarith
  then show ?case
  proof cases
    case 1
    then show ?thesis using less.prems by (subst (asm) fix_loop.simps) auto
  next
    case 2
    then have "r = Inr (Some len)" "buff' = buff" "incoming s' = incoming s"
      using less.prems rd_failed [OF c] c by (subst (asm) fix_loop.simps; auto)+
    then show ?thesis using 2(2) by (intro exI [of _ 0]) auto
  next
    case 3
    note p = rd_positive [OF c 3(2)]
    have "fix_loop (\<lambda>n (buff, s). case rd n s of (len, bytes, s') \<Rightarrow> (Inr len, buff @ bytes, s'))
        (n - nat len) (buff @ bytes, s1) = Some (r, buff', s')"
      using less.prems c 3 p by (subst (asm) fix_loop.simps) simp
    then obtain k where k: "k \<le> n - nat len" "k \<le> length (incoming s1)"
      "buff' = (buff @ bytes) @ take k (incoming s1)" "incoming s' = drop k (incoming s1)"
      "r = Inr None \<and> k = n - nat len \<or> (\<exists>len \<le> 0. r = Inr (Some len))"
      using less.IH [of "n - nat len" "buff @ bytes" s1] 3 by auto
    have "k + nat len \<le> n" "k + nat len \<le> length (incoming s)" using k(1,2) p by auto
    moreover have "buff' = buff @ take (nat len + k) (incoming s)" using k(3) p by (simp add: take_add)
    moreover have "incoming s' = drop (nat len + k) (incoming s)" using k(4) p by (simp add: add.commute)
    moreover have "r = Inr None \<and> nat len + k = n \<or> (\<exists>len \<le> 0. r = Inr (Some len))" using k(5) p by auto
    ultimately show ?thesis by (metis add.commute)
  qed
qed

text \<open>Reading a fixed size returns, and delivers a prefix of what comes in.\<close>

lemma readFixSize_returns: "\<exists>r. readFixSize rd n s = Some r"
  unfolding readFixSize_def by (rule fix_size_total [OF source_bounded])

lemma readFixSize_prefix:
  assumes "readFixSize rd n s = Some (r, buff, s')" "n < 2 ^ 31"
  shows "\<exists>k \<le> n. buff = take k (incoming s) \<and> incoming s' = drop k (incoming s) \<and>
    (r = Inr (int n) \<and> k = n \<and> n \<le> length (incoming s) \<or> (\<exists>len \<le> 0. r = Inr len))"
proof -
  let ?io = "\<lambda>n (buff, s). case rd n s of (len, bytes, s') \<Rightarrow> (Inr len :: unit + int, buff @ bytes, s')"
  have "\<exists>r. fix_loop ?io n ([], s) = Some r" by (rule fix_loop_total [OF source_bounded])
  then obtain x b t where l: "fix_loop ?io n ([], s) = Some (x, b, t)" by (metis prod_cases3)
  then obtain k where "k \<le> n" "k \<le> length (incoming s)" "b = take k (incoming s)"
    "incoming t = drop k (incoming s)" "x = Inr None \<and> k = n \<or> (\<exists>len \<le> 0. x = Inr (Some len))"
    using source_loop_spec [OF l] by auto
  then show ?thesis
    using assms l by (auto simp: readFixSize_def fix_size_def intro!: exI [of _ k])
qed

end

text \<open>
  A sink records the bytes it took over; a call that returns a positive length took that many
  of the bytes it was given.
\<close>

locale byte_sink =
  fixes wr :: "u8 list \<Rightarrow> 's \<Rightarrow> int \<times> 's" and sent :: "'s \<Rightarrow> u8 list"
  assumes wr_positive: "wr bs s = (len, s') \<Longrightarrow> 0 < len \<Longrightarrow>
      nat len \<le> length bs \<and> sent s' = sent s @ take (nat len) bs"
    and wr_failed: "wr bs s = (len, s') \<Longrightarrow> len \<le> 0 \<Longrightarrow> sent s' = sent s"
begin

text \<open>The loop keeps its counter equal to the number of bytes left, and so ends.\<close>

lemma sink_loop_spec:
  "\<exists>r k s'. fix_loop (\<lambda>k (rest, s). case wr rest s of (len, s') \<Rightarrow> (Inr len :: unit + int, drop (nat len) rest, s'))
      (length buff) (buff, s) = Some (Inr r, drop k buff, s') \<and>
    sent s' = sent s @ take k buff \<and> (r = None \<and> k = length buff \<or> (\<exists>len \<le> 0. r = Some len))"
proof (induction "length buff" arbitrary: buff s rule: less_induct)
  case less
  let ?io = "\<lambda>k (rest, s). case wr rest s of (len, s') \<Rightarrow> (Inr len :: unit + int, drop (nat len) rest, s')"
  obtain len s1 where c: "wr buff s = (len, s1)" by fastforce
  consider "buff = []" | "buff \<noteq> []" "len \<le> 0" | "buff \<noteq> []" "0 < len" by linarith
  then show ?case
  proof cases
    case 1
    then show ?thesis by (subst fix_loop.simps) auto
  next
    case 2
    then have "fix_loop ?io (length buff) (buff, s) = Some (Inr (Some len), buff, s1)"
      using c by (subst fix_loop.simps) simp
    then show ?thesis using wr_failed [OF c 2(2)] 2(2)
      by (intro exI [of _ "Some len"] exI [of _ 0] exI [of _ s1]) auto
  next
    case 3
    note p = wr_positive [OF c 3(2)]
    let ?rest = "drop (nat len) buff"
    have step: "fix_loop ?io (length buff) (buff, s) = fix_loop ?io (length ?rest) (?rest, s1)"
      using c 3 p by (subst fix_loop.simps) simp
    have "length ?rest < length buff" using 3 p by simp
    from less [OF this, of s1] obtain r k s' where k:
      "fix_loop ?io (length ?rest) (?rest, s1) = Some (Inr r, drop k ?rest, s')"
      "sent s' = sent s1 @ take k ?rest" "r = None \<and> k = length ?rest \<or> (\<exists>len \<le> 0. r = Some len)" by blast
    have "drop k ?rest = drop (nat len + k) buff" by (simp add: add.commute)
    moreover have "sent s' = sent s @ take (nat len + k) buff" using k(2) p by (simp add: take_add)
    moreover have "r = None \<and> nat len + k = length buff \<or> (\<exists>len \<le> 0. r = Some len)" using k(3) p by auto
    ultimately show ?thesis
      using step k(1) by (intro exI [of _ r] exI [of _ "nat len + k"] exI [of _ s']) simp
  qed
qed

lemma writeFixSize_prefix:
  assumes "length buff < 2 ^ 31"
  shows "\<exists>r k s'. writeFixSize wr buff s = Some (Inr r, drop k buff, s') \<and> sent s' = sent s @ take k buff \<and>
    (r = int (length buff) \<and> k = length buff \<or> r \<le> 0)"
proof -
  obtain r k s' where l: "fix_loop (\<lambda>k (rest, s). case wr rest s of (len, s') \<Rightarrow> (Inr len :: unit + int, drop (nat len) rest, s'))
      (length buff) (buff, s) = Some (Inr r, drop k buff, s')" "sent s' = sent s @ take k buff"
    "r = None \<and> k = length buff \<or> (\<exists>len \<le> 0. r = Some len)"
    using sink_loop_spec [of buff s] by blast
  then show ?thesis
    using assms unfolding writeFixSize_def fix_size_def
    by (cases r) (auto intro!: exI [of _ k] exI [of _ s'])
qed

end

end
