(* ===== verification/Fd_Manager.thy ===== *)
theory Fd_Manager
  imports Zy_Prelude
begin

text \<open>
  The table of descriptor attributes (\<open>src/src/netio/FdManager.hpp\<close>, \<open>FdManager.cpp\<close>). What the
  kernel says about a descriptor is a parameter: \<open>kind fd\<close> is the file type that \<open>fstat\<close>
  reports (\<open>None\<close> when it fails), \<open>getfl fd\<close> and \<open>setfl fd\<close> are the results of reading and
  setting the descriptor's flags.
\<close>

section \<open>Descriptor attributes\<close>

datatype FdType = NO_TYPE | SOCKET | PIPE

record FdInfo =
  sysBlocking :: bool
  userBlocking :: bool
  rdtimeout :: u64
  wrtimeout :: u64
  closed :: bool
  inited :: bool
  info_fd :: int
  fdType :: FdType

definition isPipe :: "(int \<Rightarrow> FdType option) \<Rightarrow> FdInfo \<Rightarrow> bool" where
  "isPipe kind i \<longleftrightarrow> kind (info_fd i) = Some PIPE"

definition isSocket :: "(int \<Rightarrow> FdType option) \<Rightarrow> FdInfo \<Rightarrow> bool" where
  "isSocket kind i \<longleftrightarrow> kind (info_fd i) = Some SOCKET"

definition isFile :: "FdInfo \<Rightarrow> bool" where
  "isFile i \<longleftrightarrow> fdType i = NO_TYPE"

definition setType :: "FdType \<Rightarrow> FdInfo \<Rightarrow> FdInfo" where
  "setType type i = i\<lparr>fdType := type\<rparr>"

definition isSysNonBlock :: "FdInfo \<Rightarrow> bool" where
  "isSysNonBlock i \<longleftrightarrow> \<not> sysBlocking i"

definition isUserNonBlock :: "FdInfo \<Rightarrow> bool" where
  "isUserNonBlock i \<longleftrightarrow> \<not> userBlocking i"

text \<open>\<open>setUserNonBlock\<close> returns whether the descriptor was non-blocking before.\<close>

definition setUserNonBlock :: "bool \<Rightarrow> FdInfo \<Rightarrow> bool \<times> FdInfo" where
  "setUserNonBlock state i = (\<not> userBlocking i, i\<lparr>userBlocking := \<not> state\<rparr>)"

datatype timeout_opt = SO_RCVTIMEO | SO_SNDTIMEO

definition getTimeout :: "timeout_opt \<Rightarrow> FdInfo \<Rightarrow> u64" where
  "getTimeout type i = (if type = SO_RCVTIMEO then rdtimeout i else wrtimeout i)"

definition setTimeout :: "timeout_opt \<Rightarrow> u64 \<Rightarrow> FdInfo \<Rightarrow> FdInfo" where
  "setTimeout type timeout i =
     (if type = SO_RCVTIMEO then i\<lparr>rdtimeout := timeout\<rparr> else i\<lparr>wrtimeout := timeout\<rparr>)"

definition info_close :: "FdInfo \<Rightarrow> FdInfo" where
  "info_close i = i\<lparr>closed := True\<rparr>"

definition info_init :: "(int \<Rightarrow> FdType option) \<Rightarrow> (int \<Rightarrow> int) \<Rightarrow> (int \<Rightarrow> int) \<Rightarrow> FdInfo \<Rightarrow> int \<times> FdInfo" where
  "info_init kind getfl setfl i =
     (if inited i then (0, i)
      else
        let i1 = i\<lparr>rdtimeout := - 1, wrtimeout := - 1,
                   fdType := (case kind (info_fd i) of Some SOCKET \<Rightarrow> SOCKET | Some PIPE \<Rightarrow> PIPE
                              | _ \<Rightarrow> fdType i)\<rparr>
        in if fdType i1 \<noteq> NO_TYPE
           then if getfl (info_fd i1) \<noteq> - 1 \<and> setfl (info_fd i1) < 0 then (- 1, i1)
                else (0, i1\<lparr>sysBlocking := False, closed := False, inited := True\<rparr>)
           else (0, i1\<lparr>sysBlocking := True, closed := False, inited := True\<rparr>))"

definition FdInfo_new :: "(int \<Rightarrow> FdType option) \<Rightarrow> (int \<Rightarrow> int) \<Rightarrow> (int \<Rightarrow> int) \<Rightarrow> int \<Rightarrow> FdInfo" where
  "FdInfo_new kind getfl setfl f =
     snd (info_init kind getfl setfl
       \<lparr>sysBlocking = True, userBlocking = True, rdtimeout = - 1, wrtimeout = - 1, closed = True,
        inited = False, info_fd = f, fdType = NO_TYPE\<rparr>)"

section \<open>The table\<close>

type_synonym fd_table = "FdInfo option list"

datatype fdm_error = FdmAssert | FdmRange

definition FdManager :: fd_table where
  "FdManager = replicate 4096 None"

definition lookUp ::
  "(int \<Rightarrow> FdType option) \<Rightarrow> (int \<Rightarrow> int) \<Rightarrow> (int \<Rightarrow> int) \<Rightarrow> int \<Rightarrow> bool \<Rightarrow> fd_table \<Rightarrow> FdInfo option \<times> fd_table" where
  "lookUp kind getfl setfl f create fds =
     (if f < 0 then (None, fds)
      else if length fds \<le> nat f \<and> \<not> create then (None, fds)
      else if nat f < length fds \<and> \<not> create then (fds ! nat f, fds)
      else
        let fds1 = (if length fds \<le> nat f then fds @ replicate (nat f * 2 - length fds) None else fds);
            i = Some (FdInfo_new kind getfl setfl f)
        in (i, fds1[nat f := i]))"

definition del :: "int \<Rightarrow> (fd_table, fdm_error, unit) st_exn" where
  "del f fds =
     (if f < 0 then (Inl FdmAssert, fds)
      else if length fds \<le> nat f then (Inl FdmRange, fds)
      else (Inr (), fds[nat f := None]))"

text \<open>A look-up that does not create.\<close>

definition fd_get :: "int \<Rightarrow> fd_table \<Rightarrow> FdInfo option" where
  "fd_get f fds = (if 0 \<le> f \<and> nat f < length fds then fds ! nat f else None)"

section \<open>Properties\<close>

lemma lookUp_get: "lookUp kind getfl setfl f False fds = (fd_get f fds, fds)"
  by (simp add: lookUp_def fd_get_def)

lemma lookUp_create:
  assumes "0 \<le> f" "4096 \<le> length fds" "lookUp kind getfl setfl f True fds = (i, fds')"
  shows "i = Some (FdInfo_new kind getfl setfl f)" "fd_get f fds' = i"
    "length fds \<le> length fds'" "g \<noteq> f \<Longrightarrow> 0 \<le> g \<Longrightarrow> fd_get g fds' = fd_get g fds"
  using assms
  by (auto simp: lookUp_def fd_get_def Let_def nth_append eq_nat_nat_iff split: if_splits)

text \<open>
  The descriptor table behaves as a map: creating an entry makes look-ups of that
  descriptor return the new attributes and of all others what they returned before, also when
  the table has to grow; deleting makes them return nothing. A look-up never changes the table.
\<close>

theorem fd_table_map_laws:
  assumes "0 \<le> f" "4096 \<le> length fds" "0 \<le> g"
    and "lookUp kind getfl setfl f True fds = (i, fds')"
  shows "i = Some (FdInfo_new kind getfl setfl f) \<and>
    lookUp kind getfl setfl g False fds' = (if g = f then i else fst (lookUp kind getfl setfl g False fds), fds') \<and>
    (\<exists>fds''. del f fds' = (Inr (), fds'') \<and>
      fst (lookUp kind getfl setfl g False fds'') =
        (if g = f then None else fst (lookUp kind getfl setfl g False fds)))"
proof -
  note l = lookUp_create [OF assms(1,2,4)]
  have "nat f < length fds'" using l(1,2) assms(1) by (auto simp: fd_get_def split: if_splits)
  then have d: "del f fds' = (Inr (), fds'[nat f := None])" using assms(1) by (simp add: del_def)
  have "fd_get g (fds'[nat f := None]) = (if g = f then None else fd_get g fds')"
    using assms(1,3) by (auto simp: fd_get_def nth_list_update eq_nat_nat_iff)
  then show ?thesis using d l assms(3) by (simp add: lookUp_get)
qed

theorem fd_table_map_laws_witness:
  "\<exists>fds'. lookUp (\<lambda>_. Some SOCKET) (\<lambda>_. 2) (\<lambda>_. 0) 5 True FdManager = (Some (FdInfo_new (\<lambda>_. Some SOCKET) (\<lambda>_. 2) (\<lambda>_. 0) 5), fds')"
proof -
  obtain i fds' where l: "lookUp (\<lambda>_. Some SOCKET) (\<lambda>_. 2) (\<lambda>_. 0) 5 True FdManager = (i, fds')" by fastforce
  then show ?thesis using fd_table_map_laws [OF _ _ _ l, of 0] by (simp add: FdManager_def)
qed

text \<open>
  What a new entry says of its descriptor: a socket or pipe is made non-blocking in the
  kernel while the user still sees a blocking descriptor, and there is no time-out; when
  setting the flag fails the entry stays marked closed; anything else stays blocking.
\<close>

theorem fd_info_init_cases:
  "let i = FdInfo_new kind getfl setfl f;
       special = (kind f = Some SOCKET \<or> kind f = Some PIPE);
       failed = (special \<and> getfl f \<noteq> - 1 \<and> setfl f < 0)
   in isUserNonBlock i = False \<and> getTimeout SO_RCVTIMEO i = - 1 \<and> getTimeout SO_SNDTIMEO i = - 1 \<and>
      closed i = failed \<and> inited i = (\<not> failed) \<and> isSysNonBlock i = (special \<and> \<not> failed) \<and>
      isFile i = (\<not> special) \<and> info_fd i = f"
  by (auto simp: FdInfo_new_def info_init_def Let_def isUserNonBlock_def getTimeout_def isSysNonBlock_def
      isFile_def split: option.split FdType.split)

end
