(* ===== verification/Hook.thy ===== *)
theory Hook
  imports Fd_Manager Reactor
begin

text \<open>
  The hooked system calls (\<open>src/src/netio/Hook.cpp\<close>). Each takes the results of the original
  functions (\<open>read_f\<close>, \<open>connect_f\<close> and so on) as arguments, because these are resolved at run
  time in the C library; \<open>kind\<close>, \<open>getfl\<close> and \<open>setfl\<close> are as for the descriptor table.
\<close>

section \<open>Error numbers and outcomes\<close>

definition EPERM :: int where "EPERM = 1"
definition EINTR :: int where "EINTR = 4"
definition EBADF :: int where "EBADF = 9"
definition EAGAIN :: int where "EAGAIN = 11"
definition EINVAL :: int where "EINVAL = 22"
definition ETIMEDOUT :: int where "ETIMEDOUT = 110"
definition EINPROGRESS :: int where "EINPROGRESS = 115"

lemmas errnos = EPERM_def EINTR_def EBADF_def EAGAIN_def EINVAL_def ETIMEDOUT_def EINPROGRESS_def

text \<open>
  A call returns a value and leaves \<open>errno\<close>; or it is still waiting for an event; or it ends
  the process (\<open>assert(0)\<close>); or it never returns.
\<close>

datatype outcome = Return int int | Waiting_event | Abort | Diverges

section \<open>Input and output\<close>

text \<open>
  One round of \<open>do_io\<close>: whether the kernel reports the descriptor as non-blocking, the result
  and \<open>errno\<close> of the original function, the result of registering the event (and \<open>errno\<close> then),
  and the value of \<open>tinfo->cancled\<close> when the fiber runs again.
\<close>

record round =
  is_nonb :: bool
  ori_n :: int
  ori_errno :: int
  add_rt :: int
  add_errno :: int
  cancled :: int

fun io_loop :: "round list \<Rightarrow> outcome" where
  "io_loop [] = Waiting_event"
| "io_loop (a # as) =
     (if \<not> is_nonb a then Abort
      else if ori_n a = - 1 \<and> ori_errno a = EINTR then io_loop as
      else if ori_n a = - 1 \<and> ori_errno a \<noteq> EAGAIN then Return (- 1) (ori_errno a)
      else if 0 \<le> ori_n a then Return (ori_n a) 0
      else if add_rt a = 0
      then if cancled a \<noteq> 0 then Return (- 1) (cancled a) else io_loop as
      else Return (- 1) (add_errno a))"

text \<open>The original function, called once.\<close>

definition ori_call :: "round list \<Rightarrow> outcome" where
  "ori_call as = (case as of [] \<Rightarrow> Waiting_event | a # _ \<Rightarrow> Return (ori_n a) (ori_errno a))"

definition do_io :: "(int \<Rightarrow> FdType option) \<Rightarrow> bool \<Rightarrow> int \<Rightarrow> fd_table \<Rightarrow> round list \<Rightarrow> outcome" where
  "do_io kind enabled f fds as =
     (if \<not> enabled then ori_call as
      else case fd_get f fds of
             None \<Rightarrow> ori_call as
           | Some i \<Rightarrow>
               if closed i then Return (- 1) EBADF
               else if isUserNonBlock i then ori_call as
               else if \<not> isSocket kind i \<and> \<not> isPipe kind i then ori_call as
               else io_loop as)"

text \<open>The descriptor returned by \<open>accept\<close> gets an entry of its own.\<close>

definition hook_accept ::
  "(int \<Rightarrow> FdType option) \<Rightarrow> (int \<Rightarrow> int) \<Rightarrow> (int \<Rightarrow> int) \<Rightarrow> bool \<Rightarrow> int \<Rightarrow> round list \<Rightarrow> fd_table \<Rightarrow> outcome \<times> fd_table" where
  "hook_accept kind getfl setfl enabled f as fds =
     (let r = do_io kind enabled f fds as
      in (r, case r of Return n _ \<Rightarrow> if 0 \<le> n then snd (lookUp kind getfl setfl n True fds) else fds
             | _ \<Rightarrow> fds))"

text \<open>
  \<open>connect\<close>: the first round is the original call; \<open>so_error\<close> is the result of asking for the
  pending error, \<open>None\<close> when that fails (with \<open>so_errno\<close>).
\<close>

definition hook_connect ::
  "(int \<Rightarrow> FdType option) \<Rightarrow> bool \<Rightarrow> int \<Rightarrow> fd_table \<Rightarrow> round \<Rightarrow> int option \<Rightarrow> int \<Rightarrow> outcome" where
  "hook_connect kind enabled f fds a so_error so_errno =
     (if \<not> enabled then Return (ori_n a) (ori_errno a)
      else case fd_get f fds of
             None \<Rightarrow> Return (ori_n a) (ori_errno a)
           | Some i \<Rightarrow>
               if closed i then Return (- 1) EBADF
               else if \<not> isSocket kind i \<or> isUserNonBlock i then Return (ori_n a) (ori_errno a)
               else if ori_n a = 0 then Return 0 (ori_errno a)
               else if ori_n a \<noteq> - 1 \<or> ori_errno a \<noteq> EINPROGRESS then Return (ori_n a) (ori_errno a)
               else if add_rt a = 0
               then if cancled a \<noteq> 0 then Return (- 1) (cancled a)
                    else case so_error of
                           None \<Rightarrow> Return (- 1) so_errno
                         | Some e \<Rightarrow> if e = 0 then Return 0 (add_errno a) else Return (- 1) e
               else Return (- 1) (add_errno a))"

text \<open>
  The time-out of a waiting round: no timer for the value \<open>(uint64_t)-1\<close>; otherwise a timer of
  that many milliseconds (the value passes through \<open>time_t\<close>). Its callback does nothing when
  the round is over (\<open>alive\<close>) or was cancelled before, and else cancels the event.
\<close>

definition io_timer :: "u64 \<Rightarrow> u64 \<Rightarrow> (tm_error + timer) option" where
  "io_timer now timeout = (if timeout = - 1 then None else Some (Timer now 0 (sint timeout) 0 0))"

definition io_timeout :: "kernel \<Rightarrow> int \<Rightarrow> EventType \<Rightarrow> bool \<Rightarrow> int \<Rightarrow> reactor \<Rightarrow> (re_error + int) \<times> reactor" where
  "io_timeout ctl f type alive c r =
     (if \<not> alive \<or> c \<noteq> 0 then (Inr c, r)
      else sbind (if type = READ \<or> type = WRITE then cancelEvent ctl f type else sret 0)
             (\<lambda>_. sret ETIMEDOUT) r)"

section \<open>Sleeping\<close>

text \<open>The timer each sleeping call adds; \<open>None\<close> when the original function is used.\<close>

definition hook_sleep :: "bool \<Rightarrow> u64 \<Rightarrow> nat \<Rightarrow> (tm_error + timer) option" where
  "hook_sleep enabled now seconds = (if \<not> enabled then None else Some (Timer now (int seconds) 0 0 0))"

definition hook_usleep :: "bool \<Rightarrow> u64 \<Rightarrow> nat \<Rightarrow> (tm_error + timer) option" where
  "hook_usleep enabled now usec = (if \<not> enabled then None else Some (Timer now 0 (int (usec div 1000)) 0 0))"

text \<open>\<open>nanosleep\<close> refuses some arguments with \<open>EINVAL\<close> (\<open>Inl\<close>).\<close>

definition hook_nanosleep :: "bool \<Rightarrow> u64 \<Rightarrow> int \<Rightarrow> int \<Rightarrow> (int + (tm_error + timer)) option" where
  "hook_nanosleep enabled now sec nsec =
     (if \<not> enabled then None
      else if nsec < 0 \<or> 1000000000 < nsec \<or> sec < 0 \<or> 1000000000 < sec then Some (Inl EINVAL)
      else Some (Inr (Timer now sec (nsec div 1000000) 0 0)))"

section \<open>Descriptors\<close>

text \<open>The calls that make descriptors; \<open>rt\<close> is the result of the original function.\<close>

definition hook_socket ::
  "(int \<Rightarrow> FdType option) \<Rightarrow> (int \<Rightarrow> int) \<Rightarrow> (int \<Rightarrow> int) \<Rightarrow> bool \<Rightarrow> int \<Rightarrow> fd_table \<Rightarrow> int \<times> fd_table" where
  "hook_socket kind getfl setfl enabled rt fds =
     (if \<not> enabled \<or> rt = - 1 then (rt, fds) else (rt, snd (lookUp kind getfl setfl rt True fds)))"

definition hook_pipe ::
  "(int \<Rightarrow> FdType option) \<Rightarrow> (int \<Rightarrow> int) \<Rightarrow> (int \<Rightarrow> int) \<Rightarrow> bool \<Rightarrow> int \<Rightarrow> int \<Rightarrow> int \<Rightarrow> fd_table \<Rightarrow> int \<times> fd_table" where
  "hook_pipe kind getfl setfl enabled rt f0 f1 fds =
     (if \<not> enabled \<or> rt < 0 then (rt, fds)
      else (rt, snd (lookUp kind getfl setfl f1 True (snd (lookUp kind getfl setfl f0 True fds)))))"

text \<open>Setting the user's mode through the pointer that \<open>lookUp\<close> returned.\<close>

definition set_user_nonb :: "int \<Rightarrow> bool \<Rightarrow> fd_table \<Rightarrow> fd_table" where
  "set_user_nonb f state fds =
     (case fd_get f fds of None \<Rightarrow> fds | Some i \<Rightarrow> fds[nat f := Some (snd (setUserNonBlock state i))])"

definition hook_pipe2 ::
  "(int \<Rightarrow> FdType option) \<Rightarrow> (int \<Rightarrow> int) \<Rightarrow> (int \<Rightarrow> int) \<Rightarrow> bool \<Rightarrow> int \<Rightarrow> int \<Rightarrow> int \<Rightarrow> bool \<Rightarrow> fd_table \<Rightarrow> int \<times> fd_table" where
  "hook_pipe2 kind getfl setfl enabled rt f0 f1 nonblock fds =
     (if \<not> enabled \<or> rt < 0 then (rt, fds)
      else
        let t1 = set_user_nonb f0 nonblock (snd (lookUp kind getfl setfl f0 True fds));
            t2 = set_user_nonb f1 nonblock (snd (lookUp kind getfl setfl f1 True t1))
        in (rt, t2))"

definition hook_dup ::
  "(int \<Rightarrow> FdType option) \<Rightarrow> (int \<Rightarrow> int) \<Rightarrow> (int \<Rightarrow> int) \<Rightarrow> bool \<Rightarrow> int \<Rightarrow> fd_table \<Rightarrow> int \<times> fd_table" where
  "hook_dup kind getfl setfl enabled newfd fds =
     (if \<not> enabled \<or> newfd < 0 then (newfd, fds) else (newfd, snd (lookUp kind getfl setfl newfd True fds)))"

text \<open>\<open>dup2\<close> calls itself instead of \<open>dup2_f\<close> before anything else.\<close>

definition hook_dup2 :: "int \<Rightarrow> int \<Rightarrow> fd_table \<Rightarrow> outcome" where
  "hook_dup2 oldfd newfd fds = Diverges"

text \<open>\<open>dup3\<close> with hooks disabled returns without calling \<open>dup3_f\<close> (\<open>called\<close> in the result).\<close>

definition hook_dup3 ::
  "(int \<Rightarrow> FdType option) \<Rightarrow> (int \<Rightarrow> int) \<Rightarrow> (int \<Rightarrow> int) \<Rightarrow> bool \<Rightarrow> bool \<Rightarrow> int \<Rightarrow> int \<Rightarrow> fd_table \<Rightarrow> int \<times> bool \<times> fd_table" where
  "hook_dup3 kind getfl setfl available enabled newfd rt fds =
     (if \<not> available then (- 1, False, fds)
      else if \<not> enabled then (newfd, False, fds)
      else if rt < 0 then (rt, True, fds)
      else (rt, True, snd (lookUp kind getfl setfl newfd True fds)))"

datatype hook_error = HReactor re_error | HFdm fdm_error

text \<open>\<open>close\<close> cancels the pending events, forgets the entry, and only then closes.\<close>

definition hook_close :: "kernel \<Rightarrow> bool \<Rightarrow> int \<Rightarrow> int \<Rightarrow> (fd_table \<times> reactor, hook_error, int) st_exn" where
  "hook_close ctl enabled f close_rt s =
     (if \<not> enabled then (Inr close_rt, s)
      else
        case (if fd_get f (fst s) \<noteq> None then cancelAll ctl f (snd s) else (Inr 0, snd s)) of
          (Inl e, r) \<Rightarrow> (Inl (HReactor e), (fst s, r))
        | (Inr _, r) \<Rightarrow>
            (case del f (fst s) of
               (Inl e, t) \<Rightarrow> (Inl (HFdm e), (t, r))
             | (Inr _, t) \<Rightarrow> (Inr close_rt, (t, r))))"

text \<open>\<open>__close\<close> forgets the entry only when there is one.\<close>

definition hook_close2 :: "kernel \<Rightarrow> bool \<Rightarrow> int \<Rightarrow> int \<Rightarrow> (fd_table \<times> reactor, hook_error, int) st_exn" where
  "hook_close2 ctl enabled f close_rt s =
     (if enabled \<and> fd_get f (fst s) \<noteq> None then hook_close ctl enabled f close_rt s else (Inr close_rt, s))"

section \<open>Flags and options\<close>

definition O_NONBLOCK :: u32 where "O_NONBLOCK = 0x800"

text \<open>
  The flag commands of \<open>fcntl\<close> on the table and the kernel's flags: \<open>k_set\<close> stores the flags of
  a descriptor, \<open>k_get\<close> reads them.
\<close>

definition managed :: "(int \<Rightarrow> FdType option) \<Rightarrow> int \<Rightarrow> fd_table \<Rightarrow> bool" where
  "managed kind f fds \<longleftrightarrow>
     (case fd_get f fds of None \<Rightarrow> False | Some i \<Rightarrow> \<not> closed i \<and> isSocket kind i)"

definition fcntl_setfl ::
  "(int \<Rightarrow> FdType option) \<Rightarrow> (int \<Rightarrow> u32 \<Rightarrow> 'k \<Rightarrow> 'k) \<Rightarrow> int \<Rightarrow> u32 \<Rightarrow> fd_table \<times> 'k \<Rightarrow> fd_table \<times> 'k" where
  "fcntl_setfl kind k_set f arg s =
     (if \<not> managed kind f (fst s) then (fst s, k_set f arg (snd s))
      else
        let fds1 = set_user_nonb f (arg AND O_NONBLOCK \<noteq> 0) (fst s);
            arg1 = (if (case fd_get f fds1 of None \<Rightarrow> False | Some i \<Rightarrow> isSysNonBlock i)
                    then arg OR O_NONBLOCK else arg AND NOT O_NONBLOCK)
        in (fds1, k_set f arg1 (snd s)))"

definition fcntl_getfl ::
  "(int \<Rightarrow> FdType option) \<Rightarrow> (int \<Rightarrow> 'k \<Rightarrow> u32) \<Rightarrow> int \<Rightarrow> fd_table \<times> 'k \<Rightarrow> u32" where
  "fcntl_getfl kind k_get f s =
     (if \<not> managed kind f (fst s) then k_get f (snd s)
      else case fd_get f (fst s) of
             None \<Rightarrow> k_get f (snd s)
           | Some i \<Rightarrow> if isUserNonBlock i then k_get f (snd s) OR O_NONBLOCK
                       else k_get f (snd s) AND NOT O_NONBLOCK)"

text \<open>
  How the other commands are treated: passed on with an integer argument, passed on without
  one, or answered by calling the hook itself again.
\<close>

datatype fcntl_cmd =
    F_DUPFD | F_DUPFD_CLOEXEC | F_SETFD | F_SETOWN | F_SETSIG | F_SETLEASE | F_NOTIFY | F_SETPIPE_SZ
  | F_GETFD | F_GETOWN | F_GETSIG | F_GETLEASE | F_GETPIPE_SZ
  | F_SETLK | F_SETLKW | F_GETLK | F_GETOWN_EX | F_SETOWN_EX | F_OTHER

definition fcntl_other :: "fcntl_cmd \<Rightarrow> int \<Rightarrow> int \<Rightarrow> outcome" where
  "fcntl_other cmd rt err =
     (if cmd \<in> {F_DUPFD, F_DUPFD_CLOEXEC, F_SETFD, F_SETOWN, F_SETSIG, F_SETLEASE, F_NOTIFY, F_SETPIPE_SZ}
      then Return rt err
      else if cmd \<in> {F_GETFD, F_GETOWN, F_GETSIG, F_GETLEASE, F_GETPIPE_SZ} then Return rt err
      else Diverges)"

text \<open>
  \<open>ioctl\<close> gives \<open>ioctl_f\<close> either the caller's pointer to the flag or, on the early return, the
  flag itself in place of a pointer. \<open>k_nb\<close> is the effect of \<open>ioctl_f(fd, FIONBIO, ...)\<close>.
\<close>

datatype ioctl_arg = Pointer_to bool | Immediate bool

definition ioctl_fionbio ::
  "(int \<Rightarrow> FdType option) \<Rightarrow> (int \<Rightarrow> ioctl_arg \<Rightarrow> 'k \<Rightarrow> 'k) \<Rightarrow> int \<Rightarrow> bool \<Rightarrow> fd_table \<times> 'k \<Rightarrow> fd_table \<times> 'k" where
  "ioctl_fionbio kind k_nb f setNb s =
     (if \<not> managed kind f (fst s) then (fst s, k_nb f (Immediate setNb) (snd s))
      else (set_user_nonb f setNb (fst s), k_nb f (Pointer_to setNb) (snd s)))"

text \<open>
  \<open>setsockopt\<close>: \<open>opt\<close> is the time-out option when the level is \<open>SOL_SOCKET\<close> and the option is one
  of the two. The original function has been called first whatever follows. The division of
  \<open>tv_usec\<close> rounds towards zero and the sum is stored in 64 unsigned bits.
\<close>

definition hook_setsockopt :: "bool \<Rightarrow> int \<Rightarrow> timeout_opt option \<Rightarrow> int \<Rightarrow> int \<Rightarrow> fd_table \<Rightarrow> fd_table" where
  "hook_setsockopt enabled f opt tv_sec tv_usec fds =
     (if \<not> enabled then fds
      else case opt of
             None \<Rightarrow> fds
           | Some optname \<Rightarrow>
               (case fd_get f fds of
                  None \<Rightarrow> fds
                | Some i \<Rightarrow>
                    let millsec = of_int (tv_sec * 1000 + sgn tv_usec * (\<bar>tv_usec\<bar> div 1000))
                    in fds[nat f := Some (setTimeout optname millsec i)]))"

section \<open>Properties\<close>

text \<open>A round after which \<open>do_io\<close> tries again.\<close>

definition transient :: "round \<Rightarrow> bool" where
  "transient a \<longleftrightarrow> is_nonb a \<and>
     ((ori_n a = - 1 \<and> ori_errno a = EINTR) \<or>
      (\<not> 0 \<le> ori_n a \<and> \<not> (ori_n a = - 1 \<and> ori_errno a \<noteq> EAGAIN) \<and> add_rt a = 0 \<and> cancled a = 0))"

lemma io_loop_dropWhile: "io_loop as = io_loop (dropWhile transient as)"
  by (induction as) (auto simp: transient_def)

text \<open>
  C11. A hooked call on a blocking socket or pipe behaves like a blocking call: rounds that were
  interrupted, or that found nothing ready and waited for the event, are repeated, and the
  first other round decides. The caller gets its non-negative result, or its error, or the
  time-out, or the failure to register; it never sees an interrupted or would-block error of
  the original function, and it never returns while all rounds are transient.
\<close>

theorem do_io_blocks:
  assumes "fd_get f fds = Some i" "\<not> closed i" "userBlocking i" "isSocket kind i \<or> isPipe kind i"
    and "\<forall>a \<in> set as. is_nonb a \<and> - 1 \<le> ori_n a"
  shows "case dropWhile transient as of
      [] \<Rightarrow> do_io kind True f fds as = Waiting_event
    | a # _ \<Rightarrow>
        do_io kind True f fds as =
          (if 0 \<le> ori_n a then Return (ori_n a) 0
           else if ori_errno a \<noteq> EAGAIN then Return (- 1) (ori_errno a)
           else if add_rt a \<noteq> 0 then Return (- 1) (add_errno a)
           else Return (- 1) (cancled a)) \<and>
        (ori_n a = - 1 \<longrightarrow> ori_errno a \<noteq> EINTR)"
proof -
  have d: "do_io kind True f fds as = io_loop (dropWhile transient as)"
    using assms(1-4) io_loop_dropWhile [of as] by (auto simp: do_io_def isUserNonBlock_def)
  show ?thesis
  proof (cases "dropWhile transient as")
    case Nil
    show ?thesis unfolding d Nil by simp
  next
    case (Cons a as')
    have "\<not> transient a" using hd_dropWhile [of transient as] Cons by simp
    moreover have "a \<in> set as" using set_dropWhileD [of a transient as] Cons by simp
    then have "is_nonb a" "- 1 \<le> ori_n a" using assms(5) by auto
    then have "ori_n a = - 1 \<or> 0 \<le> ori_n a" by linarith
    ultimately have "io_loop (a # as') =
        (if 0 \<le> ori_n a then Return (ori_n a) 0
         else if ori_errno a \<noteq> EAGAIN then Return (- 1) (ori_errno a)
         else if add_rt a \<noteq> 0 then Return (- 1) (add_errno a)
         else Return (- 1) (cancled a)) \<and> (ori_n a = - 1 \<longrightarrow> ori_errno a \<noteq> EINTR)"
      using \<open>is_nonb a\<close> by (elim disjE) (simp_all add: transient_def EINTR_def EAGAIN_def)
    then show ?thesis unfolding d Cons by simp
  qed
qed

definition again :: round where
  "again = \<lparr>is_nonb = True, ori_n = - 1, ori_errno = EAGAIN, add_rt = 0, add_errno = 0, cancled = 0\<rparr>"

definition blocking_socket :: "fd_table" where
  "blocking_socket = [Some (FdInfo_new (\<lambda>_. Some SOCKET) (\<lambda>_. 2) (\<lambda>_. 0) 0)]"

lemma blocking_socket_get:
  "\<exists>i. fd_get 0 blocking_socket = Some i \<and> \<not> closed i \<and> userBlocking i \<and> info_fd i = 0 \<and> \<not> sysBlocking i"
  by (simp add: blocking_socket_def fd_get_def FdInfo_new_def info_init_def Let_def)

theorem do_io_blocks_witness:
  "do_io (\<lambda>_. Some SOCKET) True 0 blocking_socket [again, again, again\<lparr>ori_n := 7\<rparr>] = Return 7 0"
proof -
  obtain i where i: "fd_get 0 blocking_socket = Some i" "\<not> closed i" "userBlocking i" "info_fd i = 0"
    using blocking_socket_get by blast
  have "dropWhile transient [again, again, again\<lparr>ori_n := 7\<rparr>] = [again\<lparr>ori_n := 7\<rparr>]"
    by (simp add: transient_def again_def errnos)
  then show ?thesis
    using do_io_blocks [OF i(1-3), of "\<lambda>_. Some SOCKET" "[again, again, again\<lparr>ori_n := 7\<rparr>]"]
    by (simp add: isSocket_def again_def)
qed

text \<open>
  The user's view of the flags of a managed socket is consistent: what \<open>F_SETFL\<close> stores is
  what \<open>F_GETFL\<close> returns, bit for bit, while the kernel keeps the descriptor non-blocking
  whatever the user asked for. The kernel is assumed to return the flags last stored.
\<close>

theorem fcntl_flags_virtual:
  assumes "fd_get f fds = Some i" "managed kind f fds" "\<not> sysBlocking i"
    and "\<And>a k. k_get f (k_set f a k) = a"
  shows "fcntl_getfl kind k_get f (fcntl_setfl kind k_set f arg (fds, k)) = arg \<and>
    k_get f (snd (fcntl_setfl kind k_set f arg (fds, k))) AND O_NONBLOCK \<noteq> 0 \<and>
    (\<exists>j. fd_get f (fst (fcntl_setfl kind k_set f arg (fds, k))) = Some j \<and>
      isUserNonBlock j = (arg AND O_NONBLOCK \<noteq> 0))"
proof -
  let ?b = "arg AND O_NONBLOCK \<noteq> 0"
  let ?j = "snd (setUserNonBlock ?b i)"
  have range: "0 \<le> f" "nat f < length fds" using assms(1) by (auto simp: fd_get_def split: if_splits)
  have i: "\<not> closed i" "isSocket kind i" using assms(1,2) by (auto simp: managed_def)
  let ?t = "fds[nat f := Some ?j]"
  have t: "set_user_nonb f ?b fds = ?t" using assms(1) by (simp add: set_user_nonb_def)
  have g: "fd_get f ?t = Some ?j" using range by (simp add: fd_get_def)
  have m: "managed kind f ?t" using g i by (simp add: managed_def setUserNonBlock_def isSocket_def)
  have s: "fcntl_setfl kind k_set f arg (fds, k) = (?t, k_set f (arg OR O_NONBLOCK) k)"
    using assms(2,3) t g by (simp add: fcntl_setfl_def isSysNonBlock_def setUserNonBlock_def Let_def)
  have one: "bit O_NONBLOCK n \<longleftrightarrow> n = 11" for n
  proof -
    have p: "O_NONBLOCK = 2 ^ 11" by (simp add: O_NONBLOCK_def)
    show ?thesis unfolding p by (simp only: bit_exp_iff possible_bit_word) auto
  qed
  have b: "?b \<longleftrightarrow> bit arg 11"
    using one by (auto simp: bit_eq_iff [of "arg AND O_NONBLOCK"] bit_and_iff)
  have "arg OR O_NONBLOCK = arg" if "?b"
    using that b one by (intro bit_word_eqI) (auto simp: bit_or_iff)
  moreover have "(arg OR O_NONBLOCK) AND NOT O_NONBLOCK = arg" if "\<not> ?b"
    using that b one by (intro bit_word_eqI) (auto simp: bit_or_iff bit_and_iff bit_not_iff)
  moreover have "bit ((arg OR O_NONBLOCK) AND O_NONBLOCK) 11" using one by (simp add: bit_and_iff bit_or_iff)
  then have "(arg OR O_NONBLOCK) AND O_NONBLOCK \<noteq> 0" by (metis bit_0_eq bot_apply bot_bool_def)
  ultimately show ?thesis
    using m g assms(4) by (simp add: s fcntl_getfl_def isUserNonBlock_def setUserNonBlock_def)
qed

theorem fcntl_flags_virtual_witness:
  "fcntl_getfl (\<lambda>_. Some SOCKET) (\<lambda>f k. k f) 0
     (fcntl_setfl (\<lambda>_. Some SOCKET) (\<lambda>f a k. k(f := a)) 0 2 (blocking_socket, \<lambda>_. 0)) = 2"
proof -
  obtain i where i: "fd_get 0 blocking_socket = Some i" "\<not> closed i" "\<not> sysBlocking i"
    using blocking_socket_get by blast
  have m: "managed (\<lambda>_. Some SOCKET) 0 blocking_socket" using i by (simp add: managed_def isSocket_def)
  show ?thesis
    using fcntl_flags_virtual [OF i(1) m i(3), of "\<lambda>f k. k f" "\<lambda>f a k. k(f := a)" 2 "\<lambda>_. 0"] by simp
qed

text \<open>
  Closing a descriptor that has an entry wakes whoever waits on it: with the kernel
  agreeing, every fiber parked on the descriptor is handed to the scheduler, no event stays
  registered, the hold count stays exact, the entry is forgotten and the result of the
  original \<open>close\<close> is returned; \<open>__close\<close> does the same. When there is no entry, \<open>__close\<close> only
  closes, but \<open>close\<close> throws if the descriptor is beyond the table.
\<close>

theorem hook_close_wakes_waiters:
  assumes "re_ok r" "in_map f r" "\<And>op g e. ctl op g e = 0"
  shows "(\<forall>i. fd_get f fds = Some i \<longrightarrow>
      (\<exists>r'. hook_close ctl True f rt (fds, r) = (Inr rt, (fds[nat f := None], r')) \<and>
        hook_close2 ctl True f rt (fds, r) = (Inr rt, (fds[nat f := None], r')) \<and>
        ready r' = ready r @ fibers_for (event (ev_at r f)) (ev_at r f) \<and>
        event (ev_at r' f) = EV_NONE \<and> re_ok r' \<and> other_holds r' = other_holds r)) \<and>
    (fd_get f fds = None \<longrightarrow> hook_close2 ctl True f rt (fds, r) = (Inr rt, (fds, r))) \<and>
    (length fds \<le> nat f \<longrightarrow> hook_close ctl True f rt (fds, r) = (Inl (HFdm FdmRange), (fds, r)))"
proof -
  have f: "0 \<le> f" using assms(2) by (simp add: in_map_def)
  obtain c r' where c: "cancelAll ctl f r = (Inr c, r')" "keeps r r'"
    "c = 0 \<longrightarrow> event (ev_at r' f) = 0 \<and> ready r' = ready r @ fibers_for (event (ev_at r f)) (ev_at r f)"
    using cancelAll_keeps [OF assms(1), of ctl f] by blast
  have "c = 0" using c(1) assms(2,3) by (auto simp: cancelAll_def Let_def sbind_Inr_iff sret_def split: if_splits)
  moreover have "del f fds = (Inr (), fds[nat f := None])" if "fd_get f fds = Some i" for i
    using that by (auto simp: del_def fd_get_def split: if_splits)
  moreover have "fd_get f fds = None" if "length fds \<le> nat f" using that by (simp add: fd_get_def)
  ultimately show ?thesis
    using c f by (auto simp: hook_close_def hook_close2_def keeps_def EV_NONE_def del_def)
qed

theorem hook_close_wakes_waiters_witness:
  "\<exists>r'. hook_close (\<lambda>_ _ _. 0) True 0 0 (blocking_socket, Reactor) = (Inr 0, ([None], r')) \<and> re_ok r'"
proof -
  obtain i where "fd_get 0 blocking_socket = Some i" using blocking_socket_get by blast
  then show ?thesis
    using hook_close_wakes_waiters [OF Reactor_ok(1), of 0 "\<lambda>_ _ _. 0" blocking_socket 0]
    by (auto simp: Reactor_ok(2) blocking_socket_def)
qed

text \<open>
  \<open>ioctl(FIONBIO)\<close> does not keep up the picture that \<open>fcntl\<close> keeps up: it forwards the user's
  flag to the kernel unchanged. After the flag 0 on a managed socket the user's mode is
  blocking and the kernel's is too, so the next hooked read or write on the descriptor finds
  it blocking and ends the process. The kernel is assumed to obey the request.
\<close>

theorem ioctl_zero_then_io_aborts:
  assumes "managed kind f fds" "\<And>b k. k_mode f (k_nb f (Pointer_to b) k) = b"
    and "ioctl_fionbio kind k_nb f False (fds, k) = (fds', k')"
    and "is_nonb a = k_mode f k'"
  shows "do_io kind True f fds' (a # as) = Abort"
proof -
  obtain i where i: "fd_get f fds = Some i" "\<not> closed i" "isSocket kind i"
    using assms(1) by (auto simp: managed_def split: option.splits)
  have "0 \<le> f" "nat f < length fds" using i(1) by (auto simp: fd_get_def split: if_splits)
  then have "fd_get f fds' = Some (i\<lparr>userBlocking := True\<rparr>)" "k' = k_nb f (Pointer_to False) k"
    using assms(1,3) i(1)
    by (auto simp: ioctl_fionbio_def set_user_nonb_def setUserNonBlock_def fd_get_def)
  then show ?thesis
    using i assms(2,4) by (simp add: do_io_def isUserNonBlock_def isSocket_def)
qed

theorem ioctl_zero_then_io_aborts_witness:
  "let s = ioctl_fionbio (\<lambda>_. Some SOCKET) (\<lambda>_ a _. case a of Pointer_to b \<Rightarrow> b | Immediate b \<Rightarrow> True) 0 False (blocking_socket, True)
   in do_io (\<lambda>_. Some SOCKET) True 0 (fst s) [again\<lparr>is_nonb := snd s\<rparr>] = Abort"
proof -
  have m: "managed (\<lambda>_. Some SOCKET) 0 blocking_socket"
    using blocking_socket_get by (auto simp: managed_def isSocket_def)
  show ?thesis unfolding Let_def
    by (rule ioctl_zero_then_io_aborts [OF m, where k_mode = "\<lambda>_ b. b"
        and k_nb = "\<lambda>_ a _. case a of Pointer_to b \<Rightarrow> b | Immediate b \<Rightarrow> True" and k = True
        and k' = "snd (ioctl_fionbio (\<lambda>_. Some SOCKET) (\<lambda>_ a _. case a of Pointer_to b \<Rightarrow> b | Immediate b \<Rightarrow> True) 0 False (blocking_socket, True))"]) simp_all
qed

end
