(* ===== verification/Text_Out.thy ===== *)
theory Text_Out
  imports Zy_Prelude
begin

text \<open>
  The numbers that output streams of the standard library write: \<open>dec n\<close> in decimal and
  \<open>hex n\<close> after \<open>std::hex\<close>, both without leading zeros, and the functions that read them back.
\<close>

fun dec :: "nat \<Rightarrow> string" where
  "dec n = (if n < 10 then [char_of (48 + n)] else dec (n div 10) @ [char_of (48 + n mod 10)])"

declare dec.simps [simp del]

definition dec_int :: "int \<Rightarrow> string" where
  "dec_int i = (if i < 0 then CHR ''-'' # dec (nat (- i)) else dec (nat i))"

definition hex_digit :: "nat \<Rightarrow> char" where
  "hex_digit d = ''0123456789abcdef'' ! d"

fun hex :: "nat \<Rightarrow> string" where
  "hex n = (if n < 16 then [hex_digit n] else hex (n div 16) @ [hex_digit (n mod 16)])"

declare hex.simps [simp del]

section \<open>Reading back\<close>

definition read_digits :: "nat \<Rightarrow> (char \<Rightarrow> nat) \<Rightarrow> string \<Rightarrow> nat" where
  "read_digits base digit s = foldl (\<lambda>n c. base * n + digit c) 0 s"

definition dec_value :: "char \<Rightarrow> nat" where
  "dec_value c = of_char c - 48"

definition hex_value :: "char \<Rightarrow> nat" where
  "hex_value c = (if of_char c < (58 :: nat) then of_char c - 48 else of_char c - 87)"

lemma read_digits_snoc [simp]: "read_digits b d (s @ [c]) = b * read_digits b d s + d c"
  by (simp add: read_digits_def)

lemma read_digits_one [simp]: "read_digits b d [c] = d c"
  by (simp add: read_digits_def)

lemma dec_value_char: "n < 10 \<Longrightarrow> dec_value (char_of (48 + n)) = n"
  by (simp add: dec_value_def)

lemma hex_value_digits: "map (\<lambda>n. hex_value (hex_digit n)) [0..<16] = [0..<16]"
  by code_simp

lemma hex_value_digit: "n < 16 \<Longrightarrow> hex_value (hex_digit n) = n"
  using nth_map [of n "[0..<16]" "\<lambda>n. hex_value (hex_digit n)"] unfolding hex_value_digits by simp

lemma read_dec: "read_digits 10 dec_value (dec n) = n"
  by (induction n rule: dec.induct) (subst dec.simps, simp add: dec_value_char)

lemma read_hex: "read_digits 16 hex_value (hex n) = n"
  by (induction n rule: hex.induct) (subst hex.simps, simp add: hex_value_digit)

lemma dec_inj: "dec m = dec n \<longleftrightarrow> m = n"
  by (metis read_dec)

lemma dec_not_Nil [simp]: "dec n \<noteq> []"
  by (subst dec.simps) simp

lemma hex_not_Nil [simp]: "hex n \<noteq> []"
  by (subst hex.simps) simp

lemma dec_digits: "c \<in> set (dec n) \<Longrightarrow> of_char c \<in> {48..<58 :: nat}"
proof (induction n rule: dec.induct)
  case (1 n)
  have "of_char (char_of (48 + m :: nat)) \<in> {48..<58 :: nat}" if "m < 10" for m :: nat
    using that by simp
  then show ?case using 1 by (cases "n < 10") (auto simp: dec.simps [of n])
qed

end
