(* ===== verification/Address.thy ===== *)
theory Address
  imports Endian Ordered Text_Out
begin

text \<open>
  Socket addresses (\<open>src/src/socket/Address.hpp\<close>, \<open>Address.cpp\<close>): the four classes of addresses
  with the memory image that the system calls see, the arithmetic of networks and masks, the
  order, the text form, and the look-ups by host and by interface. \<open>getaddrinfo\<close>, \<open>getifaddrs\<close>
  and \<open>inet_pton\<close> are parameters.
\<close>

section \<open>The classes\<close>

definition AF_UNSPEC :: int where "AF_UNSPEC = 0"
definition AF_UNIX :: int where "AF_UNIX = 1"
definition AF_INET :: int where "AF_INET = 2"
definition AF_INET6 :: int where "AF_INET6 = 10"

lemmas AF_defs = AF_UNSPEC_def AF_UNIX_def AF_INET_def AF_INET6_def

text \<open>The structures of the system headers; ports and IPv4 addresses are in network order.\<close>

record sockaddr_in =
  sin_family :: u16
  sin_port :: u16
  s_addr :: u32
  sin_zero :: "u8 list"

record sockaddr_in6 =
  sin6_family :: u16
  sin6_port :: u16
  sin6_flowinfo :: u32
  s6_addr :: "u8 list"
  sin6_scope_id :: u32

record sockaddr_un =
  sun_family :: u16
  sun_path :: "u8 list"

record sockaddr =
  sa_family :: u16
  sa_data :: "u8 list"

datatype IAddress =
    IPv4Address sockaddr_in
  | IPv6Address sockaddr_in6
  | UnixAddress sockaddr_un u32
  | UnknownAddress sockaddr

text \<open>The sizes of the arrays in the structures.\<close>

fun addr_wf :: "IAddress \<Rightarrow> bool" where
  "addr_wf (IPv4Address a) = (length (sin_zero a) = 8)"
| "addr_wf (IPv6Address a) = (length (s6_addr a) = 16)"
| "addr_wf (UnixAddress a n) = (length (sun_path a) = 108)"
| "addr_wf (UnknownAddress a) = (length (sa_data a) = 14)"

fun getAddr :: "IAddress \<Rightarrow> u8 list" where
  "getAddr (IPv4Address a) = le_bytes 2 (sin_family a) @ le_bytes 2 (sin_port a) @ le_bytes 4 (s_addr a) @ sin_zero a"
| "getAddr (IPv6Address a) = le_bytes 2 (sin6_family a) @ le_bytes 2 (sin6_port a) @ le_bytes 4 (sin6_flowinfo a) @
     s6_addr a @ le_bytes 4 (sin6_scope_id a)"
| "getAddr (UnixAddress a n) = le_bytes 2 (sun_family a) @ sun_path a"
| "getAddr (UnknownAddress a) = le_bytes 2 (sa_family a) @ sa_data a"

fun getAddrLen :: "IAddress \<Rightarrow> nat" where
  "getAddrLen (IPv4Address a) = 16"
| "getAddrLen (IPv6Address a) = 28"
| "getAddrLen (UnixAddress a n) = unat n"
| "getAddrLen (UnknownAddress a) = 16"

definition getFamily :: "IAddress \<Rightarrow> int" where
  "getFamily a = uint (le_word (take 2 (getAddr a)) :: u16)"

lemma getFamily_simps [simp]:
  "getFamily (IPv4Address a) = uint (sin_family a)"
  "getFamily (IPv6Address b) = uint (sin6_family b)"
  "getFamily (UnixAddress c n) = uint (sun_family c)"
  "getFamily (UnknownAddress d) = uint (sa_family d)"
  by (simp_all add: getFamily_def le_word_le_bytes)

text \<open>The constructors.\<close>

definition IPv4Address_new :: "u32 \<Rightarrow> u16 \<Rightarrow> sockaddr_in" where
  "IPv4Address_new addr port =
     \<lparr>sin_family = 2, sin_port = byteSwapOnLittleEndian16 port,
      s_addr = byteSwapOnLittleEndian32 addr, sin_zero = replicate 8 0\<rparr>"

definition IPv4Address_zero :: sockaddr_in where
  "IPv4Address_zero = \<lparr>sin_family = 2, sin_port = 0, s_addr = 0, sin_zero = replicate 8 0\<rparr>"

text \<open>The port is a \<open>uint32_t\<close>: it is swapped at that width and then truncated.\<close>

definition IPv6Address_new :: "u8 list \<Rightarrow> u32 \<Rightarrow> sockaddr_in6" where
  "IPv6Address_new addr port =
     \<lparr>sin6_family = 10, sin6_port = ucast (byteSwapOnLittleEndian32 port), sin6_flowinfo = 0,
      s6_addr = addr, sin6_scope_id = 0\<rparr>"

definition IPv6Address_zero :: sockaddr_in6 where
  "IPv6Address_zero =
     \<lparr>sin6_family = 10, sin6_port = 0, sin6_flowinfo = 0, s6_addr = replicate 16 0, sin6_scope_id = 0\<rparr>"

definition MAX_PATH_LEN :: nat where "MAX_PATH_LEN = 107"

definition UnixAddress_zero :: IAddress where
  "UnixAddress_zero = UnixAddress \<lparr>sun_family = 1, sun_path = replicate 108 0\<rparr> (2 + of_nat MAX_PATH_LEN)"

datatype addr_error = Path_too_long | Out_of_bounds

text \<open>A path that begins with NUL names an abstract socket and has no terminator.\<close>

definition UnixAddress_new :: "u8 list \<Rightarrow> addr_error + IAddress" where
  "UnixAddress_new path =
     (let m_len = (of_nat (length path) + 1 :: u32);
          m_len = (if path \<noteq> [] \<and> path ! 0 = 0 then m_len - 1 else m_len)
      in if 108 < m_len then Inl Path_too_long
         else Inr (UnixAddress \<lparr>sun_family = 1, sun_path = overlay 0 (take (unat m_len) (path @ [0])) (replicate 108 0)\<rparr>
                     (m_len + 2)))"

fun setAddrLen :: "u32 \<Rightarrow> IAddress \<Rightarrow> IAddress" where
  "setAddrLen n (UnixAddress a l) = UnixAddress a n"
| "setAddrLen n a = a"

definition UnknownAddress_new :: "int \<Rightarrow> sockaddr" where
  "UnknownAddress_new family = \<lparr>sa_family = of_int family, sa_data = replicate 14 0\<rparr>"

text \<open>The structures read from memory, as the casts of a \<open>sockaddr\<close> pointer do.\<close>

definition in_of :: "u8 list \<Rightarrow> sockaddr_in" where
  "in_of b = \<lparr>sin_family = le_word (take 2 b), sin_port = le_word (take 2 (drop 2 b)),
     s_addr = le_word (take 4 (drop 4 b)), sin_zero = take 8 (drop 8 b)\<rparr>"

definition in6_of :: "u8 list \<Rightarrow> sockaddr_in6" where
  "in6_of b = \<lparr>sin6_family = le_word (take 2 b), sin6_port = le_word (take 2 (drop 2 b)),
     sin6_flowinfo = le_word (take 4 (drop 4 b)), s6_addr = take 16 (drop 8 b),
     sin6_scope_id = le_word (take 4 (drop 24 b))\<rparr>"

definition newAddress :: "u8 list option \<Rightarrow> IAddress option" where
  "newAddress addr =
     (case addr of
        None \<Rightarrow> None
      | Some b \<Rightarrow>
          let f = uint (le_word (take 2 b) :: u16)
          in Some (if f = AF_INET then IPv4Address (in_of b)
                   else if f = AF_INET6 then IPv6Address (in6_of b)
                   else UnknownAddress \<lparr>sa_family = le_word (take 2 b), sa_data = take 14 (drop 2 b)\<rparr>))"

text \<open>\<open>newAddress\<close> of a text: \<open>pton\<close> is what \<open>inet_pton\<close> stores, \<open>None\<close> when it refuses the text.\<close>

definition newAddress4 :: "(string \<Rightarrow> u32 option) \<Rightarrow> string \<Rightarrow> u16 \<Rightarrow> sockaddr_in option" where
  "newAddress4 pton addr port =
     (case pton addr of
        None \<Rightarrow> None
      | Some a \<Rightarrow> Some \<lparr>sin_family = 2, sin_port = byteSwapOnLittleEndian16 port, s_addr = a, sin_zero = replicate 8 0\<rparr>)"

definition newAddress6 :: "(string \<Rightarrow> u8 list option) \<Rightarrow> string \<Rightarrow> u16 \<Rightarrow> sockaddr_in6 option" where
  "newAddress6 pton addr port =
     (case pton addr of
        None \<Rightarrow> None
      | Some a \<Rightarrow> Some \<lparr>sin6_family = 10, sin6_port = byteSwapOnLittleEndian16 port, sin6_flowinfo = 0,
                        s6_addr = a, sin6_scope_id = 0\<rparr>)"

section \<open>Ports\<close>

definition getPort4 :: "sockaddr_in \<Rightarrow> u32" where
  "getPort4 a = ucast (byteSwapOnLittleEndian16 (sin_port a))"

definition setPort4 :: "u16 \<Rightarrow> sockaddr_in \<Rightarrow> sockaddr_in" where
  "setPort4 port a = a\<lparr>sin_port := byteSwapOnLittleEndian16 port\<rparr>"

definition getPort6 :: "sockaddr_in6 \<Rightarrow> u32" where
  "getPort6 a = ucast (sin6_port a)"

definition setPort6 :: "u16 \<Rightarrow> sockaddr_in6 \<Rightarrow> sockaddr_in6" where
  "setPort6 port a = a\<lparr>sin6_port := byteSwapOnLittleEndian16 port\<rparr>"

section \<open>The order\<close>

text \<open>\<open>memcmp\<close> on arrays of the same length: the sign of the first difference.\<close>

fun memcmp :: "u8 list \<Rightarrow> u8 list \<Rightarrow> int" where
  "memcmp (x # xs) (y # ys) = (if x < y then - 1 else if y < x then 1 else memcmp xs ys)"
| "memcmp _ _ = 0"

definition addr_less :: "IAddress \<Rightarrow> IAddress \<Rightarrow> bool" where
  "addr_less a b =
     (let len = min (getAddrLen a) (getAddrLen b);
          res = memcmp (take len (getAddr a)) (take len (getAddr b))
      in if res < 0 then True
         else if res > 0 then False
         else if getAddrLen a < getAddrLen b then True
         else False)"

definition addr_eq :: "IAddress \<Rightarrow> IAddress \<Rightarrow> bool" where
  "addr_eq a b =
     (if getAddrLen a \<noteq> getAddrLen b then False
      else
        let len = min (getAddrLen a) (getAddrLen b)
        in memcmp (take len (getAddr a)) (take len (getAddr b)) = 0)"

definition addr_neq :: "IAddress \<Rightarrow> IAddress \<Rightarrow> bool" where
  "addr_neq a b = (\<not> addr_eq a b)"

definition addr_greater :: "IAddress \<Rightarrow> IAddress \<Rightarrow> bool" where
  "addr_greater a b = (\<not> addr_less a b \<and> addr_neq a b)"

section \<open>Masks\<close>

text \<open>The shifts of the templates are done at a width that holds the bit shifted out.\<close>

definition getMaskCode8 :: "nat \<Rightarrow> u8" where
  "getMaskCode8 bits = push_bit (8 - bits) 1 - 1"

definition getMaskCode32 :: "nat \<Rightarrow> u32" where
  "getMaskCode32 bits = push_bit (32 - bits) 1 - 1"

text \<open>The loop takes the lowest set bit off until none is left.\<close>

definition bits_of :: "u32 \<Rightarrow> nat set" where
  "bits_of v = {i. i < 32 \<and> bit v i}"

lemma finite_bits_of [simp]: "finite (bits_of v)"
  by (simp add: bits_of_def)

lemma lowest_bit:
  assumes "(v :: 'a::len word) \<noteq> 0"
  shows "\<exists>n < LENGTH('a). bit v n \<and> v AND - v = push_bit n 1 \<and> v - (v AND - v) = unset_bit n v"
proof -
  obtain k where "bit v k" using assms by (auto simp: bit_eq_iff)
  define n where "n = (LEAST k. bit v k)"
  have n: "bit v n" "\<And>m. m < n \<Longrightarrow> \<not> bit v m"
    using LeastI [of "bit v", OF \<open>bit v k\<close>] not_less_Least [of _ "bit v"] unfolding n_def by blast+
  then have len: "n < LENGTH('a)" using bit_imp_le_length by blast
  let ?r = "unset_bit n v"
  have v: "v = ?r OR push_bit n 1"
    by (rule bit_word_eqI) (auto simp: bit_simps n(1) len)
  have dis: "?r AND push_bit n 1 = 0"
    by (rule bit_word_eqI) (auto simp: bit_simps)
  have sum: "v = ?r + push_bit n 1"
    using v disjunctive_add_eq_or [OF dis] by simp
  have dm: "?r AND mask n = 0"
    by (rule bit_word_eqI) (auto simp: bit_simps n(2))
  have "v - 1 = ?r + mask n"
    by (subst sum) (simp add: mask_eq_exp_minus_1 push_bit_eq_mult algebra_simps)
  also have "\<dots> = ?r OR mask n" by (rule disjunctive_add_eq_or [OF dm])
  finally have neg: "- v = NOT (?r OR mask n)" by (simp add: minus_eq_not_minus_1)
  have low: "v AND - v = push_bit n 1"
    unfolding neg by (rule bit_word_eqI) (auto simp: bit_simps n(1) dest: n(2))
  have "v - push_bit n 1 = ?r" by (subst sum) (rule add_diff_cancel_right')
  then show ?thesis using n(1) len low by (intro exI [of _ n]) (simp only: simp_thms)
qed

function getMaskLen :: "u32 \<Rightarrow> nat" where
  "getMaskLen v = (if v \<noteq> 0 then Suc (getMaskLen (v - (v AND - v))) else 0)"
  by auto

lemma bits_of_step:
  assumes "v \<noteq> 0"
  shows "Suc (card (bits_of (v - (v AND - v)))) = card (bits_of v)"
proof -
  obtain n where n: "n < 32" "bit v n" "v - (v AND - v) = unset_bit n v"
    using lowest_bit [OF assms] by auto
  have "bits_of (unset_bit n v) = bits_of v - {n}" "n \<in> bits_of v"
    using n by (auto simp: bits_of_def bit_simps)
  then show ?thesis using n(3) by (metis card_Suc_Diff1 finite_bits_of)
qed

termination getMaskLen
  by (relation "measure (\<lambda>v. card (bits_of v))") (use bits_of_step in \<open>auto simp: less_Suc_eq_le Suc_le_eq [symmetric]\<close>)

declare getMaskLen.simps [simp del]

fun mask_len16 :: "u8 list \<Rightarrow> nat" where
  "mask_len16 [] = 0"
| "mask_len16 (b # bs) =
     (let t = getMaskLen (ucast b) in if t = 0 then 0 else t + mask_len16 bs)"

section \<open>Networks\<close>

text \<open>A prefix that is too long gives a null pointer.\<close>

definition getBroadcastAddress4 :: "nat \<Rightarrow> sockaddr_in \<Rightarrow> sockaddr_in option" where
  "getBroadcastAddress4 prefix_len a =
     (if 32 < prefix_len then None
      else Some (a\<lparr>s_addr := s_addr a OR byteSwapOnLittleEndian32 (getMaskCode32 prefix_len)\<rparr>))"

definition getNetworkAddress4 :: "nat \<Rightarrow> sockaddr_in \<Rightarrow> sockaddr_in option" where
  "getNetworkAddress4 prefix_len a =
     (if 32 < prefix_len then None
      else Some (a\<lparr>s_addr := s_addr a AND NOT (byteSwapOnLittleEndian32 (getMaskCode32 prefix_len))\<rparr>))"

definition getHostAddress4 :: "nat \<Rightarrow> sockaddr_in \<Rightarrow> sockaddr_in option" where
  "getHostAddress4 prefix_len a =
     (if 32 < prefix_len then None
      else Some (a\<lparr>s_addr := s_addr a AND byteSwapOnLittleEndian32 (getMaskCode32 prefix_len)\<rparr>))"

definition getSubnetMask4 :: "nat \<Rightarrow> sockaddr_in \<Rightarrow> sockaddr_in option" where
  "getSubnetMask4 prefix_len a =
     (if 32 < prefix_len then None
      else Some (IPv4Address_zero\<lparr>s_addr := NOT (byteSwapOnLittleEndian32 (getMaskCode32 prefix_len))\<rparr>))"

text \<open>
  The IPv6 operations write the byte at index \<open>prefix_len / 8\<close>, which for a prefix of 128 lies
  behind the array. \<open>fill_from i v bs\<close> is the loop that stores \<open>v\<close> from index \<open>i\<close> on.
\<close>

definition fill_from :: "nat \<Rightarrow> u8 \<Rightarrow> u8 list \<Rightarrow> u8 list" where
  "fill_from i v bs = take i bs @ replicate (length bs - i) v"

definition set_below :: "nat \<Rightarrow> u8 \<Rightarrow> u8 list \<Rightarrow> u8 list" where
  "set_below i v bs = replicate (min i (length bs)) v @ drop i bs"

definition at_prefix :: "(u8 \<Rightarrow> u8 \<Rightarrow> u8) \<Rightarrow> nat \<Rightarrow> u8 list \<Rightarrow> addr_error + u8 list" where
  "at_prefix f prefix_len bs =
     (let i = prefix_len div 8
      in if i < length bs then Inr (bs[i := f (bs ! i) (getMaskCode8 (prefix_len mod 8))])
         else Inl Out_of_bounds)"

definition with_addr :: "sockaddr_in6 \<Rightarrow> (u8 list \<Rightarrow> u8 list) \<Rightarrow> addr_error + u8 list \<Rightarrow> addr_error + sockaddr_in6 option" where
  "with_addr a g r = (case r of Inl e \<Rightarrow> Inl e | Inr bs \<Rightarrow> Inr (Some (a\<lparr>s6_addr := g bs\<rparr>)))"

definition getBroadcastAddress6 :: "nat \<Rightarrow> sockaddr_in6 \<Rightarrow> addr_error + sockaddr_in6 option" where
  "getBroadcastAddress6 prefix_len a =
     (if 128 < prefix_len then Inr None
      else with_addr a (fill_from (prefix_len div 8 + 1) 0xff) (at_prefix (\<lambda>b m. b OR m) prefix_len (s6_addr a)))"

definition getNetworkAddress6 :: "nat \<Rightarrow> sockaddr_in6 \<Rightarrow> addr_error + sockaddr_in6 option" where
  "getNetworkAddress6 prefix_len a =
     (if 128 < prefix_len then Inr None
      else with_addr a (fill_from (prefix_len div 8 + 1) 0) (at_prefix (\<lambda>b m. b AND NOT m) prefix_len (s6_addr a)))"

definition getHostAddress6 :: "nat \<Rightarrow> sockaddr_in6 \<Rightarrow> addr_error + sockaddr_in6 option" where
  "getHostAddress6 prefix_len a =
     (if 128 < prefix_len then Inr None
      else with_addr a (set_below (prefix_len div 8) 0) (at_prefix (\<lambda>b m. b AND m) prefix_len (s6_addr a)))"

definition getSubnetMask6 :: "nat \<Rightarrow> sockaddr_in6 \<Rightarrow> addr_error + sockaddr_in6 option" where
  "getSubnetMask6 prefix_len a =
     (if 128 < prefix_len then Inr None
      else with_addr IPv6Address_zero (fill_from (prefix_len div 8 + 1) 0xff)
             (at_prefix (\<lambda>b m. NOT m) prefix_len (s6_addr IPv6Address_zero)))"

section \<open>Text\<close>

definition display4 :: "sockaddr_in \<Rightarrow> string" where
  "display4 a =
     (let addr = byteSwapOnLittleEndian32 (s_addr a);
          byte = (\<lambda>k. dec (unat (drop_bit k addr AND 0xff)))
      in byte 24 @ ''.'' @ byte 16 @ ''.'' @ byte 8 @ ''.'' @ byte 0 @
         '':'' @ dec (unat (byteSwapOnLittleEndian16 (sin_port a))))"

text \<open>
  The groups of an IPv6 address as 16-bit integers in memory order, and the loop that writes
  them; \<open>tag\<close> tells that the run of zero groups was written, \<open>prev\<close> is the previous group.
\<close>

definition groups :: "u8 list \<Rightarrow> u16 list" where
  "groups bs = map (\<lambda>i. le_word (take 2 (drop (2 * i) bs))) [0..<8]"

fun display6_loop :: "nat \<Rightarrow> u16 \<Rightarrow> bool \<Rightarrow> u16 list \<Rightarrow> string \<times> bool" where
  "display6_loop i prev tag [] = ([], tag)"
| "display6_loop i prev tag (g # gs) =
     (if g = 0 \<and> \<not> tag then display6_loop (Suc i) g tag gs
      else
        let z = i \<noteq> 0 \<and> prev = 0 \<and> \<not> tag
        in case display6_loop (Suc i) g (tag \<or> z) gs of
             (os, tag') \<Rightarrow> ((if z then '':'' else []) @ (if i \<noteq> 0 then '':'' else []) @
                            hex (unat (byteSwapOnLittleEndian16 g)) @ os, tag'))"

definition display6 :: "sockaddr_in6 \<Rightarrow> string" where
  "display6 a =
     (case display6_loop 0 0 False (groups (s6_addr a)) of
        (os, tag) \<Rightarrow>
          ''['' @ os @ (if \<not> tag \<and> groups (s6_addr a) ! 7 = 0 then ''::'' else []) @ '']:'' @ dec (unat (sin6_port a)))"

definition chars_of :: "u8 list \<Rightarrow> string" where
  "chars_of bs = map (\<lambda>b. char_of (unat b)) bs"

definition displayUn :: "sockaddr_un \<Rightarrow> u32 \<Rightarrow> string" where
  "displayUn a m_len =
     (if 2 < m_len \<and> sun_path a ! 0 = 0
      then CHR 0x5C # ''0'' @ chars_of (take (unat (m_len - 3)) (drop 1 (sun_path a)))
      else chars_of (takeWhile (\<lambda>b. b \<noteq> 0) (sun_path a)))"

fun display :: "IAddress \<Rightarrow> string" where
  "display (IPv4Address a) = display4 a"
| "display (IPv6Address a) = display6 a"
| "display (UnixAddress a n) = displayUn a n"
| "display (UnknownAddress a) = ''[Unknown Address] : family = '' @ dec (unat (sa_family a))"

section \<open>Look-up by host\<close>

fun memchr :: "char \<Rightarrow> string \<Rightarrow> nat option" where
  "memchr c [] = None"
| "memchr c (x # xs) = (if x = c then Some 0 else map_option Suc (memchr c xs))"

text \<open>The node and the service that are looked up. \<open>substr(1, pos - 1)\<close> counts with a \<open>size_t\<close>.\<close>

definition host_node_service :: "string \<Rightarrow> string \<times> string option" where
  "host_node_service host =
     (let (node, service) =
        (if host \<noteq> [] \<and> host ! 0 = CHR '']''
         then (case memchr CHR '']'' host of
                 None \<Rightarrow> ([], None)
               | Some iv \<Rightarrow>
                   (take (usub iv 1) (drop 1 host),
                    if iv + 2 < length host \<and> host ! (iv + 1) = CHR '':'' then Some (drop (iv + 2) host) else None))
         else ([], None));
      (node, service) =
        (if node = []
         then (case memchr CHR '':'' host of
                 None \<Rightarrow> (node, None)
               | Some iv \<Rightarrow> if iv + 1 < length host then (take iv host, Some (drop (iv + 1) host)) else (node, None))
         else (node, service))
      in (if node = [] then host else node, service))"

text \<open>
  \<open>gai node service\<close> is the list of addresses that \<open>getaddrinfo\<close> gives for the hints of the
  caller, or \<open>None\<close> when it fails; the result is \<open>false\<close> or the addresses pushed to \<open>res\<close>.
\<close>

definition newAddressByHost ::
  "(string \<Rightarrow> string option \<Rightarrow> u8 list list option) \<Rightarrow> bool \<Rightarrow> string \<Rightarrow> IAddress option list \<Rightarrow> bool \<times> IAddress option list" where
  "newAddressByHost gai any host res =
     (case host_node_service host of
        (node, service) \<Rightarrow>
          (case gai node service of
             None \<Rightarrow> (False, res)
           | Some as \<Rightarrow> (True, res @ map (\<lambda>b. newAddress (Some b)) (if any then take 1 as else as))))"

definition newAddressByHostAny :: "(string \<Rightarrow> string option \<Rightarrow> u8 list list option) \<Rightarrow> string \<Rightarrow> IAddress option" where
  "newAddressByHostAny gai host =
     (case newAddressByHost gai True host [] of
        (ok, res) \<Rightarrow> if ok \<and> res \<noteq> [] then res ! 0 else None)"

fun is_ip :: "IAddress option \<Rightarrow> bool" where
  "is_ip (Some (IPv4Address a)) = True"
| "is_ip (Some (IPv6Address a)) = True"
| "is_ip _ = False"

definition newAddressByHostAnyIp :: "(string \<Rightarrow> string option \<Rightarrow> u8 list list option) \<Rightarrow> string \<Rightarrow> IAddress option" where
  "newAddressByHostAnyIp gai host =
     (case newAddressByHost gai True host [] of
        (ok, res) \<Rightarrow> if ok then (case find is_ip res of None \<Rightarrow> None | Some a \<Rightarrow> a) else None)"

text \<open>\<open>IPAddress::newAddress\<close>: a numeric address of either family with a port.\<close>

definition newIPAddress :: "(string \<Rightarrow> u8 list list option) \<Rightarrow> string \<Rightarrow> u16 \<Rightarrow> IAddress option" where
  "newIPAddress gai addr port =
     (case gai addr of
        None \<Rightarrow> None
      | Some [] \<Rightarrow> None
      | Some (b # _) \<Rightarrow>
          (case newAddress (Some b) of
             Some (IPv4Address a) \<Rightarrow> Some (IPv4Address (setPort4 port a))
           | Some (IPv6Address a) \<Rightarrow> Some (IPv6Address (setPort6 port a))
           | _ \<Rightarrow> None))"

section \<open>Look-up by interface\<close>

record InterfaceInfo =
  m_name :: string
  m_addr :: IAddress
  m_prefix_len :: nat

record ifaddr =
  ifa_name :: string
  ifa_addr :: "u8 list"
  ifa_netmask :: "u8 list"

definition ifa_family :: "ifaddr \<Rightarrow> int" where
  "ifa_family i = uint (le_word (take 2 (ifa_addr i)) :: u16)"

definition interface_info :: "ifaddr \<Rightarrow> InterfaceInfo option" where
  "interface_info i =
     (if ifa_family i = AF_INET
      then Some \<lparr>m_name = ifa_name i, m_addr = the (newAddress (Some (ifa_addr i))),
                 m_prefix_len = getMaskLen (s_addr (in_of (ifa_netmask i)))\<rparr>
      else if ifa_family i = AF_INET6
      then Some \<lparr>m_name = ifa_name i, m_addr = the (newAddress (Some (ifa_addr i))),
                 m_prefix_len = mask_len16 (s6_addr (in6_of (ifa_netmask i)))\<rparr>
      else None)"

text \<open>The loop over the list; \<open>continue\<close> does not advance it. \<open>None\<close> is a loop without end.\<close>

partial_function (option) interface_loop :: "int \<Rightarrow> ifaddr list \<Rightarrow> InterfaceInfo list \<Rightarrow> InterfaceInfo list option" where
  "interface_loop family nxt result =
     (case nxt of
        [] \<Rightarrow> Some result
      | i # is \<Rightarrow>
          if family \<noteq> AF_UNSPEC \<and> family \<noteq> ifa_family i then interface_loop family nxt result
          else interface_loop family is (case interface_info i of None \<Rightarrow> result | Some x \<Rightarrow> result @ [x]))"

definition getInterfaceAddress :: "ifaddr list option \<Rightarrow> int \<Rightarrow> InterfaceInfo list \<Rightarrow> (bool \<times> InterfaceInfo list) option" where
  "getInterfaceAddress ifs family result =
     (case ifs of
        None \<Rightarrow> Some (False, result)
      | Some is \<Rightarrow> (case interface_loop family is result of None \<Rightarrow> None | Some r \<Rightarrow> Some (True, r)))"

definition getInterfaceAddress_name ::
  "ifaddr list option \<Rightarrow> string \<Rightarrow> int \<Rightarrow> InterfaceInfo list \<Rightarrow> (bool \<times> InterfaceInfo list) option" where
  "getInterfaceAddress_name ifs name family res =
     (if name = [] \<or> name = ''*''
      then Some (True, res @
             (if family = AF_INET \<or> family = AF_UNSPEC
              then [\<lparr>m_name = name, m_addr = IPv4Address IPv4Address_zero, m_prefix_len = 0\<rparr>] else []) @
             (if family = AF_INET \<or> family = AF_UNSPEC
              then [\<lparr>m_name = name, m_addr = IPv6Address IPv6Address_zero, m_prefix_len = 0\<rparr>] else []))
      else case getInterfaceAddress ifs family [] of
             None \<Rightarrow> None
           | Some (False, mp) \<Rightarrow> Some (False, res)
           | Some (True, mp) \<Rightarrow>
               let res' = res @ filter (\<lambda>i. m_name i = name) mp in Some (res' \<noteq> [], res'))"

end
