(* ===== verification/Socket.thy ===== *)
theory Socket
  imports Stream Hook Byte_Codec_Props Address
begin

text \<open>
  Sockets and socket streams (\<open>src/src/socket/Socket.hpp\<close>, \<open>Socket.cpp\<close>,
  \<open>src/src/stream/SocketStream.hpp\<close>, \<open>SocketStream.cpp\<close>). The answers of the system calls are
  arguments: return values for calls without data, and functions on the kernel's state
  \<open>'k\<close> for \<open>recv\<close> and \<open>send\<close>. The timeouts go through the hooked \<open>setsockopt\<close> into the descriptor
  table. The locale \<open>tcp_kernel\<close> states what \<open>recv\<close> and \<open>send\<close> on a connected stream socket do.
\<close>

section \<open>Sockets\<close>

definition SOCK_STREAM :: int where "SOCK_STREAM = 1"
definition SOCK_DGRAM :: int where "SOCK_DGRAM = 2"

definition getFamilyType :: "int \<Rightarrow> string" where
  "getFamilyType family =
     (if family = AF_INET then ''AF_INET''
      else if family = AF_INET6 then ''AF_INET6''
      else if family = AF_UNIX then ''AF_UNIX''
      else if family = AF_UNSPEC then ''AF_UNSPEC''
      else ''UNKNOWN'')"

record socket =
  sk_fd :: int
  sk_family :: int
  sk_protocol :: int
  sk_type :: int
  sk_connect :: bool
  sk_local :: "IAddress option"
  sk_remote :: "IAddress option"

definition Socket_new :: "int \<Rightarrow> int \<Rightarrow> int \<Rightarrow> socket" where
  "Socket_new family type protocol =
     \<lparr>sk_fd = - 1, sk_family = family, sk_protocol = protocol, sk_type = type,
      sk_connect = False, sk_local = None, sk_remote = None\<rparr>"

definition newTCPSocket :: socket where "newTCPSocket = Socket_new AF_INET SOCK_STREAM 0"
definition newTCPSocketv6 :: socket where "newTCPSocketv6 = Socket_new AF_INET6 SOCK_STREAM 0"
definition newUDPSocket :: socket where "newUDPSocket = Socket_new AF_INET SOCK_DGRAM 0"
definition newUDPSocketv6 :: socket where "newUDPSocketv6 = Socket_new AF_INET6 SOCK_DGRAM 0"
definition newUnixTCPSocket :: socket where "newUnixTCPSocket = Socket_new AF_UNIX SOCK_STREAM 0"
definition newUnixUDPSocket :: socket where "newUnixUDPSocket = Socket_new AF_UNIX SOCK_DGRAM 0"

text \<open>
  \<open>init()\<close>: \<open>rt\<close> is the result of \<open>socket\<close>. The options that \<open>initSock\<close> sets do not change the
  object and their results are ignored.
\<close>

definition sock_init :: "int \<Rightarrow> socket \<Rightarrow> bool \<times> socket" where
  "sock_init rt s = (rt \<noteq> - 1, s\<lparr>sk_fd := rt\<rparr>)"

text \<open>
  The addresses: \<open>name\<close> is what \<open>getpeername\<close> or \<open>getsockname\<close> stores, \<open>None\<close> when it fails. The
  kernel writes over an empty address of the socket's family, as far as there is room, and the
  length it reports is kept for UNIX addresses.
\<close>

definition empty_address :: "int \<Rightarrow> IAddress" where
  "empty_address family =
     (if family = AF_INET then IPv4Address IPv4Address_zero
      else if family = AF_INET6 then IPv6Address IPv6Address_zero
      else if family = AF_UNIX then UnixAddress_zero
      else UnknownAddress (UnknownAddress_new family))"

fun store_name :: "u8 list \<Rightarrow> IAddress \<Rightarrow> IAddress" where
  "store_name m (IPv4Address a) = IPv4Address (in_of m)"
| "store_name m (IPv6Address a) = IPv6Address (in6_of m)"
| "store_name m (UnixAddress a n) = UnixAddress \<lparr>sun_family = le_word (take 2 m), sun_path = drop 2 m\<rparr> n"
| "store_name m (UnknownAddress a) = UnknownAddress \<lparr>sa_family = le_word (take 2 m), sa_data = drop 2 m\<rparr>"

definition name_address :: "int \<Rightarrow> u8 list \<Rightarrow> IAddress" where
  "name_address family b =
     (let addr = empty_address family;
          addr = store_name (overlay 0 (take (getAddrLen addr) b) (getAddr addr)) addr
      in if family = AF_UNIX then setAddrLen (of_nat (length b)) addr else addr)"

definition getRemoteAddr :: "u8 list option \<Rightarrow> socket \<Rightarrow> IAddress option \<times> socket" where
  "getRemoteAddr name s =
     (if sk_remote s \<noteq> None then (sk_remote s, s)
      else case name of
             None \<Rightarrow> (None, s)
           | Some b \<Rightarrow>
               let addr = Some (name_address (sk_family s) b) in (addr, s\<lparr>sk_remote := addr\<rparr>))"

definition getLocalAddr :: "u8 list option \<Rightarrow> socket \<Rightarrow> IAddress option \<times> socket" where
  "getLocalAddr name s =
     (if sk_local s \<noteq> None then (sk_local s, s)
      else case name of
             None \<Rightarrow> (None, s)
           | Some b \<Rightarrow>
               let addr = Some (name_address (sk_family s) b) in (addr, s\<lparr>sk_local := addr\<rparr>))"

text \<open>\<open>init(sockfd)\<close>: takes over a descriptor that the table knows as an open socket.\<close>

definition sock_init_fd ::
  "(int \<Rightarrow> FdType option) \<Rightarrow> fd_table \<Rightarrow> int \<Rightarrow> u8 list option \<Rightarrow> u8 list option \<Rightarrow> socket \<Rightarrow> bool \<times> socket" where
  "sock_init_fd kind fds f peer name s =
     (if sk_fd s \<noteq> - 1 then (False, s)
      else if f < 0 then (False, s)
      else case fd_get f fds of
             None \<Rightarrow> (False, s)
           | Some i \<Rightarrow>
               if isSocket kind i \<and> \<not> closed i
               then
                 let s1 = s\<lparr>sk_fd := f, sk_connect := True\<rparr>
                 in case getRemoteAddr peer s1 of
                      (None, s2) \<Rightarrow> (False, s2)
                    | (Some _, s2) \<Rightarrow>
                        (case getLocalAddr name s2 of
                           (None, s3) \<Rightarrow> (False, s3)
                         | (Some _, s3) \<Rightarrow> (True, s3))
               else (False, s))"

definition sock_bind :: "int \<Rightarrow> int \<Rightarrow> IAddress \<Rightarrow> socket \<Rightarrow> bool \<times> socket" where
  "sock_bind socket_rt bind_rt addr s0 =
     (let s = (if sk_fd s0 < 0 then snd (sock_init socket_rt s0) else s0)
      in if sk_fd s < 0 then (False, s)
         else if getFamily addr \<noteq> sk_family s then (False, s)
         else if bind_rt \<noteq> 0 then (False, s)
         else (True, s\<lparr>sk_local := Some addr\<rparr>))"

definition sock_listen :: "int \<Rightarrow> socket \<Rightarrow> bool" where
  "sock_listen listen_rt s = (if sk_fd s < 0 then False else listen_rt = 0)"

definition sock_close :: "int \<Rightarrow> socket \<Rightarrow> bool \<times> socket" where
  "sock_close close_rt s =
     (if \<not> sk_connect s \<and> sk_fd s = - 1 then (True, s)
      else
        let s1 = s\<lparr>sk_connect := False\<rparr>
        in if sk_fd s1 \<noteq> - 1
           then if close_rt < 0 then (False, s1) else (True, s1\<lparr>sk_fd := - 1\<rparr>)
           else (False, s1))"

text \<open>\<open>accept\<close>: \<open>f\<close> is the descriptor that \<open>::accept\<close> returned.\<close>

definition sock_accept ::
  "(int \<Rightarrow> FdType option) \<Rightarrow> fd_table \<Rightarrow> int \<Rightarrow> u8 list option \<Rightarrow> u8 list option \<Rightarrow> socket \<Rightarrow> socket option" where
  "sock_accept kind fds f peer name s =
     (if f < 0 then None
      else case sock_init_fd kind fds f peer name (Socket_new (sk_family s) (sk_type s) (sk_protocol s)) of
             (ok, c) \<Rightarrow> if ok then Some c else None)"

definition sock_connect ::
  "int \<Rightarrow> int \<Rightarrow> int \<Rightarrow> u8 list option \<Rightarrow> IAddress \<Rightarrow> socket \<Rightarrow> bool \<times> socket" where
  "sock_connect socket_rt connect_rt close_rt name addr s0 =
     (let s1 = s0\<lparr>sk_remote := Some addr\<rparr>
      in if sk_connect s1 then (False, s1)
         else
           let s = (if sk_fd s1 = - 1 then snd (sock_init socket_rt s1) else s1)
           in if sk_fd s = - 1 then (False, s)
              else if getFamily addr \<noteq> sk_family s then (False, s)
              else if connect_rt \<noteq> 0 then (False, snd (sock_close close_rt s))
              else (True, snd (getLocalAddr name (s\<lparr>sk_connect := True\<rparr>))))"

definition reconnect ::
  "int \<Rightarrow> int \<Rightarrow> int \<Rightarrow> u8 list option \<Rightarrow> socket \<Rightarrow> bool \<times> socket" where
  "reconnect socket_rt connect_rt close_rt name s =
     (case sk_remote s of
        None \<Rightarrow> (False, s)
      | Some addr \<Rightarrow> sock_connect socket_rt connect_rt close_rt name addr (s\<lparr>sk_local := None\<rparr>))"

section \<open>Timeouts\<close>

text \<open>
  \<open>setSockOption\<close> for the two timeout options: the original function answers \<open>rt\<close> and the hook
  records the value. The argument in milliseconds is split into seconds and microseconds.
\<close>

definition setSockOption_timeo ::
  "bool \<Rightarrow> int \<Rightarrow> timeout_opt \<Rightarrow> u64 \<Rightarrow> socket \<Rightarrow> fd_table \<Rightarrow> bool \<times> fd_table" where
  "setSockOption_timeo enabled rt opt to s fds =
     (if sk_fd s < 0 then (False, fds)
      else (rt = 0, hook_setsockopt enabled (sk_fd s) (Some opt)
                      (int (unat to div 1000)) (int (unat to mod 1000 * 1000)) fds))"

definition setSendTimeout :: "bool \<Rightarrow> int \<Rightarrow> u64 \<Rightarrow> socket \<Rightarrow> fd_table \<Rightarrow> bool \<times> fd_table" where
  "setSendTimeout enabled rt to s fds =
     (if sk_fd s < 0 then (False, fds)
      else case setSockOption_timeo enabled rt SO_SNDTIMEO to s fds of (ok, fds') \<Rightarrow> (\<not> ok, fds'))"

definition setRecvTimeout :: "bool \<Rightarrow> int \<Rightarrow> u64 \<Rightarrow> socket \<Rightarrow> fd_table \<Rightarrow> bool \<times> fd_table" where
  "setRecvTimeout enabled rt to s fds =
     (if sk_fd s < 0 then (False, fds) else setSockOption_timeo enabled rt SO_RCVTIMEO to s fds)"

definition getSendTimeout :: "socket \<Rightarrow> fd_table \<Rightarrow> u64" where
  "getSendTimeout s fds =
     (if sk_fd s < 0 then - 1
      else case fd_get (sk_fd s) fds of None \<Rightarrow> - 1 | Some i \<Rightarrow> getTimeout SO_SNDTIMEO i)"

definition getRecvTimeout :: "socket \<Rightarrow> fd_table \<Rightarrow> u64" where
  "getRecvTimeout s fds =
     (if sk_fd s < 0 then - 1
      else case fd_get (sk_fd s) fds of None \<Rightarrow> - 1 | Some i \<Rightarrow> getTimeout SO_RCVTIMEO i)"

section \<open>Data\<close>

text \<open>
  \<open>krecv f n k\<close> is the system call on descriptor \<open>f\<close> with room for \<open>n\<close> bytes: its result, the bytes
  stored and the kernel afterwards; \<open>ksend f bs k\<close> its counterpart.
\<close>

type_synonym 'k recv_fun = "int \<Rightarrow> nat \<Rightarrow> 'k \<Rightarrow> int \<times> u8 list \<times> 'k"
type_synonym 'k send_fun = "int \<Rightarrow> u8 list \<Rightarrow> 'k \<Rightarrow> int \<times> 'k"

definition sock_recv :: "'k recv_fun \<Rightarrow> socket \<Rightarrow> nat \<Rightarrow> 'k \<Rightarrow> int \<times> u8 list \<times> 'k" where
  "sock_recv krecv s n k =
     (if sk_type s \<noteq> SOCK_STREAM then (- 1, [], k)
      else if sk_connect s then krecv (sk_fd s) n k else (- 1, [], k))"

definition sock_send :: "'k send_fun \<Rightarrow> socket \<Rightarrow> u8 list \<Rightarrow> 'k \<Rightarrow> int \<times> 'k" where
  "sock_send ksend s bs k =
     (if sk_type s \<noteq> SOCK_STREAM then (- 1, k)
      else if sk_connect s then ksend (sk_fd s) bs k else (- 1, k))"

definition sock_recvFrom :: "'k recv_fun \<Rightarrow> socket \<Rightarrow> IAddress option \<Rightarrow> nat \<Rightarrow> 'k \<Rightarrow> int \<times> u8 list \<times> 'k" where
  "sock_recvFrom krecv s from n k =
     (if from = None then (- 1, [], k)
      else if sk_type s \<noteq> SOCK_DGRAM then (- 1, [], k)
      else if sk_connect s then krecv (sk_fd s) n k else (- 1, [], k))"

definition sock_sendTo :: "'k send_fun \<Rightarrow> socket \<Rightarrow> IAddress option \<Rightarrow> u8 list \<Rightarrow> 'k \<Rightarrow> int \<times> 'k" where
  "sock_sendTo ksend s to bs k =
     (if to = None then (- 1, k)
      else if sk_type s \<noteq> SOCK_DGRAM then (- 1, k)
      else if sk_connect s then ksend (sk_fd s) bs k else (- 1, k))"

section \<open>Socket streams\<close>

text \<open>A null socket pointer is \<open>None\<close>.\<close>

definition ss_read :: "'k recv_fun \<Rightarrow> socket option \<Rightarrow> nat \<Rightarrow> 'k \<Rightarrow> int \<times> u8 list \<times> 'k" where
  "ss_read krecv sock n k =
     (case sock of
        None \<Rightarrow> (- 1, [], k)
      | Some s \<Rightarrow> if \<not> sk_connect s then (- 1, [], k) else sock_recv krecv s n k)"

definition ss_write :: "'k send_fun \<Rightarrow> socket option \<Rightarrow> u8 list \<Rightarrow> 'k \<Rightarrow> int \<times> 'k" where
  "ss_write ksend sock bs k =
     (case sock of
        None \<Rightarrow> (- 1, k)
      | Some s \<Rightarrow> if \<not> sk_connect s then (- 1, k) else sock_send ksend s bs k)"

text \<open>The kernel fills, or empties, the buffers of an \<open>iovec\<close> array in order.\<close>

fun scatter :: "iovec list \<Rightarrow> u8 list \<Rightarrow> u8 list list \<Rightarrow> u8 list list" where
  "scatter [] bs blocks = blocks"
| "scatter (v # vs) bs blocks =
     scatter vs (drop (iov_len v) bs)
       (blocks[iov_node v := overlay (iov_base v) (take (iov_len v) bs) (blocks ! iov_node v)])"

definition gather :: "iovec list \<Rightarrow> u8 list list \<Rightarrow> u8 list" where
  "gather vs blocks = concat (map (\<lambda>v. take (iov_len v) (drop (iov_base v) (blocks ! iov_node v))) vs)"

definition ss_read_ba :: "'k recv_fun \<Rightarrow> socket option \<Rightarrow> nat \<Rightarrow> (byte_array \<times> 'k, ba_error, int) st_exn" where
  "ss_read_ba krecv sock n st =
     (case st of (ba, k) \<Rightarrow>
        (case sock of
           None \<Rightarrow> (Inr (- 1), st)
         | Some s \<Rightarrow>
             if \<not> sk_connect s then (Inr (- 1), st)
             else
               case getWriteBuffers n ba of
                 (Inl e, ba1) \<Rightarrow> (Inl e, ba1, k)
               | (Inr (sz, iovs), ba1) \<Rightarrow>
                   (case sock_recv krecv s (sum_list (map iov_len iovs)) k of
                      (rt, bytes, k') \<Rightarrow>
                        let ba2 = ba1\<lparr>m_blocks := scatter iovs bytes (m_blocks ba1)\<rparr>
                        in if 0 < rt
                           then case setPosition (getPosition ba2 + nat rt) ba2 of
                                  (Inl e, ba3) \<Rightarrow> (Inl e, ba3, k')
                                | (Inr _, ba3) \<Rightarrow> (Inr rt, ba3, k')
                           else (Inr rt, ba2, k'))))"

definition ss_write_ba :: "'k send_fun \<Rightarrow> socket option \<Rightarrow> nat \<Rightarrow> (byte_array \<times> 'k, ba_error, int) st_exn" where
  "ss_write_ba ksend sock n st =
     (case st of (ba, k) \<Rightarrow>
        (case sock of
           None \<Rightarrow> (Inr (- 1), st)
         | Some s \<Rightarrow>
             if \<not> sk_connect s then (Inr (- 1), st)
             else
               case getReadBuffers n ba of
                 Inl e \<Rightarrow> (Inl e, st)
               | Inr (sz, iovs) \<Rightarrow>
                   (case sock_send ksend s (gather iovs (m_blocks ba)) k of
                      (rt, k') \<Rightarrow>
                        if 0 < rt
                        then case setPosition (getPosition ba + nat rt) ba of
                               (Inl e, ba') \<Rightarrow> (Inl e, ba', k')
                             | (Inr _, ba') \<Rightarrow> (Inr rt, ba', k')
                        else (Inr rt, ba, k'))))"

text \<open>\<open>close\<close> closes the socket once; \<open>flag\<close> is the state of the \<open>std::once_flag\<close>.\<close>

definition ss_close :: "int \<Rightarrow> bool \<times> socket option \<Rightarrow> bool \<times> socket option" where
  "ss_close close_rt st =
     (case st of
        (flag, None) \<Rightarrow> (flag, None)
      | (flag, Some s) \<Rightarrow> if flag then (flag, Some s) else (True, Some (snd (sock_close close_rt s))))"

definition ss_destroy :: "bool \<Rightarrow> int \<Rightarrow> bool \<times> socket option \<Rightarrow> bool \<times> socket option" where
  "ss_destroy owner close_rt st = (if owner \<and> snd st \<noteq> None then ss_close close_rt st else st)"

end
