(* ===== verification/Socket_Props.thy ===== *)
theory Socket_Props
  imports Socket
begin

text \<open>
  Properties of sockets and socket streams: the life cycle of a socket object, the round trip
  of its timeouts through the hooked calls, and the transfer of a fixed number of bytes over a
  connected stream socket.
\<close>

section \<open>Life cycle\<close>

definition sock_ok :: "socket \<Rightarrow> bool" where
  "sock_ok s \<longleftrightarrow> - 1 \<le> sk_fd s \<and> (sk_connect s \<longrightarrow> 0 \<le> sk_fd s)"

lemma sock_ok_addr:
  "sock_ok s \<Longrightarrow> sock_ok (snd (getLocalAddr name s))" "sock_ok s \<Longrightarrow> sock_ok (snd (getRemoteAddr name s))"
  by (auto simp: sock_ok_def getLocalAddr_def getRemoteAddr_def Let_def split: option.split)

lemma getLocalAddr_same [simp]:
  "sk_fd (snd (getLocalAddr name s)) = sk_fd s" "sk_connect (snd (getLocalAddr name s)) = sk_connect s"
  "sk_remote (snd (getLocalAddr name s)) = sk_remote s"
  by (auto simp: getLocalAddr_def Let_def split: option.split)

lemma sock_ok_close: "sock_ok s \<Longrightarrow> sock_ok (snd (sock_close rt s))"
  by (auto simp: sock_ok_def sock_close_def Let_def)

lemma sock_ok_bind: "sock_ok s \<Longrightarrow> - 1 \<le> socket_rt \<Longrightarrow> sock_ok (snd (sock_bind socket_rt rt addr s))"
  by (auto simp: sock_ok_def sock_bind_def sock_init_def Let_def)

lemma sock_ok_init_fd: "sock_ok s \<Longrightarrow> sock_ok (snd (sock_init_fd kind fds f peer name s))"
  by (auto simp: sock_ok_def sock_init_fd_def getLocalAddr_def getRemoteAddr_def Let_def
      split: option.split)

lemma sock_ok_connect:
  assumes "sock_ok s" "- 1 \<le> socket_rt"
  shows "sock_ok (snd (sock_connect socket_rt rt close_rt name addr s))"
  using assms by (auto simp: sock_ok_def sock_connect_def sock_init_def sock_close_def Let_def)

text \<open>
  C28. The life cycle of a socket: every operation keeps a connected socket's descriptor valid.
  \<open>reconnect\<close> succeeds exactly when the socket is not connected, has a remote address of its own family, has or
  gets a descriptor and the kernel connects it, and then it is connected to that address.
  A successful \<open>connect\<close> leaves the socket connected to the given address; a \<open>close\<close> that
  succeeds leaves it without descriptor and one that fails leaves it disconnected, so that
  reading and writing are refused from then on; and a \<open>connect\<close> on a connected socket is
  refused but has already replaced the address that \<open>getRemoteAddr\<close> returns.
\<close>

theorem socket_life_cycle:
  assumes "sock_ok s" "- 1 \<le> socket_rt"
  shows "sock_ok (snd (sock_bind socket_rt rt addr s)) \<and>
    sock_ok (snd (sock_init_fd kind fds f peer name s)) \<and>
    sock_ok (snd (sock_connect socket_rt rt close_rt name addr s)) \<and>
    sock_ok (snd (reconnect socket_rt rt close_rt name s)) \<and>
    sock_ok (snd (sock_close close_rt s)) \<and>
    (\<forall>s'. sock_connect socket_rt rt close_rt name addr s = (True, s') \<longrightarrow>
       sk_connect s' \<and> 0 \<le> sk_fd s' \<and> fst (getRemoteAddr peer s') = Some addr) \<and>
    (\<forall>ok s'. reconnect socket_rt rt close_rt name s = (ok, s') \<longrightarrow>
       (ok \<longleftrightarrow> (\<exists>a. sk_remote s = Some a \<and> getFamily a = sk_family s) \<and> \<not> sk_connect s \<and>
          (sk_fd s = - 1 \<longrightarrow> socket_rt \<noteq> - 1) \<and> rt = 0) \<and>
       sk_remote s' = sk_remote s \<and> (ok \<longrightarrow> sk_connect s' \<and> 0 \<le> sk_fd s')) \<and>
    (\<forall>ok s'. sock_close close_rt s = (ok, s') \<longrightarrow>
       (ok \<longrightarrow> sk_fd s' = - 1) \<and> \<not> sk_connect s' \<and>
       fst (sock_recv krecv s' n k) = - 1 \<and> fst (sock_send ksend s' bs k) = - 1) \<and>
    (sk_connect s \<longrightarrow> (\<exists>s'. sock_connect socket_rt rt close_rt name addr s = (False, s') \<and>
       fst (getRemoteAddr peer s') = Some addr))"
proof -
  have c: "sock_ok (snd (sock_connect socket_rt rt close_rt name addr s))"
    if "sock_ok s" for addr s using sock_ok_connect [OF that assms(2)] .
  have r: "sock_ok (snd (reconnect socket_rt rt close_rt name s))"
    using assms c [of "s\<lparr>sk_local := None\<rparr>"] by (auto simp: reconnect_def sock_ok_def split: option.split)
  have rc: "(ok \<longleftrightarrow> (\<exists>a. sk_remote s = Some a \<and> getFamily a = sk_family s) \<and> \<not> sk_connect s \<and>
          (sk_fd s = - 1 \<longrightarrow> socket_rt \<noteq> - 1) \<and> rt = 0) \<and>
       sk_remote s' = sk_remote s \<and> (ok \<longrightarrow> sk_connect s' \<and> 0 \<le> sk_fd s')"
    if eq: "reconnect socket_rt rt close_rt name s = (ok, s')" for ok s'
  proof (cases "sk_remote s")
    case None
    then show ?thesis using eq by (simp add: reconnect_def)
  next
    case (Some a)
    have "ok \<longrightarrow> sk_connect s'"
      using eq Some by (auto simp: reconnect_def sock_connect_def Let_def split: if_splits)
    moreover have "sock_ok s'" using r eq by simp
    ultimately show ?thesis
      using eq Some by (auto simp: reconnect_def sock_connect_def sock_init_def sock_close_def sock_ok_def Let_def split: if_splits)
  qed
  have t: "sk_connect s' \<and> 0 \<le> sk_fd s' \<and> fst (getRemoteAddr peer s') = Some addr"
    if "sock_connect socket_rt rt close_rt name addr s = (True, s')" for s'
  proof -
    have "sk_connect s' \<and> sk_remote s' = Some addr"
      using that by (auto simp: sock_connect_def sock_init_def Let_def split: if_splits)
    then show ?thesis using c [OF assms(1), of addr] that by (simp add: sock_ok_def getRemoteAddr_def)
  qed
  have d: "(ok \<longrightarrow> sk_fd s' = - 1) \<and> \<not> sk_connect s' \<and>
      fst (sock_recv krecv s' n k) = - 1 \<and> fst (sock_send ksend s' bs k) = - 1"
    if "sock_close close_rt s = (ok, s')" for ok s'
    using that by (auto simp: sock_close_def sock_recv_def sock_send_def Let_def split: if_splits)
  have e: "\<exists>s'. sock_connect socket_rt rt close_rt name addr s = (False, s') \<and>
       fst (getRemoteAddr peer s') = Some addr" if "sk_connect s"
    using that by (auto simp: sock_connect_def getRemoteAddr_def Let_def)
  show ?thesis
    using sock_ok_bind [OF assms] sock_ok_init_fd [OF assms(1)] c [OF assms(1)] r
      sock_ok_close [OF assms(1)] t rc d e by blast
qed

theorem socket_life_cycle_witness:
  "\<exists>s'. reconnect 5 0 0 None (newTCPSocket\<lparr>sk_remote := Some (IPv4Address IPv4Address_zero)\<rparr>) = (True, s') \<and>
     sk_connect s' \<and> 0 \<le> sk_fd s'"
proof -
  let ?s = "newTCPSocket\<lparr>sk_remote := Some (IPv4Address IPv4Address_zero)\<rparr>"
  have ok: "sock_ok ?s" by (simp add: sock_ok_def newTCPSocket_def Socket_new_def)
  have fd: "- 1 \<le> (5 :: int)" by simp
  have "getFamily (IPv4Address IPv4Address_zero) = AF_INET" by code_simp
  then have f: "\<not> sk_connect ?s" "getFamily (IPv4Address IPv4Address_zero) = sk_family ?s"
    by (simp_all add: newTCPSocket_def Socket_new_def)
  obtain r s' where r: "reconnect 5 0 0 None ?s = (r, s')" by fastforce
  then show ?thesis
    using socket_life_cycle [OF ok fd, of 0 "IPv4Address IPv4Address_zero" _ _ _ _ None 0] f by fastforce
qed

section \<open>Timeouts\<close>

lemma split_millis: "int (n div 1000) * 1000 + sgn (int (n mod 1000 * 1000)) * (\<bar>int (n mod 1000 * 1000)\<bar> div 1000) = int n"
proof -
  have "sgn (int (n mod 1000 * 1000)) * (\<bar>int (n mod 1000 * 1000)\<bar> div 1000) = int (n mod 1000)"
    by (cases "n mod 1000 = 0") simp_all
  then have "int (n div 1000) * 1000 + sgn (int (n mod 1000 * 1000)) * (\<bar>int (n mod 1000 * 1000)\<bar> div 1000) =
      int (n div 1000) * 1000 + int (n mod 1000)" by (simp only:)
  also have "\<dots> = int (n div 1000 * 1000 + n mod 1000)" by (simp only: of_nat_add of_nat_mult of_nat_numeral)
  also have "\<dots> = int n" by (simp only: div_mult_mod_eq)
  finally show ?thesis .
qed

lemma hook_setsockopt_millis:
  assumes "fd_get f fds = Some i"
  shows "fd_get f (hook_setsockopt True f (Some opt) (int (unat to div 1000)) (int (unat to mod 1000 * 1000)) fds) =
    Some (setTimeout opt to i)"
proof -
  have "0 \<le> f" "nat f < length fds" using assms by (auto simp: fd_get_def split: if_splits)
  then show ?thesis
    using assms unfolding hook_setsockopt_def split_millis by (simp add: fd_get_def)
qed

text \<open>
  A timeout set on a socket is the one read back, through the split into seconds and
  microseconds, the hooked \<open>setsockopt\<close> and the descriptor table; setting one direction does
  not change the other. \<open>setRecvTimeout\<close> reports success, but \<open>setSendTimeout\<close> reports the
  opposite of what happened.
\<close>

theorem socket_timeout_round_trip:
  assumes "0 \<le> sk_fd s" "fd_get (sk_fd s) fds = Some i"
  shows "(\<exists>fds'. setRecvTimeout True rt to s fds = (rt = 0, fds') \<and> getRecvTimeout s fds' = to \<and>
       getSendTimeout s fds' = getSendTimeout s fds) \<and>
    (\<exists>fds'. setSendTimeout True rt to s fds = (rt \<noteq> 0, fds') \<and> getSendTimeout s fds' = to \<and>
       getRecvTimeout s fds' = getRecvTimeout s fds)"
  using assms hook_setsockopt_millis [OF assms(2), of SO_RCVTIMEO to]
    hook_setsockopt_millis [OF assms(2), of SO_SNDTIMEO to]
  by (simp add: setRecvTimeout_def setSendTimeout_def setSockOption_timeo_def getRecvTimeout_def
      getSendTimeout_def getTimeout_def setTimeout_def)

theorem socket_timeout_round_trip_witness:
  "getRecvTimeout (newTCPSocket\<lparr>sk_fd := 0\<rparr>) (snd (setRecvTimeout True 0 1500 (newTCPSocket\<lparr>sk_fd := 0\<rparr>) blocking_socket)) = 1500"
proof -
  obtain i where i: "fd_get 0 blocking_socket = Some i" using blocking_socket_get by blast
  show ?thesis
    using socket_timeout_round_trip [of "newTCPSocket\<lparr>sk_fd := 0\<rparr>" blocking_socket i 0 1500] i by auto
qed

section \<open>Transfer\<close>

text \<open>
  What \<open>recv\<close> and \<open>send\<close> do: a positive result is the number of bytes taken from the front of
  what has arrived, or appended to what goes out; at most as many as asked for. Otherwise
  nothing moves.
\<close>

locale tcp_kernel =
  fixes krecv :: "'k recv_fun" and ksend :: "'k send_fun"
    and inbox :: "int \<Rightarrow> 'k \<Rightarrow> u8 list" and outbox :: "int \<Rightarrow> 'k \<Rightarrow> u8 list"
  assumes recv_positive: "krecv f n k = (len, bytes, k') \<Longrightarrow> 0 < len \<Longrightarrow>
      nat len \<le> n \<and> nat len \<le> length (inbox f k) \<and>
      bytes = take (nat len) (inbox f k) \<and> inbox f k' = drop (nat len) (inbox f k)"
    and recv_failed: "krecv f n k = (len, bytes, k') \<Longrightarrow> len \<le> 0 \<Longrightarrow> bytes = [] \<and> inbox f k' = inbox f k"
    and send_positive: "ksend f bs k = (len, k') \<Longrightarrow> 0 < len \<Longrightarrow>
      nat len \<le> length bs \<and> outbox f k' = outbox f k @ take (nat len) bs"
    and send_failed: "ksend f bs k = (len, k') \<Longrightarrow> len \<le> 0 \<Longrightarrow> outbox f k' = outbox f k"

sublocale tcp_kernel \<subseteq> src: byte_source "ss_read krecv (Some s)" "inbox (sk_fd s)" for s
proof (unfold_locales, goal_cases)
  case (1 n k len bytes k')
  then show ?case
    using recv_positive [of "sk_fd s" n k len bytes k'] by (auto simp: ss_read_def sock_recv_def split: if_splits)
next
  case (2 n k len bytes k')
  then show ?case
    using recv_failed [of "sk_fd s" n k len bytes k'] by (auto simp: ss_read_def sock_recv_def split: if_splits)
qed

sublocale tcp_kernel \<subseteq> snk: byte_sink "ss_write ksend (Some s)" "outbox (sk_fd s)" for s
proof (unfold_locales, goal_cases)
  case (1 bs k len k')
  then show ?case
    using send_positive [of "sk_fd s" bs k len k'] by (auto simp: ss_write_def sock_send_def split: if_splits)
next
  case (2 bs k len k')
  then show ?case
    using send_failed [of "sk_fd s" bs k len k'] by (auto simp: ss_write_def sock_send_def split: if_splits)
qed

text \<open>
  A kernel that keeps this contract: both queues and, for each call, how many bytes are moved
  at most; when the list is used up the calls fail.
\<close>

record wire =
  w_in :: "u8 list"
  w_out :: "u8 list"
  w_chunks :: "nat list"

definition wire_recv :: "wire recv_fun" where
  "wire_recv f n k =
     (case w_chunks k of
        [] \<Rightarrow> (- 1, [], k)
      | c # cs \<Rightarrow>
          let m = min (min c n) (length (w_in k))
          in (int m, take m (w_in k), k\<lparr>w_in := drop m (w_in k), w_chunks := cs\<rparr>))"

definition wire_send :: "wire send_fun" where
  "wire_send f bs k =
     (case w_chunks k of
        [] \<Rightarrow> (- 1, k)
      | c # cs \<Rightarrow>
          let m = min c (length bs)
          in (int m, k\<lparr>w_out := w_out k @ take m bs, w_chunks := cs\<rparr>))"

interpretation wire: tcp_kernel wire_recv wire_send "\<lambda>_. w_in" "\<lambda>_. w_out"
  by unfold_locales (auto simp: wire_recv_def wire_send_def Let_def split: list.splits)

context tcp_kernel
begin

lemma read_transfer:
  assumes "n < 2 ^ 31"
  shows "\<exists>r m k'. readFixSize (ss_read krecv (Some s)) n k = Some (Inr r, take m (inbox (sk_fd s) k), k') \<and>
    inbox (sk_fd s) k' = drop m (inbox (sk_fd s) k) \<and>
    (r = int n \<and> m = n \<and> n \<le> length (inbox (sk_fd s) k) \<or> r \<le> 0 \<and> m \<le> n)"
proof -
  obtain x b k' where r: "readFixSize (ss_read krecv (Some s)) n k = Some (x, b, k')"
    using src.readFixSize_returns by (metis prod_cases3)
  then obtain m where "m \<le> n" "b = take m (inbox (sk_fd s) k)" "inbox (sk_fd s) k' = drop m (inbox (sk_fd s) k)"
    "x = Inr (int n) \<and> m = n \<and> n \<le> length (inbox (sk_fd s) k) \<or> (\<exists>len \<le> 0. x = Inr len)"
    using src.readFixSize_prefix [OF r assms] by blast
  then show ?thesis using r by blast
qed

lemmas write_transfer = snk.writeFixSize_prefix

end

text \<open>
  C14. Fixed-size transfers over a connected stream socket end, whatever pieces the kernel moves
  at a time. Reading \<open>n\<close> bytes either returns \<open>n\<close> with exactly the next \<open>n\<close> bytes that came in, or
  the failing result of a call with a prefix of them; nothing is lost or repeated. Writing
  hands over a prefix of the data, all of it when the result is its length.
\<close>

theorem socket_stream_transfer:
  assumes "tcp_kernel krecv ksend inbox outbox" "n < 2 ^ 31" "length bs < 2 ^ 31"
  shows "(\<exists>r m k'. readFixSize (ss_read krecv (Some s)) n k = Some (Inr r, take m (inbox (sk_fd s) k), k') \<and>
       inbox (sk_fd s) k' = drop m (inbox (sk_fd s) k) \<and>
       (r = int n \<and> m = n \<and> n \<le> length (inbox (sk_fd s) k) \<or> r \<le> 0 \<and> m \<le> n)) \<and>
    (\<exists>r m k'. writeFixSize (ss_write ksend (Some s)) bs k = Some (Inr r, drop m bs, k') \<and>
       outbox (sk_fd s) k' = outbox (sk_fd s) k @ take m bs \<and> (r = int (length bs) \<and> m = length bs \<or> r \<le> 0))"
  using tcp_kernel.read_transfer [OF assms(1,2)] tcp_kernel.write_transfer [OF assms(1,3)] by blast

theorem socket_stream_transfer_witness:
  "\<exists>r m k'. readFixSize (ss_read wire_recv (Some newTCPSocket)) 3 \<lparr>w_in = [1, 2, 3, 4], w_out = [], w_chunks = [2, 5]\<rparr> =
    Some (Inr r, take m [1, 2, 3, 4], k')"
  using socket_stream_transfer [OF wire.tcp_kernel_axioms, of 3 "[]" newTCPSocket
      "\<lparr>w_in = [1, 2, 3, 4], w_out = [], w_chunks = [2, 5]\<rparr>"] by auto

end
