(* ===== verification/Tcp_Server.thy ===== *)
theory Tcp_Server
  imports Socket_Props
begin

text \<open>
  The TCP server (\<open>src/src/socket/TcpServer.hpp\<close>, \<open>TcpServer.cpp\<close>): binding addresses, accepting
  clients, starting and stopping. Sockets are shared objects, so they live in a store and the
  server holds their addresses; the fibers that the server gives to its two schedulers are
  queued as tasks, because they run later. The answers of the system calls are arguments.
\<close>

section \<open>State\<close>

datatype task = StartAccept nat | HandleClient nat | CloseAll

record tcp_server =
  ts_socks :: "nat list"
  ts_recvTimeout :: u64
  ts_stop :: bool
  ts_acceptTasks :: "task list"
  ts_tasks :: "task list"
  ts_store :: "nat \<Rightarrow> socket"
  ts_next :: nat
  ts_fds :: fd_table
  ts_reactor :: reactor

definition TcpServer_new :: "u64 \<Rightarrow> fd_table \<Rightarrow> reactor \<Rightarrow> tcp_server" where
  "TcpServer_new recvTimeout fds r =
     \<lparr>ts_socks = [], ts_recvTimeout = recvTimeout, ts_stop = True, ts_acceptTasks = [], ts_tasks = [],
      ts_store = (\<lambda>_. newTCPSocket), ts_next = 0, ts_fds = fds, ts_reactor = r\<rparr>"

definition setReadTimout :: "u64 \<Rightarrow> tcp_server \<Rightarrow> tcp_server" where
  "setReadTimout v t = t\<lparr>ts_recvTimeout := v\<rparr>"

text \<open>A new socket object in the store.\<close>

definition new_sock :: "socket \<Rightarrow> tcp_server \<Rightarrow> tcp_server" where
  "new_sock s t = t\<lparr>ts_store := (ts_store t)(ts_next t := s), ts_next := Suc (ts_next t)\<rparr>"

section \<open>Binding\<close>

definition bind_family :: "int \<Rightarrow> socket option" where
  "bind_family family =
     (if family = AF_INET then Some newTCPSocket
      else if family = AF_INET6 then Some newTCPSocketv6
      else if family = AF_UNIX then Some newUnixTCPSocket
      else None)"

text \<open>The answers of the system calls while an address is bound.\<close>

record bind_answers =
  an_socket :: int
  an_bind :: int
  an_listen :: int
  an_setsockopt :: int

text \<open>
  One address: the socket, \<open>bind\<close>, \<open>listen\<close> and \<open>setRecvTimeout\<close> in turn; \<open>Some\<close> of the socket's
  place in the store when all of them succeed.
\<close>

definition bind_one :: "bool \<Rightarrow> bind_answers \<Rightarrow> IAddress \<Rightarrow> tcp_server \<Rightarrow> nat option \<times> tcp_server" where
  "bind_one enabled a addr t =
     (case bind_family (getFamily addr) of
        None \<Rightarrow> (None, t)
      | Some s0 \<Rightarrow>
          (case sock_bind (an_socket a) (an_bind a) addr s0 of
             (False, s) \<Rightarrow> (None, new_sock s t)
           | (True, s) \<Rightarrow>
               if \<not> sock_listen (an_listen a) s then (None, new_sock s t)
               else
                 case setRecvTimeout enabled (an_setsockopt a) (ts_recvTimeout t) s (ts_fds t) of
                   (False, fds) \<Rightarrow> (None, (new_sock s t)\<lparr>ts_fds := fds\<rparr>)
                 | (True, fds) \<Rightarrow> (Some (ts_next t), (new_sock s t)\<lparr>ts_fds := fds\<rparr>)))"

definition tcp_bind :: "bool \<Rightarrow> bind_answers \<Rightarrow> IAddress \<Rightarrow> tcp_server \<Rightarrow> bool \<times> tcp_server" where
  "tcp_bind enabled a addr t =
     (case bind_one enabled a addr t of
        (None, t') \<Rightarrow> (False, t')
      | (Some i, t') \<Rightarrow> (True, t'\<lparr>ts_socks := ts_socks t' @ [i]\<rparr>))"

fun bind_loop ::
  "bool \<Rightarrow> (bind_answers \<times> IAddress) list \<Rightarrow> bool \<Rightarrow> IAddress list \<Rightarrow> tcp_server \<Rightarrow> bool \<times> IAddress list \<times> tcp_server" where
  "bind_loop enabled [] rt failed t = (rt, failed, t)"
| "bind_loop enabled ((a, addr) # as) rt failed t =
     (case bind_one enabled a addr t of
        (None, t') \<Rightarrow> bind_loop enabled as False (failed @ [addr]) t'
      | (Some i, t') \<Rightarrow> bind_loop enabled as rt failed (t'\<lparr>ts_socks := ts_socks t' @ [i]\<rparr>))"

definition tcp_bind_all ::
  "bool \<Rightarrow> (bind_answers \<times> IAddress) list \<Rightarrow> IAddress list \<Rightarrow> tcp_server \<Rightarrow> bool \<times> IAddress list \<times> tcp_server" where
  "tcp_bind_all enabled as failed t =
     (case bind_loop enabled as True failed t of
        (rt, failed', t') \<Rightarrow> (rt, failed', if \<not> rt then t'\<lparr>ts_socks := []\<rparr> else t'))"

section \<open>Running\<close>

definition tcp_start :: "tcp_server \<Rightarrow> bool \<times> tcp_server" where
  "tcp_start t =
     (if \<not> ts_stop t then (True, t)
      else (True, t\<lparr>ts_stop := False, ts_acceptTasks := ts_acceptTasks t @ map StartAccept (ts_socks t)\<rparr>))"

text \<open>A round of \<open>startAccept\<close>; \<open>client\<close> is what \<open>accept\<close> returned, \<open>rt\<close> the answer of \<open>setsockopt\<close>.\<close>

definition accept_round :: "bool \<Rightarrow> int \<Rightarrow> socket option \<Rightarrow> tcp_server \<Rightarrow> bool \<times> tcp_server" where
  "accept_round enabled rt client t =
     (if ts_stop t then (False, t)
      else case client of
             None \<Rightarrow> (True, t)
           | Some c \<Rightarrow>
               let fds = snd (setRecvTimeout enabled rt (ts_recvTimeout t) c (ts_fds t))
               in (True, (new_sock c t)\<lparr>ts_fds := fds, ts_tasks := ts_tasks t @ [HandleClient (ts_next t)]\<rparr>))"

definition tcp_stop :: "tcp_server \<Rightarrow> bool \<times> tcp_server" where
  "tcp_stop t = (True, t\<lparr>ts_stop := True, ts_acceptTasks := ts_acceptTasks t @ [CloseAll], ts_socks := []\<rparr>)"

text \<open>The closing fiber: it goes over the sockets the server holds when it runs.\<close>

fun close_loop :: "kernel \<Rightarrow> int \<Rightarrow> nat list \<Rightarrow> tcp_server \<Rightarrow> (re_error + unit) \<times> tcp_server" where
  "close_loop ctl close_rt [] t = (Inr (), t)"
| "close_loop ctl close_rt (i # is) t =
     (case cancelAll ctl (sk_fd (ts_store t i)) (ts_reactor t) of
        (Inl e, r) \<Rightarrow> (Inl e, t\<lparr>ts_reactor := r\<rparr>)
      | (Inr _, r) \<Rightarrow>
          close_loop ctl close_rt is
            (t\<lparr>ts_reactor := r, ts_store := (ts_store t)(i := snd (sock_close close_rt (ts_store t i)))\<rparr>))"

definition run_CloseAll :: "kernel \<Rightarrow> int \<Rightarrow> tcp_server \<Rightarrow> (re_error + unit) \<times> tcp_server" where
  "run_CloseAll ctl close_rt t = close_loop ctl close_rt (ts_socks t) t"

section \<open>Properties\<close>

definition bind_ok :: "bind_answers \<times> IAddress \<Rightarrow> bool" where
  "bind_ok p \<longleftrightarrow> getFamily (snd p) \<in> {AF_INET, AF_INET6, AF_UNIX} \<and> 0 \<le> an_socket (fst p) \<and>
     an_bind (fst p) = 0 \<and> an_listen (fst p) = 0 \<and> an_setsockopt (fst p) = 0"

text \<open>A socket that serves an address.\<close>

definition serves :: "tcp_server \<Rightarrow> nat \<Rightarrow> IAddress \<Rightarrow> bool" where
  "serves t i addr \<longleftrightarrow> i < ts_next t \<and> sk_local (ts_store t i) = Some addr \<and> 0 \<le> sk_fd (ts_store t i) \<and>
     sk_family (ts_store t i) = getFamily addr \<and> sk_type (ts_store t i) = SOCK_STREAM"

lemmas family_defs = AF_INET_def AF_INET6_def AF_UNIX_def

lemma bind_one_spec:
  assumes "bind_one enabled a addr t = (res, t')"
  shows "ts_socks t' = ts_socks t" "serves t i b \<Longrightarrow> serves t' i b"
    "res = (if bind_ok (a, addr) then Some (ts_next t) else None)"
    "bind_ok (a, addr) \<Longrightarrow> serves t' (ts_next t) addr"
  using assms
  by (auto simp: bind_one_def bind_family_def sock_bind_def sock_init_def sock_listen_def
      setRecvTimeout_def setSockOption_timeo_def new_sock_def serves_def bind_ok_def
      newTCPSocket_def newTCPSocketv6_def newUnixTCPSocket_def Socket_new_def family_defs Let_def
      split: if_splits bool.splits)

lemma bind_loop_spec:
  assumes "bind_loop enabled as rt failed t = (rt', failed', t')" "list_all2 (serves t) (ts_socks t) bound"
  shows "rt' = (rt \<and> list_all bind_ok as) \<and> failed' = failed @ map snd (filter (\<lambda>p. \<not> bind_ok p) as) \<and>
    list_all2 (serves t') (ts_socks t') (bound @ map snd (filter bind_ok as))"
  using assms
proof (induction enabled as rt failed t arbitrary: bound rule: bind_loop.induct)
  case (2 enabled a addr as rt failed t)
  obtain res t1 where o: "bind_one enabled a addr t = (res, t1)" by fastforce
  note s = bind_one_spec [OF o]
  have keep: "list_all2 (serves t1) (ts_socks t1) bound"
    using 2(4) s(1,2) by (auto intro: list_all2_mono)
  show ?case
  proof (cases "bind_ok (a, addr)")
    case True
    let ?t = "t1\<lparr>ts_socks := ts_socks t1 @ [ts_next t]\<rparr>"
    have "serves ?t = serves t1" by (intro ext) (simp add: serves_def)
    then have "list_all2 (serves ?t) (ts_socks ?t) (bound @ [addr])"
      using keep s(4) [OF True] by (simp add: list_all2_appendI)
    then show ?thesis
      using 2(2) [OF o [symmetric], of "ts_next t" "bound @ [addr]"] 2(3) o s(3) True by simp
  next
    case False
    then show ?thesis using 2(1) [OF o [symmetric]] 2(3) o s(3) keep by simp
  qed
qed simp

text \<open>
  Binding a list of addresses is all or nothing: it succeeds exactly when every address
  could be bound, and then the server holds, after the sockets it had, one listening socket
  for each address in order. Otherwise it reports exactly the addresses that failed, in
  order, and holds no socket at all, not even those bound before.
\<close>

theorem bind_all_or_nothing:
  assumes "tcp_bind_all enabled as failed t = (rt, failed', t')" "list_all2 (serves t) (ts_socks t) bound"
  shows "rt = list_all bind_ok as \<and> failed' = failed @ map snd (filter (\<lambda>p. \<not> bind_ok p) as) \<and>
    (if rt then list_all2 (serves t') (ts_socks t') (bound @ map snd as) else ts_socks t' = [])"
proof -
  obtain t1 where l: "bind_loop enabled as True failed t = (rt, failed', t1)"
    "t' = (if \<not> rt then t1\<lparr>ts_socks := []\<rparr> else t1)"
    using assms(1) by (auto simp: tcp_bind_all_def split: prod.splits)
  note s = bind_loop_spec [OF l(1) assms(2)]
  have "filter bind_ok as = as" if rt using that s by (simp add: list_all_iff)
  then show ?thesis using s l(2) by auto
qed

definition good_answers :: bind_answers where
  "good_answers = \<lparr>an_socket = 3, an_bind = 0, an_listen = 0, an_setsockopt = 0\<rparr>"

theorem bind_all_or_nothing_witness:
  "fst (tcp_bind_all True [(good_answers, IPv4Address IPv4Address_zero)] [] (TcpServer_new 5 [] Reactor))"
proof -
  let ?as = "[(good_answers, IPv4Address IPv4Address_zero)]"
  obtain rt f t' where r: "tcp_bind_all True ?as [] (TcpServer_new 5 [] Reactor) = (rt, f, t')"
    using prod_cases3 by blast
  then show ?thesis
    using bind_all_or_nothing [OF r, of "[]"] by (simp add: TcpServer_new_def bind_ok_def good_answers_def IPv4Address_zero_def AF_INET_def)
qed

text \<open>
  Stopping the server does not close its listening sockets: \<open>stop\<close> empties the list of
  sockets before the closing fiber runs, so that fiber, which goes over the list, closes
  nothing and wakes nobody; every socket and the whole event table stay as they were.
\<close>

theorem stop_closes_nothing:
  "(case tcp_stop t of (ok, t1) \<Rightarrow>
      ok \<and> last (ts_acceptTasks t1) = CloseAll \<and> ts_socks t1 = [] \<and>
      run_CloseAll ctl close_rt t1 = (Inr (), t1) \<and> ts_store t1 = ts_store t \<and> ts_reactor t1 = ts_reactor t)"
  by (simp add: tcp_stop_def run_CloseAll_def)

end
