(* ===== verification/Url_Code.thy ===== *)
theory Url_Code
  imports Zy_Prelude
begin

text \<open>
  URL encoding and decoding and the trailing-zero count (\<open>src/src/crypto/CryptoUtil.cpp\<close>). A
  C++ \<open>char\<close> is signed on the target: a byte from 128 on is negative, and converted to an
  index it lies far outside the tables, which is the error outcome of \<open>urlEncode\<close>.
\<close>

section \<open>Definitions\<close>

abbreviation code :: "char \<Rightarrow> nat" where
  "code c \<equiv> of_char c"

datatype url_error = TableIndex \<comment> \<open>a negative \<open>char\<close> as an array index (undefined behaviour)\<close>

definition suffixZero :: "u8 list \<Rightarrow> nat" where
  "suffixZero buf = length (takeWhile (\<lambda>b. b = 0) (rev buf))"

text \<open>The table that \<open>UrlCodeIniter\<close> fills; its three loops stop before the last character.\<close>

definition uri_valid :: "char \<Rightarrow> bool" where
  "uri_valid c \<longleftrightarrow>
     (code CHR ''a'' \<le> code c \<and> code c < code CHR ''z'') \<or>
     (code CHR ''A'' \<le> code c \<and> code c < code CHR ''Z'') \<or>
     (code CHR ''0'' \<le> code c \<and> code c < code CHR ''9'') \<or>
     c \<in> set (''$-_.+!*'' @ [CHR 0x27] @ ''()'')"

definition hexStr :: "nat \<Rightarrow> char" where
  "hexStr n = ''0123456789ABCDEF'' ! n"

fun urlEncode :: "bool \<Rightarrow> string \<Rightarrow> url_error + string" where
  "urlEncode spaceToPlus [] = Inr []"
| "urlEncode spaceToPlus (c # cs) =
     (case (if c = CHR '' '' \<and> spaceToPlus then Inr ''+''
            else if 128 \<le> code c then Inl TableIndex
            else if \<not> uri_valid c
            then Inr [CHR ''%'', hexStr (code c div 16), hexStr (code c mod 16)]
            else Inr [c]) of
        Inl e \<Rightarrow> Inl e
      | Inr out \<Rightarrow> (case urlEncode spaceToPlus cs of Inl e \<Rightarrow> Inl e | Inr rest \<Rightarrow> Inr (out @ rest)))"

definition isHex :: "char \<Rightarrow> bool" where
  "isHex c \<longleftrightarrow>
     (code CHR ''0'' \<le> code c \<and> code c \<le> code CHR ''9'') \<or>
     (code CHR ''A'' \<le> code c \<and> code c \<le> code CHR ''F'') \<or>
     (code CHR ''a'' \<le> code c \<and> code c \<le> code CHR ''f'')"

text \<open>\<open>hexToDec\<close> on hexadecimal digits; elsewhere the code returns -1 and is not called.\<close>

definition hexToDec :: "char \<Rightarrow> nat" where
  "hexToDec c =
     (if code CHR ''0'' \<le> code c \<and> code c \<le> code CHR ''9'' then code c - code CHR ''0''
      else if code CHR ''a'' \<le> code c \<and> code c \<le> code CHR ''f'' then code c - code CHR ''a'' + 10
      else if code CHR ''A'' \<le> code c \<and> code c \<le> code CHR ''F'' then code c - code CHR ''A'' + 10
      else 255)"

function urlDecode :: "bool \<Rightarrow> string \<Rightarrow> string" where
  "urlDecode spaceToPlus [] = []"
| "urlDecode spaceToPlus (c # cs) =
     (if c = CHR ''%'' \<and> 2 \<le> length cs \<and> isHex (cs ! 0) \<and> isHex (cs ! 1)
      then char_of (16 * hexToDec (cs ! 0) + hexToDec (cs ! 1)) # urlDecode spaceToPlus (drop 2 cs)
      else if c = CHR '' '' \<and> spaceToPlus then CHR ''+'' # urlDecode spaceToPlus cs
      else c # urlDecode spaceToPlus cs)"
  by pat_completeness auto
termination
  by (relation "measure (\<lambda>(p, cs). length cs)") auto

section \<open>Hexadecimal digits\<close>

lemma hexStr_hex:
  assumes "n < 16"
  shows "isHex (hexStr n)" "hexToDec (hexStr n) = n"
proof -
  have "n \<in> {0, 1, 2, 3, 4, 5, 6, 7, 8, 9, 10, 11, 12, 13, 14, 15}" using assms by (simp, presburger)
  then show "isHex (hexStr n)" "hexToDec (hexStr n) = n"
    by (auto simp: hexStr_def isHex_def hexToDec_def)
qed

lemma code_split: "code c < 128 \<Longrightarrow> code c div 16 < 16"
  by (simp add: less_mult_imp_div_less)

lemma decode_triple:
  assumes "code c < 128"
  shows "urlDecode q ([CHR ''%'', hexStr (code c div 16), hexStr (code c mod 16)] @ rest) = c # urlDecode q rest"
  using hexStr_hex [OF code_split [OF assms]] hexStr_hex [of "code c mod 16"] by simp

lemma decode_valid:
  assumes "uri_valid c"
  shows "urlDecode q (c # rest) = c # urlDecode q rest"
proof -
  have "c \<noteq> CHR ''%''" "c \<noteq> CHR '' ''" using assms by (auto simp: uri_valid_def)
  then show ?thesis by simp
qed

lemma urlDecode_urlEncode:
  assumes "\<forall>c \<in> set s. code c < 128" "spaceToPlus \<longrightarrow> CHR '' '' \<notin> set s"
  shows "\<exists>e. urlEncode spaceToPlus s = Inr e \<and> urlDecode q e = s"
  using assms
proof (induction s)
  case Nil
  then show ?case by simp
next
  case (Cons c s)
  then obtain e where e: "urlEncode spaceToPlus s = Inr e" "urlDecode q e = s" by auto
  have c: "code c < 128" "\<not> (c = CHR '' '' \<and> spaceToPlus)" using Cons.prems by auto
  show ?case
  proof (cases "uri_valid c")
    case True
    then have "urlEncode spaceToPlus (c # s) = Inr (c # e)" using c e by auto
    then show ?thesis using e(2) decode_valid [OF True, of q e] by auto
  next
    case False
    then have "urlEncode spaceToPlus (c # s) =
        Inr ([CHR ''%'', hexStr (code c div 16), hexStr (code c mod 16)] @ e)" using c e by auto
    then show ?thesis using e(2) decode_triple [OF c(1), of q e] by blast
  qed
qed

section \<open>Properties\<close>

text \<open>
  C27. Decoding inverts encoding on seven-bit strings, except for a space encoded as a plus
  sign: without that option, or without spaces in the input, encoding succeeds and decoding
  gives the input back.
\<close>

theorem url_round_trip:
  assumes "\<forall>c \<in> set s. code c < 128" "spaceToPlus \<longrightarrow> CHR '' '' \<notin> set s"
  shows "\<exists>e. urlEncode spaceToPlus s = Inr e \<and> urlDecode q e = s"
  by (rule urlDecode_urlEncode [OF assms])

theorem url_round_trip_witness:
  "\<exists>e. urlEncode False ''a z%'' = Inr e \<and> urlDecode True e = ''a z%''"
  using url_round_trip [of "''a z%''" False True] by simp

text \<open>
  The plus option does not round-trip: a space becomes a plus sign, and decoding leaves
  plus signs alone under either setting (it turns spaces into plus signs instead).
\<close>

theorem url_plus_not_inverted:
  "urlEncode True '' '' = Inr ''+'' \<and> urlDecode q ''+'' = ''+'' \<and> urlDecode True '' '' = ''+''"
  by simp

text \<open>
  The characters \<open>z\<close>, \<open>Z\<close> and \<open>9\<close> are percent-encoded, unlike every other letter and
  digit; and a string with a byte from 128 on is not encoded at all: it indexes a table out of
  range.
\<close>

theorem url_encode_edges:
  assumes "128 \<le> code c"
  shows "urlEncode p ''zZ9'' = Inr ''%7A%5A%39'' \<and> urlEncode p ''yY8'' = Inr ''yY8'' \<and>
    urlEncode p (c # cs) = Inl TableIndex"
proof -
  have "c \<noteq> CHR '' ''" using assms by auto
  then show ?thesis using assms by (simp add: uri_valid_def hexStr_def)
qed

theorem url_encode_edges_witness:
  "urlEncode True [CHR 0xE4] = Inl TableIndex"
  using url_encode_edges [of "CHR 0xE4" True "[]"] by simp

end
