(* ===== verification/Http_Tables.thy ===== *)
theory Http_Tables
  imports Ordered "HOL-Library.List_Lexorder" Url_Code
begin

text \<open>
  Methods, status codes and case-insensitive keys of the HTTP component
  (\<open>src/src/http/Http.hpp\<close>, \<open>Http.cpp\<close>): the two macro tables, the conversions between codes,
  enumerators and strings, and the comparator of the header maps, which is shown to be a
  strict weak order so that the laws of ordered maps apply to it.
\<close>

section \<open>Comparing strings without case\<close>

text \<open>
  The C functions used on \<open>std::string\<close>: \<open>c_str\<close> is read up to the first NUL; \<open>strcasecmp\<close>
  returns the difference of the first differing lower-case characters (in the C locale).
\<close>

definition cstr :: "string \<Rightarrow> string" where
  "cstr s = takeWhile (\<lambda>c. c \<noteq> CHR 0x00) s"

definition lower :: "char \<Rightarrow> nat" where
  "lower c = (if code CHR ''A'' \<le> code c \<and> code c \<le> code CHR ''Z'' then code c + 32 else code c)"

fun casecmp :: "nat list \<Rightarrow> nat list \<Rightarrow> int" where
  "casecmp [] [] = 0"
| "casecmp [] (y # ys) = - int y"
| "casecmp (x # xs) [] = int x"
| "casecmp (x # xs) (y # ys) = (if x = y then casecmp xs ys else int x - int y)"

definition ci_key :: "string \<Rightarrow> nat list" where
  "ci_key s = map lower (cstr s)"

definition strcasecmp :: "string \<Rightarrow> string \<Rightarrow> int" where
  "strcasecmp lhs rhs = casecmp (ci_key lhs) (ci_key rhs)"

definition CaseInsensitiveLesser :: "string \<Rightarrow> string \<Rightarrow> bool" where
  "CaseInsensitiveLesser lhs rhs \<longleftrightarrow> strcasecmp lhs rhs < 0"

section \<open>Methods and status codes\<close>

datatype (plugins only: code size) HttpMethod =
    DELETE | GET | HEAD | POST | PUT | CONNECT | OPTION | TRACE | COPY | LOCK | MKCOL | MOVE |
    PROPFIND | PROPPATCH | SEARCH | UNLOCK | BIND | REBIND | UNBIND | ACL | REPORT |
    MKACTIVITY | CHECKOUT | MERGE | MSEARCH | NOTIFY | SUBSCRIBE | UNSUBSCRIBE | PATCH |
    PURGE | MKCALENDAR | LINK | UNLINK | SOURCE | INVALID_METHOD

datatype (plugins only: code size) HttpStatus =
    CONTINUE | SWITCHING_PROTOCOLS | PROCESSING | OK | CREATED | ACCEPTED |
    NON_AUTHORITATIVE_INFORMATION | NO_CONTENT | RESET_CONTENT | PARTIAL_CONTENT |
    MULTI_STATUS | ALREADY_REPORTED | CONNECTION_ESTABLISHED | IM_USED | MULTI_CHOICES |
    MOVED_PERMANENTLY | FOUND | SEE_OTHER | NOT_MODIFIED | USE_PROXY | TEMPORARY_REDIRECT |
    PERMANENT_REDIRECT | BAD_REQUEST | UNAUTHORIZED | PAYMENT_REQUIRED | FORBIDDEN |
    NOT_FOUND | METHOD_NOT_ALLOWED | NOT_ACCEPTABLE | PROXY_AUTHENTICATION_REQURIED |
    REQUEST_TIMEOUT | CONFLICT | GONE | LENGTH_REQUIRED | PRECONDITION_FAILED |
    PAYLOAD_TOO_LARGE | URI_TOO_LONG | UNSUPPORTED_MEDIA_TYPE | RANGE_NOT_SATISFIABLE |
    EXPECTATION_FAILED | MISDIRECTED_REQUEST | UNPROCESSABLE_ENTITY | LOCKED |
    FAILED_DEPENDENCY | UPGRADE_REQUIRED | PRECONDITION_REQUIRED | TOO_MANY_REQUESTS |
    REQUEST_HEADER_FIELDS_TOO_LARGE | UNAVAILABLE_FOR_LEGAL_REASONS | INTERNAL_SERVER_ERROR |
    NOT_IMPLEMENTED | BAD_GATEWAY | SERVICE_UNAVAILABLE | GATEWAY_TIMEOUT |
    HTTP_VERSION_NOT_SUPPORTED | VARIANT_ALSO_NEGOTIATES | INSUFFICIENT_STORAGE |
    LOOP_DETECTED | NOT_EXTENDED | NETWORK_AUTHENTICATION_REQUIRED | INVALID_STATUS

definition method_map :: "(nat \<times> HttpMethod \<times> string) list" where
  "method_map =
    [(0, DELETE, ''DELETE''), (1, GET, ''GET''), (2, HEAD, ''HEAD''), (3, POST, ''POST''),
     (4, PUT, ''PUT''), (5, CONNECT, ''CONNECT''), (6, OPTION, ''OPTION''),
     (7, TRACE, ''TRACE''), (8, COPY, ''COPY''), (9, LOCK, ''LOCK''), (10, MKCOL, ''MKCOL''),
     (11, MOVE, ''MOVE''), (12, PROPFIND, ''PROPFIND''), (13, PROPPATCH, ''PROPPATCH''),
     (14, SEARCH, ''SEARCH''), (15, UNLOCK, ''UNLOCK''), (16, BIND, ''BIND''),
     (17, REBIND, ''REBIND''), (18, UNBIND, ''UNBIND''), (19, ACL, ''ACL''),
     (20, REPORT, ''REPORT''), (21, MKACTIVITY, ''MKACTIVITY''), (22, CHECKOUT, ''CHECKOUT''),
     (23, MERGE, ''MERGE''), (24, MSEARCH, ''M-SEARCH''), (25, NOTIFY, ''NOTIFY''),
     (26, SUBSCRIBE, ''SUBSRIBE''), (27, UNSUBSCRIBE, ''UNSUBSCRIBE''), (28, PATCH, ''PATCH''),
     (29, PURGE, ''PURGE''), (30, MKCALENDAR, ''MKCALENDAR''), (31, LINK, ''LINK''),
     (32, UNLINK, ''UNLINK''), (33, SOURCE, ''SOURCE'')]"

definition status_map :: "(nat \<times> HttpStatus \<times> string) list" where
  "status_map =
    [(100, CONTINUE, ''Continue''), (101, SWITCHING_PROTOCOLS, ''Switching Protocols''),
     (102, PROCESSING, ''Processing''), (200, OK, ''OK''), (201, CREATED, ''Created''),
     (202, ACCEPTED, ''Accepted''),
     (203, NON_AUTHORITATIVE_INFORMATION, ''Non Authoritative Infomation''),
     (204, NO_CONTENT, ''No Content''), (205, RESET_CONTENT, ''Reset Content''),
     (206, PARTIAL_CONTENT, ''Partial Content''), (207, MULTI_STATUS, ''Multi Status''),
     (208, ALREADY_REPORTED, ''Already reported''),
     (209, CONNECTION_ESTABLISHED, ''Connection Established''), (226, IM_USED, ''IM-Used''),
     (300, MULTI_CHOICES, ''Multi Choices''), (301, MOVED_PERMANENTLY, ''Moved Permanently''),
     (302, FOUND, ''Found''), (303, SEE_OTHER, ''See Other''),
     (304, NOT_MODIFIED, ''Not Modified''), (305, USE_PROXY, ''Use Proxy''),
     (307, TEMPORARY_REDIRECT, ''Temporary Redirect''),
     (308, PERMANENT_REDIRECT, ''Permanent Redirect''), (400, BAD_REQUEST, ''Bad Request''),
     (401, UNAUTHORIZED, ''Unauthorized''), (402, PAYMENT_REQUIRED, ''Payment Requried''),
     (403, FORBIDDEN, ''Forbidden''), (404, NOT_FOUND, ''Not Found''),
     (405, METHOD_NOT_ALLOWED, ''Method Not Allowed''),
     (406, NOT_ACCEPTABLE, ''Not Acceptable''),
     (407, PROXY_AUTHENTICATION_REQURIED, ''Proxy Authentication Requried''),
     (408, REQUEST_TIMEOUT, ''Request Timeout''), (409, CONFLICT, ''Conflic''),
     (410, GONE, ''GONE''), (411, LENGTH_REQUIRED, ''Length Required''),
     (412, PRECONDITION_FAILED, ''Precondition Failed''),
     (413, PAYLOAD_TOO_LARGE, ''Payload too large''), (414, URI_TOO_LONG, ''Uri Too Long''),
     (415, UNSUPPORTED_MEDIA_TYPE, ''Unsupported Media Type''),
     (416, RANGE_NOT_SATISFIABLE, ''Range Not Satisfiable''),
     (417, EXPECTATION_FAILED, ''Expectation Failed''),
     (421, MISDIRECTED_REQUEST, '' Misdirected Request''),
     (422, UNPROCESSABLE_ENTITY, ''Unprocessable Entity''), (423, LOCKED, ''Locked''),
     (424, FAILED_DEPENDENCY, ''Failed Dependency''),
     (426, UPGRADE_REQUIRED, ''Upgrade Required''),
     (428, PRECONDITION_REQUIRED, ''Precondition Required''),
     (429, TOO_MANY_REQUESTS, ''Too Many Requests''),
     (431, REQUEST_HEADER_FIELDS_TOO_LARGE, ''Request Header Fields Too Large''),
     (451, UNAVAILABLE_FOR_LEGAL_REASONS, ''Unavailable For Legal Reasons''),
     (500, INTERNAL_SERVER_ERROR, ''Internal Server Error''),
     (501, NOT_IMPLEMENTED, ''Not Implemented''), (502, BAD_GATEWAY, ''Bad Gateway''),
     (503, SERVICE_UNAVAILABLE, ''Service Unavailable''),
     (504, GATEWAY_TIMEOUT, ''Gateway Timeout''),
     (505, HTTP_VERSION_NOT_SUPPORTED, ''HTTP Version Not Supported''),
     (506, VARIANT_ALSO_NEGOTIATES, ''Variant Also Negotiates''),
     (507, INSUFFICIENT_STORAGE, ''Insufficient Storage''),
     (508, LOOP_DETECTED, ''Loop Detected''), (510, NOT_EXTENDED, ''Not Extended''),
     (511, NETWORK_AUTHENTICATION_REQUIRED, ''Network Authentication Required'')]"

text \<open>The numeric values of the enumerators; the last one of each follows its predecessor.\<close>

definition method_num :: "HttpMethod \<Rightarrow> nat" where
  "method_num m = (case find (\<lambda>(n, x, s). x = m) method_map of Some (n, _) \<Rightarrow> n | None \<Rightarrow> 34)"

definition status_num :: "HttpStatus \<Rightarrow> nat" where
  "status_num m = (case find (\<lambda>(n, x, s). x = m) status_map of Some (n, _) \<Rightarrow> n | None \<Rightarrow> 512)"

definition s_method_to_string :: "string list" where
  "s_method_to_string = map (\<lambda>(n, x, s). s) method_map @ [''INVALID METHOD'']"

text \<open>
  \<open>httpMethodToString\<close> takes the number of the enumerator, which may be any number after a
  cast; \<open>None\<close> is an index outside the vector.
\<close>

definition httpMethodToString :: "nat \<Rightarrow> string option" where
  "httpMethodToString idx =
     (if length s_method_to_string < idx then Some ''INVALID METHOD''
      else if idx < length s_method_to_string then Some (s_method_to_string ! idx)
      else None)"

text \<open>The map from strings is built by insertion, so the first of two equal keys would count.\<close>

definition stringToHttpMethod :: "string \<Rightarrow> HttpMethod" where
  "stringToHttpMethod method =
     (case find (\<lambda>(n, x, s). \<not> CaseInsensitiveLesser s method \<and> \<not> CaseInsensitiveLesser method s) method_map of
        None \<Rightarrow> INVALID_METHOD | Some (n, x, s) \<Rightarrow> x)"

definition httpStatusToString :: "HttpStatus \<Rightarrow> string" where
  "httpStatusToString status =
     (case find (\<lambda>(n, x, s). n = status_num status) status_map of
        None \<Rightarrow> ''INVALID STATUS'' | Some (n, x, s) \<Rightarrow> s)"

definition stringToHttpStatus :: "string \<Rightarrow> HttpStatus" where
  "stringToHttpStatus status =
     (case find (\<lambda>(n, x, s). s = status) status_map of
        None \<Rightarrow> INVALID_STATUS | Some (n, x, s) \<Rightarrow> x)"

section \<open>The comparator\<close>

lemma casecmp_less:
  "0 \<notin> set xs \<Longrightarrow> 0 \<notin> set ys \<Longrightarrow> casecmp xs ys < 0 \<longleftrightarrow> xs < ys"
  by (induction xs ys rule: casecmp.induct) auto

lemma casecmp_eq: "0 \<notin> set xs \<Longrightarrow> 0 \<notin> set ys \<Longrightarrow> casecmp xs ys = 0 \<longleftrightarrow> xs = ys"
  by (induction xs ys rule: casecmp.induct) auto

lemma ci_key_pos: "0 \<notin> set (ci_key s)"
proof
  assume "0 \<in> set (ci_key s)"
  then obtain c where "c \<in> set (cstr s)" "lower c = 0" by (auto simp: ci_key_def)
  moreover from this(2) have "c = CHR 0x00" by (cases c) (auto simp: lower_def split: if_splits)
  ultimately show False by (auto simp: cstr_def dest: set_takeWhileD)
qed

lemma CaseInsensitiveLesser_key: "CaseInsensitiveLesser l r \<longleftrightarrow> ci_key l < ci_key r"
  by (simp add: CaseInsensitiveLesser_def strcasecmp_def casecmp_less ci_key_pos)

lemma strcasecmp_0: "strcasecmp l r = 0 \<longleftrightarrow> ci_key l = ci_key r"
  by (simp add: strcasecmp_def casecmp_eq ci_key_pos)

interpretation ci: weak_order CaseInsensitiveLesser
  by unfold_locales (auto simp: CaseInsensitiveLesser_key)

lemma ci_same: "ci.same l r \<longleftrightarrow> strcasecmp l r = 0"
  by (auto simp: ci.same_def CaseInsensitiveLesser_key strcasecmp_0)

section \<open>The tables\<close>

lemma find_unique_key:
  assumes "distinct (map key xs)" "x \<in> set xs" "\<And>y. P y \<longleftrightarrow> key y = key x"
  shows "find P xs = Some x"
proof -
  have "find P xs \<noteq> None" using assms(2,3) by (auto simp: find_None_iff)
  then obtain y where y: "find P xs = Some y" by blast
  then have "y \<in> set xs" "P y" by (auto simp: find_Some_iff)
  then show ?thesis using assms y by (metis distinct_map inj_onD)
qed

lemma method_map_numbers: "map fst method_map = [0..<34]"
  by (simp add: method_map_def upt_rec)

lemma method_map_distinct: "distinct (map (\<lambda>(n, m, s). m) method_map)"
  by (simp add: method_map_def)

lemma method_keys_distinct: "distinct (map (\<lambda>(n, m, s). ci_key s) method_map)"
  by code_simp

lemma status_map_numbers: "distinct (map fst status_map)"
  by (simp add: status_map_def)

lemma status_map_distinct: "distinct (map (\<lambda>(n, m, s). m) status_map)"
  by (simp add: status_map_def)

lemma status_strings_distinct: "distinct (map (\<lambda>(n, m, s). s) status_map)"
  by code_simp

lemmas method_names = arg_cong [OF method_map_def, of "\<lambda>xs. set (map (\<lambda>(n, m, s). m) xs)", simplified]

lemma method_map_total: "m = INVALID_METHOD \<or> m \<in> (\<lambda>(n, m, s). m) ` set method_map"
  unfolding method_names by (cases m) simp_all

lemmas status_names = arg_cong [OF status_map_def, of "\<lambda>xs. set (map (\<lambda>(n, m, s). m) xs)", simplified]

lemma status_map_total: "m = INVALID_STATUS \<or> m \<in> (\<lambda>(n, m, s). m) ` set status_map"
  unfolding status_names by (cases m) simp_all

lemma method_num_row:
  assumes "(n, m, s) \<in> set method_map"
  shows "method_num m = n" "n < 34"
proof -
  show "method_num m = n"
    unfolding method_num_def by (subst find_unique_key [OF method_map_distinct assms]) auto
  show "n < 34" using arg_cong [OF method_map_numbers, of set] assms by force
qed

lemma method_num_less: "(n, m, s) \<in> set method_map \<Longrightarrow> method_num m < 34"
  by (simp add: method_num_row)

lemma method_num_invalid: "method_num INVALID_METHOD = 34"
  by (simp add: method_num_def method_map_def)

lemma method_num_inj: "method_num m = method_num m' \<longleftrightarrow> m = m'"
proof
  assume e: "method_num m = method_num m'"
  have d: "distinct (map fst method_map)" by (simp add: method_map_numbers)
  consider "m = INVALID_METHOD" "m' = INVALID_METHOD"
    | n s where "m = INVALID_METHOD" "(n, m', s) \<in> set method_map"
    | n s where "(n, m, s) \<in> set method_map" "m' = INVALID_METHOD"
    | n s n' s' where "(n, m, s) \<in> set method_map" "(n', m', s') \<in> set method_map"
    using method_map_total [of m] method_map_total [of m'] by auto
  then show "m = m'"
  proof cases
    case 4
    then have "n = n'" using e by (simp add: method_num_row)
    then show ?thesis using eq_key_imp_eq_value [OF d] 4 by blast
  qed (use e in \<open>auto simp: method_num_invalid dest!: method_num_less\<close>)
qed simp

lemma method_row:
  assumes "(n, m, s) \<in> set method_map"
  shows "httpMethodToString (method_num m) = Some s"
proof -
  obtain i where i: "i < length method_map" "method_map ! i = (n, m, s)"
    using assms by (auto simp: in_set_conv_nth)
  have l: "length method_map = 34" using arg_cong [OF method_map_numbers, of length] by simp
  have "n = i" using arg_cong [OF method_map_numbers, of "\<lambda>xs. xs ! i"] i l by simp
  moreover have "method_num m = n" using assms by (rule method_num_row)
  ultimately show ?thesis
    using i l by (simp add: httpMethodToString_def s_method_to_string_def nth_append)
qed

lemma status_row:
  assumes "(n, m, s) \<in> set status_map"
  shows "status_num m = n" "httpStatusToString m = s" "stringToHttpStatus s = m"
proof -
  show n: "status_num m = n"
    unfolding status_num_def by (subst find_unique_key [OF status_map_distinct assms]) auto
  show "httpStatusToString m = s"
    unfolding httpStatusToString_def n by (subst find_unique_key [OF status_map_numbers assms]) auto
  show "stringToHttpStatus s = m"
    unfolding stringToHttpStatus_def by (subst find_unique_key [OF status_strings_distinct assms]) auto
qed

text \<open>
  The method table in both directions: every method but the invalid one is written as a
  string that is read back as the same method, and any spelling of that string in another
  case is read as it too.
\<close>

theorem method_table_round_trip:
  assumes "m \<noteq> INVALID_METHOD"
  shows "\<exists>s. httpMethodToString (method_num m) = Some s \<and>
    (\<forall>t. strcasecmp s t = 0 \<longrightarrow> stringToHttpMethod t = m)"
proof -
  obtain n s where r: "(n, m, s) \<in> set method_map" using method_map_total [of m] assms by auto
  have "stringToHttpMethod t = m" if "strcasecmp s t = 0" for t
  proof -
    have "find (\<lambda>(n, x, s). \<not> CaseInsensitiveLesser s t \<and> \<not> CaseInsensitiveLesser t s) method_map =
        Some (n, m, s)"
      by (rule find_unique_key [OF method_keys_distinct r])
        (use that in \<open>auto simp: CaseInsensitiveLesser_key strcasecmp_0 split: prod.splits\<close>)
    then show ?thesis by (simp add: stringToHttpMethod_def)
  qed
  then show ?thesis using method_row [OF r] by blast
qed

theorem method_table_round_trip_witness: "stringToHttpMethod ''pOst'' = POST"
proof -
  have "httpMethodToString (method_num POST) = Some ''POST''"
    by (rule method_row [of 3]) (simp add: method_map_def)
  moreover have "strcasecmp ''POST'' ''pOst'' = 0" by code_simp
  ultimately show ?thesis using method_table_round_trip [of POST] by auto
qed

text \<open>
  The status table in both directions, and the corners of the method table: the string
  for \<open>SUBSCRIBE\<close> is misspelt, so the standard spelling is not recognised; and the bound
  check of \<open>httpMethodToString\<close> admits one index beyond the vector.
\<close>

theorem status_table_round_trip:
  "(s = INVALID_STATUS \<or> stringToHttpStatus (httpStatusToString s) = s) \<and>
   stringToHttpMethod ''SUBSCRIBE'' = INVALID_METHOD \<and>
   stringToHttpMethod ''SUBSRIBE'' = SUBSCRIBE \<and>
   httpMethodToString (method_num INVALID_METHOD) = Some ''INVALID METHOD'' \<and>
   httpMethodToString 35 = None \<and> httpMethodToString (36 + n) = Some ''INVALID METHOD''"
proof -
  have "s = INVALID_STATUS \<or> stringToHttpStatus (httpStatusToString s) = s"
    using status_map_total [of s] by (auto simp: status_row)
  moreover have "length s_method_to_string = 35" by (simp add: s_method_to_string_def method_map_def)
  then have "httpMethodToString 35 = None" "httpMethodToString (36 + n) = Some ''INVALID METHOD''"
    by (simp_all add: httpMethodToString_def)
  moreover have "stringToHttpMethod ''SUBSCRIBE'' = INVALID_METHOD" "stringToHttpMethod ''SUBSRIBE'' = SUBSCRIBE"
    by code_simp+
  moreover have "httpMethodToString (method_num INVALID_METHOD) = Some ''INVALID METHOD''"
    by (simp add: method_num_def httpMethodToString_def s_method_to_string_def method_map_def)
  ultimately show ?thesis by blast
qed

end
