(* ===== verification/Http.thy ===== *)
theory Http
  imports Http_Tables Text_Out
begin

text \<open>
  HTTP requests and responses (\<open>src/src/http/Http.hpp\<close>, \<open>Http.cpp\<close>): their fields, the header,
  parameter and cookie maps, the parsing of parameters from the query, the body and the
  cookie header, and the text of a message. The maps are ordered maps under the
  case-insensitive comparator. \<open>boost::lexical_cast\<close> and \<open>time2Str\<close> are parameters.
\<close>

section \<open>Requests\<close>

type_synonym MapType = "(string \<times> string) list"

record HttpRequest =
  rq_method :: HttpMethod
  rq_version :: u8
  rq_close :: bool
  rq_webSocket :: bool
  rq_contentType :: u8
  rq_status :: HttpStatus
  rq_path :: string
  rq_query :: string
  rq_fragment :: string
  rq_body :: string
  rq_uri :: string
  rq_scheme :: string
  rq_headers :: MapType
  rq_params :: MapType
  rq_cookies :: MapType

definition HttpRequest_new :: "u8 \<Rightarrow> bool \<Rightarrow> HttpRequest" where
  "HttpRequest_new version close =
     \<lparr>rq_method = GET, rq_version = version, rq_close = close, rq_webSocket = False,
      rq_contentType = 0, rq_status = OK, rq_path = ''/'', rq_query = [], rq_fragment = [],
      rq_body = [], rq_uri = [], rq_scheme = [], rq_headers = [], rq_params = [], rq_cookies = []\<rparr>"

definition getUri :: "HttpRequest \<Rightarrow> string" where
  "getUri r = (if rq_scheme r \<noteq> [] then rq_scheme r @ '':'' else []) @ rq_uri r"

text \<open>\<open>it == mp.end() ? dft : it->second\<close>\<close>

definition get_or :: "MapType \<Rightarrow> string \<Rightarrow> string \<Rightarrow> string" where
  "get_or mp key dft = (case om_find CaseInsensitiveLesser key mp of None \<Rightarrow> dft | Some v \<Rightarrow> v)"

definition getHeader :: "string \<Rightarrow> string \<Rightarrow> HttpRequest \<Rightarrow> string" where
  "getHeader key dft r = get_or (rq_headers r) key dft"

definition getParam :: "string \<Rightarrow> string \<Rightarrow> HttpRequest \<Rightarrow> string" where
  "getParam key dft r = get_or (rq_params r) key dft"

definition getCookie :: "string \<Rightarrow> string \<Rightarrow> HttpRequest \<Rightarrow> string" where
  "getCookie key dft r = get_or (rq_cookies r) key dft"

definition setHeader :: "string \<Rightarrow> string \<Rightarrow> HttpRequest \<Rightarrow> HttpRequest" where
  "setHeader key val r = r\<lparr>rq_headers := om_assign CaseInsensitiveLesser key val (rq_headers r)\<rparr>"

definition setParam :: "string \<Rightarrow> string \<Rightarrow> HttpRequest \<Rightarrow> HttpRequest" where
  "setParam key val r = r\<lparr>rq_params := om_assign CaseInsensitiveLesser key val (rq_params r)\<rparr>"

definition setCookie :: "string \<Rightarrow> string \<Rightarrow> HttpRequest \<Rightarrow> HttpRequest" where
  "setCookie key val r = r\<lparr>rq_cookies := om_assign CaseInsensitiveLesser key val (rq_cookies r)\<rparr>"

definition delHeader :: "string \<Rightarrow> HttpRequest \<Rightarrow> HttpRequest" where
  "delHeader key r = r\<lparr>rq_headers := om_erase CaseInsensitiveLesser key (rq_headers r)\<rparr>"

definition delParam :: "string \<Rightarrow> HttpRequest \<Rightarrow> HttpRequest" where
  "delParam key r = r\<lparr>rq_params := om_erase CaseInsensitiveLesser key (rq_params r)\<rparr>"

definition delCookie :: "string \<Rightarrow> HttpRequest \<Rightarrow> HttpRequest" where
  "delCookie key r = r\<lparr>rq_cookies := om_erase CaseInsensitiveLesser key (rq_cookies r)\<rparr>"

text \<open>
  The \<open>has\<close> operations: \<open>val\<close> is what the pointer argument points to, \<open>None\<close> for a null pointer.
  The result is the returned value and what the pointer points to afterwards.
\<close>

definition has_in :: "MapType \<Rightarrow> string \<Rightarrow> string option \<Rightarrow> bool \<times> string option" where
  "has_in mp key val =
     (case om_find CaseInsensitiveLesser key mp of
        None \<Rightarrow> (False, val)
      | Some v \<Rightarrow> (False, if val \<noteq> None then Some v else val))"

definition hasHeader :: "string \<Rightarrow> string option \<Rightarrow> HttpRequest \<Rightarrow> bool \<times> string option" where
  "hasHeader key val r = has_in (rq_headers r) key val"

definition hasParam :: "string \<Rightarrow> string option \<Rightarrow> HttpRequest \<Rightarrow> bool \<times> string option" where
  "hasParam key val r = has_in (rq_params r) key val"

definition hasCookie :: "string \<Rightarrow> string option \<Rightarrow> HttpRequest \<Rightarrow> bool \<times> string option" where
  "hasCookie key val r = has_in (rq_cookies r) key val"

text \<open>Typed reads; \<open>cast\<close> is \<open>lexical_cast\<close>, \<open>None\<close> when it throws.\<close>

definition checkGetAs :: "(string \<Rightarrow> 'a option) \<Rightarrow> MapType \<Rightarrow> string \<Rightarrow> 'a \<Rightarrow> bool \<times> 'a" where
  "checkGetAs cast mp key dft =
     (case om_find CaseInsensitiveLesser key mp of
        None \<Rightarrow> (False, dft)
      | Some s \<Rightarrow> (case cast s of None \<Rightarrow> (False, dft) | Some v \<Rightarrow> (True, v)))"

definition getAs :: "(string \<Rightarrow> 'a option) \<Rightarrow> MapType \<Rightarrow> string \<Rightarrow> 'a \<Rightarrow> 'a" where
  "getAs cast mp key dft =
     (case om_find CaseInsensitiveLesser key mp of
        None \<Rightarrow> dft
      | Some s \<Rightarrow> (case cast s of None \<Rightarrow> dft | Some v \<Rightarrow> v))"

text \<open>\<open>init\<close> takes the connection mode from the header.\<close>

definition rq_init :: "HttpRequest \<Rightarrow> HttpRequest" where
  "rq_init r =
     (let conn = getHeader ''connection'' [] r
      in if conn \<noteq> [] then r\<lparr>rq_close := strcasecmp conn ''keep-alive'' \<noteq> 0\<rparr> else r)"

section \<open>Parameters\<close>

definition isspace :: "char \<Rightarrow> bool" where
  "isspace c \<longleftrightarrow> c = CHR '' '' \<or> (9 \<le> code c \<and> code c \<le> 13)"

text \<open>
  The loop of \<open>kvParser\<close>: \<open>in_val\<close> is \<open>type == VALUE\<close>, \<open>k\<close> and \<open>v\<close> are \<open>kv[KEY]\<close> and \<open>kv[VALUE]\<close>.
\<close>

fun kv_loop :: "char \<Rightarrow> string \<Rightarrow> bool \<Rightarrow> string \<Rightarrow> string \<Rightarrow> MapType \<Rightarrow> bool \<times> string \<times> string \<times> MapType" where
  "kv_loop delim [] in_val k v mp = (in_val, k, v, mp)"
| "kv_loop delim (c # cs) in_val k v mp =
     (if isspace c then kv_loop delim cs in_val k v mp
      else if c = delim
      then kv_loop delim cs False [] [] (om_assign CaseInsensitiveLesser k (urlDecode True v) mp)
      else if c = CHR ''='' then kv_loop delim cs True k v mp
      else if in_val then kv_loop delim cs in_val k (v @ [c]) mp
      else kv_loop delim cs in_val (k @ [c]) v mp)"

definition kvParser :: "string \<Rightarrow> MapType \<Rightarrow> char \<Rightarrow> bool \<times> MapType" where
  "kvParser data mp delim =
     (if data = [] then (False, mp)
      else case kv_loop delim data False [] [] mp of
             (in_val, k, v, mp1) \<Rightarrow>
               if \<not> in_val then (False, mp1)
               else (True, om_assign CaseInsensitiveLesser k (urlDecode True v) mp1))"

definition initQueryParam :: "HttpRequest \<Rightarrow> HttpRequest" where
  "initQueryParam r =
     (if rq_contentType r AND 1 \<noteq> 0 then r
      else r\<lparr>rq_params := snd (kvParser (rq_query r) (rq_params r) CHR ''&''),
             rq_contentType := rq_contentType r OR 1\<rparr>)"

definition initBodyParam :: "HttpRequest \<Rightarrow> HttpRequest" where
  "initBodyParam r =
     (if rq_contentType r AND 2 \<noteq> 0 then r
      else if strcasecmp (getHeader ''content-type'' [] r) ''application/x-www-form-urlencoded'' \<noteq> 0
      then r\<lparr>rq_contentType := rq_contentType r OR 2\<rparr>
      else r\<lparr>rq_params := snd (kvParser (rq_body r) (rq_params r) CHR ''&''),
             rq_contentType := rq_contentType r OR 2\<rparr>)"

definition initCookies :: "HttpRequest \<Rightarrow> HttpRequest" where
  "initCookies r =
     (if rq_contentType r AND 4 \<noteq> 0 then r
      else
        let str = getHeader ''cookie'' [] r
        in if str = [] then r\<lparr>rq_contentType := rq_contentType r OR 4\<rparr>
           else r\<lparr>rq_cookies := snd (kvParser str (rq_cookies r) CHR '';''),
                  rq_contentType := rq_contentType r OR 4\<rparr>)"

definition initParam :: "HttpRequest \<Rightarrow> HttpRequest" where
  "initParam r = initCookies (initBodyParam (initQueryParam r))"

section \<open>Responses\<close>

record HttpResponse =
  rp_status :: HttpStatus
  rp_version :: u8
  rp_close :: bool
  rp_webSocket :: bool
  rp_body :: string
  rp_reason :: string
  rp_headers :: MapType
  rp_cookies :: "string list"

definition HttpResponse_new :: "u8 \<Rightarrow> bool \<Rightarrow> HttpResponse" where
  "HttpResponse_new version close =
     \<lparr>rp_status = OK, rp_version = version, rp_close = close, rp_webSocket = False,
      rp_body = [], rp_reason = [], rp_headers = [], rp_cookies = []\<rparr>"

definition getResponse :: "HttpRequest \<Rightarrow> HttpResponse" where
  "getResponse r = HttpResponse_new (rq_version r) (rq_close r)"

definition rp_getStatus :: "HttpResponse \<Rightarrow> HttpStatus" where
  "rp_getStatus p = (if rp_status p = CONNECTION_ESTABLISHED then OK else rp_status p)"

definition rp_setStatus :: "HttpStatus \<Rightarrow> HttpResponse \<Rightarrow> HttpResponse" where
  "rp_setStatus status p = p\<lparr>rp_status := status\<rparr>"

definition rp_setBody :: "string \<Rightarrow> HttpResponse \<Rightarrow> HttpResponse" where
  "rp_setBody body p = p\<lparr>rp_body := body\<rparr>"

definition rp_getHeader :: "string \<Rightarrow> string \<Rightarrow> HttpResponse \<Rightarrow> string" where
  "rp_getHeader key dft p = get_or (rp_headers p) key dft"

definition rp_setHeader :: "string \<Rightarrow> string \<Rightarrow> HttpResponse \<Rightarrow> HttpResponse" where
  "rp_setHeader key val p = p\<lparr>rp_headers := om_assign CaseInsensitiveLesser key val (rp_headers p)\<rparr>"

definition rp_delHeader :: "string \<Rightarrow> HttpResponse \<Rightarrow> HttpResponse" where
  "rp_delHeader key p = p\<lparr>rp_headers := om_erase CaseInsensitiveLesser key (rp_headers p)\<rparr>"

definition rp_hasHeader :: "string \<Rightarrow> string option \<Rightarrow> HttpResponse \<Rightarrow> bool \<times> string option" where
  "rp_hasHeader key val p = has_in (rp_headers p) key val"

definition rp_setCookie ::
  "(int \<Rightarrow> string) \<Rightarrow> string \<Rightarrow> string \<Rightarrow> int \<Rightarrow> string \<Rightarrow> string \<Rightarrow> bool \<Rightarrow> HttpResponse \<Rightarrow> HttpResponse" where
  "rp_setCookie time2Str key val expired path domain secure p =
     p\<lparr>rp_cookies := rp_cookies p @
        [key @ ''='' @ val @
         (if 0 < expired then '';expires='' @ time2Str expired @ '' GMT'' else []) @
         (if domain \<noteq> [] then '';domain='' @ domain else []) @
         (if path \<noteq> [] then '';path='' @ path else []) @
         (if secure then '';secure'' else [])]\<rparr>"

section \<open>The text of a message\<close>

abbreviation crlf :: string where
  "crlf \<equiv> [CHR 0x0D, CHR 0x0A]"

definition version_text :: "u8 \<Rightarrow> string" where
  "version_text v = ''HTTP/'' @ dec (unat v div 10) @ ''.'' @ dec (unat v mod 10)"

definition header_lines :: "bool \<Rightarrow> MapType \<Rightarrow> string" where
  "header_lines webSocket hs =
     concat (map (\<lambda>(k, v). k @ '': '' @ v @ crlf)
       (filter (\<lambda>(k, v). \<not> (\<not> webSocket \<and> strcasecmp k ''connection'' = 0)) hs))"

definition rq_dump :: "HttpRequest \<Rightarrow> string" where
  "rq_dump r =
     the (httpMethodToString (method_num (rq_method r))) @ '' '' @
     (if rq_method r = CONNECT then rq_scheme r @ '':'' @ rq_path r
      else (if rq_scheme r = [] then [] else rq_scheme r @ ''://'') @ rq_path r @
           (if rq_query r = [] then [] else ''?'') @ rq_query r @
           (if rq_fragment r = [] then [] else ''#'') @ rq_fragment r) @
     '' '' @ version_text (rq_version r) @ crlf @
     header_lines (rq_webSocket r) (rq_headers r) @
     (if \<not> rq_webSocket r then ''Connection: '' @ (if rq_close r then ''close'' else ''keep-alive'') @ crlf else []) @
     (if rq_body r \<noteq> [] then ''Content-length :'' @ dec (length (rq_body r)) @ crlf @ crlf @ rq_body r
      else crlf)"

definition rp_dump :: "HttpResponse \<Rightarrow> string" where
  "rp_dump p =
     version_text (rp_version p) @ '' '' @ dec (status_num (rp_status p)) @ '' '' @
     (if rp_reason p = [] then httpStatusToString (rp_status p) else rp_reason p) @ crlf @
     header_lines (rp_webSocket p) (rp_headers p) @
     concat (map (\<lambda>i. ''Set-Cookie: '' @ i @ crlf) (rp_cookies p)) @
     (if \<not> rp_webSocket p then ''connection: '' @ (if rp_close p then ''close'' else ''keep-alive'') @ crlf else []) @
     (if rp_body p \<noteq> [] then ''content-lentgh: '' @ dec (length (rp_body p)) @ crlf @ crlf @ rp_body p
      else crlf)"

end
