(* ===== verification/Http_Props.thy ===== *)
theory Http_Props
  imports Http
begin

text \<open>
  Properties of requests and responses: the laws of the case-insensitive maps, the round trip
  of form parameters through \<open>urlEncode\<close> and \<open>kvParser\<close>, and the once-only initialisation of
  the parameter maps.
\<close>

section \<open>Header, parameter and cookie maps\<close>

text \<open>The representation invariant of the maps: strictly increasing keys.\<close>

definition map_ok :: "MapType \<Rightarrow> bool" where
  "map_ok m \<longleftrightarrow> sorted_wrt (\<lambda>p q. CaseInsensitiveLesser (fst p) (fst q)) m"

lemma ci_map_laws:
  assumes "map_ok m"
  shows "om_find CaseInsensitiveLesser k' (om_assign CaseInsensitiveLesser k v m) =
      (if strcasecmp k k' = 0 then Some v else om_find CaseInsensitiveLesser k' m)"
    "om_find CaseInsensitiveLesser k' (om_erase CaseInsensitiveLesser k m) =
      (if strcasecmp k k' = 0 then None else om_find CaseInsensitiveLesser k' m)"
  using ci.om_find_assign [OF assms [unfolded map_ok_def]] ci.om_find_erase [OF assms [unfolded map_ok_def]]
  by (simp_all add: ci_same)

lemma map_ok_assign: "map_ok m \<Longrightarrow> map_ok (om_assign CaseInsensitiveLesser k v m)"
  unfolding map_ok_def by (rule ci.sorted_om_assign)

lemma om_erase_subset: "set (om_erase lt k m) \<subseteq> set m"
  by (induction lt k m rule: om_erase.induct) auto

lemma map_ok_erase: "map_ok m \<Longrightarrow> map_ok (om_erase CaseInsensitiveLesser k m)"
proof (induction m)
  case (Cons p m)
  then show ?case
    using om_erase_subset [of CaseInsensitiveLesser k m] by (cases p) (auto simp: map_ok_def)
qed (simp add: map_ok_def)

text \<open>
  The headers of a request form a case-insensitive map: after \<open>setHeader\<close> a look-up under
  any spelling of the key gives the new value and every other key what it gave before; after
  \<open>delHeader\<close> it gives the default; both keep the order of the map. The same holds for the
  headers of a response. \<open>hasHeader\<close> finds the value but answers false even then.
\<close>

theorem header_map_laws:
  assumes "map_ok (rq_headers r)" "map_ok (rp_headers p)"
  shows "map_ok (rq_headers (setHeader k v r)) \<and> map_ok (rq_headers (delHeader k r)) \<and>
    getHeader k' d (setHeader k v r) = (if strcasecmp k k' = 0 then v else getHeader k' d r) \<and>
    getHeader k' d (delHeader k r) = (if strcasecmp k k' = 0 then d else getHeader k' d r) \<and>
    rp_getHeader k' d (rp_setHeader k v p) = (if strcasecmp k k' = 0 then v else rp_getHeader k' d p) \<and>
    rp_getHeader k' d (rp_delHeader k p) = (if strcasecmp k k' = 0 then d else rp_getHeader k' d p) \<and>
    hasHeader k (Some d) (setHeader k v r) = (False, Some v)"
proof -
  have "strcasecmp k k = 0" by (simp add: strcasecmp_0)
  then show ?thesis
    using assms
    by (simp add: setHeader_def delHeader_def getHeader_def rp_setHeader_def rp_delHeader_def
        rp_getHeader_def get_or_def hasHeader_def has_in_def ci_map_laws map_ok_assign map_ok_erase)
qed

theorem header_map_laws_witness:
  "getHeader ''HOST'' [] (setHeader ''Host'' ''a'' (HttpRequest_new 11 True)) = ''a''"
proof -
  have "strcasecmp ''Host'' ''HOST'' = 0" by code_simp
  then show ?thesis
    using header_map_laws [of "HttpRequest_new 11 True" "HttpResponse_new 11 True" "''Host''" "''a''" "''HOST''" "[]"]
    by (simp add: map_ok_def HttpRequest_new_def HttpResponse_new_def)
qed

section \<open>Form parameters\<close>

text \<open>A list of pairs as text, with the values encoded.\<close>

definition url_text :: "string \<Rightarrow> string" where
  "url_text v = (case urlEncode False v of Inl _ \<Rightarrow> [] | Inr e \<Rightarrow> e)"

fun kv_text :: "char \<Rightarrow> (string \<times> string) list \<Rightarrow> string" where
  "kv_text delim [] = []"
| "kv_text delim [(k, v)] = k @ ''='' @ url_text v"
| "kv_text delim ((k, v) # kvs) = k @ ''='' @ url_text v @ [delim] @ kv_text delim kvs"

definition kv_char :: "char \<Rightarrow> char \<Rightarrow> bool" where
  "kv_char delim c \<longleftrightarrow> \<not> isspace c \<and> c \<noteq> delim \<and> c \<noteq> CHR ''=''"

definition kv_pair_ok :: "char \<Rightarrow> string \<times> string \<Rightarrow> bool" where
  "kv_pair_ok delim p \<longleftrightarrow> list_all (kv_char delim) (fst p) \<and> list_all (\<lambda>c. code c < 128) (snd p)"

lemma kv_char_encoded:
  assumes "uri_valid c \<or> c = CHR ''%'' \<or> isHex c" "delim = CHR ''&'' \<or> delim = CHR '';''"
  shows "kv_char delim c"
proof -
  have "\<not> (uri_valid c \<or> c = CHR ''%'' \<or> isHex c)"
    if "c = CHR ''='' \<or> c = CHR ''&'' \<or> c = CHR '';'' \<or> c = CHR '' ''"
    using that by (auto simp: uri_valid_def isHex_def)
  moreover have "\<not> (9 \<le> code c \<and> code c \<le> 13)"
    using assms(1) by (auto simp: uri_valid_def isHex_def)
  ultimately show ?thesis using assms by (auto simp: kv_char_def isspace_def)
qed

lemma urlEncode_chars:
  "urlEncode False v = Inr e \<Longrightarrow> list_all (\<lambda>c. uri_valid c \<or> c = CHR ''%'' \<or> isHex c) e"
proof (induction v arbitrary: e)
  case (Cons c v)
  then have "isHex (hexStr (code c div 16)) \<and> isHex (hexStr (code c mod 16))" if "code c < 128"
    using that by (simp add: hexStr_hex code_split)
  then show ?case
    using Cons by (auto split: if_splits sum.splits)
qed simp

lemma url_text_props:
  assumes "list_all (\<lambda>c. code c < 128) v" "delim = CHR ''&'' \<or> delim = CHR '';''"
  shows "urlDecode True (url_text v) = v" "list_all (kv_char delim) (url_text v)"
proof -
  obtain e where e: "urlEncode False v = Inr e" "urlDecode True e = v"
    using urlDecode_urlEncode [of v False True] assms(1) by (auto simp: list_all_iff)
  then show "urlDecode True (url_text v) = v" by (simp add: url_text_def)
  show "list_all (kv_char delim) (url_text v)"
    using urlEncode_chars [OF e(1)] kv_char_encoded [OF _ assms(2)] e(1)
    by (auto simp: list_all_iff url_text_def)
qed

lemma kv_loop_plain:
  assumes "list_all (kv_char delim) xs"
  shows "kv_loop delim (xs @ cs) False k v mp = kv_loop delim cs False (k @ xs) v mp"
    "kv_loop delim (xs @ cs) True k v mp = kv_loop delim cs True k (v @ xs) mp"
  using assms by (induction xs arbitrary: k v) (auto simp: kv_char_def)

lemma kv_loop_pair:
  assumes "kv_pair_ok delim (k, v)" "delim = CHR ''&'' \<or> delim = CHR '';''"
  shows "kv_loop delim (k @ ''='' @ url_text v @ cs) False [] [] mp = kv_loop delim cs True k (url_text v) mp"
proof -
  have "\<not> isspace CHR ''=''" "CHR ''='' \<noteq> delim" using assms(2) by (auto simp: isspace_def)
  then show ?thesis
    using assms kv_loop_plain [of delim k] kv_loop_plain [OF url_text_props(2) [of v delim]]
    by (simp add: kv_pair_ok_def)
qed

lemma kv_loop_text:
  "delim = CHR ''&'' \<or> delim = CHR '';'' \<Longrightarrow> list_all (kv_pair_ok delim) kvs \<Longrightarrow> kvs \<noteq> [] \<Longrightarrow>
    kv_loop delim (kv_text delim kvs) False [] [] mp =
      (True, fst (last kvs), url_text (snd (last kvs)),
       fold (\<lambda>(k, v). om_assign CaseInsensitiveLesser k v) (butlast kvs) mp)"
proof (induction delim kvs arbitrary: mp rule: kv_text.induct)
  case (2 delim k v)
  then show ?case using kv_loop_pair [of delim k v "[]" mp] by simp
next
  case (3 delim k v p kvs)
  have "\<not> isspace delim" using 3 by (auto simp: isspace_def)
  then have "kv_loop delim (kv_text delim ((k, v) # p # kvs)) False [] [] mp =
      kv_loop delim (kv_text delim (p # kvs)) False [] [] (om_assign CaseInsensitiveLesser k v mp)"
    using 3 kv_loop_pair [of delim k v "delim # kv_text delim (p # kvs)" mp]
    by (simp add: url_text_props(1) kv_pair_ok_def)
  then show ?case using 3 by simp
qed simp

lemma kvParser_text:
  assumes "delim = CHR ''&'' \<or> delim = CHR '';''" "list_all (kv_pair_ok delim) kvs" "kvs \<noteq> []"
  shows "kvParser (kv_text delim kvs) mp delim =
    (True, fold (\<lambda>(k, v). om_assign CaseInsensitiveLesser k v) kvs mp)"
proof -
  obtain k v where l: "last kvs = (k, v)" by fastforce
  have ok: "kv_pair_ok delim (k, v)" using assms(2,3) l last_in_set [of kvs] by (auto simp: list_all_iff)
  have "kvs = butlast kvs @ [(k, v)]" using assms(3) l by (metis append_butlast_last_id)
  then have f: "fold (\<lambda>(k, v). om_assign CaseInsensitiveLesser k v) kvs mp =
      om_assign CaseInsensitiveLesser k v (fold (\<lambda>(k, v). om_assign CaseInsensitiveLesser k v) (butlast kvs) mp)"
    by (metis (no_types, lifting) case_prod_conv comp_apply fold.simps fold_append id_apply)
  have "kv_text delim kvs \<noteq> []" using assms(3) by (cases "(delim, kvs)" rule: kv_text.cases) simp_all
  then show ?thesis
    using kv_loop_text [OF assms(1-3), of mp] l f ok assms(1)
    by (simp add: kvParser_def url_text_props(1) kv_pair_ok_def)
qed

text \<open>
  Form parameters survive their text form: a query built from pairs of a plain key (no
  space, delimiter or equals sign) and an arbitrary seven-bit value, encoded without the plus
  option, gives back every value under its key, when no two keys agree up to case. Reading
  the parameters a second time changes nothing.
\<close>

theorem query_params_round_trip:
  assumes "rq_query r = kv_text CHR ''&'' kvs" "kvs \<noteq> []" "list_all (kv_pair_ok CHR ''&'') kvs"
    and "sorted_wrt (\<lambda>p q. strcasecmp (fst p) (fst q) \<noteq> 0) kvs"
    and "map_ok (rq_params r)" "rq_contentType r AND 1 = 0" "(k, v) \<in> set kvs"
  shows "getParam k d (initQueryParam r) = v \<and> map_ok (rq_params (initQueryParam r)) \<and>
    initQueryParam (initQueryParam r) = initQueryParam r"
proof -
  have p: "rq_params (initQueryParam r) = fold (\<lambda>(k, v). om_assign CaseInsensitiveLesser k v) kvs (rq_params r)"
    using assms(1,6) kvParser_text [OF _ assms(3,2)] by (simp add: initQueryParam_def)
  have "(rq_contentType r OR 1) AND 1 = 1" by (intro bit_word_eqI) (auto simp: bit_and_iff bit_or_iff)
  then have "initQueryParam (initQueryParam r) = initQueryParam r"
    using assms(6) by (simp add: initQueryParam_def)
  moreover have "map_ok (rq_params (initQueryParam r))"
    using assms(5) unfolding p map_ok_def by (rule ci.sorted_fold_om_assign)
  moreover have "om_find CaseInsensitiveLesser k (rq_params (initQueryParam r)) = Some v"
    unfolding p
    by (rule ci.om_find_fold_assign) (use assms(4,5,7) in \<open>simp_all add: map_ok_def ci_same\<close>)
  ultimately show ?thesis by (simp add: getParam_def get_or_def)
qed

theorem query_params_round_trip_witness:
  "let r = (HttpRequest_new 11 True)\<lparr>rq_query := kv_text CHR ''&'' [(''a'', ''1&2''), (''b'', ''x y'')]\<rparr>
   in getParam ''b'' [] (initQueryParam r) = ''x y''"
proof -
  let ?r = "(HttpRequest_new 11 True)\<lparr>rq_query := kv_text CHR ''&'' [(''a'', ''1&2''), (''b'', ''x y'')]\<rparr>"
  have "strcasecmp ''a'' ''b'' \<noteq> 0" by code_simp
  then show ?thesis
    using query_params_round_trip [of ?r "[(''a'', ''1&2''), (''b'', ''x y'')]" "''b''" "''x y''" "[]"]
    by (simp add: HttpRequest_new_def map_ok_def kv_pair_ok_def kv_char_def isspace_def)
qed

text \<open>
  What the parser does off that path: an equals sign inside a value disappears, a key
  without a value is stored only when a delimiter follows it, and white space is dropped
  everywhere.
\<close>

theorem kvParser_corners:
  "kvParser ''a=b=='' [] CHR '';'' = (True, [(''a'', ''b'')]) \<and>
   kvParser ''a&'' [] CHR ''&'' = (False, [(''a'', [])]) \<and>
   kvParser ''a'' [] CHR ''&'' = (False, []) \<and>
   kvParser ''a = b c'' [] CHR ''&'' = (True, [(''a'', ''bc'')])"
  by (simp add: kvParser_def isspace_def)

text \<open>
  \<open>initParam\<close> reads each source once: a second call changes nothing, whatever the request
  held before, and it sets all three of the bits that record this.
\<close>

theorem initParam_once:
  "initParam (initParam r) = initParam r \<and> rq_contentType (initParam r) AND 7 = 7"
proof -
  let ?c = "rq_contentType r"
  have c: "rq_contentType (initParam r) = ?c OR 7"
  proof -
    have w: "w OR b = w" if "w AND b \<noteq> 0" "b = 1 \<or> b = 2 \<or> b = 4" for w b :: u8
    proof -
      have "b = 2 ^ 0 \<or> b = 2 ^ 1 \<or> b = 2 ^ 2" using that(2) by auto
      then obtain n where n: "b = 2 ^ n" by blast
      have "bit w n"
        using that(1) unfolding n and_exp_eq_0_iff_not_bit by simp
      then show ?thesis
        unfolding n by (intro bit_word_eqI) (auto simp: bit_or_iff bit_exp_iff)
    qed
    have "rq_contentType (initQueryParam s) = rq_contentType s OR 1" for s
      using w [of "rq_contentType s" 1] by (simp add: initQueryParam_def)
    moreover have "rq_contentType (initBodyParam s) = rq_contentType s OR 2" for s
      using w [of "rq_contentType s" 2] by (simp add: initBodyParam_def)
    moreover have "rq_contentType (initCookies s) = rq_contentType s OR 4" for s
      using w [of "rq_contentType s" 4] by (simp add: initCookies_def Let_def)
    ultimately show ?thesis by (simp add: initParam_def or.assoc)
  qed
  have b: "(w OR 7) AND 7 = 7" "(w OR 7) AND 1 = 1" "(w OR 7) AND 2 = 2" "(w OR 7) AND 4 = 4" for w :: u8
    by (simp_all add: bit.conj_disj_distrib2)
  have "initQueryParam (initParam r) = initParam r" "initBodyParam (initParam r) = initParam r"
    "initCookies (initParam r) = initParam r"
    by (simp_all add: initQueryParam_def initBodyParam_def initCookies_def c b)
  then show ?thesis using b(1) c by (simp add: initParam_def [of "initParam r"])
qed

end
