(* ===== verification/Servlet.thy ===== *)
theory Servlet
  imports Http_Props
begin

text \<open>
  Servlets and their dispatch (\<open>src/src/http/Servlet.hpp\<close>, \<open>Servlet.cpp\<close>). A servlet object is
  its \<open>handle\<close> method: it takes a request, a response and the state of the session and returns
  its result code, the response and the session. A shared pointer to a servlet is an option,
  \<open>None\<close> for a null pointer. The C function \<open>fnmatch\<close> is the parameter \<open>fnm\<close>, true for a match.
  The locale \<open>uri_registry\<close> is the contract that the exact and the glob table share.
\<close>

section \<open>Servlets\<close>

type_synonym 's servlet = "HttpRequest \<Rightarrow> HttpResponse \<Rightarrow> 's \<Rightarrow> int \<times> HttpResponse \<times> 's"

type_synonym 's servlet_ptr = "'s servlet option"

datatype sv_error = NullServlet

definition error_page :: "string \<Rightarrow> string \<Rightarrow> string" where
  "error_page title name =
     ''<html><head><title>'' @ title @ ''</title></head><body><center><h1>'' @ title @
     ''</h1></center><hr><center>'' @ name @ ''</center></body></html>''"

definition NotFoundServlet :: "string \<Rightarrow> 's servlet" where
  "NotFoundServlet name req resp session =
     (0, rp_setBody (error_page ''404 Not Found'' name)
           (rp_setHeader ''Content-Type'' ''text/html''
             (rp_setHeader ''Server'' ''HttpServer/1.0.0'' (rp_setStatus NOT_FOUND resp))), session)"

definition MethodNotAllowedServlet :: "string \<Rightarrow> 's servlet" where
  "MethodNotAllowedServlet name req resp session =
     (0, rp_setBody (error_page ''405 Method Not Allowed'' name)
           (rp_setHeader ''Content-Type'' ''text/html''
             (rp_setHeader ''Server'' ''HttpServer/1.0.0'' (rp_setStatus METHOD_NOT_ALLOWED resp))), session)"

text \<open>A callback gets the response pointer by value, so it can change the response but not replace it.\<close>

definition FunctionServlet :: "'s servlet \<Rightarrow> 's servlet" where
  "FunctionServlet cb req resp session = cb req resp session"

section \<open>Dispatch on the method\<close>

record 's MethodServlet =
  ms_servlets :: "(nat \<times> 's servlet_ptr) list"
  ms_dft :: "'s servlet_ptr"

definition MethodServlet_new :: "'s MethodServlet" where
  "MethodServlet_new =
     \<lparr>ms_servlets = [], ms_dft = Some (MethodNotAllowedServlet ''HttpServer/1.0.0'')\<rparr>"

definition ms_addServlet :: "HttpMethod \<Rightarrow> 's servlet_ptr \<Rightarrow> 's MethodServlet \<Rightarrow> 's MethodServlet" where
  "ms_addServlet method slt m =
     m\<lparr>ms_servlets := om_assign (<) (method_num method) slt (ms_servlets m)\<rparr>"

definition setDefault :: "'s servlet_ptr \<Rightarrow> 's MethodServlet \<Rightarrow> 's MethodServlet" where
  "setDefault slt m = m\<lparr>ms_dft := slt\<rparr>"

definition call_servlet ::
  "'s servlet_ptr \<Rightarrow> HttpRequest \<Rightarrow> HttpResponse \<Rightarrow> 's \<Rightarrow> sv_error + int \<times> HttpResponse \<times> 's" where
  "call_servlet slt req resp session =
     (case slt of None \<Rightarrow> Inl NullServlet | Some h \<Rightarrow> Inr (h req resp session))"

definition ms_handle ::
  "'s MethodServlet \<Rightarrow> HttpRequest \<Rightarrow> HttpResponse \<Rightarrow> 's \<Rightarrow> sv_error + int \<times> HttpResponse \<times> 's" where
  "ms_handle m req resp session =
     (case om_find (<) (method_num (rq_method req)) (ms_servlets m) of
        None \<Rightarrow> call_servlet (ms_dft m) req resp session
      | Some slt \<Rightarrow> call_servlet slt req resp session)"

section \<open>Dispatch on the path\<close>

record 's ServletDispatch =
  m_datas :: "string \<rightharpoonup> 's servlet_ptr"
  m_globs :: "(string \<times> 's servlet_ptr) list"
  m_dft :: "'s servlet_ptr"

definition ServletDispatch_new :: "'s servlet_ptr \<Rightarrow> 's ServletDispatch" where
  "ServletDispatch_new dft =
     \<lparr>m_datas = Map.empty, m_globs = [],
      m_dft = (if dft = None then Some (NotFoundServlet ''httpServer/1.0.0'') else dft)\<rparr>"

definition addServlet :: "string \<Rightarrow> 's servlet_ptr \<Rightarrow> 's ServletDispatch \<Rightarrow> 's ServletDispatch" where
  "addServlet uri slt d = d\<lparr>m_datas := (m_datas d)(uri \<mapsto> slt)\<rparr>"

definition addServlet_cb :: "string \<Rightarrow> 's servlet \<Rightarrow> 's ServletDispatch \<Rightarrow> 's ServletDispatch" where
  "addServlet_cb uri cb d = d\<lparr>m_datas := (m_datas d)(uri \<mapsto> Some (FunctionServlet cb))\<rparr>"

text \<open>The loop that erases the first entry of a pattern.\<close>

fun glob_erase :: "string \<Rightarrow> (string \<times> 's servlet_ptr) list \<Rightarrow> (string \<times> 's servlet_ptr) list" where
  "glob_erase uri [] = []"
| "glob_erase uri ((u, slt) # gs) = (if u = uri then gs else (u, slt) # glob_erase uri gs)"

definition addGlobServlet :: "string \<Rightarrow> 's servlet_ptr \<Rightarrow> 's ServletDispatch \<Rightarrow> 's ServletDispatch" where
  "addGlobServlet uri slt d = d\<lparr>m_globs := glob_erase uri (m_globs d) @ [(uri, slt)]\<rparr>"

definition addGlobServlet_cb :: "string \<Rightarrow> 's servlet \<Rightarrow> 's ServletDispatch \<Rightarrow> 's ServletDispatch" where
  "addGlobServlet_cb uri cb d = addGlobServlet uri (Some (FunctionServlet cb)) d"

definition delServlet :: "string \<Rightarrow> 's ServletDispatch \<Rightarrow> 's ServletDispatch" where
  "delServlet uri d = d\<lparr>m_datas := (m_datas d)(uri := None)\<rparr>"

definition delGlobServlet :: "string \<Rightarrow> 's ServletDispatch \<Rightarrow> 's ServletDispatch" where
  "delGlobServlet uri d = d\<lparr>m_globs := glob_erase uri (m_globs d)\<rparr>"

definition getServlet :: "string \<Rightarrow> 's ServletDispatch \<Rightarrow> 's servlet_ptr" where
  "getServlet uri d = (case m_datas d uri of None \<Rightarrow> None | Some slt \<Rightarrow> slt)"

definition getGlobServlet :: "string \<Rightarrow> 's ServletDispatch \<Rightarrow> 's servlet_ptr" where
  "getGlobServlet uri d =
     (case find (\<lambda>(u, slt). u = uri) (m_globs d) of None \<Rightarrow> None | Some (u, slt) \<Rightarrow> slt)"

definition listAllGlobServlet :: "'s ServletDispatch \<Rightarrow> (string \<times> 's servlet_ptr) list" where
  "listAllGlobServlet d = m_globs d"

definition getMatchServlet :: "(string \<Rightarrow> string \<Rightarrow> bool) \<Rightarrow> string \<Rightarrow> 's ServletDispatch \<Rightarrow> 's servlet_ptr" where
  "getMatchServlet fnm uri d =
     (case m_datas d uri of
        Some slt \<Rightarrow> slt
      | None \<Rightarrow>
          (case find (\<lambda>(u, slt). fnm (cstr u) (cstr uri)) (m_globs d) of
             Some (u, slt) \<Rightarrow> slt
           | None \<Rightarrow> m_dft d))"

definition sd_handle ::
  "(string \<Rightarrow> string \<Rightarrow> bool) \<Rightarrow> 's ServletDispatch \<Rightarrow> 's servlet" where
  "sd_handle fnm d req resp session =
     (case getMatchServlet fnm (rq_path req) d of
        None \<Rightarrow> (0, resp, session)
      | Some h \<Rightarrow> (case h req resp session of (_, resp', session') \<Rightarrow> (0, resp', session')))"

section \<open>Registries\<close>

text \<open>
  What the two tables promise: a look-up sees the last registration of its name, and nothing
  after a removal.
\<close>

datatype 's reg_op = Reg string "'s servlet_ptr" | Unreg string

locale uri_registry =
  fixes reg_inv :: "'d \<Rightarrow> bool"
    and reg_find :: "string \<Rightarrow> 'd \<Rightarrow> 's servlet_ptr"
    and reg_add :: "string \<Rightarrow> 's servlet_ptr \<Rightarrow> 'd \<Rightarrow> 'd"
    and reg_del :: "string \<Rightarrow> 'd \<Rightarrow> 'd"
  assumes inv_add: "reg_inv d \<Longrightarrow> reg_inv (reg_add u s d)"
    and inv_del: "reg_inv d \<Longrightarrow> reg_inv (reg_del u d)"
    and find_add: "reg_inv d \<Longrightarrow> reg_find v (reg_add u s d) = (if v = u then s else reg_find v d)"
    and find_del: "reg_inv d \<Longrightarrow> reg_find v (reg_del u d) = (if v = u then None else reg_find v d)"
begin

definition apply_op :: "'s reg_op \<Rightarrow> 'd \<Rightarrow> 'd" where
  "apply_op p d = (case p of Reg u s \<Rightarrow> reg_add u s d | Unreg u \<Rightarrow> reg_del u d)"

lemma inv_ops: "reg_inv d \<Longrightarrow> reg_inv (fold apply_op ops d)"
  by (induction ops arbitrary: d) (auto simp: apply_op_def inv_add inv_del split: reg_op.splits)

end

text \<open>What the last operation on a name in a list of operations says, or \<open>s0\<close>.\<close>

fun last_reg :: "string \<Rightarrow> 's servlet_ptr \<Rightarrow> 's reg_op list \<Rightarrow> 's servlet_ptr" where
  "last_reg v s0 [] = s0"
| "last_reg v s0 (Reg u s # ops) = last_reg v (if v = u then s else s0) ops"
| "last_reg v s0 (Unreg u # ops) = last_reg v (if v = u then None else s0) ops"

context uri_registry
begin

lemma find_ops: "reg_inv d \<Longrightarrow> reg_find v (fold apply_op ops d) = last_reg v (reg_find v d) ops"
proof (induction ops arbitrary: d)
  case (Cons p ops)
  then show ?case
    by (cases p) (simp_all add: apply_op_def inv_add inv_del find_add find_del)
qed simp

end

interpretation exact: uri_registry "\<lambda>_. True" getServlet addServlet delServlet
  by unfold_locales (auto simp: getServlet_def addServlet_def delServlet_def)

text \<open>The glob table holds each pattern once.\<close>

definition globs_ok :: "'s ServletDispatch \<Rightarrow> bool" where
  "globs_ok d \<longleftrightarrow> distinct (map fst (m_globs d))"

lemma glob_erase_filter: "distinct (map fst gs) \<Longrightarrow> glob_erase uri gs = filter (\<lambda>p. fst p \<noteq> uri) gs"
proof (induction gs)
  case (Cons p gs)
  then show ?case by (cases p) (force intro!: filter_True [symmetric])
qed simp

lemma find_filter_other:
  "v \<noteq> u \<Longrightarrow> find (\<lambda>(w, slt). w = v) (filter (\<lambda>p. fst p \<noteq> u) gs) = find (\<lambda>(w, slt). w = v) gs"
  by (induction gs) auto

lemma find_filter_same: "find (\<lambda>(w, slt). w = u) (filter (\<lambda>p. fst p \<noteq> u) gs) = None"
  by (auto simp: find_None_iff)

lemma find_append: "find P (xs @ ys) = (case find P xs of None \<Rightarrow> find P ys | Some x \<Rightarrow> Some x)"
  by (induction xs) auto

lemmas glob_defs = getGlobServlet_def addGlobServlet_def delGlobServlet_def globs_ok_def

interpretation glob: uri_registry globs_ok getGlobServlet addGlobServlet delGlobServlet
proof (unfold_locales, goal_cases)
  case (1 d u s)
  then show ?case by (auto simp: glob_defs glob_erase_filter distinct_map_filter)
next
  case (2 d u)
  then show ?case by (simp add: glob_defs glob_erase_filter distinct_map_filter)
next
  case (3 d v u s)
  then show ?case
    by (simp add: glob_defs glob_erase_filter find_append find_filter_other find_filter_same split: option.split)
next
  case (4 d v u)
  then show ?case by (simp add: glob_defs glob_erase_filter find_filter_other find_filter_same)
qed

section \<open>Properties\<close>

text \<open>
  After any sequence of registrations and removals on a new dispatcher, each of the two
  tables answers a look-up with what the last operation on that name said: the servlet it
  registered, or a null pointer. The glob table never holds a pattern twice.
\<close>

theorem servlet_registry_last_wins:
  "getServlet u (fold (\<lambda>p. case p of Reg v s \<Rightarrow> addServlet v s | Unreg v \<Rightarrow> delServlet v) ops
     (ServletDispatch_new dft)) = last_reg u None ops \<and>
   getGlobServlet u (fold (\<lambda>p. case p of Reg v s \<Rightarrow> addGlobServlet v s | Unreg v \<Rightarrow> delGlobServlet v) ops
     (ServletDispatch_new dft)) = last_reg u None ops \<and>
   globs_ok (fold (\<lambda>p. case p of Reg v s \<Rightarrow> addGlobServlet v s | Unreg v \<Rightarrow> delGlobServlet v) ops
     (ServletDispatch_new dft))"
proof -
  have e: "(\<lambda>p. case p of Reg v s \<Rightarrow> addServlet v s | Unreg v \<Rightarrow> delServlet v) = exact.apply_op"
    by (intro ext) (simp add: exact.apply_op_def split: reg_op.split)
  have g: "(\<lambda>p. case p of Reg v s \<Rightarrow> addGlobServlet v s | Unreg v \<Rightarrow> delGlobServlet v) = glob.apply_op"
    by (intro ext) (simp add: glob.apply_op_def split: reg_op.split)
  have "globs_ok (ServletDispatch_new dft)" "getGlobServlet u (ServletDispatch_new dft) = None"
    "getServlet u (ServletDispatch_new dft) = None"
    by (simp_all add: glob_defs getServlet_def ServletDispatch_new_def)
  then show ?thesis unfolding e g by (simp add: exact.find_ops glob.find_ops glob.inv_ops)
qed

text \<open>
  Registering a pattern gives it the lowest priority among the patterns, also when it was
  registered before: a path with an exact servlet, or matched by another pattern, is served as
  it would be without the new registration; otherwise a path the pattern matches gets the new
  servlet, and every other path the default, which is never null.
\<close>

theorem glob_registration_priority:
  assumes "globs_ok d"
  shows "getMatchServlet fnm uri (addGlobServlet g s d) =
      (if m_datas d uri \<noteq> None \<or>
          (\<exists>p \<in> set (m_globs d). fst p \<noteq> g \<and> fnm (cstr (fst p)) (cstr uri))
       then getMatchServlet fnm uri (delGlobServlet g d)
       else if fnm (cstr g) (cstr uri) then s else m_dft d) \<and>
    m_dft (ServletDispatch_new dft) \<noteq> None"
proof -
  let ?gs = "filter (\<lambda>p. fst p \<noteq> g) (m_globs d)"
  let ?P = "\<lambda>(u, slt). fnm (cstr u) (cstr uri)"
  have f: "glob_erase g (m_globs d) = ?gs" using assms by (simp add: globs_ok_def glob_erase_filter)
  have n: "find ?P ?gs = None \<longleftrightarrow> \<not> (\<exists>p \<in> set (m_globs d). fst p \<noteq> g \<and> fnm (cstr (fst p)) (cstr uri))"
    by (fastforce simp: find_None_iff)
  have "m_dft (ServletDispatch_new dft) \<noteq> None" by (simp add: ServletDispatch_new_def)
  then show ?thesis
    using n by (auto simp: getMatchServlet_def addGlobServlet_def delGlobServlet_def f find_append
        split: option.split)
qed

theorem glob_registration_priority_witness:
  "getMatchServlet (=) ''/a'' (addGlobServlet ''/a'' (Some (NotFoundServlet ''x'')) (ServletDispatch_new None))
     = Some (NotFoundServlet ''x'' :: nat servlet)"
  using glob_registration_priority [of "ServletDispatch_new None :: nat ServletDispatch" "(=)" "''/a''" "''/a''"
      "Some (NotFoundServlet ''x'')" None]
  by (simp add: globs_ok_def ServletDispatch_new_def)

interpretation nat_lt: weak_order "(<) :: nat \<Rightarrow> nat \<Rightarrow> bool"
  by unfold_locales auto

text \<open>
  A method servlet: registering for a method changes the handling of that method only, and a
  method without a servlet is answered with status 405.
\<close>

theorem method_dispatch:
  assumes "sorted_wrt (\<lambda>p q. fst p < fst q) (ms_servlets m)"
  shows "ms_handle (ms_addServlet k (Some h) m) req resp s =
      (if rq_method req = k then Inr (h req resp s) else ms_handle m req resp s) \<and>
    sorted_wrt (\<lambda>p q. fst p < fst q) (ms_servlets (ms_addServlet k (Some h) m)) \<and>
    (\<exists>resp'. ms_handle MethodServlet_new req resp s = Inr (0, resp', s) \<and>
      rp_getStatus resp' = METHOD_NOT_ALLOWED)"
proof -
  have "nat_lt.same (method_num k) (method_num (rq_method req)) \<longleftrightarrow> rq_method req = k"
    using method_num_inj [of "rq_method req" k] unfolding nat_lt.same_def by linarith
  then show ?thesis
    using nat_lt.om_find_assign [OF assms, of "method_num (rq_method req)" "method_num k" "Some h"]
      nat_lt.sorted_om_assign [OF assms, of "method_num k" "Some h"]
    by (simp add: ms_handle_def ms_addServlet_def call_servlet_def MethodServlet_new_def
        MethodNotAllowedServlet_def rp_setBody_def rp_setHeader_def rp_setStatus_def rp_getStatus_def
        split: option.split)
qed

end
