(* ===== verification/Http_Session.thy ===== *)
theory Http_Session
  imports Servlet Stream
begin

text \<open>
  Receiving and sending HTTP messages (\<open>src/src/http/HttpParser.hpp\<close>, \<open>HttpParser.cpp\<close>,
  \<open>HttpSession.cpp\<close>, \<open>HttpConnection.cpp\<close>, \<open>HttpServer.cpp\<close>). The state machines that Ragel
  generates are a parameter: a record of functions that say which callbacks a piece of input
  causes, how much of it is consumed, and whether the machine is finished or in error. The
  stream is the parameter \<open>rd\<close> (its virtual \<open>read\<close>) and \<open>wr\<close>.

  The receiving buffer is the list of its unparsed characters; it never holds more than the
  header size, and the array behind it has one place more. Loops that wait for input are
  partial functions; \<open>None\<close> means that they run for ever.
\<close>

section \<open>Parser callbacks\<close>

datatype HttpError = HTTP_OK | METHOD_NOT_VALID | STATUS_NOT_VALID | VERSION_NOT_VALID | FIELD_NOT_VALID

text \<open>\<open>strncasecmp\<close>: at most \<open>n\<close> characters are compared.\<close>

definition strncasecmp :: "string \<Rightarrow> string \<Rightarrow> nat \<Rightarrow> int" where
  "strncasecmp l r n = strcasecmp (take n l) (take n r)"

text \<open>What the generated request parser calls, each with the text it points to.\<close>

datatype req_event =
    Ev_method string | Ev_uri string | Ev_scheme string | Ev_path string | Ev_fragment string
  | Ev_query string | Ev_header_done string | Ev_version string | Ev_field string string

record req_parser =
  rqp_data :: HttpRequest
  rqp_error :: HttpError

definition on_request_method :: "string \<Rightarrow> req_parser \<Rightarrow> req_parser" where
  "on_request_method at q =
     (let m = stringToHttpMethod at;
          q1 = (if m = INVALID_METHOD then q\<lparr>rqp_error := METHOD_NOT_VALID\<rparr> else q)
      in q1\<lparr>rqp_data := (rqp_data q1)\<lparr>rq_method := m\<rparr>\<rparr>)"

definition on_request_uri :: "string \<Rightarrow> req_parser \<Rightarrow> req_parser" where
  "on_request_uri at q = q\<lparr>rqp_data := (rqp_data q)\<lparr>rq_uri := at\<rparr>\<rparr>"

definition on_request_scheme :: "string \<Rightarrow> req_parser \<Rightarrow> req_parser" where
  "on_request_scheme at q = q\<lparr>rqp_data := (rqp_data q)\<lparr>rq_scheme := at\<rparr>\<rparr>"

definition on_request_path :: "string \<Rightarrow> req_parser \<Rightarrow> req_parser" where
  "on_request_path at q =
     (let steps = (if 2 \<le> length at \<and> take 2 at = ''//'' then 2 else 0)
      in q\<lparr>rqp_data := (rqp_data q)\<lparr>rq_path := drop steps at\<rparr>\<rparr>)"

definition on_request_fragment :: "string \<Rightarrow> req_parser \<Rightarrow> req_parser" where
  "on_request_fragment at q = q\<lparr>rqp_data := (rqp_data q)\<lparr>rq_fragment := at\<rparr>\<rparr>"

definition on_request_query :: "string \<Rightarrow> req_parser \<Rightarrow> req_parser" where
  "on_request_query at q = q\<lparr>rqp_data := (rqp_data q)\<lparr>rq_query := at\<rparr>\<rparr>"

definition on_request_header_done :: "string \<Rightarrow> req_parser \<Rightarrow> req_parser" where
  "on_request_header_done at q = q"

definition on_request_version :: "string \<Rightarrow> req_parser \<Rightarrow> req_parser" where
  "on_request_version at q =
     (if strncasecmp ''HTTP/1.1'' at (length at) = 0 then q\<lparr>rqp_data := (rqp_data q)\<lparr>rq_version := 11\<rparr>\<rparr>
      else if strncasecmp ''HTTP/1.0'' at (length at) = 0 then q\<lparr>rqp_data := (rqp_data q)\<lparr>rq_version := 10\<rparr>\<rparr>
      else q\<lparr>rqp_error := VERSION_NOT_VALID\<rparr>)"

definition on_request_http_field :: "string \<Rightarrow> string \<Rightarrow> req_parser \<Rightarrow> req_parser" where
  "on_request_http_field field val q =
     (if field = [] then q else q\<lparr>rqp_data := setHeader field val (rqp_data q)\<rparr>)"

fun req_callback :: "req_event \<Rightarrow> req_parser \<Rightarrow> req_parser" where
  "req_callback (Ev_method at) = on_request_method at"
| "req_callback (Ev_uri at) = on_request_uri at"
| "req_callback (Ev_scheme at) = on_request_scheme at"
| "req_callback (Ev_path at) = on_request_path at"
| "req_callback (Ev_fragment at) = on_request_fragment at"
| "req_callback (Ev_query at) = on_request_query at"
| "req_callback (Ev_header_done at) = on_request_header_done at"
| "req_callback (Ev_version at) = on_request_version at"
| "req_callback (Ev_field field val) = on_request_http_field field val"

definition HttpRequestParser_new :: req_parser where
  "HttpRequestParser_new = \<lparr>rqp_data = HttpRequest_new 11 True, rqp_error = HTTP_OK\<rparr>"

text \<open>
  The response callbacks. The status is the result of \<open>atoi\<close> on the text, cast to the
  enumeration: a number that is no enumerator has no name in it.
\<close>

datatype resp_event =
    Rv_reason string | Rv_status string | Rv_chunk string | Rv_version string
  | Rv_header_done string | Rv_last_chunk string | Rv_field string string

record resp_parser =
  rsp_data :: HttpResponse
  rsp_error :: HttpError

definition on_response_reason :: "string \<Rightarrow> resp_parser \<Rightarrow> resp_parser" where
  "on_response_reason at q = q\<lparr>rsp_data := (rsp_data q)\<lparr>rp_reason := at\<rparr>\<rparr>"

definition on_response_status :: "(nat \<Rightarrow> HttpStatus) \<Rightarrow> (string \<Rightarrow> nat) \<Rightarrow> string \<Rightarrow> resp_parser \<Rightarrow> resp_parser" where
  "on_response_status status_of atoi at q = q\<lparr>rsp_data := rp_setStatus (status_of (atoi at)) (rsp_data q)\<rparr>"

definition on_response_version :: "string \<Rightarrow> resp_parser \<Rightarrow> resp_parser" where
  "on_response_version at q =
     (if strncasecmp at ''HTTP/1.1'' (length at) = 0 then q\<lparr>rsp_data := (rsp_data q)\<lparr>rp_version := 11\<rparr>\<rparr>
      else if strncasecmp at ''HTTP/1.0'' (length at) = 0 then q\<lparr>rsp_data := (rsp_data q)\<lparr>rp_version := 10\<rparr>\<rparr>
      else q\<lparr>rsp_error := VERSION_NOT_VALID\<rparr>)"

definition on_response_http_field :: "string \<Rightarrow> string \<Rightarrow> resp_parser \<Rightarrow> resp_parser" where
  "on_response_http_field field val q =
     (if field = [] then q else q\<lparr>rsp_data := rp_setHeader field val (rsp_data q)\<rparr>)"

fun resp_callback :: "(nat \<Rightarrow> HttpStatus) \<Rightarrow> (string \<Rightarrow> nat) \<Rightarrow> resp_event \<Rightarrow> resp_parser \<Rightarrow> resp_parser" where
  "resp_callback so at (Rv_reason t) = on_response_reason t"
| "resp_callback so at (Rv_status t) = on_response_status so at t"
| "resp_callback so at (Rv_chunk t) = (\<lambda>q. q)"
| "resp_callback so at (Rv_version t) = on_response_version t"
| "resp_callback so at (Rv_header_done t) = (\<lambda>q. q)"
| "resp_callback so at (Rv_last_chunk t) = (\<lambda>q. q)"
| "resp_callback so at (Rv_field f v) = on_response_http_field f v"

definition HttpResponseParser_new :: resp_parser where
  "HttpResponseParser_new = \<lparr>rsp_data = HttpResponse_new 11 True, rsp_error = HTTP_OK\<rparr>"

text \<open>\<open>getContentLength\<close>, read into a signed 64-bit variable by the callers.\<close>

definition rq_contentLength :: "(string \<Rightarrow> u64 option) \<Rightarrow> HttpRequest \<Rightarrow> int" where
  "rq_contentLength cast r = sint (getAs cast (rq_headers r) ''content-length'' 0)"

definition rp_contentLength :: "(string \<Rightarrow> u64 option) \<Rightarrow> HttpResponse \<Rightarrow> int" where
  "rp_contentLength cast p = sint (getAs cast (rp_headers p) ''Content-Length'' 0)"

section \<open>Receiving the head of a message\<close>

record ('p, 'e) machine =
  mc_init :: 'p
  mc_exec :: "'p \<Rightarrow> string \<Rightarrow> 'e list \<times> nat \<times> 'p"
  mc_finished :: "'p \<Rightarrow> bool"
  mc_error :: "'p \<Rightarrow> bool"

abbreviation to_chars :: "u8 list \<Rightarrow> string" where
  "to_chars bs \<equiv> map (\<lambda>b. char_of (unat b)) bs"

abbreviation to_bytes :: "string \<Rightarrow> u8 list" where
  "to_bytes s \<equiv> map (\<lambda>c. of_nat (code c)) s"

text \<open>
  How the loop ends: an array is written at a negative index, the stream is closed and
  nothing is returned, or the head is complete (parser data and characters left over).
\<close>

datatype 'q head_result = OobWrite | Closed | Head 'q string

text \<open>
  What a read of \<open>len\<close> bytes leaves in the buffer. The session writes its terminator at \<open>data[len]\<close>
  before it adds \<open>remain\<close> to \<open>len\<close>; the connection writes it behind the data.
\<close>

definition session_fill :: "string \<Rightarrow> int \<Rightarrow> u8 list \<Rightarrow> string" where
  "session_fill buf len bytes = (buf @ to_chars bytes)[nat len := CHR 0x00]"

definition connection_fill :: "string \<Rightarrow> int \<Rightarrow> u8 list \<Rightarrow> string" where
  "connection_fill buf len bytes = buf @ to_chars bytes"

partial_function (option) recv_head ::
  "('p, 'e, 'm) machine_scheme \<Rightarrow> ('e \<Rightarrow> 'q \<Rightarrow> 'q) \<Rightarrow> ('q \<Rightarrow> bool) \<Rightarrow> ('p \<Rightarrow> 'q \<Rightarrow> 'r) \<Rightarrow> bool \<Rightarrow> (string \<Rightarrow> int \<Rightarrow> u8 list \<Rightarrow> string) \<Rightarrow>
   (nat \<Rightarrow> 's \<Rightarrow> int \<times> u8 list \<times> 's) \<Rightarrow> nat \<Rightarrow> 'p \<Rightarrow> 'q \<Rightarrow> string \<Rightarrow> 's \<Rightarrow> ('r head_result \<times> 's) option" where
  "recv_head mc cb q_error fin early fill rd header_size p q buf s =
     (case rd (header_size - length buf) s of
        (len, bytes, s') \<Rightarrow>
          if early \<and> len < 0 then Some (OobWrite, s')
          else if len \<le> 0 then Some (Closed, s')
          else
            let data = fill buf len bytes
            in case mc_exec mc p data of
                 (evs, nparser, p') \<Rightarrow>
                   let q' = fold cb evs q; rest = drop nparser data
                   in if q_error q' \<or> mc_error mc p' then Some (Closed, s')
                      else if length rest = header_size then Some (Closed, s')
                      else if mc_finished mc p' then Some (Head (fin p' q') rest, s')
                      else recv_head mc cb q_error fin early fill rd header_size p' q' rest s')"

definition session_head ::
  "('p, req_event) machine \<Rightarrow> (nat \<Rightarrow> 's \<Rightarrow> int \<times> u8 list \<times> 's) \<Rightarrow> nat \<Rightarrow> 's \<Rightarrow> (req_parser head_result \<times> 's) option" where
  "session_head mc rd header_size s =
     recv_head mc req_callback (\<lambda>q. rqp_error q \<noteq> HTTP_OK) (\<lambda>p q. q) True session_fill rd header_size
       (mc_init mc) HttpRequestParser_new [] s"

definition connection_head ::
  "(nat \<Rightarrow> HttpStatus) \<Rightarrow> (string \<Rightarrow> nat) \<Rightarrow> ('p, resp_event, 'm) machine_scheme \<Rightarrow>
   (nat \<Rightarrow> 's \<Rightarrow> int \<times> u8 list \<times> 's) \<Rightarrow> nat \<Rightarrow> 's \<Rightarrow> (('p \<times> resp_parser) head_result \<times> 's) option" where
  "connection_head status_of atoi mc rd header_size s =
     recv_head mc (resp_callback status_of atoi) (\<lambda>q. rsp_error q \<noteq> HTTP_OK) Pair False connection_fill rd header_size
       (mc_init mc) HttpResponseParser_new [] s"

section \<open>Receiving the body\<close>

text \<open>
  The body of a known length, from the characters left over and then from the stream; \<open>None\<close>
  in the result when the stream fails. The session subtracts \<open>remain\<close> from the length, the
  connection the number of characters copied; the two agree where it matters.
\<close>

definition recv_body ::
  "(nat \<Rightarrow> 's \<Rightarrow> int \<times> u8 list \<times> 's) \<Rightarrow> int \<Rightarrow> string \<Rightarrow> 's \<Rightarrow> (string option \<times> 's) option" where
  "recv_body rd len0 buf s =
     (let remain = int (length buf);
          body0 = (if remain \<le> len0 then buf else take (nat len0) buf);
          left = len0 - remain
      in if 0 < left
         then case readFixSize rd (nat left) s of
                None \<Rightarrow> None
              | Some (r, bytes, s') \<Rightarrow>
                  (case r of
                     Inl _ \<Rightarrow> Some (None, s')
                   | Inr n \<Rightarrow> if n \<le> 0 then Some (None, s') else Some (Some (body0 @ to_chars bytes), s'))
         else Some (Some body0, s))"

definition recvRequest ::
  "(string \<Rightarrow> u64 option) \<Rightarrow> ('p, req_event) machine \<Rightarrow> (nat \<Rightarrow> 's \<Rightarrow> int \<times> u8 list \<times> 's) \<Rightarrow> nat \<Rightarrow> 's \<Rightarrow>
   (HttpRequest head_result \<times> 's) option" where
  "recvRequest cast mc rd header_size s =
     (case session_head mc rd header_size s of
        None \<Rightarrow> None
      | Some (OobWrite, s1) \<Rightarrow> Some (OobWrite, s1)
      | Some (Closed, s1) \<Rightarrow> Some (Closed, s1)
      | Some (Head q buf, s1) \<Rightarrow>
          let req = rqp_data q; len0 = rq_contentLength cast req
          in if 0 < len0
             then case recv_body rd len0 buf s1 of
                    None \<Rightarrow> None
                  | Some (None, s2) \<Rightarrow> Some (Closed, s2)
                  | Some (Some body, s2) \<Rightarrow> Some (Head (initParam (rq_init (req\<lparr>rq_body := body\<rparr>))) [], s2)
             else Some (Head (initParam (rq_init req)) [], s1))"

text \<open>The branch of \<open>recvResponse\<close> for a response that is not chunked, after its head.\<close>

definition recvResponse_plain ::
  "(string \<Rightarrow> u64 option) \<Rightarrow> (nat \<Rightarrow> 's \<Rightarrow> int \<times> u8 list \<times> 's) \<Rightarrow> resp_parser \<Rightarrow> string \<Rightarrow> 's \<Rightarrow>
   (HttpResponse option \<times> 's) option" where
  "recvResponse_plain cast rd q buf s =
     (let resp = rsp_data q; len0 = rp_contentLength cast resp
      in if 0 < len0
         then case recv_body rd len0 buf s of
                None \<Rightarrow> None
              | Some (None, s') \<Rightarrow> Some (None, s')
              | Some (Some body, s') \<Rightarrow> Some (Some (rp_setBody body resp), s')
         else Some (Some (rp_setBody [] resp), s))"

section \<open>Chunked responses\<close>

text \<open>
  The generated client parser also tells the size of the chunk and whether it was the last.
  The head of each chunk is parsed by a parser that is initialised for every attempt, and more
  input is read only when the buffer is empty.
\<close>

record ('p, 'e) chunk_machine = "('p, 'e) machine" +
  mc_chunked :: "'p \<Rightarrow> bool"
  mc_content_len :: "'p \<Rightarrow> int"
  mc_chunks_done :: "'p \<Rightarrow> bool"

datatype ('p, 'q) chunk_result = ChunkClosed | ChunkHead 'p 'q string

partial_function (option) chunk_head ::
  "('p, resp_event) chunk_machine \<Rightarrow> (resp_event \<Rightarrow> resp_parser \<Rightarrow> resp_parser) \<Rightarrow>
   (nat \<Rightarrow> 's \<Rightarrow> int \<times> u8 list \<times> 's) \<Rightarrow> nat \<Rightarrow> resp_parser \<Rightarrow> string \<Rightarrow> 's \<Rightarrow> (('p, resp_parser) chunk_result \<times> 's) option" where
  "chunk_head mc cb rd header_size q buf s =
     (case (if buf = [] then rd header_size s else (1, [], s)) of
        (rt, bytes, s1) \<Rightarrow>
          if rt \<le> 0 then Some (ChunkClosed, s1)
          else
            let data = buf @ to_chars bytes
            in case mc_exec mc (mc_init mc) data of
                 (evs, nparser, p) \<Rightarrow>
                   let q' = fold cb evs q; rest = drop nparser data
                   in if rsp_error q' \<noteq> HTTP_OK \<or> mc_error mc p then Some (ChunkClosed, s1)
                      else if header_size \<le> length rest then Some (ChunkClosed, s1)
                      else if mc_finished mc p then Some (ChunkHead p q' rest, s1)
                      else chunk_head mc cb rd header_size q' rest s1)"

text \<open>The rest of a chunk that is longer than the buffered data, in pieces of the buffer's size.\<close>

partial_function (option) chunk_fill ::
  "(nat \<Rightarrow> 's \<Rightarrow> int \<times> u8 list \<times> 's) \<Rightarrow> nat \<Rightarrow> nat \<Rightarrow> string \<Rightarrow> 's \<Rightarrow> (string option \<times> 's) option" where
  "chunk_fill rd header_size left body s =
     (if left = 0 then Some (Some body, s)
      else case readFixSize rd (min left header_size) s of
             None \<Rightarrow> None
           | Some (r, bytes, s') \<Rightarrow>
               (case r of
                  Inl _ \<Rightarrow> Some (None, s')
                | Inr rt \<Rightarrow>
                    if rt \<le> 0 then Some (None, s')
                    else chunk_fill rd header_size (left - nat rt) (body @ to_chars bytes) s'))"

text \<open>
  The data of a chunk of \<open>cl\<close> characters and the line end after it: body so far, characters left
  over. The length is an \<open>int\<close> of the parser: adding the two characters of the line end to one of the
  two largest overflows, when it is negative, \<open>append\<close> throws, and \<open>resize\<close> does when the body is
  shorter than a line end.
\<close>

datatype chunk_end = Chunk_overflow | Chunk_lost | Chunk_throws | Chunk_read string string

definition chunk_data ::
  "(nat \<Rightarrow> 's \<Rightarrow> int \<times> u8 list \<times> 's) \<Rightarrow> nat \<Rightarrow> int \<Rightarrow> string \<Rightarrow> string \<Rightarrow> 's \<Rightarrow> (chunk_end \<times> 's) option" where
  "chunk_data rd header_size cl buf body s =
     (if 2 ^ 31 \<le> cl + 2 then Some (Chunk_overflow, s)
      else if cl + 2 \<le> int (length buf)
      then Some (if cl < 0 then Chunk_throws else Chunk_read (body @ take (nat cl) buf) (drop (nat cl + 2) buf), s)
      else
        case chunk_fill rd header_size (nat (cl + 2) - length buf) (body @ buf) s of
          None \<Rightarrow> None
        | Some (None, s') \<Rightarrow> Some (Chunk_lost, s')
        | Some (Some b, s') \<Rightarrow>
            Some (if length b < 2 then Chunk_throws else Chunk_read (take (length b - 2) b) [], s'))"

text \<open>The left summand of a response is the exception, or the overflow, behind which nothing is known.\<close>

partial_function (option) chunk_loop ::
  "('p, resp_event) chunk_machine \<Rightarrow> (resp_event \<Rightarrow> resp_parser \<Rightarrow> resp_parser) \<Rightarrow>
   (nat \<Rightarrow> 's \<Rightarrow> int \<times> u8 list \<times> 's) \<Rightarrow> nat \<Rightarrow> resp_parser \<Rightarrow> string \<Rightarrow> string \<Rightarrow> 's \<Rightarrow> ((unit + HttpResponse option) \<times> 's) option" where
  "chunk_loop mc cb rd header_size q buf body s =
     (case chunk_head mc cb rd header_size q buf s of
        None \<Rightarrow> None
      | Some (ChunkClosed, s1) \<Rightarrow> Some (Inr None, s1)
      | Some (ChunkHead p q1 rest, s1) \<Rightarrow>
          (case chunk_data rd header_size (mc_content_len mc p) rest body s1 of
             None \<Rightarrow> None
           | Some (Chunk_overflow, s2) \<Rightarrow> Some (Inl (), s2)
           | Some (Chunk_lost, s2) \<Rightarrow> Some (Inr None, s2)
           | Some (Chunk_throws, s2) \<Rightarrow> Some (Inl (), s2)
           | Some (Chunk_read body1 buf1, s2) \<Rightarrow>
               if mc_chunks_done mc p then Some (Inr (Some (rp_setBody body1 (rsp_data q1))), s2)
               else chunk_loop mc cb rd header_size q1 buf1 body1 s2))"

text \<open>The chunked branch of \<open>recvResponse\<close>, after the head.\<close>

definition recvResponse_chunked ::
  "('p, resp_event) chunk_machine \<Rightarrow> (resp_event \<Rightarrow> resp_parser \<Rightarrow> resp_parser) \<Rightarrow>
   (nat \<Rightarrow> 's \<Rightarrow> int \<times> u8 list \<times> 's) \<Rightarrow> nat \<Rightarrow> resp_parser \<Rightarrow> string \<Rightarrow> 's \<Rightarrow> ((unit + HttpResponse option) \<times> 's) option" where
  "recvResponse_chunked mc cb rd header_size q buf s =
     chunk_loop mc cb rd header_size (q\<lparr>rsp_data := rp_delHeader ''Transfer-Encoding'' (rsp_data q)\<rparr>) buf [] s"

text \<open>\<open>HttpConnection::recvResponse\<close>: \<open>None\<close> inside the right summand is the null pointer.\<close>

definition recvResponse ::
  "(string \<Rightarrow> u64 option) \<Rightarrow> (nat \<Rightarrow> HttpStatus) \<Rightarrow> (string \<Rightarrow> nat) \<Rightarrow> ('p, resp_event) chunk_machine \<Rightarrow>
   (nat \<Rightarrow> 's \<Rightarrow> int \<times> u8 list \<times> 's) \<Rightarrow> nat \<Rightarrow> 's \<Rightarrow> ((unit + HttpResponse option) \<times> 's) option" where
  "recvResponse cast status_of atoi mc rd header_size s =
     (case connection_head status_of atoi mc rd header_size s of
        None \<Rightarrow> None
      | Some (Head (p, q) buf, s1) \<Rightarrow>
          if mc_chunked mc p then recvResponse_chunked mc (resp_callback status_of atoi) rd header_size q buf s1
          else map_option (apfst Inr) (recvResponse_plain cast rd q buf s1)
      | Some (_, s1) \<Rightarrow> Some (Inr None, s1))"

section \<open>Sending and serving\<close>

definition sendResponse ::
  "(u8 list \<Rightarrow> 's \<Rightarrow> int \<times> 's) \<Rightarrow> HttpResponse \<Rightarrow> 's \<Rightarrow> ((unit + int) \<times> u8 list \<times> 's) option" where
  "sendResponse wr resp s = writeFixSize wr (to_bytes (rp_dump resp)) s"

definition sendRequest ::
  "(u8 list \<Rightarrow> 's \<Rightarrow> int \<times> 's) \<Rightarrow> HttpRequest \<Rightarrow> 's \<Rightarrow> ((unit + int) \<times> u8 list \<times> 's) option" where
  "sendRequest wr req s = writeFixSize wr (to_bytes (rq_dump req)) s"

text \<open>
  One round of \<open>handleClient\<close>: a response was sent, the loop is left, or the array was written
  at a negative index.
\<close>

datatype round_end = Served | Left | Corrupt

definition serve_round ::
  "(string \<Rightarrow> u64 option) \<Rightarrow> ('p, req_event) machine \<Rightarrow> (nat \<Rightarrow> 's \<Rightarrow> int \<times> u8 list \<times> 's) \<Rightarrow>
   (u8 list \<Rightarrow> 's \<Rightarrow> int \<times> 's) \<Rightarrow> (string \<Rightarrow> string \<Rightarrow> bool) \<Rightarrow> nat \<Rightarrow> bool \<Rightarrow> 's ServletDispatch \<Rightarrow> 's \<Rightarrow>
   (round_end \<times> 's) option" where
  "serve_round cast mc rd wr fnm header_size keepAlive d s =
     (case recvRequest cast mc rd header_size s of
        None \<Rightarrow> None
      | Some (OobWrite, s1) \<Rightarrow> Some (Corrupt, s1)
      | Some (Closed, s1) \<Rightarrow> Some (Left, s1)
      | Some (Head req _, s1) \<Rightarrow>
          (case sd_handle fnm d req (HttpResponse_new (rq_version req) (rq_close req \<or> \<not> keepAlive)) s1 of
             (_, resp, s2) \<Rightarrow>
               (case sendResponse wr resp s2 of None \<Rightarrow> None | Some (_, _, s3) \<Rightarrow> Some (Served, s3))))"

partial_function (option) handleClient ::
  "(string \<Rightarrow> u64 option) \<Rightarrow> ('p, req_event) machine \<Rightarrow> (nat \<Rightarrow> 's \<Rightarrow> int \<times> u8 list \<times> 's) \<Rightarrow>
   (u8 list \<Rightarrow> 's \<Rightarrow> int \<times> 's) \<Rightarrow> (string \<Rightarrow> string \<Rightarrow> bool) \<Rightarrow> nat \<Rightarrow> bool \<Rightarrow> 's ServletDispatch \<Rightarrow> 's \<Rightarrow>
   (round_end \<times> 's) option" where
  "handleClient cast mc rd wr fnm header_size keepAlive d s =
     (case serve_round cast mc rd wr fnm header_size keepAlive d s of
        None \<Rightarrow> None
      | Some (e, s1) \<Rightarrow>
          if e = Served \<and> keepAlive then handleClient cast mc rd wr fnm header_size keepAlive d s1
          else Some (e, s1))"

end
