(* ===== verification/Http_Session_Props.thy ===== *)
theory Http_Session_Props
  imports Http_Session Socket_Props
begin

text \<open>
  Properties of receiving and serving: the loops return on every stream that keeps the
  contract of a byte source, bodies and chunks are exactly the bytes that follow the head, and
  what the session's misplaced terminator does to a head that arrives in several pieces.
\<close>

section \<open>Loops return\<close>

context byte_source
begin

lemma rd_progress: "rd n s = (len, bytes, s') \<Longrightarrow> 0 < len \<Longrightarrow> length (incoming s') < length (incoming s)"
  using rd_positive [of n s len bytes s'] by auto

lemma recv_head_returns:
  "\<exists>r s'. recv_head mc cb err fin early fill rd hs p q buf s = Some (r, s') \<and> length (incoming s') \<le> length (incoming s)
    \<and> ((\<exists>q b. r = Head q b) \<longrightarrow> length (incoming s') < length (incoming s))"
proof (induction "length (incoming s)" arbitrary: p q buf s rule: less_induct)
  case less
  obtain len bytes s1 where c: "rd (hs - length buf) s = (len, bytes, s1)" using prod_cases3 by blast
  show ?case
  proof (cases "0 < len")
    case False
    then show ?thesis using c rd_failed [OF c] by (subst recv_head.simps) simp
  next
    case True
    let ?data = "fill buf len bytes"
    obtain evs np p1 where x: "mc_exec mc p ?data = (evs, np, p1)" using prod_cases3 by blast
    note short = rd_progress [OF c True]
    from less [OF short, of p1 "fold cb evs q" "drop np ?data"] short
    show ?thesis using c True x by (subst recv_head.simps) (auto simp: Let_def)
  qed
qed

lemma readFixSize_shrinks:
  assumes "readFixSize rd n s = Some (r, bytes, s')"
  shows "length (incoming s') \<le> length (incoming s)"
proof -
  let ?io = "\<lambda>n (buff, s). case rd n s of (len, bytes, s') \<Rightarrow> (Inr len :: unit + int, buff @ bytes, s')"
  obtain x where "fix_loop ?io n ([], s) = Some (x, bytes, s')"
    using assms by (auto simp: readFixSize_def fix_size_def split: option.splits sum.splits)
  from source_loop_spec [OF this] show ?thesis by auto
qed

lemma recv_body_returns:
  "\<exists>r s'. recv_body rd len0 buf s = Some (r, s') \<and> length (incoming s') \<le> length (incoming s)"
proof (cases "0 < len0 - int (length buf)")
  case True
  obtain r bytes s' where "readFixSize rd (nat (len0 - int (length buf))) s = Some (r, bytes, s')"
    using readFixSize_returns by (metis prod_cases3)
  then show ?thesis
    using True readFixSize_shrinks by (auto simp: recv_body_def Let_def split: sum.split)
qed (simp add: recv_body_def Let_def)

lemma recvRequest_returns:
  "\<exists>r s'. recvRequest cast mc rd hs s = Some (r, s') \<and> length (incoming s') \<le> length (incoming s) \<and>
    ((\<exists>q b. r = Head q b) \<longrightarrow> length (incoming s') < length (incoming s))"
proof -
  have "\<exists>r s1. session_head mc rd hs s = Some (r, s1) \<and> length (incoming s1) \<le> length (incoming s) \<and>
    ((\<exists>q b. r = Head q b) \<longrightarrow> length (incoming s1) < length (incoming s))"
    unfolding session_head_def by (rule recv_head_returns)
  then obtain r s1 where h: "session_head mc rd hs s = Some (r, s1)" "length (incoming s1) \<le> length (incoming s)"
    "(\<exists>q b. r = Head q b) \<longrightarrow> length (incoming s1) < length (incoming s)" by blast
  show ?thesis
  proof (cases r)
    case (Head q buf)
    let ?L = "rq_contentLength cast (rqp_data q)"
    obtain b s2 where b: "recv_body rd ?L buf s1 = Some (b, s2)" "length (incoming s2) \<le> length (incoming s1)"
      using recv_body_returns by blast
    have "length (incoming s1) < length (incoming s)" using h(3) Head by blast
    then show ?thesis using h(1) b Head by (cases b) (auto simp: recvRequest_def Let_def)
  qed (use h in \<open>auto simp: recvRequest_def\<close>)
qed

text \<open>The body is what follows the head.\<close>

lemma recv_body_exact:
  assumes "recv_body rd len0 buf s = Some (Some body, s')" "0 < len0" "len0 < 2 ^ 31"
  shows "body = take (nat len0) (buf @ to_chars (incoming s))" "length body = nat len0"
    "incoming s' = drop (nat len0 - length buf) (incoming s)"
proof -
  let ?n = "nat (len0 - int (length buf))"
  have e: "body = take (nat len0) (buf @ to_chars (incoming s)) \<and> length body = nat len0 \<and>
      incoming s' = drop (nat len0 - length buf) (incoming s)"
  proof (cases "0 < len0 - int (length buf)")
    case True
    then have eq: "?n = nat len0 - length buf" "length buf \<le> nat len0" by auto
    obtain r bytes s1 where r: "readFixSize rd ?n s = Some (r, bytes, s1)"
      using readFixSize_returns by (metis prod_cases3)
    have "?n < 2 ^ 31" using assms(3) by auto
    from readFixSize_prefix [OF r this] obtain k where k: "k \<le> ?n" "bytes = take k (incoming s)"
      "incoming s1 = drop k (incoming s)"
      "r = Inr (int ?n) \<and> k = ?n \<and> ?n \<le> length (incoming s) \<or> (\<exists>len \<le> 0. r = Inr len)" by blast
    have "k = ?n" "?n \<le> length (incoming s)" "body = buf @ to_chars bytes" "s' = s1"
      using assms(1) True r k(4) by (auto simp: recv_body_def Let_def split: sum.splits if_splits)
    then show ?thesis using k(2,3) eq by (simp add: take_map)
  next
    case False
    then have "nat len0 \<le> length buf" "len0 < int (length buf) \<or> nat len0 = length buf" by auto
    then show ?thesis using assms(1,2) False by (auto simp: recv_body_def Let_def split: if_splits)
  qed
  show "body = take (nat len0) (buf @ to_chars (incoming s))" by (rule e [THEN conjunct1])
  show "length body = nat len0" by (rule e [THEN conjunct2, THEN conjunct1])
  show "incoming s' = drop (nat len0 - length buf) (incoming s)" by (rule e [THEN conjunct2, THEN conjunct2])
qed

text \<open>Chunks.\<close>

lemma chunk_fill_returns: "0 < hs \<Longrightarrow> hs < 2 ^ 31 \<Longrightarrow> \<exists>r. chunk_fill rd hs left body s = Some r"
proof (induction left arbitrary: body s rule: less_induct)
  case (less left)
  let ?n = "min left hs"
  obtain r bytes s1 where r: "readFixSize rd ?n s = Some (r, bytes, s1)"
    using readFixSize_returns by (metis prod_cases3)
  have "?n < 2 ^ 31" using less.prems by simp
  from readFixSize_prefix [OF r this] have "r = Inr (int ?n) \<or> (\<exists>len \<le> 0. r = Inr len)" by blast
  moreover have "left \<noteq> 0 \<Longrightarrow> left - ?n < left" using less.prems by simp
  ultimately show ?case
    using less.IH [of "left - ?n"] less.prems r by (subst chunk_fill.simps) auto
qed

lemma chunk_fill_exact:
  assumes "chunk_fill rd hs left body s = Some (Some b, s')" "0 < hs" "hs < 2 ^ 31"
  shows "left \<le> length (incoming s) \<and> b = body @ to_chars (take left (incoming s)) \<and>
    incoming s' = drop left (incoming s)"
  using assms(1)
proof (induction left arbitrary: body s rule: less_induct)
  case (less left)
  let ?n = "min left hs"
  obtain r bytes s1 where r: "readFixSize rd ?n s = Some (r, bytes, s1)"
    using readFixSize_returns by (metis prod_cases3)
  have "?n < 2 ^ 31" using assms(3) by simp
  from readFixSize_prefix [OF r this] obtain k where k: "bytes = take k (incoming s)"
    "incoming s1 = drop k (incoming s)"
    "r = Inr (int ?n) \<and> k = ?n \<and> ?n \<le> length (incoming s) \<or> (\<exists>len \<le> 0. r = Inr len)" by blast
  show ?case
  proof (cases "left = 0")
    case True
    then show ?thesis using less.prems by (subst (asm) chunk_fill.simps) simp
  next
    case False
    then have n: "left - ?n < left" "0 < ?n" using assms(2) by simp_all
    have step: "(case r of Inl _ \<Rightarrow> Some (None, s1)
        | Inr rt \<Rightarrow> if rt \<le> 0 then Some (None, s1)
            else chunk_fill rd hs (left - nat rt) (body @ to_chars bytes) s1) = Some (Some b, s')"
      using less.prems r False by (subst (asm) chunk_fill.simps) simp
    then have ok: "r = Inr (int ?n)" "k = ?n" "?n \<le> length (incoming s)" using k(3) by auto
    have rest: "chunk_fill rd hs (left - ?n) (body @ to_chars bytes) s1 = Some (Some b, s')"
      using step n(2) by (simp add: ok(1))
    with ok less.IH [OF n(1) rest] k(1,2) have "left - ?n \<le> length (incoming s) - ?n"
      "b = body @ to_chars (take ?n (incoming s) @ take (left - ?n) (drop ?n (incoming s)))"
      "incoming s' = drop (left - ?n) (drop ?n (incoming s))" by simp_all
    moreover have "?n + (left - ?n) = left" by simp
    then have "take ?n (incoming s) @ take (left - ?n) (drop ?n (incoming s)) = take left (incoming s)"
      "drop (left - ?n) (drop ?n (incoming s)) = drop left (incoming s)"
      by (metis take_add, metis drop_drop add.commute)
    moreover have "left \<le> length (incoming s)"
      using \<open>left - ?n \<le> length (incoming s) - ?n\<close> \<open>?n \<le> length (incoming s)\<close> by linarith
    ultimately show ?thesis by simp
  qed
qed

lemma chunk_data_exact:
  assumes "chunk_data rd hs (int cl) buf body s = Some (Chunk_read body' buf', s')" "0 < hs" "hs < 2 ^ 31"
  shows "cl + 2 \<le> length buf + length (incoming s) \<and>
    body' = body @ take cl (buf @ to_chars (incoming s)) \<and>
    buf' @ to_chars (incoming s') = drop (cl + 2) (buf @ to_chars (incoming s))"
proof (cases "cl + 2 \<le> length buf")
  case True
  then show ?thesis using assms(1) by (auto simp: chunk_data_def split: if_splits)
next
  case False
  let ?left = "cl + 2 - length buf"
  have left: "nat (int cl + 2) - length buf = ?left" by simp
  obtain b where b: "chunk_fill rd hs ?left (body @ buf) s = Some (Some b, s')"
    "body' = take (length b - 2) b" "buf' = []"
    using assms(1) False by (auto simp: chunk_data_def left split: option.splits if_splits)
  note e = chunk_fill_exact [OF b(1) assms(2,3)]
  then have len: "length b - 2 = length body + cl" using False by simp
  have "b = body @ take (cl + 2) (buf @ to_chars (incoming s))" using e False by (simp add: take_map)
  then have "body' = body @ take cl (buf @ to_chars (incoming s))"
    unfolding b(2) len using False by (simp add: min_def)
  moreover have "cl + 2 \<le> length buf + length (incoming s)" using e False by linarith
  ultimately show ?thesis using e b(3) False by (simp add: drop_map)
qed

end

text \<open>Whatever every call keeps, the whole transfer keeps.\<close>

lemma fix_loop_keeps:
  assumes "fix_loop io n s = Some y" "\<forall>n s r s'. io n s = (r, s') \<longrightarrow> P s \<longrightarrow> P s'" "P s"
  shows "P (snd y)"
proof -
  have "(\<forall>n s r s'. io n s = (r, s') \<longrightarrow> P s \<longrightarrow> P s') \<longrightarrow> P s \<longrightarrow> P (snd y)"
  proof (rule fix_loop.raw_induct [where P = "\<lambda>io n s y. (\<forall>n s r s'. io n s = (r, s') \<longrightarrow> P s \<longrightarrow> P s') \<longrightarrow> P s \<longrightarrow> P (snd y)",
        OF _ assms(1)], goal_cases)
    case (1 g io n s y)
    show ?case
    proof (intro impI)
      assume k: "\<forall>n s r s'. io n s = (r, s') \<longrightarrow> P s \<longrightarrow> P s'" and P: "P s"
      obtain r s' where c: "io n s = (r, s')" by fastforce
      then have "P s'" using k P by blast
      then show "P (snd y)" using 1(1) [of io] 1(2) c k P by (auto split: if_splits sum.splits)
    qed
  qed
  then show ?thesis using assms(2,3) by blast
qed

section \<open>Properties\<close>

lemma writeFixSize_keeps:
  assumes "byte_sink wr sent" "\<forall>bs s. inc (snd (wr bs s)) = inc s"
  shows "\<exists>r rest s'. writeFixSize wr bs s = Some (r, rest, s') \<and> inc s' = inc s"
proof -
  let ?io = "\<lambda>k (rest, s). case wr rest s of (len, s') \<Rightarrow> (Inr len :: unit + int, drop (nat len) rest, s')"
  obtain r k s' where l: "fix_loop ?io (length bs) (bs, s) = Some (Inr r, drop k bs, s')"
    using byte_sink.sink_loop_spec [OF assms(1), of bs s] by blast
  have "\<forall>n st r st'. ?io n st = (r, st') \<longrightarrow> inc (snd st) = inc s \<longrightarrow> inc (snd st') = inc s"
  proof (intro allI impI)
    fix n st r st' assume "?io n st = (r, st')" "inc (snd st) = inc s"
    then show "inc (snd st') = inc s" using assms(2) [rule_format, of "fst st" "snd st"]
      by (auto split: prod.splits)
  qed
  from fix_loop_keeps [OF l this] have "inc s' = inc s" by simp
  then show ?thesis using l by (cases r) (auto simp: writeFixSize_def fix_size_def)
qed

text \<open>
  C7. Serving a client ends. For every stream that keeps the contracts of a source and a sink,
  where sending and the servlets do not touch what is still to come in, the loop of
  \<open>handleClient\<close> returns, whatever the generated parser does. With keep-alive it ends only when
  no further request could be received; the request's own wish to close does not end it.
\<close>

theorem handleClient_terminates:
  assumes "byte_source rd inc" "byte_sink wr sent" "\<forall>bs s. inc (snd (wr bs s)) = inc s"
    and "\<forall>req resp s. inc (snd (snd (sd_handle fnm d req resp s))) = inc s"
  shows "\<exists>e s'. handleClient cast mc rd wr fnm hs keepAlive d s = Some (e, s') \<and> (e = Served \<longrightarrow> \<not> keepAlive)"
proof (induction "length (inc s)" arbitrary: s rule: less_induct)
  case less
  obtain r s1 where r: "recvRequest cast mc rd hs s = Some (r, s1)"
    "(\<exists>q b. r = Head q b) \<longrightarrow> length (inc s1) < length (inc s)"
    using byte_source.recvRequest_returns [OF assms(1), of cast mc hs s] by blast
  show ?case
  proof (cases r)
    case (Head req rest)
    obtain c resp s2 where h: "sd_handle fnm d req (HttpResponse_new (rq_version req) (rq_close req \<or> \<not> keepAlive)) s1 =
        (c, resp, s2)" using prod_cases3 by blast
    obtain x rest' s3 where w: "sendResponse wr resp s2 = Some (x, rest', s3)" "inc s3 = inc s2"
      unfolding sendResponse_def using writeFixSize_keeps [OF assms(2,3)] by blast
    have "inc s2 = inc s1" using assms(4) h by (metis snd_conv)
    then have short: "length (inc s3) < length (inc s)" using w(2) r(2) Head by simp
    have round: "serve_round cast mc rd wr fnm hs keepAlive d s = Some (Served, s3)"
      using r(1) Head h w(1) by (simp add: serve_round_def)
    have "handleClient cast mc rd wr fnm hs keepAlive d s =
        (if keepAlive then handleClient cast mc rd wr fnm hs keepAlive d s3 else Some (Served, s3))"
      using round by (subst handleClient.simps) simp
    then show ?thesis using less [OF short] by (cases keepAlive) auto
  qed (use r(1) in \<open>subst handleClient.simps; simp add: serve_round_def\<close>)+
qed

text \<open>A machine that takes every input as a complete head without content.\<close>

definition accept_all :: "(unit, req_event) machine" where
  "accept_all = \<lparr>mc_init = (), mc_exec = (\<lambda>_ d. ([], length d, ())), mc_finished = (\<lambda>_. True), mc_error = (\<lambda>_. False)\<rparr>"

definition connected_socket :: socket where
  "connected_socket = newTCPSocket\<lparr>sk_connect := True\<rparr>"

definition two_bytes :: wire where
  "two_bytes = \<lparr>w_in = [65, 66], w_out = [], w_chunks = [1, 900, 1]\<rparr>"

definition no_servlets :: "wire ServletDispatch" where
  "no_servlets = ServletDispatch_new None"

theorem handleClient_terminates_witness:
  "\<exists>e s'. handleClient (\<lambda>_. None) accept_all (ss_read wire_recv (Some connected_socket)) (ss_write wire_send (Some connected_socket))
     (=) 4096 True no_servlets two_bytes = Some (e, s') \<and> e \<noteq> Served"
proof -
  have w: "\<forall>bs s. w_in (snd (ss_write wire_send (Some connected_socket) bs s)) = w_in s"
    by (simp add: ss_write_def sock_send_def wire_send_def Let_def split: list.split)
  have h: "\<forall>req resp s. w_in (snd (snd (sd_handle (=) no_servlets req resp s))) = w_in s"
    by (simp add: sd_handle_def getMatchServlet_def no_servlets_def ServletDispatch_new_def NotFoundServlet_def)
  have src: "byte_source (ss_read wire_recv (Some connected_socket)) w_in"
    by (rule wire.src.byte_source_axioms)
  have snk: "byte_sink (ss_write wire_send (Some connected_socket)) w_out"
    by (rule wire.snk.byte_sink_axioms)
  obtain e s' where "handleClient (\<lambda>_. None) accept_all (ss_read wire_recv (Some connected_socket))
      (ss_write wire_send (Some connected_socket)) (=) 4096 True no_servlets two_bytes = Some (e, s')"
      "e = Served \<longrightarrow> \<not> True"
    by (rule handleClient_terminates [OF src snk w h, THEN exE]) blast
  then show ?thesis by blast
qed

lemma rq_body_steps:
  "rq_body (rq_init r) = rq_body r" "rq_body (initQueryParam r) = rq_body r"
  "rq_body (initBodyParam r) = rq_body r" "rq_body (initCookies r) = rq_body r"
  by (simp_all add: rq_init_def initQueryParam_def initBodyParam_def initCookies_def Let_def)

lemma rq_body_init: "rq_body (initParam (rq_init r)) = rq_body r"
  by (simp add: initParam_def rq_body_steps)

text \<open>
  C10. The body of a received request is exactly the announced number of bytes that follow its
  head: first the characters that were read together with the head, then the next bytes of the
  stream, and no more is taken from the stream. Characters read beyond the body, the beginning
  of a pipelined request, are dropped.
\<close>

theorem request_body_exact:
  assumes "byte_source rd inc" "recvRequest cast mc rd hs s = Some (Head req rest, s')"
  shows "\<exists>q buf s1. session_head mc rd hs s = Some (Head q buf, s1) \<and> rest = [] \<and>
    (let n = rq_contentLength cast (rqp_data q)
     in if n \<le> 0 then rq_body req = rq_body (rqp_data q) \<and> s' = s1
        else n < 2 ^ 31 \<longrightarrow> rq_body req = take (nat n) (buf @ to_chars (inc s1)) \<and>
          length (rq_body req) = nat n \<and> inc s' = drop (nat n - length buf) (inc s1))"
proof -
  obtain q buf s1 where h: "session_head mc rd hs s = Some (Head q buf, s1)"
    using assms(2) by (auto simp: recvRequest_def split: option.splits head_result.splits)
  let ?n = "rq_contentLength cast (rqp_data q)"
  show ?thesis
  proof (cases "0 < ?n")
    case True
    then obtain body where b: "recv_body rd ?n buf s1 = Some (Some body, s')"
      "req = initParam (rq_init (rqp_data q\<lparr>rq_body := body\<rparr>))" "rest = []"
      using assms(2) h by (auto simp: recvRequest_def Let_def split: option.splits)
    show ?thesis
      using h True b byte_source.recv_body_exact [OF assms(1) b(1) True]
      by (auto simp: rq_body_init Let_def)
  next
    case False
    then show ?thesis using assms(2) h by (auto simp: recvRequest_def rq_body_init Let_def)
  qed
qed

theorem request_body_exact_witness:
  "\<exists>req s'. recvRequest (\<lambda>_. None) accept_all (ss_read wire_recv (Some connected_socket)) 4096
      \<lparr>w_in = [65, 66], w_out = [], w_chunks = [2]\<rparr> = Some (Head req [], s') \<and> rq_body req = []"
proof -
  let ?s = "\<lparr>w_in = [65, 66], w_out = [], w_chunks = [2]\<rparr> :: wire"
  let ?rd = "ss_read wire_recv (Some connected_socket)"
  have rd: "?rd 4096 ?s = (2, [65, 66], \<lparr>w_in = [], w_out = [], w_chunks = []\<rparr>)"
    by (simp add: ss_read_def sock_recv_def connected_socket_def newTCPSocket_def Socket_new_def wire_recv_def)
  have h: "session_head accept_all ?rd 4096 ?s =
      Some (Head HttpRequestParser_new [], \<lparr>w_in = [], w_out = [], w_chunks = []\<rparr>)"
    unfolding session_head_def
    by (subst recv_head.simps) (simp add: rd accept_all_def session_fill_def Let_def HttpRequestParser_new_def)
  have n: "rq_contentLength (\<lambda>_. None) (rqp_data HttpRequestParser_new) = 0"
    by (simp add: rq_contentLength_def getAs_def HttpRequestParser_new_def HttpRequest_new_def)
  have r: "recvRequest (\<lambda>_. None) accept_all ?rd 4096 ?s =
      Some (Head (initParam (rq_init (rqp_data HttpRequestParser_new))) [], \<lparr>w_in = [], w_out = [], w_chunks = []\<rparr>)"
    by (simp add: recvRequest_def h n Let_def)
  show ?thesis
    using request_body_exact [OF wire.src.byte_source_axioms r] r h n
    by (auto simp: HttpRequestParser_new_def HttpRequest_new_def)
qed

text \<open>
  A chunk of a chunked response contributes exactly its announced number of characters,
  taken from the characters left over and then from the stream, and the two characters of the
  line end after it are consumed with it, also when the chunk is longer than the buffer.
\<close>

theorem chunk_data_takes_chunk:
  assumes "byte_source rd inc" "0 < hs" "hs < 2 ^ 31"
  shows "\<exists>r s'. chunk_data rd hs (int cl) buf body s = Some (r, s') \<and>
    (case r of Chunk_read body' buf' \<Rightarrow>
         cl + 2 \<le> length buf + length (inc s) \<and>
         body' = body @ take cl (buf @ to_chars (inc s)) \<and>
         buf' @ to_chars (inc s') = drop (cl + 2) (buf @ to_chars (inc s))
     | _ \<Rightarrow> True)"
proof -
  have "\<exists>r. chunk_data rd hs (int cl) buf body s = Some r"
  proof (cases "cl + 2 \<le> length buf")
    case False
    obtain r where "chunk_fill rd hs (nat (int cl + 2) - length buf) (body @ buf) s = Some r"
      using byte_source.chunk_fill_returns [OF assms] by blast
    then show ?thesis using False by (cases r; cases "fst r") (auto simp: chunk_data_def)
  qed (simp add: chunk_data_def)
  then obtain r s' where c: "chunk_data rd hs (int cl) buf body s = Some (r, s')" by auto
  then show ?thesis
    using byte_source.chunk_data_exact [OF assms(1) _ assms(2,3)] by (cases r) auto
qed

theorem chunk_data_takes_chunk_witness:
  "\<exists>body' buf' s'. chunk_data (ss_read wire_recv (Some connected_socket)) 4096 2 ''ab--rest'' ''>'' two_bytes =
      Some (Chunk_read body' buf', s') \<and> body' = ''>ab'' \<and> buf' @ to_chars (w_in s') = ''rest'' @ to_chars [65, 66]"
proof -
  have s: "byte_source (ss_read wire_recv (Some connected_socket)) w_in"
    by (rule wire.src.byte_source_axioms)
  obtain r s' where r: "chunk_data (ss_read wire_recv (Some connected_socket)) 4096 (int 2) ''ab--rest'' ''>'' two_bytes = Some (r, s')"
    "case r of Chunk_read body' buf' \<Rightarrow> 2 + 2 \<le> length ''ab--rest'' + length (w_in two_bytes) \<and>
      body' = ''>'' @ take 2 (''ab--rest'' @ to_chars (w_in two_bytes)) \<and>
      buf' @ to_chars (w_in s') = drop (2 + 2) (''ab--rest'' @ to_chars (w_in two_bytes)) | _ \<Rightarrow> True"
    using chunk_data_takes_chunk [OF s, of 4096 2 "''ab--rest''" "''>''" two_bytes] by force
  obtain body' buf' where "r = Chunk_read body' buf'" using r(1) by (auto simp: chunk_data_def)
  then show ?thesis using r by (simp add: two_bytes_def)
qed

text \<open>
  The session corrupts a head that arrives in several pieces. When characters are left
  over from the last read, the terminator that the session writes after the next read of \<open>len\<close>
  bytes lands inside the data: the character at index \<open>len\<close> becomes NUL before the parser sees
  it, and no other changes. The connection's version parses the data as it came.
\<close>

theorem session_terminator_hits_data:
  assumes "buf \<noteq> []" "0 < len" "length bytes = nat len"
  shows "session_fill buf len bytes ! nat len = CHR 0x00 \<and>
    nat len < length (session_fill buf len bytes) \<and>
    length (session_fill buf len bytes) = length (connection_fill buf len bytes) \<and>
    (\<forall>i. i \<noteq> nat len \<longrightarrow> session_fill buf len bytes ! i = connection_fill buf len bytes ! i) \<and>
    session_fill [] len bytes = connection_fill [] len bytes"
proof -
  have "nat len < length (buf @ to_chars bytes)" using assms by simp
  then show ?thesis using assms(3) by (auto simp: session_fill_def connection_fill_def list_update_beyond)
qed

theorem session_terminator_hits_data_witness:
  "session_fill ''GET '' 2 [47, 32] ! 2 = CHR 0x00"
  using session_terminator_hits_data [of "''GET ''" 2 "[47, 32]"] by simp

section \<open>Chunked bodies\<close>

text \<open>
  The chunked coding of a list of chunks: for each its size \<open>hdr n\<close>, its data and a line end,
  and at last an empty chunk. A parser that reads the heads of chunks smaller than \<open>hs\<close>, started
  afresh on the head of a chunk, takes exactly the head, gives the size, reports at most the
  chunk callbacks and the end of the head, and says that the chunks are done exactly for size 0.
\<close>

definition encode_chunks :: "(nat \<Rightarrow> string) \<Rightarrow> string list \<Rightarrow> string" where
  "encode_chunks hdr cs = concat (map (\<lambda>c. hdr (length c) @ c @ crlf) (cs @ [[]]))"

definition is_chunk_event :: "resp_event \<Rightarrow> bool" where
  "is_chunk_event e = (case e of Rv_chunk _ \<Rightarrow> True | Rv_last_chunk _ \<Rightarrow> True | Rv_header_done _ \<Rightarrow> True | _ \<Rightarrow> False)"

definition reads_chunk_heads :: "('p, resp_event) chunk_machine \<Rightarrow> (nat \<Rightarrow> string) \<Rightarrow> nat \<Rightarrow> bool" where
  "reads_chunk_heads mc hdr hs \<longleftrightarrow> (\<forall>n rest. n < hs \<longrightarrow> length (hdr n @ rest) < hs \<longrightarrow>
     (\<exists>evs p. mc_exec mc (mc_init mc) (hdr n @ rest) = (evs, length (hdr n), p) \<and>
        list_all is_chunk_event evs \<and> mc_finished mc p \<and> \<not> mc_error mc p \<and> mc_content_len mc p = int n \<and>
        mc_chunks_done mc p = (n = 0)))"

lemma chunk_events_keep: "list_all is_chunk_event evs \<Longrightarrow> fold (resp_callback so atoi) evs q = q"
  by (induction evs arbitrary: q) (auto simp: is_chunk_event_def split: resp_event.splits)

lemma chunk_step:
  assumes "reads_chunk_heads mc hdr hs" "rsp_error q = HTTP_OK" "length (hdr (length c) @ c @ crlf @ rest) < hs" "hs \<le> 2 ^ 31"
  shows "chunk_loop mc (resp_callback so atoi) rd hs q (hdr (length c) @ c @ crlf @ rest) body s =
    (if c = [] then Some (Inr (Some (rp_setBody (body @ c) (rsp_data q))), s)
     else chunk_loop mc (resp_callback so atoi) rd hs q rest (body @ c) s)"
proof -
  obtain evs p where x: "mc_exec mc (mc_init mc) (hdr (length c) @ c @ crlf @ rest) = (evs, length (hdr (length c)), p)"
    "list_all is_chunk_event evs" "mc_finished mc p" "\<not> mc_error mc p" "mc_content_len mc p = int (length c)"
    "mc_chunks_done mc p = (c = [])"
    using assms(1) assms(3) unfolding reads_chunk_heads_def
    by (elim allE [of _ "length c"] allE [of _ "c @ crlf @ rest"]) auto
  have "hdr (length c) @ c @ crlf @ rest \<noteq> []" by simp
  then have "chunk_head mc (resp_callback so atoi) rd hs q (hdr (length c) @ c @ crlf @ rest) s =
      Some (ChunkHead p q (c @ crlf @ rest), s)"
    using x assms(2,3) by (subst chunk_head.simps) (simp add: chunk_events_keep)
  moreover have "chunk_data rd hs (int (length c)) (c @ crlf @ rest) body s = Some (Chunk_read (body @ c) rest, s)"
    using assms(3,4) by (simp add: chunk_data_def)
  ultimately show ?thesis
    by (subst chunk_loop.simps) (simp add: x(5,6))
qed

lemma encode_chunks_Cons:
  "encode_chunks hdr (c # cs) @ rest = hdr (length c) @ c @ crlf @ encode_chunks hdr cs @ rest"
  by (simp add: encode_chunks_def)

lemma chunk_loop_decodes:
  assumes "reads_chunk_heads mc hdr hs" "rsp_error q = HTTP_OK" "[] \<notin> set cs"
    "length (encode_chunks hdr cs @ rest) < hs" "hs \<le> 2 ^ 31"
  shows "chunk_loop mc (resp_callback so atoi) rd hs q (encode_chunks hdr cs @ rest) body s =
    Some (Inr (Some (rp_setBody (body @ concat cs) (rsp_data q))), s)"
  using assms(3,4)
proof (induction cs arbitrary: body)
  case Nil
  then show ?case using chunk_step [OF assms(1,2), of "[]" rest] assms(5) by (simp add: encode_chunks_def)
next
  case (Cons c cs)
  have "length (hdr (length c) @ c @ crlf @ encode_chunks hdr cs @ rest) < hs" using Cons.prems(2) by (simp add: encode_chunks_def)
  note step = chunk_step [OF assms(1,2) this assms(5)]
  have "chunk_loop mc (resp_callback so atoi) rd hs q (encode_chunks hdr cs @ rest) (body @ c) s =
      Some (Inr (Some (rp_setBody ((body @ c) @ concat cs) (rsp_data q))), s)"
    by (rule Cons.IH) (use Cons.prems in \<open>simp_all add: encode_chunks_def\<close>)
  then show ?case using Cons.prems(1) by (subst encode_chunks_Cons, subst step) auto
qed

end
