(* ===== verification/Address_Props.thy ===== *)
theory Address_Props
  imports Address
begin

text \<open>
  Properties of addresses: byte swapping as a permutation of bits, the arithmetic of IPv4 and
  IPv6 networks, masks and prefix lengths, the order of addresses, the memory image, ports, the
  text forms and the two look-ups.
\<close>

section \<open>Swapping permutes bits\<close>

definition swap_index :: "nat \<Rightarrow> nat" where
  "swap_index i = 8 * (3 - i div 8) + i mod 8"

lemma swap_index_swap: "i < 32 \<Longrightarrow> swap_index i < 32 \<and> swap_index (swap_index i) = i"
proof -
  assume "i < 32"
  then have d: "i div 8 \<le> 3" by auto
  then have "swap_index i div 8 = 3 - i div 8" "swap_index i mod 8 = i mod 8"
    by (simp_all add: swap_index_def)
  with d show ?thesis
    by (simp add: swap_index_def [of "swap_index i"])
qed

lemma bit_byteSwap32: "bit (byteSwap32 w) i \<longleftrightarrow> i < 32 \<and> bit w (swap_index i)"
proof (cases "i < 32")
  case True
  then have "i div 8 < 4" by auto
  then have "rev (le_bytes 4 w) ! (i div 8) = ucast (drop_bit (8 * (3 - i div 8)) w)"
    by (simp add: rev_nth)
  then show ?thesis
    using True \<open>i div 8 < 4\<close>
    by (simp add: byteSwap32_def bit_le_word bit_unsigned_iff bit_drop_bit_eq swap_index_def)
qed (auto dest: bit_imp_le_length)

lemma byteSwap32_logic:
  "byteSwap32 (a AND b) = byteSwap32 a AND byteSwap32 b"
  "byteSwap32 (a OR b) = byteSwap32 a OR byteSwap32 b"
  "byteSwap32 (NOT a) = NOT (byteSwap32 a)"
  by (rule bit_word_eqI; simp add: bit_simps bit_byteSwap32 swap_index_swap)+

lemma OnLittleEndian: "byteSwapOnLittleEndian32 = byteSwap32" "byteSwapOnLittleEndian16 = byteSwap16"
  by (auto simp: byteSwapOnLittleEndian32_def byteSwapOnLittleEndian16_def BYTE_ORDER_def)

section \<open>Prefix lengths\<close>

lemma getMaskLen_card: "getMaskLen v = card (bits_of v)"
proof (induction v rule: getMaskLen.induct)
  case (1 v)
  show ?case
  proof (cases "v = 0")
    case True
    then show ?thesis by (simp add: getMaskLen.simps [of 0] bits_of_def)
  next
    case False
    then show ?thesis
      using 1 bits_of_step [OF False] getMaskLen.simps [of v] by simp
  qed
qed

lemma getMaskLen_swap: "getMaskLen (byteSwap32 v) = getMaskLen v"
proof -
  have "bits_of (byteSwap32 v) = swap_index ` bits_of v"
  proof
    show "bits_of (byteSwap32 v) \<subseteq> swap_index ` bits_of v"
    proof
      fix i assume "i \<in> bits_of (byteSwap32 v)"
      then have "i < 32" "swap_index i \<in> bits_of v"
        by (simp_all add: bits_of_def bit_byteSwap32 swap_index_swap)
      then show "i \<in> swap_index ` bits_of v" using swap_index_swap [of i] by (metis imageI)
    qed
    show "swap_index ` bits_of v \<subseteq> bits_of (byteSwap32 v)"
      using swap_index_swap by (auto simp: bits_of_def bit_byteSwap32)
  qed
  moreover have "inj_on swap_index (bits_of v)"
    by (rule inj_onI) (metis (no_types, lifting) bits_of_def mem_Collect_eq swap_index_swap)
  ultimately show ?thesis by (simp add: getMaskLen_card card_image)
qed

lemma getMaskCode32_mask: "getMaskCode32 p = mask (32 - p)"
  by (simp add: getMaskCode32_def mask_eq_exp_minus_1 push_bit_eq_mult)

lemma getMaskLen_subnet:
  assumes "p \<le> 32"
  shows "getMaskLen (NOT (mask (32 - p))) = p"
proof -
  have "bits_of (NOT (mask (32 - p)) :: u32) = {32 - p..<32}"
    by (auto simp: bits_of_def bit_simps)
  then show ?thesis using assms by (simp add: getMaskLen_card)
qed

lemma getMaskLen_subnet_swap: "p \<le> 32 \<Longrightarrow> getMaskLen (NOT (byteSwap32 (mask (32 - p)))) = p"
  by (metis byteSwap32_logic(3) getMaskLen_swap getMaskLen_subnet)

section \<open>IPv4 networks\<close>

text \<open>The number an IPv4 address stands for.\<close>

definition host4 :: "sockaddr_in \<Rightarrow> u32" where
  "host4 a = byteSwap32 (s_addr a)"

lemma unat_split_mask:
  fixes h :: u32
  assumes "k \<le> 32"
  shows "unat (h AND mask k) = unat h mod 2 ^ k"
    "unat (h AND NOT (mask k)) = unat h div 2 ^ k * 2 ^ k"
    "unat (h OR mask k) = unat h div 2 ^ k * 2 ^ k + (2 ^ k - 1)"
proof -
  have "unat (h AND mask k) = take_bit k (unat h)"
    by (rule bit_eqI) (auto simp: bit_simps dest: bit_imp_le_length)
  then show "unat (h AND mask k) = unat h mod 2 ^ k" by (simp add: take_bit_eq_mod)
  have "unat h div 2 ^ k * 2 ^ k = push_bit k (drop_bit k (unat h))"
    by (simp add: push_bit_eq_mult drop_bit_eq_div)
  moreover have "unat (h AND NOT (mask k)) = push_bit k (drop_bit k (unat h))"
    by (rule bit_eqI) (auto simp: bit_simps dest: bit_imp_le_length)
  ultimately show high: "unat (h AND NOT (mask k)) = unat h div 2 ^ k * 2 ^ k" by simp
  have "unat (h OR mask k) = unat (h AND NOT (mask k)) OR mask k"
    by (rule bit_eqI) (use assms in \<open>auto simp: bit_simps dest: bit_imp_le_length\<close>)
  also have "\<dots> = unat (h AND NOT (mask k)) + mask k"
    by (rule disjunctive_add_eq_or [symmetric], rule bit_eqI) (auto simp: bit_simps)
  finally show "unat (h OR mask k) = unat h div 2 ^ k * 2 ^ k + (2 ^ k - 1)"
    by (simp only: high mask_eq_exp_minus_1 [where 'a = nat])
qed

text \<open>
  C29. The arithmetic of IPv4 networks. For a prefix length of at most 32 the address splits
  into a network part and a host part by division with \<open>2 ^ (32 - prefix)\<close>; the network address
  is the part above, the host address the remainder, and the broadcast address the last of the
  network; the network address is the address masked with the subnet mask; family and port
  stay; and \<open>getMaskLen\<close> of the subnet mask is the prefix length again, in either byte order. A
  longer prefix gives null pointers.
\<close>

theorem ipv4_network_arithmetic:
  "(if p \<le> 32
    then \<exists>n h b s. getNetworkAddress4 p a = Some n \<and> getHostAddress4 p a = Some h \<and>
           getBroadcastAddress4 p a = Some b \<and> getSubnetMask4 p a = Some s \<and>
           unat (host4 n) = unat (host4 a) div 2 ^ (32 - p) * 2 ^ (32 - p) \<and>
           unat (host4 h) = unat (host4 a) mod 2 ^ (32 - p) \<and>
           unat (host4 b) = unat (host4 n) + (2 ^ (32 - p) - 1) \<and>
           s_addr n = s_addr a AND s_addr s \<and>
           {sin_port n, sin_port h, sin_port b} = {sin_port a} \<and>
           getMaskLen (s_addr s) = p \<and> getMaskLen (host4 s) = p
    else getNetworkAddress4 p a = None \<and> getHostAddress4 p a = None \<and>
         getBroadcastAddress4 p a = None \<and> getSubnetMask4 p a = None)"
  using unat_split_mask [of "32 - p" "byteSwap32 (s_addr a)"]
  by (simp add: getNetworkAddress4_def getHostAddress4_def getBroadcastAddress4_def getSubnetMask4_def
      host4_def OnLittleEndian byteSwap32_logic getMaskCode32_mask getMaskLen_subnet getMaskLen_subnet_swap)

section \<open>IPv6 networks\<close>

text \<open>Bit \<open>j\<close> of an address, counted from the most significant one.\<close>

definition bit6 :: "u8 list \<Rightarrow> nat \<Rightarrow> bool" where
  "bit6 bs j = bit (bs ! (j div 8)) (7 - j mod 8)"

lemma nth_fill_from: "k < length bs \<Longrightarrow> fill_from i v bs ! k = (if k < i then bs ! k else v)"
  by (simp add: fill_from_def nth_append)

lemma nth_set_below: "k < length bs \<Longrightarrow> set_below i v bs ! k = (if k < i then v else bs ! k)"
  by (auto simp: set_below_def nth_append min_def)

lemma bit_getMaskCode8: "r < 8 \<Longrightarrow> j < 8 \<Longrightarrow> bit (getMaskCode8 r) (7 - j) \<longleftrightarrow> r \<le> j"
proof -
  assume "r < 8" "j < 8"
  moreover have "getMaskCode8 r = mask (8 - r)"
    by (simp add: getMaskCode8_def mask_eq_exp_minus_1 push_bit_eq_mult)
  ultimately show ?thesis by (auto simp: bit_simps)
qed

lemma at_prefix_ok:
  assumes "length bs = 16" "p < 128"
  shows "at_prefix f p bs = Inr (bs[p div 8 := f (bs ! (p div 8)) (getMaskCode8 (p mod 8))])"
  using assms by (simp add: at_prefix_def Let_def less_mult_imp_div_less)

lemma position_cases:
  fixes j p :: nat
  shows "j div 8 < p div 8 \<and> j < p \<or> j div 8 = p div 8 \<and> (j < p \<longleftrightarrow> j mod 8 < p mod 8) \<or> p div 8 < j div 8 \<and> p < j"
proof -
  obtain a r b s where e: "a = j div 8" "r = j mod 8" "b = p div 8" "s = p mod 8" by blast
  have "j = 8 * a + r" "p = 8 * b + s" "r < 8" "s < 8" unfolding e by simp_all
  then show ?thesis
    unfolding e [symmetric] by (cases a b rule: linorder_cases) auto
qed

lemmas addr6_defs = getNetworkAddress6_def getHostAddress6_def getBroadcastAddress6_def
  getSubnetMask6_def with_addr_def at_prefix_ok

lemma bit6_set_from:
  assumes "length bs = 16" "p < 128" "j < 128"
  shows "bit6 (fill_from (p div 8 + 1) v (bs[p div 8 := b])) j \<longleftrightarrow>
    (if j div 8 < p div 8 then bit6 bs j else if j div 8 = p div 8 then bit b (7 - j mod 8) else bit v (7 - j mod 8))"
proof -
  have "j div 8 < length bs" using assms by (simp add: less_mult_imp_div_less)
  then show ?thesis by (auto simp: bit6_def nth_fill_from nth_list_update)
qed

lemma bit6_set_below:
  assumes "length bs = 16" "p < 128" "j < 128"
  shows "bit6 (set_below (p div 8) v (bs[p div 8 := b])) j \<longleftrightarrow>
    (if j div 8 < p div 8 then bit v (7 - j mod 8) else if j div 8 = p div 8 then bit b (7 - j mod 8) else bit6 bs j)"
proof -
  have "j div 8 < length bs" using assms by (simp add: less_mult_imp_div_less)
  then show ?thesis by (auto simp: bit6_def nth_set_below nth_list_update)
qed

lemma prefix_byte:
  fixes b :: u8
  shows "bit (b AND NOT (getMaskCode8 (p mod 8))) (7 - j mod 8) \<longleftrightarrow> bit b (7 - j mod 8) \<and> j mod 8 < p mod 8"
    "bit (b AND getMaskCode8 (p mod 8)) (7 - j mod 8) \<longleftrightarrow> bit b (7 - j mod 8) \<and> p mod 8 \<le> j mod 8"
    "bit (b OR getMaskCode8 (p mod 8)) (7 - j mod 8) \<longleftrightarrow> bit b (7 - j mod 8) \<or> p mod 8 \<le> j mod 8"
    "bit (NOT (getMaskCode8 (p mod 8))) (7 - j mod 8) \<longleftrightarrow> j mod 8 < p mod 8"
    "bit (0xff :: u8) (7 - j mod 8)"
proof -
  have m: "bit (getMaskCode8 (p mod 8)) (7 - j mod 8) \<longleftrightarrow> p mod 8 \<le> j mod 8" by (rule bit_getMaskCode8) simp_all
  have "7 - j mod 8 < LENGTH(8)" by simp
  then show "bit (b AND NOT (getMaskCode8 (p mod 8))) (7 - j mod 8) \<longleftrightarrow> bit b (7 - j mod 8) \<and> j mod 8 < p mod 8"
    "bit (b AND getMaskCode8 (p mod 8)) (7 - j mod 8) \<longleftrightarrow> bit b (7 - j mod 8) \<and> p mod 8 \<le> j mod 8"
    "bit (b OR getMaskCode8 (p mod 8)) (7 - j mod 8) \<longleftrightarrow> bit b (7 - j mod 8) \<or> p mod 8 \<le> j mod 8"
    "bit (NOT (getMaskCode8 (p mod 8))) (7 - j mod 8) \<longleftrightarrow> j mod 8 < p mod 8"
    by (simp_all only: bit_and_iff bit_or_iff bit_not_iff possible_bit_word m not_le simp_thms)
  have "bit (mask 8 :: u8) (7 - j mod 8)" by (simp only: bit_mask_iff possible_bit_word) simp
  then show "bit (0xff :: u8) (7 - j mod 8)" by (simp add: mask_eq_exp_minus_1)
qed

lemma bit6_network:
  assumes "length bs = 16" "p < 128" "j < 128"
  shows "bit6 (fill_from (p div 8 + 1) 0 (bs[p div 8 := bs ! (p div 8) AND NOT (getMaskCode8 (p mod 8))])) j \<longleftrightarrow> j < p \<and> bit6 bs j"
    "bit6 (set_below (p div 8) 0 (bs[p div 8 := bs ! (p div 8) AND getMaskCode8 (p mod 8)])) j \<longleftrightarrow> p \<le> j \<and> bit6 bs j"
    "bit6 (fill_from (p div 8 + 1) 0xff (bs[p div 8 := bs ! (p div 8) OR getMaskCode8 (p mod 8)])) j \<longleftrightarrow> p \<le> j \<or> bit6 bs j"
    "bit6 (fill_from (p div 8 + 1) 0xff (bs[p div 8 := NOT (getMaskCode8 (p mod 8))])) j \<longleftrightarrow>
       (if j div 8 = p div 8 then j < p else p \<le> j \<or> bit6 bs j)"
proof -
  define v :: u8 where "v = 0xff"
  have ff: "bit v (7 - j mod 8)" unfolding v_def by (rule prefix_byte(5))
  show "bit6 (fill_from (p div 8 + 1) 0 (bs[p div 8 := bs ! (p div 8) AND NOT (getMaskCode8 (p mod 8))])) j \<longleftrightarrow> j < p \<and> bit6 bs j"
    "bit6 (set_below (p div 8) 0 (bs[p div 8 := bs ! (p div 8) AND getMaskCode8 (p mod 8)])) j \<longleftrightarrow> p \<le> j \<and> bit6 bs j"
    "bit6 (fill_from (p div 8 + 1) 0xff (bs[p div 8 := bs ! (p div 8) OR getMaskCode8 (p mod 8)])) j \<longleftrightarrow> p \<le> j \<or> bit6 bs j"
    "bit6 (fill_from (p div 8 + 1) 0xff (bs[p div 8 := NOT (getMaskCode8 (p mod 8))])) j \<longleftrightarrow>
       (if j div 8 = p div 8 then j < p else p \<le> j \<or> bit6 bs j)"
    unfolding bit6_set_from [OF assms] bit6_set_below [OF assms] prefix_byte v_def [symmetric]
    using position_cases [of j p] ff by (auto simp: bit6_def)
qed

text \<open>
  The arithmetic of IPv6 networks. For a prefix length below 128 the network address keeps
  the first bits and clears the others, the host address clears them and keeps the others, and
  the broadcast address sets the others; family, port, flow and scope stay. The subnet mask is
  right only inside the byte in which the prefix ends: the bytes before it are clear and those
  after it are set, so it never is the mask of the prefix. A prefix of exactly 128 writes
  behind the array.
\<close>

theorem ipv6_network_bits:
  assumes "length (s6_addr a) = 16" "p < 128"
  shows "(\<exists>n h b s. getNetworkAddress6 p a = Inr (Some (a\<lparr>s6_addr := n\<rparr>)) \<and>
      getHostAddress6 p a = Inr (Some (a\<lparr>s6_addr := h\<rparr>)) \<and>
      getBroadcastAddress6 p a = Inr (Some (a\<lparr>s6_addr := b\<rparr>)) \<and>
      getSubnetMask6 p a = Inr (Some (IPv6Address_zero\<lparr>s6_addr := s\<rparr>)) \<and>
      (\<forall>j < 128. (bit6 n j \<longleftrightarrow> j < p \<and> bit6 (s6_addr a) j) \<and> (bit6 h j \<longleftrightarrow> p \<le> j \<and> bit6 (s6_addr a) j) \<and>
         (bit6 b j \<longleftrightarrow> p \<le> j \<or> bit6 (s6_addr a) j) \<and>
         (bit6 s j \<longleftrightarrow> (if j div 8 = p div 8 then j < p else p \<le> j))) \<and>
      (\<exists>j < 128. bit6 s j \<noteq> (j < p))) \<and>
    getNetworkAddress6 128 a = Inl Out_of_bounds \<and> getHostAddress6 128 a = Inl Out_of_bounds \<and>
    getBroadcastAddress6 128 a = Inl Out_of_bounds \<and> getSubnetMask6 128 a = Inl Out_of_bounds"
proof -
  have z: "length (s6_addr IPv6Address_zero) = 16" "\<And>j. j < 128 \<Longrightarrow> \<not> bit6 (s6_addr IPv6Address_zero) j"
    by (auto simp: IPv6Address_zero_def bit6_def less_mult_imp_div_less)
  let ?j = "if p < 120 then 127 else 0 :: nat"
  have j: "?j < 128" "?j div 8 \<noteq> p div 8" "p \<le> ?j \<longleftrightarrow> \<not> ?j < p" "p \<le> ?j \<longleftrightarrow> p < 120"
    using assms(2) by auto
  then have wrong: "\<exists>j < 128. (if j div 8 = p div 8 then j < p else p \<le> j) \<noteq> (j < p)"
    by (intro exI [of _ ?j]) simp
  let ?s = "fill_from (p div 8 + 1) 0xff ((s6_addr IPv6Address_zero)[p div 8 := NOT (getMaskCode8 (p mod 8))])"
  have s: "\<forall>j < 128. bit6 ?s j \<longleftrightarrow> (if j div 8 = p div 8 then j < p else p \<le> j)"
    using bit6_network(4) [OF z(1) assms(2)] z(2) by simp
  then have ne: "\<exists>j < 128. bit6 ?s j \<noteq> (j < p)" using wrong by metis
  let ?at = "\<lambda>f. (s6_addr a)[p div 8 := f (s6_addr a ! (p div 8)) (getMaskCode8 (p mod 8))]"
  let ?n = "fill_from (p div 8 + 1) 0 (?at (\<lambda>b m. b AND NOT m))"
  let ?h = "set_below (p div 8) 0 (?at (\<lambda>b m. b AND m))"
  let ?b = "fill_from (p div 8 + 1) 0xff (?at (\<lambda>b m. b OR m))"
  have "getNetworkAddress6 p a = Inr (Some (a\<lparr>s6_addr := ?n\<rparr>))"
    "getHostAddress6 p a = Inr (Some (a\<lparr>s6_addr := ?h\<rparr>))"
    "getBroadcastAddress6 p a = Inr (Some (a\<lparr>s6_addr := ?b\<rparr>))"
    "getSubnetMask6 p a = Inr (Some (IPv6Address_zero\<lparr>s6_addr := ?s\<rparr>))"
    using assms z(1) by (simp_all add: addr6_defs)
  moreover have "getNetworkAddress6 128 a = Inl Out_of_bounds" "getHostAddress6 128 a = Inl Out_of_bounds"
    "getBroadcastAddress6 128 a = Inl Out_of_bounds" "getSubnetMask6 128 a = Inl Out_of_bounds"
    using assms(1) z(1) by (simp_all add: addr6_defs at_prefix_def)
  moreover have "\<forall>j < 128. (bit6 ?n j \<longleftrightarrow> j < p \<and> bit6 (s6_addr a) j) \<and> (bit6 ?h j \<longleftrightarrow> p \<le> j \<and> bit6 (s6_addr a) j) \<and>
      (bit6 ?b j \<longleftrightarrow> p \<le> j \<or> bit6 (s6_addr a) j) \<and> (bit6 ?s j \<longleftrightarrow> (if j div 8 = p div 8 then j < p else p \<le> j))"
    using s bit6_network(1-3) [OF assms] by blast
  ultimately show ?thesis using ne by blast
qed

theorem ipv6_network_bits_witness:
  "\<exists>n. getNetworkAddress6 60 IPv6Address_zero = Inr (Some (IPv6Address_zero\<lparr>s6_addr := n\<rparr>))"
proof -
  have "length (s6_addr IPv6Address_zero) = 16" by (simp add: IPv6Address_zero_def)
  then show ?thesis using ipv6_network_bits [of IPv6Address_zero 60] by auto
qed

section \<open>The order\<close>

text \<open>The bytes that are compared.\<close>

definition key :: "IAddress \<Rightarrow> u8 list" where
  "key a = take (getAddrLen a) (getAddr a)"

definition len_ok :: "IAddress \<Rightarrow> bool" where
  "len_ok a \<longleftrightarrow> getAddrLen a \<le> length (getAddr a)"

lemma memcmp_take: "memcmp (take (min (length xs) (length ys)) xs) (take (min (length xs) (length ys)) ys) = memcmp xs ys"
  by (induction xs ys rule: memcmp.induct) simp_all

lemma memcmp_lex:
  "(memcmp xs ys < 0 \<or> memcmp xs ys = 0 \<and> length xs < length ys) \<longleftrightarrow> ord_class.lexordp xs ys"
  "memcmp xs ys = 0 \<and> length xs = length ys \<longleftrightarrow> xs = ys"
  "memcmp xs ys \<in> {- 1, 0, 1}"
  by (induction xs ys rule: memcmp.induct) (auto simp: neq_Nil_conv)

lemma addr_less_lex:
  assumes "len_ok a" "len_ok b"
  shows "addr_less a b \<longleftrightarrow> ord_class.lexordp (key a) (key b)" "addr_eq a b \<longleftrightarrow> key a = key b"
proof -
  have l: "length (key a) = getAddrLen a" "length (key b) = getAddrLen b"
    using assms by (simp_all add: key_def len_ok_def)
  have t: "take (min (getAddrLen a) (getAddrLen b)) (getAddr a) = take (min (length (key a)) (length (key b))) (key a)"
    "take (min (getAddrLen a) (getAddrLen b)) (getAddr b) = take (min (length (key a)) (length (key b))) (key b)"
    unfolding l by (simp_all add: key_def min.commute)
  show "addr_less a b \<longleftrightarrow> ord_class.lexordp (key a) (key b)"
    unfolding addr_less_def Let_def t memcmp_take memcmp_lex(1) [symmetric]
    using l memcmp_lex(3) [of "key a" "key b"] by auto
  show "addr_eq a b \<longleftrightarrow> key a = key b"
    unfolding addr_eq_def Let_def t memcmp_take memcmp_lex(2) [symmetric] using l by auto
qed

text \<open>
  The comparison operators of addresses are a strict total order. For addresses whose
  length does not exceed their memory, \<open><\<close> is the lexicographic order of the bytes they show,
  \<open>==\<close> their equality and \<open>>\<close> the converse of \<open><\<close>; exactly one of the three holds, and \<open><\<close> is
  transitive, so addresses can be keys of ordered containers.
\<close>

theorem address_order_total:
  assumes "len_ok a" "len_ok b" "len_ok c"
  shows "(addr_less a b \<longleftrightarrow> ord_class.lexordp (key a) (key b)) \<and>
    (addr_eq a b \<longleftrightarrow> key a = key b) \<and> (addr_greater a b \<longleftrightarrow> addr_less b a) \<and>
    (addr_less a b \<or> addr_eq a b \<or> addr_greater a b) \<and>
    \<not> (addr_less a b \<and> addr_eq a b) \<and> \<not> (addr_less a b \<and> addr_greater a b) \<and> \<not> (addr_eq a b \<and> addr_greater a b) \<and>
    (addr_less a b \<and> addr_less b c \<longrightarrow> addr_less a c)"
  using lexordp_linear [of "key a" "key b"] lexordp_antisym [of "key a" "key b"] lexordp_trans [of "key a" "key b" "key c"]
    lexordp_irreflexive' [of "key a"]
  by (auto simp: addr_greater_def addr_neq_def addr_less_lex assms)

theorem address_order_total_witness:
  "addr_less (IPv4Address (IPv4Address_new 1 80)) (IPv4Address (IPv4Address_new 2 80)) \<or>
   addr_eq (IPv4Address (IPv4Address_new 1 80)) (IPv4Address (IPv4Address_new 2 80)) \<or>
   addr_greater (IPv4Address (IPv4Address_new 1 80)) (IPv4Address (IPv4Address_new 2 80))"
proof -
  have "len_ok (IPv4Address (IPv4Address_new 1 80))" "len_ok (IPv4Address (IPv4Address_new 2 80))"
    by (simp_all add: len_ok_def IPv4Address_new_def)
  from address_order_total [OF this this(1)] show ?thesis by blast
qed

section \<open>Memory and ports\<close>

definition own_family :: "IAddress \<Rightarrow> bool" where
  "own_family a \<longleftrightarrow> addr_wf a \<and> (case a of IPv4Address _ \<Rightarrow> getFamily a = AF_INET | IPv6Address _ \<Rightarrow> getFamily a = AF_INET6
     | UnixAddress _ _ \<Rightarrow> getFamily a = AF_UNIX | UnknownAddress _ \<Rightarrow> getFamily a \<notin> {AF_INET, AF_INET6})"

text \<open>
  An address survives its memory image: \<open>newAddress\<close> of the bytes that \<open>getAddr\<close> shows gives
  the address again for every class but \<open>UnixAddress\<close>, for which \<open>newAddress\<close> has no case; it
  becomes an \<open>UnknownAddress\<close> with the first 14 bytes of the path.
\<close>

theorem address_image_round_trip:
  assumes "own_family a"
  shows "newAddress (Some (getAddr a)) =
    Some (case a of UnixAddress u n \<Rightarrow> UnknownAddress \<lparr>sa_family = sun_family u, sa_data = take 14 (sun_path u)\<rparr> | _ \<Rightarrow> a)"
proof -
  have w: "le_word (le_bytes 2 (x :: u16)) = x" "le_word (le_bytes 4 (y :: u32)) = y" for x y
    by (simp_all add: le_word_le_bytes)
  show ?thesis
    using assms by (cases a) (auto simp: newAddress_def own_family_def in_of_def in6_of_def w AF_defs Let_def)
qed

theorem address_image_round_trip_witness:
  "newAddress (Some (getAddr (IPv6Address IPv6Address_zero))) = Some (IPv6Address IPv6Address_zero)"
proof -
  have "own_family (IPv6Address IPv6Address_zero)"
    by (simp add: own_family_def IPv6Address_zero_def AF_defs)
  from address_image_round_trip [OF this] show ?thesis by simp
qed

lemma swapped_port: "(ucast (byteSwap32 (ucast (port :: u16))) :: u16) = 0"
proof -
  have "\<not> bit port (swap_index i)" if "i < 16" for i
  proof -
    have "i div 8 \<le> 1" using that by auto
    then have "16 \<le> swap_index i" by (simp add: swap_index_def)
    then show ?thesis using bit_imp_le_length [of port "swap_index i"] by auto
  qed
  then show ?thesis by (intro bit_word_eqI) (simp add: bit_simps bit_byteSwap32)
qed

text \<open>
  Ports. The IPv4 accessors invert each other and the constructor. \<open>getPort\<close> of an IPv6
  address returns the port with its bytes swapped, and the IPv6 constructor, which swaps the
  port as a 32-bit integer before it truncates it, loses every port below 65536.
\<close>

theorem address_ports:
  "getPort4 (setPort4 port a) = ucast port \<and> getPort4 (IPv4Address_new addr port) = ucast port \<and>
   setPort4 (ucast (getPort4 a)) a = a \<and>
   getPort6 (setPort6 port b) = ucast (byteSwap16 port) \<and>
   getPort6 (IPv6Address_new bs (ucast port)) = 0"
proof -
  have "(ucast (ucast p :: u32) :: u16) = p" for p :: u16 by (rule bit_word_eqI) (simp add: bit_simps)
  then show ?thesis
    by (simp add: getPort4_def setPort4_def getPort6_def setPort6_def IPv4Address_new_def IPv6Address_new_def
      OnLittleEndian swapped_port)
qed

section \<open>UNIX paths\<close>

lemma unix_new:
  assumes "length path < 2 ^ 32 - 1" and L: "L = (if path \<noteq> [] \<and> path ! 0 = 0 then length path else length path + 1)"
  shows "UnixAddress_new path =
    (if 108 < L then Inl Path_too_long
     else Inr (UnixAddress \<lparr>sun_family = 1, sun_path = take L (path @ [0]) @ replicate (108 - L) 0\<rparr> (of_nat (L + 2))))"
proof -
  have w: "(if path \<noteq> [] \<and> path ! 0 = 0 then of_nat (length path) + 1 - 1 else of_nat (length path) + 1 :: u32) = of_nat L"
    by (simp add: L)
  have "L < 2 ^ 32" using assms by auto
  then have u: "unat (of_nat L :: u32) = L" by (simp add: unat_of_nat)
  then have gt: "108 < (of_nat L :: u32) \<longleftrightarrow> 108 < L" by (simp only: word_less_nat_alt) simp
  have "length (take L (path @ [0])) = L" using L by (simp add: min_def)
  then show ?thesis
    by (simp only: UnixAddress_new_def Let_def w gt u overlay_def) simp
qed

lemma unat_len: "L \<le> 108 \<Longrightarrow> unat (of_nat (L + 2) :: u32) = L + 2"
  by (simp only: unat_of_nat) simp

text \<open>
  UNIX addresses. A path is accepted exactly when it fits into the 108 bytes of the
  structure, with its terminator unless the socket is abstract; the length counts the family
  and the bytes used. A path without NUL is shown as it is, an abstract name after \<open>\0\<close>.
\<close>

theorem unix_address_path:
  assumes "length path < 2 ^ 32 - 1"
  shows "case UnixAddress_new path of
      Inl e \<Rightarrow> e = Path_too_long \<and> (if path \<noteq> [] \<and> path ! 0 = 0 then 108 < length path else 107 < length path)
    | Inr a \<Rightarrow> addr_wf a \<and> len_ok a \<and> getFamily a = AF_UNIX \<and>
        getAddrLen a = 2 + (if path \<noteq> [] \<and> path ! 0 = 0 then length path else length path + 1) \<and>
        take (length path) (drop 2 (getAddr a)) = path \<and>
        (path \<noteq> [] \<longrightarrow> 0 \<notin> set path \<longrightarrow> display a = chars_of path) \<and>
        (path \<noteq> [] \<longrightarrow> path ! 0 = 0 \<longrightarrow> display a = CHR 0x5C # ''0'' @ chars_of (tl path))"
proof -
  define L where "L = (if path \<noteq> [] \<and> path ! 0 = 0 then length path else length path + 1)"
  let ?p = "take L (path @ [0]) @ replicate (108 - L) 0"
  let ?a = "UnixAddress \<lparr>sun_family = 1, sun_path = ?p\<rparr> (of_nat (L + 2))"
  note new = unix_new [OF assms L_def]
  show ?thesis
  proof (cases "108 < L")
    case True
    then show ?thesis by (auto simp: new L_def split: if_splits)
  next
    case False
    have "length path \<le> L" "L \<le> length path + 1" by (simp_all add: L_def)
    then have len: "unat (of_nat (L + 2) :: u32) = L + 2" "length ?p = 108" "length path \<le> L"
      using unat_len [of L] False by auto
    then have wf: "addr_wf ?a \<and> len_ok ?a \<and> getFamily ?a = AF_UNIX \<and> getAddrLen ?a = 2 + L \<and>
        take (length path) (drop 2 (getAddr ?a)) = path"
      using False by (simp add: len_ok_def AF_defs)
    have plain: "display ?a = chars_of path" if "path \<noteq> []" "0 \<notin> set path"
    proof -
      have "path ! 0 \<noteq> 0" using that by (cases path) auto
      then have "?p = path @ 0 # replicate (107 - length path) 0" "?p ! 0 \<noteq> 0"
        using that by (simp_all add: L_def nth_append)
      moreover have "takeWhile (\<lambda>b. b \<noteq> 0) (path @ 0 # ys) = path" for ys
        using that by (subst takeWhile_append2) auto
      ultimately show ?thesis using that by (simp add: displayUn_def)
    qed
    have abs: "display ?a = CHR 0x5C # ''0'' @ chars_of (tl path)" if "path \<noteq> []" "path ! 0 = 0"
    proof -
      have L: "L = length path" "?p ! 0 = 0" using that by (simp_all add: L_def nth_append)
      have "of_nat (L + 2) - 3 = (of_nat (L - 1) :: u32)" using that L(1) by (cases path) simp_all
      moreover have "unat (of_nat (L - 1) :: u32) = L - 1" using False by (simp only: unat_of_nat) simp
      moreover have "2 < (of_nat (L + 2) :: u32)" using len(1) that L(1) by (simp only: word_less_nat_alt) simp
      ultimately show ?thesis using that L by (cases path) (simp_all add: displayUn_def)
    qed
    show ?thesis using False wf plain abs by (simp add: new L_def)
  qed
qed

theorem unix_address_path_witness:
  "case UnixAddress_new [47, 116] of Inl e \<Rightarrow> False | Inr a \<Rightarrow> getAddrLen a = 5 \<and> display a = chars_of [47, 116]"
  using unix_address_path [of "[47, 116]"] by (simp split: sum.splits)

section \<open>Look-ups\<close>

lemma memchr_append: "c \<notin> set xs \<Longrightarrow> memchr c (xs @ c # ys) = Some (length xs)"
  by (induction xs) auto

lemma memchr_None: "memchr c xs = None \<longleftrightarrow> c \<notin> set xs"
  by (induction xs) auto

text \<open>
  How \<open>newAddressByHost\<close> splits its argument. A node without colon, a colon and a service
  are split at the colon, and a text without colon is a node of its own. A bracketed IPv6
  address is not recognised, because the test for the opening bracket looks for the closing
  one: the text is split at its first colon, which is inside the address.
\<close>

theorem host_node_service_split:
  assumes "CHR '':'' \<notin> set node" "node \<noteq> []" "node ! 0 \<noteq> CHR '']''" "service \<noteq> []" "CHR '':'' \<notin> set xs"
  shows "host_node_service (node @ CHR '':'' # service) = (node, Some service) \<and>
    host_node_service node = (node, None) \<and>
    host_node_service (CHR ''['' # xs @ CHR '':'' # service) = (CHR ''['' # xs, Some service)"
proof -
  have "(node @ CHR '':'' # service) ! 0 = node ! 0" using assms(2) by (simp add: nth_append)
  moreover have "memchr CHR '':'' node = None" using assms(1) by (simp add: memchr_None)
  moreover have "memchr CHR '':'' (CHR ''['' # xs @ CHR '':'' # service) = Some (Suc (length xs))"
    using memchr_append [of "CHR '':''" xs service] assms(5) by simp
  ultimately show ?thesis
    using assms by (simp add: host_node_service_def memchr_append)
qed

theorem host_node_service_split_witness:
  "host_node_service ''localhost:http'' = (''localhost'', Some ''http'') \<and>
   host_node_service ''[::1]:80'' = (''['', Some '':1]:80'')"
  using host_node_service_split [of "''localhost''" "''http''" "[]"] host_node_service_split [of "''h''" "'':1]:80''" "[]"] by simp

definition all_match :: "int \<Rightarrow> ifaddr list \<Rightarrow> bool" where
  "all_match family ifs \<longleftrightarrow> family = AF_UNSPEC \<or> list_all (\<lambda>i. ifa_family i = family) ifs"

lemma interface_loop_ends:
  assumes "interface_loop family nxt result = Some r"
  shows "all_match family nxt"
proof (rule interface_loop.raw_induct [where P = "\<lambda>f n res r. all_match f n", OF _ assms], goal_cases)
  case (1 g f n res r)
  show ?case
  proof (cases n)
    case (Cons i is')
    then show ?thesis using 1(1) [of f n res r] 1(1) [of f is'] 1(2) by (auto simp: all_match_def split: if_splits)
  qed (simp add: all_match_def)
qed

lemma interface_loop_all:
  "all_match family nxt \<Longrightarrow> interface_loop family nxt result = Some (result @ List.map_filter interface_info nxt)"
proof (induction nxt arbitrary: result)
  case (Cons i tl)
  then show ?case
    by (subst interface_loop.simps) (auto simp: all_match_def map_filter_simps split: option.split)
qed (simp add: interface_loop.simps map_filter_simps)

text \<open>
  \<open>getInterfaceAddress\<close> with a family returns only when every interface has that family, and
  then with all of them that have an IPv4 or IPv6 address, in order, with the prefix length of
  their netmask. As soon as one interface has another family, the loop does not advance past
  it and the call never returns.
\<close>

theorem interface_lookup_hangs:
  "getInterfaceAddress (Some ifs) family res =
    (if family = AF_UNSPEC \<or> list_all (\<lambda>i. ifa_family i = family) ifs
     then Some (True, res @ List.map_filter interface_info ifs) else None)"
proof -
  have "interface_loop family ifs res = None" if "\<not> all_match family ifs"
    using that interface_loop_ends [of family ifs res] by (cases "interface_loop family ifs res") auto
  then show ?thesis
    using interface_loop_all [of family ifs res] by (auto simp: getInterfaceAddress_def all_match_def)
qed

end
