(* ===== verification/Log.thy ===== *)
theory Log
  imports Text_Out
begin

text \<open>
  Logging (\<open>src/src/log.hpp\<close>, \<open>log.cpp\<close>, \<open>logUtil.hpp\<close>, \<open>logUtil.cpp\<close>): levels, the
  format patterns and their items, appenders, loggers and the log manager. Loggers and appenders are shared objects and live in stores;
  what appenders write is kept as a list. \<open>strftime\<close> on the local time is a parameter, and so is
  whether a file can be opened.
\<close>

section \<open>Levels\<close>

text \<open>A number that is no enumerator can be cast to the type, as \<open>onLogChange\<close> does.\<close>

datatype Level = UNKNOWN | DEBUG | INFO | WARN | ERROR | FATAL | LevelMaxinum | Level_cast nat

fun level_num :: "Level \<Rightarrow> nat" where
  "level_num UNKNOWN = 0"
| "level_num DEBUG = 1"
| "level_num INFO = 2"
| "level_num WARN = 3"
| "level_num ERROR = 4"
| "level_num FATAL = 5"
| "level_num LevelMaxinum = 6"
| "level_num (Level_cast n) = n"

definition level_toString :: "Level \<Rightarrow> string" where
  "level_toString level =
     (if level_num level = level_num DEBUG then ''DEBUG''
      else if level_num level = level_num INFO then ''INFO''
      else if level_num level = level_num WARN then ''WARN''
      else if level_num level = level_num ERROR then ''ERROR''
      else if level_num level = level_num FATAL then ''FATAL''
      else ''UNKNOWN'')"

definition level_fromString :: "string \<Rightarrow> Level" where
  "level_fromString level =
     (if level = ''DEBUG'' then DEBUG
      else if level = ''INFO'' then INFO
      else if level = ''WARN'' then WARN
      else if level = ''ERROR'' then ERROR
      else if level = ''FATAL'' then FATAL
      else DEBUG)"

section \<open>Events and format items\<close>

record log_event =
  e_level :: Level
  e_elapse :: int
  e_times :: int
  e_pid :: int
  e_tid :: int
  e_cid :: u32
  e_lines :: u32
  e_file :: string
  e_func :: string
  e_logname :: string
  e_threadName :: string
  e_msg :: string

datatype item =
    LogMessageItem | LogRegularItem string | LogLevelItem | LogDateItem string | LogThreadItem
  | ThreadNameItem | LogProcessItem | LogElapseItem | LogCoroutineItem | LogFunctionItem
  | LogFileItem | LogLineItem | LogTabItem | LogNewLineItem | LogNameItem | LogBackTraceItem

text \<open>The table of constructors.\<close>

definition make_item :: "string \<Rightarrow> string \<Rightarrow> item option" where
  "make_item type fmt =
     (if type = ''s'' then Some LogMessageItem
      else if type = ''r'' then Some (LogRegularItem fmt)
      else if type = ''L'' then Some LogLevelItem
      else if type = ''D'' then Some (LogDateItem fmt)
      else if type = ''T'' then Some LogThreadItem
      else if type = ''K'' then Some ThreadNameItem
      else if type = ''P'' then Some LogProcessItem
      else if type = ''E'' then Some LogElapseItem
      else if type = ''C'' then Some LogCoroutineItem
      else if type = ''f'' then Some LogFunctionItem
      else if type = ''F'' then Some LogFileItem
      else if type = ''l'' then Some LogLineItem
      else if type = ''t'' then Some LogTabItem
      else if type = ''n'' then Some LogNewLineItem
      else if type = ''N'' then Some LogNameItem
      else if type = ''B'' then Some LogBackTraceItem
      else None)"

text \<open>\<open>date fmt t\<close> is the text that \<open>strftime\<close> writes for the local time \<open>t\<close>.\<close>

fun item_format :: "(string \<Rightarrow> int \<Rightarrow> string) \<Rightarrow> log_event \<Rightarrow> item \<Rightarrow> string" where
  "item_format date e LogMessageItem = e_msg e"
| "item_format date e (LogRegularItem str) = str"
| "item_format date e LogLevelItem = level_toString (e_level e)"
| "item_format date e (LogDateItem fmt) = date fmt (e_times e)"
| "item_format date e LogThreadItem = dec_int (e_tid e)"
| "item_format date e ThreadNameItem = e_threadName e"
| "item_format date e LogProcessItem = dec_int (e_pid e)"
| "item_format date e LogElapseItem = dec_int (e_elapse e)"
| "item_format date e LogCoroutineItem = dec (unat (e_cid e))"
| "item_format date e LogFunctionItem = e_func e"
| "item_format date e LogFileItem = e_file e"
| "item_format date e LogLineItem = dec (unat (e_lines e))"
| "item_format date e LogTabItem = [CHR 0x09]"
| "item_format date e LogNewLineItem = [CHR 0x0A]"
| "item_format date e LogNameItem = e_logname e"
| "item_format date e LogBackTraceItem = []"

section \<open>Format patterns\<close>

datatype FormatType = REGULAR | NOAPPENDFORMAT | APPENDFORMAT | FORMATERROR

type_synonym entry = "string \<times> string \<times> FormatType"

definition isalpha :: "char \<Rightarrow> bool" where
  "isalpha c \<longleftrightarrow> (65 \<le> (of_char c :: nat) \<and> (of_char c :: nat) \<le> 90) \<or> (97 \<le> (of_char c :: nat) \<and> (of_char c :: nat) \<le> 122)"

text \<open>
  The loop of \<open>Formatter::init\<close> over the rest of the pattern: the literal text so far, the
  entries so far, and as result whether it stopped with an error.
\<close>

function scan :: "string \<Rightarrow> string \<Rightarrow> entry list \<Rightarrow> bool \<times> string \<times> entry list" where
  "scan [] reg st = (False, reg, st)"
| "scan (c # cs) reg st =
     (if c \<noteq> CHR ''%'' then scan cs (reg @ [c]) st
      else case cs of
             [] \<Rightarrow> (True, reg, st @ [(''ERROR'', ''%'', FORMATERROR)])
           | d # ds \<Rightarrow>
               if d = CHR ''%'' then scan ds (reg @ [d]) st
               else
                 let st1 = (if reg \<noteq> [] then st @ [(''r'', reg, REGULAR)] else st)
                 in if \<not> isalpha d then (True, [], st1 @ [(''ERROR'', [d], FORMATERROR)])
                    else if ds = [] \<or> ds ! 0 \<noteq> CHR ''{'' then scan ds [] (st1 @ [([d], [], NOAPPENDFORMAT)])
                    else
                      let app = takeWhile (\<lambda>x. x \<noteq> CHR ''}'') (tl ds);
                          rest = dropWhile (\<lambda>x. x \<noteq> CHR ''}'') (tl ds)
                      in if rest = [] then (True, [], st1 @ [(app, [], FORMATERROR)])
                         else scan (tl rest) [] (st1 @ [([d], app, if app = [] then NOAPPENDFORMAT else APPENDFORMAT)]))"
  by pat_completeness auto

lemma tl_dropWhile_less: "length (tl (dropWhile P (tl ds))) < Suc (Suc (length ds))"
proof -
  have "length (dropWhile P (tl ds)) \<le> length (tl ds)" by (rule length_dropWhile_le)
  then show ?thesis by simp
qed

termination scan
  by (relation "measure (\<lambda>(cs, _, _). length cs)") (use tl_dropWhile_less in \<open>simp_all del: length_tl\<close>)

declare scan.simps [simp del]

record formatter =
  i_error :: bool
  s_pattern :: string
  v_items :: "item list"

definition Formatter :: "string \<Rightarrow> formatter" where
  "Formatter pattern =
     (case scan pattern [] [] of
        (True, _, _) \<Rightarrow> \<lparr>i_error = True, s_pattern = pattern, v_items = []\<rparr>
      | (False, reg, st) \<Rightarrow>
          \<lparr>i_error = False, s_pattern = pattern,
           v_items = List.map_filter (\<lambda>(type, app, _). make_item type app)
             (if reg \<noteq> [] then st @ [(''r'', reg, REGULAR)] else st)\<rparr>)"

definition isCorrect :: "formatter \<Rightarrow> bool" where
  "isCorrect f \<longleftrightarrow> \<not> i_error f"

definition formatter_format :: "(string \<Rightarrow> int \<Rightarrow> string) \<Rightarrow> formatter \<Rightarrow> log_event \<Rightarrow> string" where
  "formatter_format date f e = concat (map (item_format date e) (v_items f))"

section \<open>Appenders and loggers\<close>

datatype sink = Stdout | File string

record appender =
  ap_sink :: sink
  ap_open :: bool
  ap_formatter :: "formatter option"

record logger =
  lg_name :: string
  lg_level :: Level
  lg_btLevel :: Level
  lg_formatter :: formatter
  lg_appenders :: "nat list"

text \<open>
  The logging system: the stores of appenders and loggers, the root logger, the two maps of
  the manager, its standard output appender, and what was written. An entry of \<open>log_map\<close> that
  \<open>operator[]\<close> created is a null pointer.
\<close>

record log_system =
  aps :: "nat \<Rightarrow> appender"
  next_ap :: nat
  lgs :: "nat \<Rightarrow> logger"
  next_lg :: nat
  root :: nat
  log_map :: "string \<rightharpoonup> nat option"
  app_map :: "string \<rightharpoonup> nat"
  stdoutAppender :: nat
  written :: "(sink \<times> string) list"

definition Logger_new :: "Level \<Rightarrow> string \<Rightarrow> string \<Rightarrow> logger" where
  "Logger_new level fmt name =
     \<lparr>lg_name = name, lg_level = level, lg_btLevel = ERROR, lg_formatter = Formatter fmt, lg_appenders = []\<rparr>"

definition LogEvent_new :: "log_system \<Rightarrow> nat \<Rightarrow> log_event \<Rightarrow> log_event" where
  "LogEvent_new s l e = (if e_logname e = [] then e\<lparr>e_logname := lg_name (lgs s l)\<rparr> else e)"

definition StdoutAppender :: appender where
  "StdoutAppender = \<lparr>ap_sink = Stdout, ap_open = True, ap_formatter = None\<rparr>"

text \<open>\<open>can_open\<close> tells whether the stream could be opened.\<close>

definition reopen :: "(string \<Rightarrow> bool) \<Rightarrow> appender \<Rightarrow> bool \<times> appender" where
  "reopen can_open a =
     (case ap_sink a of
        Stdout \<Rightarrow> (True, a)
      | File name \<Rightarrow> if can_open name then (True, a\<lparr>ap_open := True\<rparr>) else (False, a))"

definition FileAppender :: "(string \<Rightarrow> bool) \<Rightarrow> string \<Rightarrow> appender" where
  "FileAppender can_open filename = snd (reopen can_open \<lparr>ap_sink = File filename, ap_open = False, ap_formatter = None\<rparr>)"

definition getFileName :: "appender \<Rightarrow> string" where
  "getFileName a = (case ap_sink a of Stdout \<Rightarrow> ''s4d0ut'' | File name \<Rightarrow> name)"

definition setFormatter :: "formatter \<Rightarrow> appender \<Rightarrow> appender" where
  "setFormatter f a = a\<lparr>ap_formatter := Some f\<rparr>"

definition upd_ap :: "nat \<Rightarrow> (appender \<Rightarrow> appender) \<Rightarrow> log_system \<Rightarrow> log_system" where
  "upd_ap i f s = s\<lparr>aps := (aps s)(i := f (aps s i))\<rparr>"

definition upd_lg :: "nat \<Rightarrow> (logger \<Rightarrow> logger) \<Rightarrow> log_system \<Rightarrow> log_system" where
  "upd_lg i f s = s\<lparr>lgs := (lgs s)(i := f (lgs s i))\<rparr>"

definition new_ap :: "appender \<Rightarrow> log_system \<Rightarrow> nat \<times> log_system" where
  "new_ap a s = (next_ap s, s\<lparr>aps := (aps s)(next_ap s := a), next_ap := Suc (next_ap s)\<rparr>)"

definition logger_addAppender :: "nat \<Rightarrow> nat \<Rightarrow> log_system \<Rightarrow> log_system" where
  "logger_addAppender l a s =
     (if a \<in> set (lg_appenders (lgs s l)) then s
      else
        let s1 = (if ap_formatter (aps s a) = None then upd_ap a (setFormatter (lg_formatter (lgs s l))) s else s)
        in upd_lg l (\<lambda>g. g\<lparr>lg_appenders := lg_appenders g @ [a]\<rparr>) s1)"

definition logger_delAppender :: "nat \<Rightarrow> nat \<Rightarrow> log_system \<Rightarrow> log_system" where
  "logger_delAppender l a s = upd_lg l (\<lambda>g. g\<lparr>lg_appenders := remove1 a (lg_appenders g)\<rparr>) s"

definition clearAppender :: "nat \<Rightarrow> log_system \<Rightarrow> log_system" where
  "clearAppender l s = upd_lg l (\<lambda>g. g\<lparr>lg_appenders := []\<rparr>) s"

definition setLogLevel :: "Level \<Rightarrow> nat \<Rightarrow> log_system \<Rightarrow> log_system" where
  "setLogLevel level l s = upd_lg l (\<lambda>g. g\<lparr>lg_level := level\<rparr>) s"

text \<open>\<open>Appender::log\<close> of both classes: the level of the event decides, against that of the logger.\<close>

definition appender_log ::
  "(string \<Rightarrow> bool) \<Rightarrow> (string \<Rightarrow> int \<Rightarrow> string) \<Rightarrow> nat \<Rightarrow> log_event \<Rightarrow> nat \<Rightarrow> log_system \<Rightarrow> log_system" where
  "appender_log can_open date l e a s =
     (let s1 = (if \<not> ap_open (aps s a) then upd_ap a (\<lambda>x. snd (reopen can_open x)) s else s)
      in if ap_open (aps s1 a) \<and> level_num (lg_level (lgs s1 l)) \<le> level_num (e_level e)
         then s1\<lparr>written := written s1 @ [(ap_sink (aps s1 a), formatter_format date (the (ap_formatter (aps s1 a))) e)]\<rparr>
         else s1)"

text \<open>
  \<open>Logger::log\<close>. The logger's mutex is held while the root logger is called, so a root logger
  without appenders, which calls itself, waits for its own mutex for ever. \<open>held\<close> is the list of
  loggers whose mutex the thread holds.
\<close>

datatype log_error = Deadlock | NullLogger | AssertFatal

function logger_log ::
  "(string \<Rightarrow> bool) \<Rightarrow> (string \<Rightarrow> int \<Rightarrow> string) \<Rightarrow> nat list \<Rightarrow> Level \<Rightarrow> nat \<Rightarrow> log_event \<Rightarrow> log_system \<Rightarrow>
   (log_error + unit) \<times> log_system" where
  "logger_log can_open date held level l e s =
     (if level_num (lg_level (lgs s l)) \<le> level_num level
      then if l \<in> set held then (Inl Deadlock, s)
           else if lg_appenders (lgs s l) = [] then logger_log can_open date (l # held) level (root s) e s
           else (Inr (), fold (appender_log can_open date l e) (lg_appenders (lgs s l)) s)
      else (Inr (), s))"
  by pat_completeness auto

termination logger_log
  by (relation "measure (\<lambda>(_, _, held, _, l, _, s). if l \<in> set held then 0 else if l = root s then 1 else 2)") auto

declare logger_log.simps [simp del]

section \<open>The manager\<close>

definition new_logger :: "logger \<Rightarrow> log_system \<Rightarrow> nat \<times> log_system" where
  "new_logger g s = (next_lg s, s\<lparr>lgs := (lgs s)(next_lg s := g), next_lg := Suc (next_lg s)\<rparr>)"

definition lookUpFileAppender :: "string \<Rightarrow> log_system \<Rightarrow> nat option" where
  "lookUpFileAppender filename s = app_map s filename"

definition addStdoutAppender :: "string \<Rightarrow> log_system \<Rightarrow> (log_error + bool) \<times> log_system" where
  "addStdoutAppender name s =
     (case log_map s name of
        None \<Rightarrow> (Inr False, s)
      | Some None \<Rightarrow> (Inl NullLogger, s)
      | Some (Some l) \<Rightarrow> (Inr True, logger_addAppender l (stdoutAppender s) s))"

definition mgr_addAppender :: "string \<Rightarrow> nat \<Rightarrow> log_system \<Rightarrow> (log_error + unit) \<times> log_system" where
  "mgr_addAppender name a s =
     (let s1 = s\<lparr>app_map := (app_map s)(getFileName (aps s a) \<mapsto> a)\<rparr>
      in case log_map s1 name of
           Some (Some l) \<Rightarrow> (Inr (), logger_addAppender l a s1)
         | _ \<Rightarrow> (Inl NullLogger, s1\<lparr>log_map := (log_map s1)(name \<mapsto> None)\<rparr>))"

definition addFileAppender :: "(string \<Rightarrow> bool) \<Rightarrow> string \<Rightarrow> string \<Rightarrow> log_system \<Rightarrow> (log_error + bool) \<times> log_system" where
  "addFileAppender can_open name filename s =
     (case log_map s name of
        None \<Rightarrow> (Inr False, s)
      | Some None \<Rightarrow> (Inl NullLogger, s)
      | Some (Some l) \<Rightarrow>
          (case (case lookUpFileAppender filename s of
                   Some a \<Rightarrow> (a, s)
                 | None \<Rightarrow> new_ap (FileAppender can_open filename) s) of
             (a, s1) \<Rightarrow>
               let s2 = (if app_map s1 filename = None then s1\<lparr>app_map := (app_map s1)(filename \<mapsto> a)\<rparr> else s1)
               in (Inr True, logger_addAppender l a s2)))"

definition delStdoutAppender :: "string \<Rightarrow> log_system \<Rightarrow> (log_error + unit) \<times> log_system" where
  "delStdoutAppender name s =
     (case log_map s name of
        None \<Rightarrow> (Inr (), s)
      | Some None \<Rightarrow> (Inl NullLogger, s)
      | Some (Some l) \<Rightarrow> (Inr (), logger_delAppender l (stdoutAppender s) s))"

definition delFileAppender :: "string \<Rightarrow> string \<Rightarrow> log_system \<Rightarrow> (log_error + unit) \<times> log_system" where
  "delFileAppender name filename s =
     (case log_map s name of
        None \<Rightarrow> (Inr (), s)
      | Some lg \<Rightarrow>
          (case lookUpFileAppender filename s of
             None \<Rightarrow> (Inr (), s)
           | Some a \<Rightarrow> (case lg of None \<Rightarrow> (Inl NullLogger, s) | Some l \<Rightarrow> (Inr (), logger_delAppender l a s))))"

text \<open>A name that is not registered gives the root logger.\<close>

definition mgr_lookUp :: "string \<Rightarrow> log_system \<Rightarrow> nat option" where
  "mgr_lookUp name s =
     (case log_map s name of
        Some lg \<Rightarrow> lg
      | None \<Rightarrow> (case log_map s ''root'' of Some lg \<Rightarrow> lg | None \<Rightarrow> None))"

definition delLogger :: "string \<Rightarrow> log_system \<Rightarrow> log_system" where
  "delLogger name s = (if name = ''root'' then s else s\<lparr>log_map := (log_map s)(name := None)\<rparr>)"

definition addLogger :: "string \<Rightarrow> Level \<Rightarrow> string \<Rightarrow> log_system \<Rightarrow> nat \<times> log_system" where
  "addLogger name level fmt s =
     (case new_logger (Logger_new level fmt name) s of
        (l, s1) \<Rightarrow> (l, s1\<lparr>log_map := (log_map s1)(name \<mapsto> Some l)\<rparr>))"

definition default_fmt :: string where
  "default_fmt = ''%D{%Y-%m-%d %H:%M:%S}%t%N%t[%L]%t%C%t%K(%T)%t%F:%l(%f)%t%s%B%n''"

definition ADD_LOGGER :: "string \<Rightarrow> Level \<Rightarrow> string \<Rightarrow> log_system \<Rightarrow> nat \<times> log_system" where
  "ADD_LOGGER name level fmt s = (if fmt = [] then addLogger name level default_fmt s else addLogger name level fmt s)"

definition root_fmt :: string where
  "root_fmt = ''%D{%Y-%m-%d %H:%M:%S}%t%N%t[%L]%t%P%t%T%t%F:%l(%f)%t%s%B%n''"

definition LogMgr :: "(string \<Rightarrow> bool) \<Rightarrow> log_system" where
  "LogMgr can_open =
     (let s0 = \<lparr>aps = (\<lambda>_. StdoutAppender), next_ap = 1, lgs = (\<lambda>_. Logger_new INFO root_fmt ''root''), next_lg = 1,
                root = 0, log_map = Map.empty, app_map = [''s4d0ut'' \<mapsto> 0], stdoutAppender = 0, written = []\<rparr>;
          s1 = logger_addAppender 0 0 s0;
          s2 = s1\<lparr>log_map := (log_map s1)(''root'' \<mapsto> Some 0)\<rparr>
      in snd (addFileAppender can_open ''root'' ''root.log'' s2))"

section \<open>Configured loggers\<close>

text \<open>
  \<open>AppenderDefine\<close> and \<open>LogDefine\<close>; \<open>ad_type\<close> is false for standard output. Two definitions are
  equal up to \<open>btLevel\<close>, and \<open>std::set\<close> orders and finds them by their names.
\<close>

record AppenderDefine =
  ad_format :: string
  ad_level :: Level
  ad_type :: bool
  ad_filename :: string

record LogDefine =
  ld_logName :: string
  ld_format :: string
  ld_apps :: "AppenderDefine list"
  ld_level :: Level
  ld_btLevel :: Level

definition ld_eq :: "LogDefine \<Rightarrow> LogDefine \<Rightarrow> bool" where
  "ld_eq x y \<longleftrightarrow> ld_logName x = ld_logName y \<and> ld_format x = ld_format y \<and> ld_apps x = ld_apps y \<and>
     ld_level x = ld_level y"

definition ld_find :: "LogDefine list \<Rightarrow> LogDefine \<Rightarrow> LogDefine option" where
  "ld_find defs item = find (\<lambda>x. ld_logName x = ld_logName item) defs"

definition ld_isValid :: "LogDefine \<Rightarrow> bool" where
  "ld_isValid d \<longleftrightarrow> ld_logName d \<noteq> []"

definition make_appender :: "(string \<Rightarrow> bool) \<Rightarrow> AppenderDefine \<Rightarrow> appender" where
  "make_appender can_open i =
     (let ap = (if \<not> ad_type i then StdoutAppender else FileAppender can_open (ad_filename i));
          fmt = Formatter (ad_format i)
      in if ad_format i \<noteq> [] \<and> isCorrect fmt then setFormatter fmt ap else ap)"

fun define_apps :: "(string \<Rightarrow> bool) \<Rightarrow> string \<Rightarrow> AppenderDefine list \<Rightarrow> log_system \<Rightarrow> (log_error + unit) \<times> log_system" where
  "define_apps can_open name [] s = (Inr (), s)"
| "define_apps can_open name (i # is) s =
     (case new_ap (make_appender can_open i) s of
        (a, s1) \<Rightarrow>
          (case mgr_addAppender name a s1 of
             (Inl e, s2) \<Rightarrow> (Inl e, s2)
           | (Inr _, s2) \<Rightarrow> define_apps can_open name is s2))"

definition define_logger :: "(string \<Rightarrow> bool) \<Rightarrow> LogDefine \<Rightarrow> log_system \<Rightarrow> (log_error + unit) \<times> log_system" where
  "define_logger can_open item s =
     (case ADD_LOGGER (ld_logName item) (ld_level item) (ld_format item) s of
        (l, s1) \<Rightarrow>
          let s2 = upd_lg l (\<lambda>g. g\<lparr>lg_btLevel := ld_btLevel item\<rparr>) s1;
              s3 = setLogLevel (ld_level item) l s2;
              fmt = Formatter (ld_format item);
              s4 = (if ld_format item \<noteq> [] \<and> isCorrect fmt then upd_lg l (\<lambda>g. g\<lparr>lg_formatter := fmt\<rparr>) s3 else s3)
          in define_apps can_open (ld_logName item) (ld_apps item) (clearAppender l s4))"

fun define_loggers :: "(string \<Rightarrow> bool) \<Rightarrow> LogDefine list \<Rightarrow> LogDefine list \<Rightarrow> log_system \<Rightarrow> (log_error + unit) \<times> log_system" where
  "define_loggers can_open oldVal [] s = (Inr (), s)"
| "define_loggers can_open oldVal (item # items) s =
     (case (case ld_find oldVal item of
              None \<Rightarrow> define_logger can_open item s
            | Some it \<Rightarrow> if \<not> ld_eq item it then define_logger can_open item s else (Inr (), s)) of
        (Inl e, s1) \<Rightarrow> (Inl e, s1)
      | (Inr _, s1) \<Rightarrow> define_loggers can_open oldVal items s1)"

definition silence :: "LogDefine \<Rightarrow> log_system \<Rightarrow> (log_error + unit) \<times> log_system" where
  "silence item s =
     (case mgr_lookUp (ld_logName item) s of
        None \<Rightarrow> (Inl NullLogger, s)
      | Some l \<Rightarrow> (Inr (), clearAppender l (setLogLevel (Level_cast 100) l s)))"

fun silence_loggers :: "LogDefine list \<Rightarrow> LogDefine list \<Rightarrow> log_system \<Rightarrow> (log_error + unit) \<times> log_system" where
  "silence_loggers newVal [] s = (Inr (), s)"
| "silence_loggers newVal (item # items) s =
     (if ld_find newVal item = None
      then case silence item s of
             (Inl e, s1) \<Rightarrow> (Inl e, s1)
           | (Inr _, s1) \<Rightarrow> silence_loggers newVal items s1
      else silence_loggers newVal items s)"

text \<open>The listener of the configuration variable \<open>logs\<close>; the sets are lists in the order of the names.\<close>

definition onLogChange :: "(string \<Rightarrow> bool) \<Rightarrow> LogDefine list \<Rightarrow> LogDefine list \<Rightarrow> log_system \<Rightarrow> (log_error + unit) \<times> log_system" where
  "onLogChange can_open oldVal newVal s =
     (case define_loggers can_open oldVal newVal s of
        (Inl e, s1) \<Rightarrow> (Inl e, s1)
      | (Inr _, s1) \<Rightarrow> silence_loggers newVal oldVal s1)"

end
