(* ===== verification/Log_Thread.thy ===== *)
theory Log_Thread
  imports Log Ts_Queue
begin

text \<open>
  The log thread (\<open>src/src/LogThread.hpp\<close>, \<open>LogThread.cpp\<close>): events wait in a queue with the
  logger they go to until the thread takes them out, up to ten at a time. The functions are
  modelled twice, as sequential code and, since any thread may send while the log thread works
  and closes, as a transition system whose steps are the accesses to the shared fields.
\<close>

section \<open>The functions\<close>

type_synonym sent_event = "nat \<times> log_event"

record log_thread =
  m_close :: bool
  m_que :: "sent_event nonb_queue"
  m_sys :: log_system

definition sendLog :: "sent_event \<Rightarrow> log_thread \<Rightarrow> log_thread" where
  "sendLog ev t = (if m_close t then t else t\<lparr>m_que := nb_push_back ev (m_que t)\<rparr>)"

text \<open>One turn of the inner loop of \<open>work\<close>: a fatal event stops the program after it is logged.\<close>

definition log_one ::
  "(string \<Rightarrow> bool) \<Rightarrow> (string \<Rightarrow> int \<Rightarrow> string) \<Rightarrow> sent_event \<Rightarrow> log_system \<Rightarrow> (log_error + unit) \<times> log_system" where
  "log_one can_open date ev s =
     (case ev of (l, e) \<Rightarrow>
        case logger_log can_open date [] (e_level e) l e s of
          (Inl err, s1) \<Rightarrow> (Inl err, s1)
        | (Inr _, s1) \<Rightarrow> if level_num (e_level e) = level_num FATAL then (Inl AssertFatal, s1) else (Inr (), s1))"

fun log_events ::
  "(string \<Rightarrow> bool) \<Rightarrow> (string \<Rightarrow> int \<Rightarrow> string) \<Rightarrow> sent_event list \<Rightarrow> log_system \<Rightarrow> (log_error + unit) \<times> log_system" where
  "log_events can_open date [] s = (Inr (), s)"
| "log_events can_open date (ev # evs) s =
     (case log_one can_open date ev s of
        (Inl err, s1) \<Rightarrow> (Inl err, s1)
      | (Inr _, s1) \<Rightarrow> log_events can_open date evs s1)"

text \<open>\<open>work\<close> when no other thread sends meanwhile.\<close>

function work ::
  "(string \<Rightarrow> bool) \<Rightarrow> (string \<Rightarrow> int \<Rightarrow> string) \<Rightarrow> log_thread \<Rightarrow> (log_error + unit) \<times> log_thread" where
  "work can_open date t =
     (if nb_empty (m_que t) then (Inr (), t)
      else
        let (_, events, q) = nb_try_popk_front 10 [] (m_que t)
        in case log_events can_open date events (m_sys t) of
             (Inl err, s) \<Rightarrow> (Inl err, t\<lparr>m_que := q, m_sys := s\<rparr>)
           | (Inr _, s) \<Rightarrow> work can_open date (t\<lparr>m_que := q, m_sys := s\<rparr>))"
  by pat_completeness auto

termination work
  by (relation "measure (\<lambda>(_, _, t). length (nb_deq (m_que t)))")
     (auto simp: nb_empty_def nb_try_popk_front_def deque_loops)

declare work.simps [simp del]

lemma log_events_append:
  "log_events can_open date (xs @ ys) s =
     (case log_events can_open date xs s of (Inl err, s1) \<Rightarrow> (Inl err, s1) | (Inr _, s1) \<Rightarrow> log_events can_open date ys s1)"
  by (induction xs arbitrary: s) (simp_all split: prod.splits sum.splits)

text \<open>
  Taking the events in batches of ten changes nothing: \<open>work\<close> does to the appenders what
  logging all queued events in their order does, and it ends with the same error, if any. Without
  an error the queue is empty in the end.
\<close>

theorem work_logs_queue_in_order:
  "case work can_open date t of (r, t1) \<Rightarrow>
     (r, m_sys t1) = log_events can_open date (nb_deq (m_que t)) (m_sys t) \<and>
     m_close t1 = m_close t \<and> (isl r \<or> nb_deq (m_que t1) = [])"
proof (induction can_open date t rule: work.induct)
  case (1 can_open date t)
  show ?case
  proof (cases "nb_deq (m_que t) = []")
    case True
    then show ?thesis by (simp add: work.simps [of _ _ t] nb_empty_def)
  next
    case False
    let ?d = "nb_deq (m_que t)"
    let ?q = "(m_que t)\<lparr>nb_deq := drop 10 ?d\<rparr>"
    have pop: "nb_try_popk_front 10 [] (m_que t) = (True, take 10 ?d, ?q)"
      using False by (simp add: nb_try_popk_front_def deque_loops)
    have app: "log_events can_open date ?d (m_sys t) =
        (case log_events can_open date (take 10 ?d) (m_sys t) of
           (Inl err, s1) \<Rightarrow> (Inl err, s1) | (Inr _, s1) \<Rightarrow> log_events can_open date (drop 10 ?d) s1)"
      using log_events_append [of can_open date "take 10 ?d" "drop 10 ?d"] by simp
    obtain r s1 where l: "log_events can_open date (take 10 ?d) (m_sys t) = (r, s1)" by fastforce
    show ?thesis
    proof (cases r)
      case (Inl err)
      then show ?thesis using False pop app l by (simp add: work.simps [of _ _ t] nb_empty_def)
    next
      case (Inr u)
      have "work can_open date t = work can_open date (t\<lparr>m_que := ?q, m_sys := s1\<rparr>)"
        using False pop l Inr by (subst work.simps) (simp add: nb_empty_def)
      moreover have "case work can_open date (t\<lparr>m_que := ?q, m_sys := s1\<rparr>) of (r, t1) \<Rightarrow>
          (r, m_sys t1) = log_events can_open date (drop 10 ?d) s1 \<and> m_close t1 = m_close t \<and>
          (isl r \<or> nb_deq (m_que t1) = [])"
        using 1 [OF _ refl, unfolded pop] False l Inr by (simp add: nb_empty_def)
      ultimately show ?thesis using app l Inr by simp
    qed
  qed
qed

section \<open>Senders, the log thread and its closing\<close>

text \<open>
  The log thread is in the loop test of \<open>work\<close> (\<open>Work\<close>, the flag tells the last call, which
  precedes the \<open>break\<close>), in its inner loop with the events that remain of the batch (\<open>Logging\<close>),
  between \<open>work\<close> and \<open>epoll_wait\<close>, in \<open>epoll_wait\<close>, which ends after 10 ms in any case, or in the
  loop that empties the pipe. It can end, or stay in \<open>Logger::log\<close> for ever or in a failed assertion
  (\<open>Halted\<close>).
\<close>

datatype log_pc =
    Work bool | Logging bool "sent_event list" | TestClose | EpollWait | ReadPipe | Exited
  | Halted log_error "sent_event list"

text \<open>
  The thread that owns the log thread: after the constructor of \<open>std::thread\<close> in \<open>start\<close>, before
  \<open>m_close\<close> is set to false; running; in \<open>close\<close> before its write and before its \<open>join\<close>; after it.
\<close>

datatype owner_pc = Spawned | Running | CloseWrite | Joining | Joined

text \<open>A sender has found \<open>m_close\<close> to be false, or has queued its event and is about to write.\<close>

datatype sender = SIdle | SChecked sent_event | SWrite

record log_run =
  r_pc :: log_pc
  r_owner :: owner_pc
  r_close :: bool
  r_que :: "sent_event nonb_queue"
  r_pipe :: nat
  r_senders :: "sender list"
  r_sys :: log_system
  sent :: "sent_event list"
  logged :: "sent_event list"

inductive log_step :: "(string \<Rightarrow> bool) \<Rightarrow> (string \<Rightarrow> int \<Rightarrow> string) \<Rightarrow> nat \<Rightarrow> log_run \<Rightarrow> log_run \<Rightarrow> bool"
  for can_open date cap where
  work_pop: "r_pc S = Work b \<Longrightarrow> nb_try_popk_front 10 [] (r_que S) = (True, evs, q) \<Longrightarrow>
    log_step can_open date cap S (S\<lparr>r_pc := Logging b evs, r_que := q\<rparr>)"
| work_end: "r_pc S = Work b \<Longrightarrow> nb_empty (r_que S) \<Longrightarrow>
    log_step can_open date cap S (S\<lparr>r_pc := (if b then Exited else TestClose)\<rparr>)"
| batch_end: "r_pc S = Logging b [] \<Longrightarrow> log_step can_open date cap S (S\<lparr>r_pc := Work b\<rparr>)"
| log_ok: "r_pc S = Logging b (ev # evs) \<Longrightarrow> log_one can_open date ev (r_sys S) = (Inr (), s1) \<Longrightarrow>
    log_step can_open date cap S (S\<lparr>r_pc := Logging b evs, r_sys := s1, logged := logged S @ [ev]\<rparr>)"
| log_err: "r_pc S = Logging b (ev # evs) \<Longrightarrow> log_one can_open date ev (r_sys S) = (Inl err, s1) \<Longrightarrow>
    log_step can_open date cap S (S\<lparr>r_pc := Halted err evs, r_sys := s1, logged := logged S @ [ev]\<rparr>)"
| test_close: "r_pc S = TestClose \<Longrightarrow>
    log_step can_open date cap S (S\<lparr>r_pc := (if r_close S then Work True else EpollWait)\<rparr>)"
| epoll: "r_pc S = EpollWait \<Longrightarrow> log_step can_open date cap S (S\<lparr>r_pc := ReadPipe\<rparr>)"
| read_pipe: "r_pc S = ReadPipe \<Longrightarrow> 0 < r_pipe S \<Longrightarrow>
    log_step can_open date cap S (S\<lparr>r_pipe := r_pipe S - 1023\<rparr>)"
| read_again: "r_pc S = ReadPipe \<Longrightarrow> r_pipe S = 0 \<Longrightarrow> log_step can_open date cap S (S\<lparr>r_pc := Work False\<rparr>)"
| send_check: "i < length (r_senders S) \<Longrightarrow> r_senders S ! i = SIdle \<Longrightarrow> \<not> r_close S \<Longrightarrow>
    log_step can_open date cap S (S\<lparr>r_senders := (r_senders S)[i := SChecked ev]\<rparr>)"
| send_push: "i < length (r_senders S) \<Longrightarrow> r_senders S ! i = SChecked ev \<Longrightarrow>
    log_step can_open date cap S
      (S\<lparr>r_senders := (r_senders S)[i := SWrite], r_que := nb_push_back ev (r_que S), sent := sent S @ [ev]\<rparr>)"
| send_write: "i < length (r_senders S) \<Longrightarrow> r_senders S ! i = SWrite \<Longrightarrow> r_pipe S < cap \<Longrightarrow>
    log_step can_open date cap S (S\<lparr>r_senders := (r_senders S)[i := SIdle], r_pipe := Suc (r_pipe S)\<rparr>)"
| started: "r_owner S = Spawned \<Longrightarrow> log_step can_open date cap S (S\<lparr>r_owner := Running, r_close := False\<rparr>)"
| close_flag: "r_owner S = Running \<Longrightarrow> log_step can_open date cap S (S\<lparr>r_owner := CloseWrite, r_close := True\<rparr>)"
| close_write: "r_owner S = CloseWrite \<Longrightarrow> r_pipe S < cap \<Longrightarrow>
    log_step can_open date cap S (S\<lparr>r_owner := Joining, r_pipe := Suc (r_pipe S)\<rparr>)"
| joined: "r_owner S = Joining \<Longrightarrow> r_pc S = Exited \<Longrightarrow> log_step can_open date cap S (S\<lparr>r_owner := Joined\<rparr>)"

definition log_start :: "nat \<Rightarrow> log_system \<Rightarrow> log_run" where
  "log_start n s =
     \<lparr>r_pc = Work False, r_owner = Spawned, r_close = True, r_que = NonbTSQueue, r_pipe = 0,
      r_senders = replicate n SIdle, r_sys = s, sent = [], logged = []\<rparr>"

abbreviation log_steps :: "(string \<Rightarrow> bool) \<Rightarrow> (string \<Rightarrow> int \<Rightarrow> string) \<Rightarrow> nat \<Rightarrow> log_run \<Rightarrow> log_run \<Rightarrow> bool" where
  "log_steps can_open date cap \<equiv> (log_step can_open date cap)\<^sup>*\<^sup>*"

text \<open>The events taken out of the queue but not yet logged, and the error that stopped the thread.\<close>

fun pending :: "log_pc \<Rightarrow> sent_event list" where
  "pending (Logging b evs) = evs"
| "pending (Halted err evs) = evs"
| "pending _ = []"

fun halt_result :: "log_pc \<Rightarrow> log_error + unit" where
  "halt_result (Halted err evs) = Inl err"
| "halt_result _ = Inr ()"

definition log_inv :: "(string \<Rightarrow> bool) \<Rightarrow> (string \<Rightarrow> int \<Rightarrow> string) \<Rightarrow> log_system \<Rightarrow> log_run \<Rightarrow> bool" where
  "log_inv can_open date s S \<longleftrightarrow>
     sent S = logged S @ pending (r_pc S) @ nb_deq (r_que S) \<and>
     log_events can_open date (logged S) s = (halt_result (r_pc S), r_sys S)"

lemma nb_popk_some: "nb_try_popk_front k [] q = (True, evs, q') \<Longrightarrow> nb_deq q = evs @ nb_deq q'"
  by (auto simp: nb_try_popk_front_def deque_loops split: if_splits)

lemma log_inv_step: "log_step can_open date cap S T \<Longrightarrow> log_inv can_open date s S \<Longrightarrow> log_inv can_open date s T"
  by (induction rule: log_step.induct)
     (auto simp: log_inv_def nb_empty_def nb_push_back_def log_events_append dest: nb_popk_some)

lemma log_inv_steps:
  assumes "log_steps can_open date cap S T" "log_inv can_open date s S"
  shows "log_inv can_open date s T"
  using assms by (induction rule: rtranclp_induct) (auto intro: log_inv_step)

lemma log_inv_start [simp]: "log_inv can_open date s (log_start n s)"
  by (simp add: log_inv_def log_start_def NonbTSQueue_def)

text \<open>
  C16. Whatever the senders, the log thread and its owner do in turn, the events handed to the
  loggers, those of the current batch and those in the queue are the events sent, in the order
  in which they were queued, and what was written is what logging these events one after the
  other writes. So no event is logged twice, out of order or before it is sent.
\<close>

theorem log_thread_fifo:
  assumes "log_steps can_open date cap (log_start n s) S"
  shows "sent S = logged S @ pending (r_pc S) @ nb_deq (r_que S) \<and>
    log_events can_open date (logged S) s = (halt_result (r_pc S), r_sys S)"
  using log_inv_steps [OF assms log_inv_start] by (simp add: log_inv_def)

section \<open>Closing\<close>

definition checked :: "log_run \<Rightarrow> nat" where
  "checked S = length [x \<leftarrow> r_senders S. case x of SChecked _ \<Rightarrow> True | _ \<Rightarrow> False]"

lemma length_filter_update:
  "i < length xs \<Longrightarrow> length (filter P (xs[i := y])) + (if P (xs ! i) then 1 else 0) =
    length (filter P xs) + (if P y then 1 else 0)"
proof (induction xs arbitrary: i)
  case (Cons x xs)
  then show ?case by (cases i) auto
qed simp

text \<open>From the end of the log thread on, with the flag set for good, only checked senders queue events.\<close>

definition closed_inv :: "log_run \<Rightarrow> log_run \<Rightarrow> bool" where
  "closed_inv T U \<longleftrightarrow>
     r_pc U = Exited \<and> r_close U \<and> r_owner U \<in> {CloseWrite, Joining, Joined} \<and> logged U = logged T \<and>
     length (nb_deq (r_que U)) + checked U \<le> checked T"

lemma closed_inv_step: "log_step can_open date cap U V \<Longrightarrow> closed_inv T U \<Longrightarrow> closed_inv T V"
proof (induction rule: log_step.induct)
  case (send_push i S ev)
  then show ?case
    using length_filter_update [of i "r_senders S" "\<lambda>x. case x of SChecked _ \<Rightarrow> True | _ \<Rightarrow> False" SWrite]
    by (simp add: closed_inv_def checked_def nb_push_back_def)
next
  case (send_write i S)
  then show ?case
    using length_filter_update [of i "r_senders S" "\<lambda>x. case x of SChecked _ \<Rightarrow> True | _ \<Rightarrow> False" SIdle]
    by (simp add: closed_inv_def checked_def)
qed (auto simp: closed_inv_def checked_def)

text \<open>
  An orderly close prints what was sent: when the log thread ends after its owner has set
  \<open>m_close\<close> in \<open>close\<close>, every event sent so far has been logged, and afterwards each sender that had
  already read \<open>m_close\<close> as false, and no other, can still queue an event, one, which is lost.
\<close>

theorem log_close_drains:
  assumes "log_steps can_open date cap (log_start n s) S" "log_step can_open date cap S T"
    and "r_pc S \<noteq> Exited" "r_pc T = Exited" "r_close T" "r_owner T = CloseWrite \<or> r_owner T = Joining"
    and "log_steps can_open date cap T U"
  shows "sent T = logged T \<and> logged U = logged T \<and>
    (\<exists>lost. sent U = logged T @ lost \<and> length lost \<le> checked T)"
proof -
  have inv: "log_inv can_open date s T"
    using log_inv_step [OF assms(2) log_inv_steps [OF assms(1) log_inv_start]] .
  have "nb_deq (r_que T) = []"
    using assms(2-4) by (cases rule: log_step.cases) (auto simp: nb_empty_def split: if_splits)
  then have e: "sent T = logged T" "closed_inv T T"
    using inv assms(4-6) by (auto simp: log_inv_def closed_inv_def)
  from assms(7) e(2) have c: "closed_inv T U"
    by (induction rule: rtranclp_induct) (auto intro: closed_inv_step)
  moreover have "log_inv can_open date s U" using log_inv_steps [OF assms(7) inv] .
  ultimately have "sent U = logged T @ nb_deq (r_que U)" "length (nb_deq (r_que U)) \<le> checked T"
    by (simp_all add: closed_inv_def log_inv_def)
  with e(1) c show ?thesis unfolding closed_inv_def by blast
qed

text \<open>A run in which a sender has checked the flag when the thread ends.\<close>

definition an_event :: sent_event where
  "an_event =
     (0, \<lparr>e_level = INFO, e_elapse = 0, e_times = 0, e_pid = 1, e_tid = 1, e_cid = 0, e_lines = 7, e_file = ''a.cpp'',
          e_func = ''f'', e_logname = ''root'', e_threadName = ''t'', e_msg = ''m''\<rparr>)"

definition late_run :: "log_pc \<Rightarrow> owner_pc \<Rightarrow> log_run" where
  "late_run pc ow = (log_start 1 (LogMgr (\<lambda>_. True)))\<lparr>r_pc := pc, r_owner := ow, r_close := (ow \<noteq> Running),
     r_senders := [SChecked an_event]\<rparr>"

definition late_end :: log_run where
  "late_end = (late_run Exited CloseWrite)\<lparr>r_senders := [SWrite], r_que := \<lparr>nb_deq = [an_event]\<rparr>, sent := [an_event]\<rparr>"

lemma late_run_steps:
  fixes can_open date cap
  defines "step \<equiv> log_step can_open date cap"
  shows "step\<^sup>*\<^sup>* (log_start 1 (LogMgr (\<lambda>_. True))) (late_run (Work True) CloseWrite)"
    and "step (late_run (Work True) CloseWrite) (late_run Exited CloseWrite)"
    and "step (late_run Exited CloseWrite) late_end"
proof -
  let ?s = "log_start 1 (LogMgr (\<lambda>_. True))"
  let ?r = "?s\<lparr>r_owner := Running, r_close := False\<rparr>"
  have "step ?s ?r"
    unfolding step_def by (rule log_step.started) (simp add: log_start_def)
  moreover have "step ?r (late_run (Work False) Running)"
    using log_step.send_check [of 0 ?r can_open date cap an_event]
    by (simp add: step_def late_run_def log_start_def)
  moreover have "step (late_run (Work False) Running) (late_run TestClose Running)"
    using log_step.work_end [of "late_run (Work False) Running" False can_open date cap]
    by (simp add: step_def late_run_def log_start_def nb_empty_def NonbTSQueue_def)
  moreover have "step (late_run TestClose Running) (late_run TestClose CloseWrite)"
    using log_step.close_flag [of "late_run TestClose Running" can_open date cap]
    by (simp add: step_def late_run_def log_start_def)
  moreover have "step (late_run TestClose CloseWrite) (late_run (Work True) CloseWrite)"
    using log_step.test_close [of "late_run TestClose CloseWrite" can_open date cap]
    by (simp add: step_def late_run_def log_start_def)
  ultimately show "step\<^sup>*\<^sup>* ?s (late_run (Work True) CloseWrite)"
    by (meson converse_rtranclp_into_rtranclp r_into_rtranclp)
  show "step (late_run (Work True) CloseWrite) (late_run Exited CloseWrite)"
    using log_step.work_end [of "late_run (Work True) CloseWrite" True can_open date cap]
    by (simp add: step_def late_run_def log_start_def nb_empty_def NonbTSQueue_def)
  show "step (late_run Exited CloseWrite) late_end"
    using log_step.send_push [of 0 "late_run Exited CloseWrite" an_event can_open date cap]
    by (simp add: step_def late_end_def late_run_def log_start_def nb_push_back_def NonbTSQueue_def)
qed

theorem log_thread_fifo_witness:
  "sent late_end = logged late_end @ pending (r_pc late_end) @ [an_event]"
proof -
  have "log_steps (\<lambda>_. True) (\<lambda>_ _. []) 64 (log_start 1 (LogMgr (\<lambda>_. True))) late_end"
    using late_run_steps [of "\<lambda>_. True" "\<lambda>_ _. []" 64] by (meson rtranclp.rtrancl_into_rtrancl)
  from log_thread_fifo [OF this] show ?thesis by (simp add: late_end_def)
qed

theorem log_close_drains_witness:
  "\<exists>lost. sent late_end = logged late_end @ lost \<and> length lost \<le> 1"
proof -
  have "log_steps (\<lambda>_. True) (\<lambda>_ _. []) 64 (late_run Exited CloseWrite) late_end"
    by (rule r_into_rtranclp, rule late_run_steps(3))
  from log_close_drains [OF late_run_steps(1,2) _ _ _ _ this]
  show ?thesis by (auto simp: late_run_def checked_def)
qed

section \<open>A thread that misses its start\<close>

text \<open>After the thread has ended nothing is logged, and nobody empties the pipe.\<close>

definition dead :: "log_run \<Rightarrow> log_run \<Rightarrow> bool" where
  "dead S T \<longleftrightarrow> r_pc T = Exited \<and> logged T = logged S \<and> r_sys T = r_sys S \<and> r_pipe S \<le> r_pipe T"

lemma dead_step: "log_step can_open date cap T U \<Longrightarrow> dead S T \<Longrightarrow> dead S U"
  by (induction rule: log_step.induct) (auto simp: dead_def)

lemma dead_steps: "log_steps can_open date cap T U \<Longrightarrow> dead S T \<Longrightarrow> dead S U"
  by (induction rule: rtranclp_induct) (auto intro: dead_step)

text \<open>A sender that waits for room in the pipe of an ended thread waits for ever.\<close>

lemma blocked_step:
  assumes "log_step can_open date cap T U" "r_pc T = Exited" "cap \<le> r_pipe T" "r_senders T ! i = SWrite"
  shows "r_pc U = Exited \<and> cap \<le> r_pipe U \<and> r_senders U ! i = SWrite"
  using assms
proof (cases rule: log_step.cases)
  case (send_check j ev)
  then show ?thesis using assms by (cases "i = j") auto
next
  case (send_push j ev)
  then show ?thesis using assms by (cases "i = j") auto
qed auto

lemma blocked_steps:
  assumes "log_steps can_open date cap T U" "r_pc T = Exited" "cap \<le> r_pipe T" "r_senders T ! i = SWrite"
  shows "r_senders U ! i = SWrite"
proof -
  have "r_pc U = Exited \<and> cap \<le> r_pipe U \<and> r_senders U ! i = SWrite"
    using assms(1)
    by (induction rule: rtranclp_induct) (use assms(2-4) in simp, use blocked_step in blast)
  then show ?thesis by simp
qed

text \<open>The first sender of a program whose log thread has ended, until the pipe is full.\<close>

definition missed :: "nat \<Rightarrow> log_system \<Rightarrow> nat \<Rightarrow> log_run" where
  "missed n s k = (log_start (Suc n) s)\<lparr>r_pc := Exited, r_owner := Running, r_close := False, r_pipe := k,
     r_que := \<lparr>nb_deq = replicate k an_event\<rparr>, sent := replicate k an_event\<rparr>"

definition missed_write :: "nat \<Rightarrow> log_system \<Rightarrow> nat \<Rightarrow> log_run" where
  "missed_write n s k = (missed n s (Suc k))\<lparr>r_pipe := k, r_senders := SWrite # replicate n SIdle\<rparr>"

lemma replicate_snoc: "replicate k x @ [x] = x # replicate k x"
  by (induction k) simp_all

lemma missed_send:
  "log_steps can_open date cap (missed n s k) (missed_write n s k)"
proof -
  let ?m = "missed n s k"
  let ?c = "?m\<lparr>r_senders := SChecked an_event # replicate n SIdle\<rparr>"
  have "log_step can_open date cap ?m ?c"
    using log_step.send_check [of 0 ?m can_open date cap an_event] by (simp add: missed_def log_start_def)
  moreover have "log_step can_open date cap ?c (missed_write n s k)"
    using log_step.send_push [of 0 ?c an_event can_open date cap]
    by (simp add: missed_def missed_write_def log_start_def nb_push_back_def replicate_snoc)
  ultimately show ?thesis by (meson converse_rtranclp_into_rtranclp r_into_rtranclp)
qed

lemma missed_fill: "k \<le> cap \<Longrightarrow> log_steps can_open date cap (missed n s 0) (missed n s k)"
proof (induction k)
  case (Suc k)
  have "log_step can_open date cap (missed_write n s k) (missed n s (Suc k))"
    using log_step.send_write [of 0 "missed_write n s k" cap can_open date] Suc.prems
    by (simp add: missed_def missed_write_def log_start_def)
  with Suc show ?case
    using missed_send by (meson Suc_leD rtranclp.rtrancl_into_rtrancl rtranclp_trans)
qed simp

lemma missed_reached: "log_steps can_open date cap (log_start (Suc n) s) (missed n s 0)"
proof -
  let ?s = "log_start (Suc n) s"
  let ?m = "missed n s 0"
  have "log_step can_open date cap ?s (?s\<lparr>r_pc := TestClose\<rparr>)"
    using log_step.work_end [of ?s False can_open date cap] by (simp add: log_start_def nb_empty_def NonbTSQueue_def)
  moreover have "log_step can_open date cap (?s\<lparr>r_pc := TestClose\<rparr>) (?s\<lparr>r_pc := Work True\<rparr>)"
    using log_step.test_close [of "?s\<lparr>r_pc := TestClose\<rparr>" can_open date cap] by (simp add: log_start_def)
  moreover have "log_step can_open date cap (?s\<lparr>r_pc := Work True\<rparr>) (?s\<lparr>r_pc := Exited\<rparr>)"
    using log_step.work_end [of "?s\<lparr>r_pc := Work True\<rparr>" True can_open date cap]
    by (simp add: log_start_def nb_empty_def NonbTSQueue_def)
  moreover have "log_step can_open date cap (?s\<lparr>r_pc := Exited\<rparr>) ?m"
    using log_step.started [of "?s\<lparr>r_pc := Exited\<rparr>" can_open date cap]
    by (simp add: log_start_def missed_def NonbTSQueue_def)
  ultimately show ?thesis by (meson converse_rtranclp_into_rtranclp r_into_rtranclp)
qed

text \<open>
  \<open>start\<close> creates the thread before it sets \<open>m_close\<close> to false, so the thread can find the flag
  still set and end at once while the program runs on: from such a state \<open>S\<close> no event is ever
  logged, nothing is written to any appender, and once the pipe is full a sender stays in
  \<open>sendLog\<close> for ever.
\<close>

theorem log_thread_misses_start:
  "\<exists>S U. log_steps can_open date cap (log_start (Suc n) s) S \<and>
     r_pc S = Exited \<and> r_owner S = Running \<and> \<not> r_close S \<and>
     {T. log_steps can_open date cap S T} \<subseteq> {T. logged T = [] \<and> r_sys T = s} \<and>
     log_steps can_open date cap S U \<and>
     {T. log_steps can_open date cap U T} \<subseteq> {T. r_senders T ! 0 = SWrite}"
proof (intro exI conjI)
  let ?S = "missed n s 0"
  let ?U = "missed_write n s cap"
  show "log_steps can_open date cap (log_start (Suc n) s) ?S" by (rule missed_reached)
  show "r_pc ?S = Exited" "r_owner ?S = Running" "\<not> r_close ?S" by (simp_all add: missed_def)
  show "{T. log_steps can_open date cap ?S T} \<subseteq> {T. logged T = [] \<and> r_sys T = s}"
    using dead_steps [of can_open date cap ?S _ ?S] by (auto simp: dead_def missed_def log_start_def)
  show "log_steps can_open date cap ?S ?U"
    using missed_fill [of cap cap] missed_send by (meson order_refl rtranclp_trans)
  show "{T. log_steps can_open date cap ?U T} \<subseteq> {T. r_senders T ! 0 = SWrite}"
    using blocked_steps [of can_open date cap ?U _ 0] by (auto simp: missed_write_def missed_def log_start_def)
qed

end
