(* ===== verification/Log_Props.thy ===== *)
theory Log_Props
  imports Log
begin

text \<open>
  Properties of logging: the format patterns and the grammar they come from, the invariant of
  the logging system under every operation of the manager and the loggers, and what a logged
  event writes.
\<close>

section \<open>Format patterns\<close>

text \<open>
  What a pattern stands for: literal text, in which the percent sign is doubled, and items with
  an additional format, which is written in braces when it is not empty or when a brace would
  follow.
\<close>

datatype piece = Lit string | Fmt char string

definition escape :: "string \<Rightarrow> string" where
  "escape str = concat (map (\<lambda>c. if c = CHR ''%'' then ''%%'' else [c]) str)"

fun show_pieces :: "piece list \<Rightarrow> string \<Rightarrow> string" where
  "show_pieces [] rest = rest"
| "show_pieces (Lit str # ps) rest = escape str @ show_pieces ps rest"
| "show_pieces (Fmt c app # ps) rest =
     (let more = show_pieces ps rest
      in CHR ''%'' # c #
         (if app \<noteq> [] \<or> take 1 more = ''{'' then ''{'' @ app @ ''}'' else []) @ more)"

fun piece_ok :: "piece \<Rightarrow> bool" where
  "piece_ok (Lit str) \<longleftrightarrow> str \<noteq> []"
| "piece_ok (Fmt c app) \<longleftrightarrow> isalpha c \<and> CHR ''}'' \<notin> set app"

text \<open>Text that stands together is one piece.\<close>

fun apart :: "piece list \<Rightarrow> bool" where
  "apart (Lit a # Lit b # ps) \<longleftrightarrow> False"
| "apart (p # ps) \<longleftrightarrow> apart ps"
| "apart [] \<longleftrightarrow> True"

fun piece_item :: "piece \<Rightarrow> item option" where
  "piece_item (Lit str) = Some (LogRegularItem str)"
| "piece_item (Fmt c app) = make_item [c] app"

definition flush :: "string \<Rightarrow> entry list" where
  "flush reg = (if reg \<noteq> [] then [(''r'', reg, REGULAR)] else [])"

fun fmt_entry :: "char \<Rightarrow> string \<Rightarrow> entry" where
  "fmt_entry c app = ([c], app, if app = [] then NOAPPENDFORMAT else APPENDFORMAT)"

lemma apart_tl: "apart (p # ps) \<Longrightarrow> apart ps"
  by (cases p; cases ps) (auto elim: apart.elims)

text \<open>The state of the scanner after the pieces.\<close>

fun absorb :: "piece list \<Rightarrow> string \<Rightarrow> entry list \<Rightarrow> string \<times> entry list" where
  "absorb [] reg st = (reg, st)"
| "absorb (Lit str # ps) reg st = absorb ps (reg @ str) st"
| "absorb (Fmt c app # ps) reg st = absorb ps [] (st @ flush reg @ [fmt_entry c app])"

lemma isalpha_percent [simp]: "\<not> isalpha (CHR ''%'')"
  by (simp add: isalpha_def)

lemma scan_escape: "scan (escape str @ cs) reg st = scan cs (reg @ str) st"
  by (induction str arbitrary: reg) (simp_all add: escape_def scan.simps)

lemma scan_braced:
  assumes "isalpha c" "CHR ''}'' \<notin> set app"
  shows "scan (CHR ''%'' # c # CHR ''{'' # app @ CHR ''}'' # cs) reg st = scan cs [] (st @ flush reg @ [fmt_entry c app])"
proof -
  have "c \<noteq> CHR ''%''" using assms(1) by auto
  moreover have "takeWhile (\<lambda>x. x \<noteq> CHR ''}'') (app @ CHR ''}'' # cs) = app"
    "dropWhile (\<lambda>x. x \<noteq> CHR ''}'') (app @ CHR ''}'' # cs) = CHR ''}'' # cs"
    using assms(2) by (auto simp: takeWhile_append dropWhile_append)
  ultimately show ?thesis
    using assms(1) by (subst scan.simps) (simp add: Let_def flush_def)
qed

lemma scan_plain:
  assumes "isalpha c" "take 1 cs \<noteq> ''{''"
  shows "scan (CHR ''%'' # c # cs) reg st = scan cs [] (st @ flush reg @ [fmt_entry c []])"
proof -
  have "c \<noteq> CHR ''%''" using assms(1) by auto
  moreover have "cs = [] \<or> cs ! 0 \<noteq> CHR ''{''" using assms(2) by (cases cs) auto
  ultimately show ?thesis
    using assms(1) by (subst scan.simps) (simp add: Let_def flush_def)
qed

lemma scan_pieces:
  "list_all piece_ok ps \<Longrightarrow>
   scan (show_pieces ps rest) reg st = (case absorb ps reg st of (reg1, st1) \<Rightarrow> scan rest reg1 st1)"
proof (induction ps reg st rule: absorb.induct)
  case (3 c app ps reg st)
  then show ?case
    using scan_braced [of c app "show_pieces ps rest" reg st] scan_plain [of c "show_pieces ps rest" reg st]
    by (cases "app = []") (auto simp: Let_def simp del: fmt_entry.simps)
qed (simp_all add: scan_escape)

definition items_of :: "entry list \<Rightarrow> item list" where
  "items_of = List.map_filter (\<lambda>(type, app, _). make_item type app)"

lemma items_of_append: "items_of (xs @ ys) = items_of xs @ items_of ys"
  by (simp add: items_of_def map_filter_def)

lemma flush_Nil [simp]: "flush [] = []"
  by (simp add: flush_def)

lemma items_of_flush: "items_of (flush reg) = (if reg = [] then [] else [LogRegularItem reg])"
  by (simp add: items_of_def flush_def map_filter_def make_item_def)

lemma absorb_items:
  assumes "list_all piece_ok ps" "apart ps" "reg \<noteq> [] \<Longrightarrow> apart (Lit reg # ps)"
  shows "case absorb ps reg st of (reg1, st1) \<Rightarrow>
    items_of (st1 @ flush reg1) = items_of (st @ flush reg) @ List.map_filter piece_item ps"
  using assms
proof (induction ps reg st rule: absorb.induct)
  case (2 str ps reg st)
  then have "reg = []" by auto
  moreover have "apart ps" using 2(3) by (rule apart_tl)
  ultimately show ?case using 2 by (auto simp: items_of_append items_of_flush map_filter_def)
next
  case (3 c app ps reg st)
  then have "apart ps" by (blast dest: apart_tl)
  then have "case absorb ps [] (st @ flush reg @ [fmt_entry c app]) of (reg1, st1) \<Rightarrow>
      items_of (st1 @ flush reg1) =
      items_of ((st @ flush reg @ [fmt_entry c app]) @ flush []) @ List.map_filter piece_item ps"
    using 3 by simp
  moreover have "items_of [fmt_entry c app] = (case make_item [c] app of None \<Rightarrow> [] | Some i \<Rightarrow> [i])"
    by (simp add: items_of_def map_filter_def split: option.split)
  ultimately show ?case
    by (auto simp: items_of_append items_of_flush map_filter_def simp del: fmt_entry.simps split: option.splits)
qed (simp add: map_filter_def)

text \<open>
  C18. A pattern is read as it is meant: for every sequence of literal texts and items, the pattern
  that writes it down is correct, and the formatter made from it has just the items of the
  sequence, in order, with their additional formats; percent signs in literals and braces
  after an item are told apart. Letters without an item are left out.
\<close>

theorem format_pattern_round_trip:
  assumes "list_all piece_ok ps" "apart ps"
  shows "Formatter (show_pieces ps []) =
    \<lparr>i_error = False, s_pattern = show_pieces ps [], v_items = List.map_filter piece_item ps\<rparr>"
proof -
  obtain reg1 st1 where a: "absorb ps [] [] = (reg1, st1)" by fastforce
  have "scan (show_pieces ps []) [] [] = (False, reg1, st1)"
    using scan_pieces [OF assms(1), of "[]" "[]" "[]"] a by (simp add: scan.simps)
  moreover have "items_of (st1 @ flush reg1) = List.map_filter piece_item ps"
    using absorb_items [OF assms, of "[]" "[]"] a by (simp add: items_of_def flush_def map_filter_def)
  ultimately show ?thesis by (simp add: Formatter_def items_of_def flush_def split: if_splits)
qed

theorem format_pattern_round_trip_witness:
  "v_items (Formatter ''50%%: %t{}{%D{%H:%M}%s'') =
    [LogRegularItem ''50%: '', LogTabItem, LogRegularItem ''{'', LogDateItem ''%H:%M'', LogMessageItem]"
proof -
  let ?ps = "[Lit ''50%: '', Fmt (CHR ''t'') [], Lit ''{'', Fmt (CHR ''D'') ''%H:%M'', Fmt (CHR ''s'') []]"
  have e: "show_pieces ?ps [] = ''50%%: %t{}{%D{%H:%M}%s''"
    by (simp add: escape_def Let_def)
  show ?thesis
    using format_pattern_round_trip [of ?ps, unfolded e]
    by (simp add: isalpha_def map_filter_def make_item_def)
qed

text \<open>The three errors at the end of what could be read.\<close>

definition bad_tail :: "string \<Rightarrow> bool" where
  "bad_tail t \<longleftrightarrow>
     t = ''%'' \<or>
     (take 1 t = ''%'' \<and> 1 < length t \<and> t ! 1 \<noteq> CHR ''%'' \<and> \<not> isalpha (t ! 1)) \<or>
     (take 1 t = ''%'' \<and> 2 < length t \<and> isalpha (t ! 1) \<and> t ! 2 = CHR ''{'' \<and> CHR ''}'' \<notin> set (drop 3 t))"

lemma scan_bad:
  assumes "bad_tail t"
  shows "fst (scan t reg st)"
proof (cases "t = ''%''")
  case True
  then show ?thesis by (simp add: scan.simps)
next
  case False
  then obtain d ds where d: "t = CHR ''%'' # d # ds"
    using assms by (cases t; cases "tl t") (auto simp: bad_tail_def)
  have b: "\<not> isalpha d \<or> (isalpha d \<and> take 1 ds = ''{'' \<and> CHR ''}'' \<notin> set (tl ds))"
    using assms d by (cases ds) (auto simp: bad_tail_def)
  have t: "t = CHR ''%'' # d # ds" "d \<noteq> CHR ''%''"
    using assms d by (auto simp: bad_tail_def)
  show ?thesis
  proof (cases "isalpha d")
    case True
    then obtain es where "ds = CHR ''{'' # es" "CHR ''}'' \<notin> set es" using b by (cases ds) auto
    moreover from this have "dropWhile (\<lambda>x. x \<noteq> CHR ''}'') es = []" by (auto simp: dropWhile_eq_Nil_conv)
    ultimately show ?thesis unfolding t(1) using t(2) True by (subst scan.simps) (simp add: Let_def)
  next
    case False
    then show ?thesis unfolding t(1) using t(2) by (subst scan.simps) (simp add: Let_def)
  qed
qed

text \<open>
  A pattern that ends in a single percent sign, has a percent sign before anything but a
  letter or another percent sign, or an opening brace without a closing one, is refused
  wherever it goes wrong: the formatter is not correct, and although everything before the
  error was read it has no items at all, so it formats every event to the empty text.
\<close>

theorem format_pattern_errors:
  assumes "list_all piece_ok ps" "bad_tail t"
  shows "\<not> isCorrect (Formatter (show_pieces ps t)) \<and>
    formatter_format date (Formatter (show_pieces ps t)) e = []"
proof -
  obtain r st where "scan (show_pieces ps t) [] [] = (True, r, st)"
    using scan_pieces [OF assms(1), of t "[]" "[]"] scan_bad [OF assms(2)]
    by (auto split: prod.splits) (metis (full_types) prod.collapse)
  then show ?thesis by (simp add: Formatter_def isCorrect_def formatter_format_def)
qed

theorem format_pattern_errors_witness:
  "\<not> isCorrect (Formatter ''[%L] %D{%H:%M'')"
proof -
  let ?ps = "[Lit ''['', Fmt (CHR ''L'') [], Lit ''] '']"
  have e: "show_pieces ?ps ''%D{%H:%M'' = ''[%L] %D{%H:%M''"
    by (simp add: escape_def Let_def)
  have "bad_tail ''%D{%H:%M''" by (simp add: bad_tail_def isalpha_def)
  then show ?thesis
    using format_pattern_errors [of ?ps "''%D{%H:%M''", unfolded e] by (simp add: isalpha_def)
qed

section \<open>The invariant of the logging system\<close>

text \<open>
  Every logger has each of its appenders once, and all of them exist and have a formatter, so
  the pointer that \<open>Appender::log\<close> follows is not null; the maps lead to loggers and appenders that
  exist, and a file name to an appender of that file.
\<close>

definition log_ok :: "log_system \<Rightarrow> bool" where
  "log_ok s \<longleftrightarrow>
     root s < next_lg s \<and> stdoutAppender s < next_ap s \<and> getFileName (aps s (stdoutAppender s)) = ''s4d0ut'' \<and>
     (\<forall>l < next_lg s. distinct (lg_appenders (lgs s l)) \<and>
        (\<forall>a \<in> set (lg_appenders (lgs s l)). a < next_ap s \<and> ap_formatter (aps s a) \<noteq> None)) \<and>
     (\<forall>name l. log_map s name = Some (Some l) \<longrightarrow> l < next_lg s \<and> lg_name (lgs s l) = name) \<and>
     (\<forall>f a. app_map s f = Some a \<longrightarrow> a < next_ap s \<and> getFileName (aps s a) = f)"

lemma log_okI [intro?]:
  assumes "root s < next_lg s" "stdoutAppender s < next_ap s" "getFileName (aps s (stdoutAppender s)) = ''s4d0ut''"
    and "\<And>l. l < next_lg s \<Longrightarrow> distinct (lg_appenders (lgs s l))"
    and "\<And>l a. l < next_lg s \<Longrightarrow> a \<in> set (lg_appenders (lgs s l)) \<Longrightarrow> a < next_ap s \<and> ap_formatter (aps s a) \<noteq> None"
    and "\<And>name l. log_map s name = Some (Some l) \<Longrightarrow> l < next_lg s \<and> lg_name (lgs s l) = name"
    and "\<And>f a. app_map s f = Some a \<Longrightarrow> a < next_ap s \<and> getFileName (aps s a) = f"
  shows "log_ok s"
  using assms by (auto simp: log_ok_def)

lemma log_okD:
  assumes "log_ok s"
  shows "root s < next_lg s" "stdoutAppender s < next_ap s" "getFileName (aps s (stdoutAppender s)) = ''s4d0ut''"
    and "l < next_lg s \<Longrightarrow> distinct (lg_appenders (lgs s l))"
    and "l < next_lg s \<Longrightarrow> a \<in> set (lg_appenders (lgs s l)) \<Longrightarrow> a < next_ap s \<and> ap_formatter (aps s a) \<noteq> None"
    and "log_map s name = Some (Some l) \<Longrightarrow> l < next_lg s \<and> lg_name (lgs s l) = name"
    and "app_map s f = Some a \<Longrightarrow> a < next_ap s \<and> getFileName (aps s a) = f"
  using assms by (auto simp: log_ok_def)

text \<open>What is done to an appender keeps its file, and a formatter it has.\<close>

definition keeps :: "(appender \<Rightarrow> appender) \<Rightarrow> bool" where
  "keeps f \<longleftrightarrow> (\<forall>a. getFileName (f a) = getFileName a \<and> (ap_formatter a \<noteq> None \<longrightarrow> ap_formatter (f a) \<noteq> None))"

lemma keeps_ops [simp]: "keeps (setFormatter f)" "keeps (\<lambda>a. snd (reopen can_open a))"
  by (auto simp: keeps_def setFormatter_def reopen_def getFileName_def split: sink.split)

lemma log_ok_upd_ap [simp]:
  assumes "log_ok s" "keeps f"
  shows "log_ok (upd_ap i f s)"
  using log_okD [OF assms(1)] assms(2) by (intro log_okI) (auto simp: upd_ap_def keeps_def)

lemma log_ok_appenders [simp]:
  assumes "log_ok s" "distinct as" "\<And>a. a \<in> set as \<Longrightarrow> a < next_ap s \<and> ap_formatter (aps s a) \<noteq> None"
    and "\<And>g. lg_appenders (f g) = (if g = lgs s l then as else lg_appenders g)" "\<And>g. lg_name (f g) = lg_name g"
  shows "log_ok (upd_lg l f s)"
  using log_okD [OF assms(1)] assms(2-5) by (intro log_okI) (auto simp: upd_lg_def split: if_splits)

lemma log_ok_addAppender [simp]:
  assumes "log_ok s" "l < next_lg s" "a < next_ap s"
  shows "log_ok (logger_addAppender l a s)"
proof (cases "a \<in> set (lg_appenders (lgs s l))")
  case False
  define s1 where "s1 = (if ap_formatter (aps s a) = None then upd_ap a (setFormatter (lg_formatter (lgs s l))) s else s)"
  have ok: "log_ok s1" using assms(1) by (simp add: s1_def)
  have eq: "lgs s1 = lgs s" "next_ap s1 = next_ap s" "next_lg s1 = next_lg s" "ap_formatter (aps s1 a) \<noteq> None"
    by (auto simp: s1_def upd_ap_def setFormatter_def)
  have "log_ok (upd_lg l (\<lambda>g. g\<lparr>lg_appenders := lg_appenders g @ [a]\<rparr>) s1)"
    using log_okD [OF ok] eq assms(2,3) False by (intro log_okI) (auto simp: upd_lg_def split: if_splits)
  then show ?thesis using False by (simp add: logger_addAppender_def s1_def Let_def)
qed (simp add: logger_addAppender_def assms)

lemma log_ok_delAppender [simp]:
  assumes "log_ok s"
  shows "log_ok (logger_delAppender l a s)"
  using log_okD [OF assms] by (intro log_okI) (auto simp: logger_delAppender_def upd_lg_def split: if_splits dest: set_remove1_subset [THEN subsetD])

lemma log_ok_clear [simp]: "log_ok s \<Longrightarrow> log_ok (clearAppender l s)"
  by (auto simp: log_ok_def clearAppender_def upd_lg_def)

lemma log_ok_level [simp]: "log_ok s \<Longrightarrow> log_ok (setLogLevel level l s)"
  by (auto simp: log_ok_def setLogLevel_def upd_lg_def)

lemma log_ok_new_ap [simp]:
  assumes "log_ok s"
  shows "log_ok (snd (new_ap a s))"
  using log_okD(1-6) [OF assms] by (intro log_okI) (auto simp: new_ap_def less_Suc_eq dest: log_okD(7) [OF assms])

lemma log_ok_addLogger [simp]:
  assumes "log_ok s"
  shows "log_ok (snd (addLogger name level fmt s))"
  using log_okD(1-5,7) [OF assms]
  by (intro log_okI)
     (auto simp: addLogger_def new_logger_def Logger_new_def less_Suc_eq split: if_splits dest: log_okD(6) [OF assms])

lemma log_ok_delLogger [simp]: "log_ok s \<Longrightarrow> log_ok (delLogger name s)"
  by (auto simp: log_ok_def delLogger_def)

lemma log_ok_null [simp]: "log_ok s \<Longrightarrow> log_ok (s\<lparr>log_map := (log_map s)(name \<mapsto> None)\<rparr>)"
  by (auto simp: log_ok_def)

lemma log_ok_app_map [simp]:
  "log_ok s \<Longrightarrow> a < next_ap s \<Longrightarrow> getFileName (aps s a) = f \<Longrightarrow> log_ok (s\<lparr>app_map := (app_map s)(f \<mapsto> a)\<rparr>)"
  by (auto simp: log_ok_def)

lemma log_ok_addStdout [simp]: "log_ok s \<Longrightarrow> log_ok (snd (addStdoutAppender name s))"
  by (auto simp: addStdoutAppender_def log_okD split: option.split)

lemma log_ok_delStdout [simp]: "log_ok s \<Longrightarrow> log_ok (snd (delStdoutAppender name s))"
  by (auto simp: delStdoutAppender_def split: option.split)

lemma log_ok_delFile [simp]: "log_ok s \<Longrightarrow> log_ok (snd (delFileAppender name f s))"
  by (auto simp: delFileAppender_def split: option.split)

lemma log_ok_mgr_addAppender [simp]:
  assumes "log_ok s" "a < next_ap s"
  shows "log_ok (snd (mgr_addAppender name a s))"
  using log_ok_app_map [OF assms refl] log_ok_null [OF log_ok_app_map [OF assms refl], of name] assms log_okD(6) [OF assms(1)]
  by (auto simp: mgr_addAppender_def Let_def split: option.split)

lemma log_ok_addFile [simp]:
  assumes "log_ok s"
  shows "log_ok (snd (addFileAppender can_open name f s))"
proof (cases "log_map s name")
  case (Some lg)
  show ?thesis
  proof (cases lg)
    case (Some l)
    have l: "l < next_lg s" using log_okD(6) [OF assms] \<open>log_map s name = Some lg\<close> Some by simp
    show ?thesis
    proof (cases "app_map s f")
      case None
      let ?s1 = "snd (new_ap (FileAppender can_open f) s)"
      let ?s2 = "?s1\<lparr>app_map := (app_map ?s1)(f \<mapsto> next_ap s)\<rparr>"
      have "log_ok ?s2"
        by (rule log_ok_app_map [OF log_ok_new_ap [OF assms]]) (simp_all add: new_ap_def FileAppender_def getFileName_def reopen_def)
      then have "log_ok (logger_addAppender l (next_ap s) ?s2)"
        by (rule log_ok_addAppender) (simp_all add: l new_ap_def)
      then show ?thesis
        using None Some \<open>log_map s name = Some lg\<close>
        by (simp add: addFileAppender_def lookUpFileAppender_def new_ap_def Let_def)
    next
      case (Some a)
      then show ?thesis
        using assms l \<open>lg = Some l\<close> \<open>log_map s name = Some lg\<close> log_okD(7) [OF assms Some]
        by (simp add: addFileAppender_def lookUpFileAppender_def Let_def)
    qed
  qed (use assms Some in \<open>simp add: addFileAppender_def\<close>)
qed (simp add: addFileAppender_def assms)

lemma log_ok_LogMgr: "log_ok (LogMgr can_open)"
proof -
  define s0 where "s0 = \<lparr>aps = (\<lambda>_. StdoutAppender), next_ap = 1, lgs = (\<lambda>_. Logger_new INFO root_fmt ''root''), next_lg = 1,
      root = 0, log_map = Map.empty, app_map = [''s4d0ut'' \<mapsto> 0], stdoutAppender = 0, written = []\<rparr>"
  have "log_ok s0"
    by (auto simp: log_ok_def s0_def StdoutAppender_def getFileName_def Logger_new_def)
  then have ok: "log_ok (logger_addAppender 0 0 s0)" by (rule log_ok_addAppender) (simp_all add: s0_def)
  moreover have "0 < next_lg (logger_addAppender 0 0 s0) \<and> lg_name (lgs (logger_addAppender 0 0 s0) 0) = ''root''"
    by (simp add: s0_def logger_addAppender_def upd_lg_def upd_ap_def Let_def Logger_new_def)
  ultimately have "log_ok ((logger_addAppender 0 0 s0)\<lparr>log_map := (log_map (logger_addAppender 0 0 s0))(''root'' \<mapsto> Some 0)\<rparr>)"
    by (auto simp: log_ok_def)
  then show ?thesis unfolding LogMgr_def Let_def s0_def [symmetric] by (rule log_ok_addFile)
qed

section \<open>What an event writes\<close>

definition usable :: "(string \<Rightarrow> bool) \<Rightarrow> appender \<Rightarrow> bool" where
  "usable can_open a \<longleftrightarrow> ap_open a \<or> ap_open (snd (reopen can_open a))"

definition line :: "(string \<Rightarrow> int \<Rightarrow> string) \<Rightarrow> log_event \<Rightarrow> appender \<Rightarrow> sink \<times> string" where
  "line date e a = (ap_sink a, formatter_format date (the (ap_formatter a)) e)"

definition passes :: "log_system \<Rightarrow> nat \<Rightarrow> log_event \<Rightarrow> bool" where
  "passes s l e \<longleftrightarrow> level_num (lg_level (lgs s l)) \<le> level_num (e_level e)"

lemma appender_log_state:
  "lgs (appender_log can_open date l e a s) = lgs s" "root (appender_log can_open date l e a s) = root s"
  "b \<noteq> a \<Longrightarrow> aps (appender_log can_open date l e a s) b = aps s b"
  by (auto simp: appender_log_def upd_ap_def Let_def)

lemma reopen_keeps: "ap_sink (snd (reopen can_open a)) = ap_sink a" "ap_formatter (snd (reopen can_open a)) = ap_formatter a"
  by (auto simp: reopen_def split: sink.split)

lemma appender_log_written:
  "written (appender_log can_open date l e a s) =
     written s @ (if passes s l e \<and> usable can_open (aps s a) then [line date e (aps s a)] else [])"
  by (auto simp: appender_log_def upd_ap_def Let_def usable_def passes_def line_def reopen_keeps)

lemma appenders_written:
  "distinct as \<Longrightarrow>
   written (fold (appender_log can_open date l e) as s) =
     written s @ (if passes s l e then [line date e (aps s a). a \<leftarrow> as, usable can_open (aps s a)] else [])"
proof (induction as arbitrary: s)
  case (Cons a as)
  let ?s1 = "appender_log can_open date l e a s"
  have "aps ?s1 b = aps s b" if "b \<in> set as" for b
    using that Cons.prems by (intro appender_log_state) auto
  then have m: "concat (map (\<lambda>b. if usable can_open (aps ?s1 b) then [line date e (aps ?s1 b)] else []) as) =
      concat (map (\<lambda>b. if usable can_open (aps s b) then [line date e (aps s b)] else []) as)"
    by (intro arg_cong [where f = concat] map_cong) simp_all
  have "distinct as" using Cons.prems by simp
  from Cons.IH [OF this, of ?s1, unfolded m] show ?case
    by (simp add: appender_log_written passes_def appender_log_state)
qed simp

lemma log_ok_appender_log [simp]: "log_ok s \<Longrightarrow> log_ok (appender_log can_open date l e a s)"
proof -
  assume "log_ok s"
  then have "log_ok (if \<not> ap_open (aps s a) then upd_ap a (\<lambda>x. snd (reopen can_open x)) s else s)" by simp
  moreover have "log_ok (t\<lparr>written := w\<rparr>) = log_ok t" for t w by (simp add: log_ok_def)
  ultimately show ?thesis by (simp add: appender_log_def Let_def)
qed

lemma log_ok_fold: "log_ok s \<Longrightarrow> log_ok (fold (appender_log can_open date l e) as s)"
  by (induction as arbitrary: s) simp_all

lemma log_ok_logger_log [simp]: "log_ok s \<Longrightarrow> log_ok (snd (logger_log can_open date held level l e s))"
  by (induction can_open date held level l e s rule: logger_log.induct)
     (subst logger_log.simps, simp add: log_ok_fold)

lemma log_ok_setters [simp]:
  "log_ok s \<Longrightarrow> log_ok (upd_lg l (\<lambda>g. g\<lparr>lg_btLevel := b\<rparr>) s)" "log_ok s \<Longrightarrow> log_ok (upd_lg l (\<lambda>g. g\<lparr>lg_formatter := f\<rparr>) s)"
  by (auto simp: log_ok_def upd_lg_def)

lemma new_ap_next [simp]: "next_ap (snd (new_ap a s)) = Suc (fst (new_ap a s))"
  by (simp add: new_ap_def)

lemma log_ok_define_apps: "log_ok s \<Longrightarrow> log_ok (snd (define_apps can_open name is s))"
proof (induction "is" arbitrary: s)
  case (Cons i "is")
  let ?n = "new_ap (make_appender can_open i) s"
  have "log_ok (snd (mgr_addAppender name (fst ?n) (snd ?n)))" using Cons.prems by simp
  with Cons.IH show ?case by (auto split: prod.split sum.split)
qed simp

lemma log_ok_define_logger [simp]:
  assumes "log_ok s"
  shows "log_ok (snd (define_logger can_open item s))"
proof -
  have "log_ok (snd (ADD_LOGGER (ld_logName item) (ld_level item) (ld_format item) s))"
    using assms by (simp add: ADD_LOGGER_def)
  then show ?thesis
    by (auto simp: define_logger_def Let_def intro!: log_ok_define_apps split: prod.split)
qed

lemma log_ok_define_loggers: "log_ok s \<Longrightarrow> log_ok (snd (define_loggers can_open oldVal items s))"
proof (induction items arbitrary: s)
  case (Cons i "is")
  obtain r s1 where d: "define_logger can_open i s = (r, s1)" by fastforce
  then have "log_ok s1" using log_ok_define_logger [OF Cons.prems, of can_open i] by simp
  with d Cons show ?case by (auto split: sum.split option.split)
qed simp

lemma log_ok_silence_loggers: "log_ok s \<Longrightarrow> log_ok (snd (silence_loggers newVal items s))"
  by (induction items arbitrary: s) (auto simp: silence_def split: option.split)

lemma log_ok_onLogChange [simp]: "log_ok s \<Longrightarrow> log_ok (snd (onLogChange can_open oldVal newVal s))"
  using log_ok_define_loggers [of s can_open oldVal newVal] log_ok_silence_loggers
  by (auto simp: onLogChange_def split: prod.split sum.split)

text \<open>What the program can do to the logging system, from the construction of the manager on.\<close>

inductive log_reach :: "(string \<Rightarrow> bool) \<Rightarrow> (string \<Rightarrow> int \<Rightarrow> string) \<Rightarrow> log_system \<Rightarrow> bool"
  for can_open date where
  create: "log_reach can_open date (LogMgr can_open)"
| ADD_LOGGER: "log_reach can_open date s \<Longrightarrow> log_reach can_open date (snd (ADD_LOGGER name level fmt s))"
| delLogger: "log_reach can_open date s \<Longrightarrow> log_reach can_open date (delLogger name s)"
| new_StdoutAppender: "log_reach can_open date s \<Longrightarrow> log_reach can_open date (snd (new_ap StdoutAppender s))"
| new_FileAppender: "log_reach can_open date s \<Longrightarrow> log_reach can_open date (snd (new_ap (FileAppender can_open f) s))"
| setFormatter: "log_reach can_open date s \<Longrightarrow> log_reach can_open date (upd_ap a (setFormatter fm) s)"
| addAppender: "log_reach can_open date s \<Longrightarrow> l < next_lg s \<Longrightarrow> a < next_ap s \<Longrightarrow>
    log_reach can_open date (logger_addAppender l a s)"
| delAppender: "log_reach can_open date s \<Longrightarrow> log_reach can_open date (logger_delAppender l a s)"
| clearAppender: "log_reach can_open date s \<Longrightarrow> log_reach can_open date (clearAppender l s)"
| setLogLevel: "log_reach can_open date s \<Longrightarrow> log_reach can_open date (setLogLevel level l s)"
| addStdoutAppender: "log_reach can_open date s \<Longrightarrow> log_reach can_open date (snd (addStdoutAppender name s))"
| delStdoutAppender: "log_reach can_open date s \<Longrightarrow> log_reach can_open date (snd (delStdoutAppender name s))"
| mgr_addAppender: "log_reach can_open date s \<Longrightarrow> a < next_ap s \<Longrightarrow>
    log_reach can_open date (snd (mgr_addAppender name a s))"
| addFileAppender: "log_reach can_open date s \<Longrightarrow> log_reach can_open date (snd (addFileAppender can_open name f s))"
| delFileAppender: "log_reach can_open date s \<Longrightarrow> log_reach can_open date (snd (delFileAppender name f s))"
| onLogChange: "log_reach can_open date s \<Longrightarrow> log_reach can_open date (snd (onLogChange can_open oldVal newVal s))"
| log: "log_reach can_open date s \<Longrightarrow> log_reach can_open date (snd (logger_log can_open date [] level l e s))"

lemma log_ok_reach: "log_reach can_open date s \<Longrightarrow> log_ok s"
  by (induction rule: log_reach.induct) (simp_all add: log_ok_LogMgr ADD_LOGGER_def)

text \<open>
  C30. Every state of the logging system that the operations of the manager, the loggers and the
  appenders and a change of the configuration lead to is well formed: in particular no logger
  writes an event twice to the same appender, no appender of a logger lacks a formatter, and a
  registered file name leads to an appender that writes to this file.
\<close>

theorem log_system_invariant:
  assumes "log_reach can_open date s"
  shows "log_ok s"
  using assms by (rule log_ok_reach)

theorem log_system_invariant_witness:
  "log_ok (snd (addFileAppender (\<lambda>_. False) ''http'' ''http.log'' (snd (ADD_LOGGER ''http'' DEBUG [] (LogMgr (\<lambda>_. False))))))"
  by (rule log_system_invariant [where can_open = "\<lambda>_. False" and date = "\<lambda>_ _. []"])
     (intro log_reach.addFileAppender log_reach.ADD_LOGGER log_reach.create)

text \<open>The logger that writes, and whether the levels let the event through to it.\<close>

definition log_target :: "log_system \<Rightarrow> nat \<Rightarrow> nat" where
  "log_target s l = (if lg_appenders (lgs s l) = [] then root s else l)"

definition log_on :: "log_system \<Rightarrow> nat \<Rightarrow> log_event \<Rightarrow> bool" where
  "log_on s l e \<longleftrightarrow> passes s l e \<and> passes s (log_target s l) e"

text \<open>
  C17. What logging an event does: if the event reaches the level of the logger, each of its
  appenders that is open, or can be opened now, gets the formatted event once, in the order in
  which they were added. A logger without appenders passes the event to the root logger, whose
  level decides as well. If the root logger has no appenders either, it waits for its own mutex, or
  for that of the logger it was called by, for ever, and nothing is written.
\<close>

theorem logger_log_writes:
  assumes "log_reach can_open date s" "l < next_lg s"
  shows "case logger_log can_open date [] (e_level e) l e s of (res, s1) \<Rightarrow>
    if log_on s l e \<and> lg_appenders (lgs s (log_target s l)) = [] then res = Inl Deadlock \<and> s1 = s
    else res = Inr () \<and> written s1 = written s @
      (if log_on s l e
       then [line date e (aps s a). a \<leftarrow> lg_appenders (lgs s (log_target s l)), usable can_open (aps s a)] else [])"
proof -
  note ok = log_ok_reach [OF assms(1)]
  have "distinct (lg_appenders (lgs s (log_target s l)))"
    using log_okD(1,4) [OF ok] assms(2) by (simp add: log_target_def)
  note w = appenders_written [OF this, of can_open date "log_target s l" e s]
  note simps = log_target_def log_on_def passes_def
  show ?thesis
  proof (cases "lg_appenders (lgs s l) = []")
    case True
    then show ?thesis
      using w by (auto simp: logger_log.simps [of _ _ "[]"] logger_log.simps [of _ _ "[l]"]
          logger_log.simps [of _ _ "[root s, l]"] simps)
  next
    case False
    then show ?thesis
      using w by (auto simp: logger_log.simps [of _ _ "[]"] simps)
  qed
qed

definition an_error :: log_event where
  "an_error = \<lparr>e_level = ERROR, e_elapse = 0, e_times = 0, e_pid = 1, e_tid = 1, e_cid = 0, e_lines = 7, e_file = ''a.cpp'',
     e_func = ''f'', e_logname = ''root'', e_threadName = ''t'', e_msg = ''m''\<rparr>"

theorem logger_log_writes_witness:
  "map fst (written (snd (logger_log (\<lambda>_. True) (\<lambda>_ _. []) [] ERROR 0 an_error (LogMgr (\<lambda>_. True))))) =
     [Stdout, File ''root.log'']"
proof -
  let ?s = "LogMgr (\<lambda>_. True)"
  have "next_lg ?s = 1 \<and> root ?s = 0 \<and> written ?s = [] \<and> lg_appenders (lgs ?s 0) = [0, 1] \<and> lg_level (lgs ?s 0) = INFO \<and>
      ap_sink (aps ?s 0) = Stdout \<and> ap_sink (aps ?s 1) = File ''root.log'' \<and> ap_open (aps ?s 0) \<and> ap_open (aps ?s 1)"
    by (simp add: LogMgr_def Let_def logger_addAppender_def addFileAppender_def lookUpFileAppender_def new_ap_def upd_ap_def
        upd_lg_def StdoutAppender_def FileAppender_def reopen_def setFormatter_def Logger_new_def)
  then show ?thesis
    using logger_log_writes [OF log_reach.create, of 0 "\<lambda>_. True" an_error "\<lambda>_ _. []"]
    by (auto simp: log_on_def log_target_def passes_def an_error_def usable_def line_def split: prod.splits)
qed

end
