(* ===== verification/Log_Config.thy ===== *)
theory Log_Config
  imports Log_Props
begin

text \<open>
  What a change of the configuration variable \<open>logs\<close> does to the loggers (\<open>onLogChange\<close> in
  \<open>src/src/log.cpp\<close>).
\<close>

section \<open>Frames\<close>

text \<open>Old loggers and appenders stay as they are, and so do the names other than \<open>name\<close>.\<close>

definition frame :: "string \<Rightarrow> log_system \<Rightarrow> log_system \<Rightarrow> bool" where
  "frame name s t \<longleftrightarrow>
     next_lg s \<le> next_lg t \<and> next_ap s \<le> next_ap t \<and>
     (\<forall>l < next_lg s. lgs t l = lgs s l) \<and> (\<forall>a < next_ap s. aps t a = aps s a) \<and>
     (\<forall>n. n \<noteq> name \<longrightarrow> log_map t n = log_map s n)"

definition app_sink :: "AppenderDefine \<Rightarrow> sink" where
  "app_sink i = (if ad_type i then File (ad_filename i) else Stdout)"

lemma make_appender_sink [simp]: "ap_sink (make_appender can_open i) = app_sink i"
  by (simp add: make_appender_def app_sink_def StdoutAppender_def FileAppender_def reopen_def setFormatter_def Let_def)

text \<open>The logger a name leads to, by its level and where it writes.\<close>

definition configured :: "log_system \<Rightarrow> string \<Rightarrow> Level \<Rightarrow> sink list \<Rightarrow> bool" where
  "configured s name level sinks \<longleftrightarrow>
     (\<exists>l. log_map s name = Some (Some l) \<and> l < next_lg s \<and> lg_level (lgs s l) = level \<and>
          map (\<lambda>a. ap_sink (aps s a)) (lg_appenders (lgs s l)) = sinks)"

lemma configured_frame:
  assumes "frame n s t" "name \<noteq> n" "log_ok s" "configured s name level sinks"
  shows "configured t name level sinks"
proof -
  obtain l where l: "log_map s name = Some (Some l)" "l < next_lg s" "lg_level (lgs s l) = level"
    "map (\<lambda>a. ap_sink (aps s a)) (lg_appenders (lgs s l)) = sinks"
    using assms(4) by (auto simp: configured_def)
  have "map (\<lambda>a. ap_sink (aps t a)) (lg_appenders (lgs s l)) = sinks"
    unfolding l(4) [symmetric]
    using assms(1) log_okD(5) [OF assms(3) l(2)] by (intro map_cong) (auto simp: frame_def)
  then show ?thesis using l(1-3) assms(1,2) by (auto simp: configured_def frame_def)
qed

section \<open>Defining a logger\<close>

text \<open>One appender of the logger \<open>l0\<close> that has been created last.\<close>

lemma define_app:
  fixes can_open i
  assumes "log_ok s" "log_map s name = Some (Some l0)"
  defines "a \<equiv> next_ap s"
  defines "t \<equiv> snd (mgr_addAppender name a (snd (new_ap (make_appender can_open i) s)))"
  shows "fst (mgr_addAppender name a (snd (new_ap (make_appender can_open i) s))) = Inr ()"
    and "log_map t = log_map s" "next_lg t = next_lg s" "next_ap t = Suc (next_ap s)"
    and "lg_level (lgs t l0) = lg_level (lgs s l0)" "lg_appenders (lgs t l0) = lg_appenders (lgs s l0) @ [a]"
    and "\<And>l. l \<noteq> l0 \<Longrightarrow> lgs t l = lgs s l" "\<And>b. b < next_ap s \<Longrightarrow> aps t b = aps s b" "ap_sink (aps t a) = app_sink i"
proof -
  have "a \<notin> set (lg_appenders (lgs s l0))"
    using log_okD(5) [OF assms(1), of l0] log_okD(6) [OF assms(1,2)] by (auto simp: a_def)
  then show "fst (mgr_addAppender name a (snd (new_ap (make_appender can_open i) s))) = Inr ()"
    "log_map t = log_map s" "next_lg t = next_lg s" "next_ap t = Suc (next_ap s)"
    "lg_level (lgs t l0) = lg_level (lgs s l0)" "lg_appenders (lgs t l0) = lg_appenders (lgs s l0) @ [a]"
    "\<And>l. l \<noteq> l0 \<Longrightarrow> lgs t l = lgs s l" "\<And>b. b < next_ap s \<Longrightarrow> aps t b = aps s b" "ap_sink (aps t a) = app_sink i"
    using assms(2)
    by (auto simp: t_def a_def mgr_addAppender_def new_ap_def logger_addAppender_def upd_ap_def upd_lg_def
        setFormatter_def Let_def)
qed

lemma define_apps_spec:
  assumes "log_ok s" "log_map s name = Some (Some l0)"
  shows "case define_apps can_open name as s of (r, t) \<Rightarrow>
    r = Inr () \<and> log_map t = log_map s \<and> next_lg t = next_lg s \<and> next_ap s \<le> next_ap t \<and>
    lg_level (lgs t l0) = lg_level (lgs s l0) \<and>
    map (\<lambda>a. ap_sink (aps t a)) (lg_appenders (lgs t l0)) =
      map (\<lambda>a. ap_sink (aps s a)) (lg_appenders (lgs s l0)) @ map app_sink as \<and>
    (\<forall>l. l \<noteq> l0 \<longrightarrow> lgs t l = lgs s l) \<and> (\<forall>b < next_ap s. aps t b = aps s b)"
  using assms
proof (induction as arbitrary: s)
  case (Cons i as)
  let ?m = "mgr_addAppender name (next_ap s) (snd (new_ap (make_appender can_open i) s))"
  note d = define_app [OF Cons.prems, where can_open = can_open and i = i]
  have step: "define_apps can_open name (i # as) s = define_apps can_open name as (snd ?m)"
    using d(1) by (auto simp: new_ap_def split: prod.split)
  have "log_ok (snd ?m)"
    using log_ok_mgr_addAppender [OF log_ok_new_ap [OF Cons.prems(1)]] by (simp add: new_ap_def)
  note IH = Cons.IH [OF this, unfolded d(2), OF Cons.prems(2)]
  have "map (\<lambda>a. ap_sink (aps (snd ?m) a)) (lg_appenders (lgs s l0)) =
      map (\<lambda>a. ap_sink (aps s a)) (lg_appenders (lgs s l0))"
    using log_okD(5) [OF Cons.prems(1), of l0] log_okD(6) [OF Cons.prems] d(8) by (intro map_cong) auto
  then show ?case using IH unfolding step by (auto simp: d)
qed simp

lemma define_logger_spec:
  assumes "log_ok s"
  shows "case define_logger can_open item s of (r, t) \<Rightarrow>
    r = Inr () \<and> frame (ld_logName item) s t \<and>
    configured t (ld_logName item) (ld_level item) (map app_sink (ld_apps item))"
proof -
  let ?name = "ld_logName item"
  let ?fmt = "Formatter (ld_format item)"
  obtain l s1 where a: "ADD_LOGGER ?name (ld_level item) (ld_format item) s = (l, s1)" by fastforce
  have ok1: "log_ok s1"
    using log_ok_addLogger [OF assms] a by (auto simp: ADD_LOGGER_def split: if_splits) (metis snd_conv)+
  have l: "l = next_lg s" "next_lg s1 = Suc l" "log_map s1 = (log_map s)(?name \<mapsto> Some l)" "next_ap s1 = next_ap s"
    "aps s1 = aps s" "\<And>k. k < l \<Longrightarrow> lgs s1 k = lgs s k"
    using a by (auto simp: ADD_LOGGER_def addLogger_def new_logger_def split: if_splits)
  define s5 where "s5 = clearAppender l (if ld_format item \<noteq> [] \<and> isCorrect ?fmt
      then upd_lg l (\<lambda>g. g\<lparr>lg_formatter := ?fmt\<rparr>)
        (setLogLevel (ld_level item) l (upd_lg l (\<lambda>g. g\<lparr>lg_btLevel := ld_btLevel item\<rparr>) s1))
      else setLogLevel (ld_level item) l (upd_lg l (\<lambda>g. g\<lparr>lg_btLevel := ld_btLevel item\<rparr>) s1))"
  have ok5: "log_ok s5" using ok1 by (simp add: s5_def)
  have s5: "log_map s5 = log_map s1" "next_lg s5 = next_lg s1" "next_ap s5 = next_ap s1" "aps s5 = aps s1"
    "lg_level (lgs s5 l) = ld_level item" "lg_appenders (lgs s5 l) = []" "\<And>k. k \<noteq> l \<Longrightarrow> lgs s5 k = lgs s1 k"
    by (simp_all add: s5_def clearAppender_def setLogLevel_def upd_lg_def)
  have d: "define_logger can_open item s = define_apps can_open ?name (ld_apps item) s5"
    by (simp add: define_logger_def a s5_def Let_def)
  have "log_map s5 ?name = Some (Some l)" by (simp add: s5 l)
  from define_apps_spec [OF ok5 this, where can_open = can_open and as = "ld_apps item"] show ?thesis
    unfolding d by (auto simp: s5 s5(5,6) [unfolded l(1)] l frame_def configured_def)
qed

lemma log_ok_find: "ld_find defs item = Some it \<Longrightarrow> it \<in> set defs \<and> ld_logName it = ld_logName item"
  by (auto simp: ld_find_def find_Some_iff)

text \<open>The item is new or differs from the one of its name.\<close>

definition changed :: "LogDefine list \<Rightarrow> LogDefine \<Rightarrow> bool" where
  "changed oldVal item \<longleftrightarrow> (case ld_find oldVal item of None \<Rightarrow> True | Some it \<Rightarrow> \<not> ld_eq item it)"

definition as_defined :: "log_system \<Rightarrow> LogDefine \<Rightarrow> bool" where
  "as_defined s item \<longleftrightarrow> configured s (ld_logName item) (ld_level item) (map app_sink (ld_apps item))"

lemma frame_names:
  "frame n s t \<Longrightarrow> log_map s m = Some (Some l) \<Longrightarrow> m \<noteq> n \<Longrightarrow> log_map t m = Some (Some l)"
  by (simp add: frame_def)

text \<open>Names that are registered stay registered.\<close>

definition registered :: "log_system \<Rightarrow> string \<Rightarrow> bool" where
  "registered s name \<longleftrightarrow> (\<exists>l. log_map s name = Some (Some l))"

lemma define_loggers_spec:
  assumes "log_ok s" "distinct (map ld_logName items)"
  shows "case define_loggers can_open oldVal items s of (r, t) \<Rightarrow>
    r = Inr () \<and> log_ok t \<and>
    (\<forall>name. registered s name \<longrightarrow> registered t name) \<and>
    (\<forall>name level sinks. name \<notin> ld_logName ` set items \<longrightarrow> configured s name level sinks \<longrightarrow> configured t name level sinks) \<and>
    (\<forall>item \<in> set items. changed oldVal item \<longrightarrow> as_defined t item)"
  using assms
proof (induction items arbitrary: s)
  case (Cons i "is")
  have dist: "distinct (map ld_logName is)" "ld_logName i \<notin> ld_logName ` set is" using Cons.prems(2) by auto
  show ?case
  proof (cases "changed oldVal i")
    case False
    then have "define_loggers can_open oldVal (i # is) s = define_loggers can_open oldVal is s"
      by (auto simp: changed_def split: option.splits)
    then show ?thesis using Cons.IH [OF Cons.prems(1) dist(1)] False by auto
  next
    case True
    obtain r u where d: "define_logger can_open i s = (r, u)" by fastforce
    note spec = define_logger_spec [OF Cons.prems(1), where can_open = can_open and item = i, unfolded d, simplified]
    have ok: "log_ok u" using log_ok_define_logger [OF Cons.prems(1), of can_open i] d by simp
    have step: "define_loggers can_open oldVal (i # is) s = define_loggers can_open oldVal is u"
      using True d spec by (auto simp: changed_def split: option.splits)
    have reg: "registered u name" if "registered s name" for name
      using that spec frame_names [of "ld_logName i" s u name]
      by (cases "name = ld_logName i") (auto simp: registered_def configured_def)
    have conf: "configured u name level sinks"
      if "name \<notin> ld_logName ` set (i # is)" "configured s name level sinks" for name level sinks
      using that spec configured_frame [of "ld_logName i" s u name] Cons.prems(1) by simp
    obtain r2 t where t: "define_loggers can_open oldVal is u = (r2, t)" by fastforce
    note IH = Cons.IH [OF ok dist(1), unfolded t, simplified]
    have "as_defined t i" using IH spec dist(2) by (simp add: as_defined_def)
    then show ?thesis unfolding step t using IH reg conf by auto
  qed
qed (simp add: assms)

section \<open>Silencing a logger\<close>

definition silent :: "log_system \<Rightarrow> LogDefine \<Rightarrow> bool" where
  "silent s item \<longleftrightarrow> configured s (ld_logName item) (Level_cast 100) []"

lemma silence_spec:
  assumes "log_ok s" "registered s (ld_logName item)"
  shows "case silence item s of (r, t) \<Rightarrow>
    r = Inr () \<and> silent t item \<and> log_map t = log_map s \<and>
    (\<forall>name level sinks. name \<noteq> ld_logName item \<longrightarrow> configured s name level sinks \<longrightarrow> configured t name level sinks)"
proof -
  obtain l where l: "log_map s (ld_logName item) = Some (Some l)" using assms(2) by (auto simp: registered_def)
  then have "l < next_lg s" "lg_name (lgs s l) = ld_logName item" using log_okD(6) [OF assms(1)] by auto
  moreover have "k \<noteq> l" if "log_map s name = Some (Some k)" "name \<noteq> ld_logName item" for name k
    using log_okD(6) [OF assms(1) that(1)] that(2) calculation(2) by auto
  ultimately show ?thesis
    using l by (fastforce simp: silence_def mgr_lookUp_def silent_def configured_def clearAppender_def setLogLevel_def upd_lg_def)
qed

lemma silence_loggers_spec:
  assumes "log_ok s" "list_all (\<lambda>i. registered s (ld_logName i)) items"
  shows "case silence_loggers newVal items s of (r, t) \<Rightarrow>
    r = Inr () \<and> (\<forall>item \<in> set items. ld_find newVal item = None \<longrightarrow> silent t item) \<and>
    (\<forall>name level sinks. name \<in> ld_logName ` set newVal \<longrightarrow> configured s name level sinks \<longrightarrow> configured t name level sinks) \<and>
    (\<forall>item. silent s item \<longrightarrow> silent t item)"
  using assms
proof (induction items arbitrary: s)
  case (Cons i "is")
  show ?case
  proof (cases "ld_find newVal i")
    case None
    obtain r u where d: "silence i s = (r, u)" by fastforce
    have "registered s (ld_logName i)" using Cons.prems(2) by simp
    note spec = silence_spec [OF Cons.prems(1) this, unfolded d, simplified]
    have ok: "log_ok u" using Cons.prems(1) d by (auto simp: silence_def split: option.splits)
    have "list_all (\<lambda>i. registered u (ld_logName i)) is"
      using Cons.prems(2) spec by (simp add: registered_def)
    note IH = Cons.IH [OF ok this]
    have new: "ld_logName i \<notin> ld_logName ` set newVal"
      using None by (auto simp: ld_find_def find_None_iff)
    have sil: "silent u item" if "silent s item" for item
      using that spec by (cases "ld_logName item = ld_logName i") (auto simp: silent_def)
    have conf: "configured u (ld_logName x) level sinks"
      if "x \<in> set newVal" "configured s (ld_logName x) level sinks" for x level sinks
      using that spec new by (metis image_eqI)
    show ?thesis
      using None d spec IH conf sil by (auto split: prod.splits)
  next
    case (Some it)
    then show ?thesis using Cons.IH [OF Cons.prems(1)] Cons.prems(2) by (auto split: prod.splits)
  qed
qed simp

text \<open>
  C31. A change of the configured loggers takes effect: after it, every logger of the new value that
  is new, or differs from the old one in more than its backtrace level, is registered under
  its name with its level and with exactly its appenders, in their order; a logger of the old
  value that the new one lacks stays registered but writes nothing more, its level being a
  number above all levels.
\<close>

theorem log_change_takes_effect:
  assumes "log_reach can_open date s"
    and "distinct (map ld_logName newVal)" "list_all (\<lambda>i. registered s (ld_logName i)) oldVal"
  shows "case onLogChange can_open oldVal newVal s of (r, t) \<Rightarrow>
    r = Inr () \<and> list_all (as_defined t) (filter (changed oldVal) newVal) \<and>
    list_all (silent t) (filter (\<lambda>item. ld_find newVal item = None) oldVal)"
proof -
  obtain r u where d: "define_loggers can_open oldVal newVal s = (r, u)" by fastforce
  note D = define_loggers_spec [OF log_ok_reach [OF assms(1)] assms(2), where can_open = can_open and oldVal = oldVal, unfolded d, simplified]
  have "list_all (\<lambda>i. registered u (ld_logName i)) oldVal" using assms(3) D by (auto simp: list_all_iff)
  note S = silence_loggers_spec [OF _ this, of newVal]
  show ?thesis
    using d D S by (auto simp: onLogChange_def list_all_iff as_defined_def split: prod.splits)
qed

definition log_http :: LogDefine where
  "log_http = \<lparr>ld_logName = ''http'', ld_format = ''%s%n'',
     ld_apps = [\<lparr>ad_format = [], ad_level = DEBUG, ad_type = True, ad_filename = ''http.log''\<rparr>],
     ld_level = WARN, ld_btLevel = ERROR\<rparr>"

theorem log_change_takes_effect_witness:
  "let s = snd (ADD_LOGGER ''sys'' INFO [] (LogMgr (\<lambda>_. True)));
       sys = log_http\<lparr>ld_logName := ''sys''\<rparr>;
       t = snd (onLogChange (\<lambda>_. True) [sys] [log_http] s)
   in configured t ''http'' WARN [File ''http.log''] \<and> configured t ''sys'' (Level_cast 100) []"
proof -
  let ?s = "snd (ADD_LOGGER ''sys'' INFO [] (LogMgr (\<lambda>_. True)))"
  let ?sys = "log_http\<lparr>ld_logName := ''sys''\<rparr>"
  have "log_reach (\<lambda>_. True) (\<lambda>_ _. []) ?s" by (intro log_reach.ADD_LOGGER log_reach.create)
  moreover have "registered ?s ''sys''"
    by (simp add: registered_def ADD_LOGGER_def addLogger_def new_logger_def)
  ultimately show ?thesis
    using log_change_takes_effect [of "\<lambda>_. True" "\<lambda>_ _. []" ?s "[log_http]" "[?sys]"]
    by (auto simp: log_http_def changed_def ld_find_def as_defined_def silent_def app_sink_def split: prod.splits)
qed

end
