(* ===== verification/Config.thy ===== *)
theory Config
  imports Text_Out Ordered
begin

text \<open>
  Configuration variables (\<open>src/src/config/config.hpp\<close>, \<open>Config.cpp\<close>, \<open>Lexical_Cast.hpp\<close>): the
  variables with their listeners, the table of names, and loading values from a parsed YAML file.
  The YAML library gives trees of nodes; parsing a text, writing a node as text and the
  conversions of the container types are parameters.
\<close>

section \<open>Conversions of integers\<close>

text \<open>\<open>strtoll\<close> in base ten: white space, a sign, digits; the value is clamped to 64 bits.\<close>

definition is_digit :: "char \<Rightarrow> bool" where
  "is_digit c \<longleftrightarrow> 48 \<le> (of_char c :: nat) \<and> (of_char c :: nat) \<le> 57"

definition is_space :: "char \<Rightarrow> bool" where
  "is_space c \<longleftrightarrow> c = CHR '' '' \<or> (9 \<le> (of_char c :: nat) \<and> (of_char c :: nat) \<le> 13)"

definition clamp :: "int \<Rightarrow> int" where
  "clamp i = max (- (2 ^ 63)) (min (2 ^ 63 - 1) i)"

definition strtoll :: "string \<Rightarrow> int" where
  "strtoll str =
     (let s = dropWhile is_space str;
          digits = (\<lambda>t. int (read_digits 10 dec_value (takeWhile is_digit t)))
      in clamp (case s of
                  [] \<Rightarrow> 0
                | c # t \<Rightarrow> if c = CHR ''-'' then - digits t else if c = CHR ''+'' then digits t else digits s))"

text \<open>\<open>Lexical_Cast<std::string, T>\<close> for an integer type \<open>T\<close>, and what \<open><<\<close> writes for a signed and an unsigned one.\<close>

definition cast_int :: "string \<Rightarrow> 'w::len word" where
  "cast_int from = word_of_int (strtoll from)"

definition show_signed :: "'w::len word \<Rightarrow> string" where
  "show_signed w = dec_int (sint w)"

definition show_unsigned :: "'w::len word \<Rightarrow> string" where
  "show_unsigned w = dec (unat w)"

section \<open>Variables\<close>

text \<open>
  What a type offers: reading a text, which fails where the conversion throws, writing a value,
  and comparing two. A listener changes the state of the world and may throw an exception, which
  is the value \<open>False\<close>.
\<close>

record 'v var_type =
  FromStr :: "string \<Rightarrow> 'v option"
  ToStr :: "'v \<Rightarrow> string option"
  val_eq :: "'v \<Rightarrow> 'v \<Rightarrow> bool"

type_synonym ('v, 'w) on_change_cb = "'v \<Rightarrow> 'v \<Rightarrow> 'w \<Rightarrow> bool \<times> 'w"

record ('v, 'w) config_var =
  s_varName :: string
  s_varDesc :: string
  v_type :: nat
  t_varVal :: 'v
  v_cbs :: "(u64 \<times> ('v, 'w) on_change_cb) list"
  u_funcId :: u64

text \<open>\<open>tolower\<close> in the standard locale.\<close>

definition to_lower :: "char \<Rightarrow> char" where
  "to_lower c = (if 65 \<le> (of_char c :: nat) \<and> (of_char c :: nat) \<le> 90 then char_of (of_char c + 32 :: nat) else c)"

definition ConfigVar :: "nat \<Rightarrow> string \<Rightarrow> string \<Rightarrow> 'v \<Rightarrow> ('v, 'w) config_var" where
  "ConfigVar t varName varDesc varVal =
     \<lparr>s_varName = map to_lower varName, s_varDesc = varDesc, v_type = t, t_varVal = varVal, v_cbs = [], u_funcId = 0\<rparr>"

definition getVar :: "('v, 'w) config_var \<Rightarrow> 'v" where
  "getVar x = t_varVal x"

definition addCb :: "('v, 'w) on_change_cb \<Rightarrow> ('v, 'w) config_var \<Rightarrow> u64 \<times> ('v, 'w) config_var" where
  "addCb cb x = (u_funcId x + 1, x\<lparr>u_funcId := u_funcId x + 1, v_cbs := om_assign (<) (u_funcId x + 1) cb (v_cbs x)\<rparr>)"

definition delCb :: "u64 \<Rightarrow> ('v, 'w) config_var \<Rightarrow> ('v, 'w) config_var" where
  "delCb i x = x\<lparr>v_cbs := om_erase (<) i (v_cbs x)\<rparr>"

definition getCb :: "u64 \<Rightarrow> ('v, 'w) config_var \<Rightarrow> ('v, 'w) on_change_cb option" where
  "getCb i x = om_find (<) i (v_cbs x)"

definition clearCbs :: "('v, 'w) config_var \<Rightarrow> ('v, 'w) config_var" where
  "clearCbs x = x\<lparr>v_cbs := []\<rparr>"

text \<open>The listeners are called in the order of their ids, with the lock of the variable held.\<close>

fun run_cbs :: "(u64 \<times> ('v, 'w) on_change_cb) list \<Rightarrow> 'v \<Rightarrow> 'v \<Rightarrow> 'w \<Rightarrow> bool \<times> 'w" where
  "run_cbs [] old v w = (True, w)"
| "run_cbs ((i, f) # cbs) old v w =
     (case f old v w of (ok, w1) \<Rightarrow> if ok then run_cbs cbs old v w1 else (False, w1))"

definition setVal :: "('v \<Rightarrow> 'v \<Rightarrow> bool) \<Rightarrow> 'v \<Rightarrow> ('v, 'w) config_var \<times> 'w \<Rightarrow> bool \<times> ('v, 'w) config_var \<times> 'w" where
  "setVal eq v s =
     (case s of (x, w) \<Rightarrow>
        if eq (t_varVal x) v then (True, x, w)
        else case run_cbs (v_cbs x) (t_varVal x) v w of
               (ok, w1) \<Rightarrow> if ok then (True, x\<lparr>t_varVal := v\<rparr>, w1) else (False, x, w1))"

definition fromStr :: "(nat \<Rightarrow> 'v var_type) \<Rightarrow> string \<Rightarrow> ('v, 'w) config_var \<times> 'w \<Rightarrow> bool \<times> ('v, 'w) config_var \<times> 'w" where
  "fromStr ty v s =
     (case FromStr (ty (v_type (fst s))) v of
        None \<Rightarrow> (False, s)
      | Some val \<Rightarrow> setVal (val_eq (ty (v_type (fst s)))) val s)"

definition toStr :: "(nat \<Rightarrow> 'v var_type) \<Rightarrow> ('v, 'w) config_var \<Rightarrow> string" where
  "toStr ty x = (case ToStr (ty (v_type x)) (t_varVal x) of None \<Rightarrow> [] | Some str \<Rightarrow> str)"

section \<open>The table of variables\<close>

record ('v, 'w) config =
  vars :: "nat \<Rightarrow> ('v, 'w) config_var"
  next_var :: nat
  var_map :: "string \<rightharpoonup> nat"
  world :: 'w

definition legal_char :: "char \<Rightarrow> bool" where
  "legal_char c \<longleftrightarrow> c \<in> set ''abcdefghijklmnopqrstuvwxyz._0123456789''"

text \<open>The result is a variable or the null pointer, or the name thrown as invalid argument.\<close>

definition config_lookUp ::
  "nat \<Rightarrow> string \<Rightarrow> 'v \<Rightarrow> string \<Rightarrow> ('v, 'w) config \<Rightarrow> (string + nat option) \<times> ('v, 'w) config" where
  "config_lookUp t varName varDftVal varDesc s =
     (case var_map s varName of
        Some x \<Rightarrow> if v_type (vars s x) = t then (Inr (Some x), s) else (Inr None, s)
      | None \<Rightarrow>
          let name = map to_lower varName;
              v = next_var s
          in if \<not> list_all legal_char name then (Inl name, s)
             else (Inr (Some v),
                   s\<lparr>vars := (vars s)(v := ConfigVar t name varDesc varDftVal), next_var := Suc v,
                     var_map := (if var_map s name = None then (var_map s)(name \<mapsto> v) else var_map s)\<rparr>))"

definition lookUp_typed :: "nat \<Rightarrow> string \<Rightarrow> ('v, 'w) config \<Rightarrow> nat option" where
  "lookUp_typed t varName s =
     (case var_map s varName of None \<Rightarrow> None | Some x \<Rightarrow> if v_type (vars s x) = t then Some x else None)"

definition lookUpBase :: "string \<Rightarrow> ('v, 'w) config \<Rightarrow> nat option" where
  "lookUpBase varName s = var_map s varName"

section \<open>Loading\<close>

text \<open>A node; the keys of a map are the texts that \<open>Scalar\<close> gives for them.\<close>

datatype yaml = YNull | YScalar string | YSeq "yaml list" | YMap "(string \<times> yaml) list"

fun listAllItem :: "string \<Rightarrow> yaml \<Rightarrow> (string \<times> yaml) list \<Rightarrow> bool \<times> (string \<times> yaml) list"
  and list_entries :: "string \<Rightarrow> (string \<times> yaml) list \<Rightarrow> (string \<times> yaml) list \<Rightarrow> bool \<times> (string \<times> yaml) list" where
  "listAllItem prefix node out =
     (let out1 = (if prefix \<noteq> [] then out @ [(prefix, node)] else out)
      in case node of YMap es \<Rightarrow> list_entries prefix es out1 | _ \<Rightarrow> (True, out1))"
| "list_entries prefix [] out = (True, out)"
| "list_entries prefix ((str, val) # es) out =
     (if \<not> list_all legal_char str then (False, out)
      else case listAllItem (if prefix = [] then str else prefix @ ''.'' @ str) val out of
             (ok, out1) \<Rightarrow> if ok then list_entries prefix es out1 else (False, out1))"

text \<open>\<open>emit\<close> is the text that the library writes for a node.\<close>

definition load_item ::
  "(nat \<Rightarrow> 'v var_type) \<Rightarrow> (yaml \<Rightarrow> string) \<Rightarrow> string \<times> yaml \<Rightarrow> ('v, 'w) config \<Rightarrow> ('v, 'w) config" where
  "load_item ty emit val s =
     (case val of (key, node) \<Rightarrow>
        case lookUpBase (map to_lower key) s of
          None \<Rightarrow> s
        | Some x \<Rightarrow>
            (case fromStr ty (case node of YScalar str \<Rightarrow> str | _ \<Rightarrow> emit node) (vars s x, world s) of
               (_, v, w) \<Rightarrow> s\<lparr>vars := (vars s)(x := v), world := w\<rparr>))"

definition loadFromYamlNode ::
  "(nat \<Rightarrow> 'v var_type) \<Rightarrow> (yaml \<Rightarrow> string) \<Rightarrow> yaml \<Rightarrow> ('v, 'w) config \<Rightarrow> bool \<times> ('v, 'w) config" where
  "loadFromYamlNode ty emit node s =
     (case listAllItem [] node [] of
        (ok, out) \<Rightarrow> if \<not> ok then (False, s) else (True, fold (load_item ty emit) out s))"

text \<open>\<open>file\<close> is what the library reads from the file, and \<open>None\<close> when it throws.\<close>

definition loadFromYamlFile ::
  "(nat \<Rightarrow> 'v var_type) \<Rightarrow> (yaml \<Rightarrow> string) \<Rightarrow> yaml option \<Rightarrow> ('v, 'w) config \<Rightarrow> bool \<times> ('v, 'w) config" where
  "loadFromYamlFile ty emit file s =
     (case file of None \<Rightarrow> (False, s) | Some node \<Rightarrow> (True, snd (loadFromYamlNode ty emit node s)))"

end
