(* ===== verification/Config_Props.thy ===== *)
theory Config_Props
  imports Config
begin

text \<open>
  Properties of the configuration: the round trip of integers, the order in which listeners run,
  what the look-up by name registers, the paths that are loaded, and the values after loading.
\<close>

section \<open>Integers as text\<close>

lemma dec_first: "\<exists>c t. dec n = c # t \<and> is_digit c"
proof -
  obtain c t where d: "dec n = c # t" using dec_not_Nil by (cases "dec n") auto
  moreover have "of_char c \<in> {48..<58 :: nat}" using dec_digits [of c n] d by simp
  ultimately show ?thesis by (auto simp: is_digit_def)
qed

lemma takeWhile_dec: "takeWhile is_digit (dec n) = dec n"
proof -
  have "is_digit c" if "c \<in> set (dec n)" for c
    using dec_digits [OF that] by (simp add: is_digit_def less_Suc_eq_le [symmetric])
  then show ?thesis by (simp add: takeWhile_eq_all_conv)
qed

lemma digit_no_space: "is_digit c \<Longrightarrow> \<not> is_space c \<and> c \<noteq> CHR ''-'' \<and> c \<noteq> CHR ''+''"
  by (auto simp: is_digit_def is_space_def)

lemma strtoll_dec: "strtoll (dec n) = clamp (int n)"
proof -
  obtain c t where d: "dec n = c # t" "is_digit c" using dec_first by blast
  have "dropWhile is_space (dec n) = dec n" using d digit_no_space by simp
  then have "strtoll (dec n) = clamp (int (read_digits 10 dec_value (takeWhile is_digit (dec n))))"
    using d digit_no_space [OF d(2)] by (simp add: strtoll_def Let_def)
  then show ?thesis by (simp add: takeWhile_dec read_dec)
qed

lemma strtoll_minus: "strtoll (CHR ''-'' # dec n) = clamp (- int n)"
  by (simp add: strtoll_def Let_def is_space_def takeWhile_dec read_dec)

lemma strtoll_dec_int: "strtoll (dec_int i) = clamp i"
  by (simp add: dec_int_def strtoll_dec strtoll_minus)

lemma clamp_id: "- (2 ^ 63) \<le> i \<Longrightarrow> i < 2 ^ 63 \<Longrightarrow> clamp i = i"
  by (simp add: clamp_def)

text \<open>A conversion that reads what it has written.\<close>

locale lexical_cast =
  fixes to :: "'v \<Rightarrow> string"
    and "from" :: "string \<Rightarrow> 'v"
  assumes from_to: "from (to v) = v"
begin

text \<open>Its variables keep their value when their text is loaded again, and no listener runs.\<close>

lemma reload:
  assumes "ty (v_type x) = \<lparr>FromStr = Some \<circ> from, ToStr = Some \<circ> to, val_eq = (=)\<rparr>"
  shows "fromStr ty (toStr ty x) (x, w) = (True, x, w)"
  by (simp add: fromStr_def toStr_def assms from_to setVal_def)

text \<open>Different values have different texts.\<close>

lemma to_inj: "to u = to v \<longleftrightarrow> u = v"
  by (metis from_to)

end

lemma sint_bounds:
  fixes w :: "'w::len word"
  assumes "LENGTH('w) \<le> 64"
  shows "- (2 ^ 63) \<le> sint w" "sint w < 2 ^ 63"
proof -
  have "(2::int) ^ (LENGTH('w) - 1) \<le> 2 ^ 63" using assms by (intro power_increasing) auto
  moreover have "- (2 ^ (LENGTH('w) - 1)) \<le> sint w" "sint w < 2 ^ (LENGTH('w) - 1)"
    using sint_greater_eq [of w] sint_less [of w] by simp_all
  ultimately show "- (2 ^ 63) \<le> sint w" "sint w < 2 ^ 63" by linarith+
qed

lemma cast_signed:
  fixes w :: "'w::len word"
  assumes "LENGTH('w) \<le> 64"
  shows "cast_int (show_signed w) = w"
  using sint_bounds [OF assms, of w] by (simp add: cast_int_def show_signed_def strtoll_dec_int clamp_id)

lemma cast_unsigned:
  fixes w :: "'w::len word"
  shows "cast_int (show_unsigned w) = (if unat w < 2 ^ 63 then w else word_of_int (2 ^ 63 - 1))"
proof -
  have "clamp (int n) = (if n < 2 ^ 63 then int n else 2 ^ 63 - 1)" for n
    by (auto simp: clamp_def)
  then show ?thesis by (simp only: cast_int_def show_unsigned_def strtoll_dec) simp
qed

interpretation int32: lexical_cast show_signed "cast_int :: string \<Rightarrow> 32 word"
  by unfold_locales (simp add: cast_signed)

interpretation int64: lexical_cast show_signed "cast_int :: string \<Rightarrow> 64 word"
  by unfold_locales (simp add: cast_signed)

interpretation uint32: lexical_cast show_unsigned "cast_int :: string \<Rightarrow> 32 word"
proof
  fix v :: "32 word"
  have "unat v < 2 ^ 32" using unsigned_less [of v] by simp
  then have "unat v < 2 ^ 63" by simp
  then show "cast_int (show_unsigned v) = v" by (simp add: cast_unsigned)
qed

text \<open>
  C32. Integer variables are read back as they were written, for every value of the signed types
  and of the unsigned ones of up to 32 bits. A \<open>uint64_t\<close>, the type of the size and time limits,
  goes through \<open>strtoll\<close>, so a value from 2^63 on is read as 2^63 - 1.
\<close>

theorem config_integer_round_trip:
  "cast_int (show_signed (a :: 32 word)) = a \<and> cast_int (show_signed (b :: 64 word)) = b \<and>
   cast_int (show_unsigned (c :: 32 word)) = c \<and>
   cast_int (show_unsigned (d :: 64 word)) = (if unat d < 2 ^ 63 then d else 2 ^ 63 - 1)"
  using int32.from_to [of a] int64.from_to [of b] uint32.from_to [of c] by (simp add: cast_unsigned [of d])

section \<open>Listeners\<close>

lemma cbs_assign_append: "list_all (\<lambda>(i, _). i < k) m \<Longrightarrow> om_assign (<) (k :: u64) v m = m @ [(k, v)]"
  by (induction m) auto

lemma next_id: "unat u + 1 < 2 ^ 64 \<Longrightarrow> unat (u + 1 :: u64) = unat u + 1"
  by (simp add: unat_word_ariths)

text \<open>What a client does with the listeners of a variable, in any order.\<close>

datatype ('v, 'w) cb_op = Add_cb "('v, 'w) on_change_cb" | Del_cb u64 | Clear_cbs

fun cb_step :: "('v, 'w) cb_op \<Rightarrow> ('v, 'w) config_var \<Rightarrow> ('v, 'w) config_var" where
  "cb_step (Add_cb f) x = snd (addCb f x)"
| "cb_step (Del_cb i) x = delCb i x"
| "cb_step Clear_cbs x = clearCbs x"

text \<open>
  The listeners that are left, by the numbers of their additions: a list to which an addition appends,
  and from which a deletion takes what has its number.
\<close>

fun live_cbs :: "('v, 'w) cb_op list \<Rightarrow> nat \<Rightarrow> (nat \<times> ('v, 'w) on_change_cb) list \<Rightarrow> (nat \<times> ('v, 'w) on_change_cb) list" where
  "live_cbs [] n l = l"
| "live_cbs (Add_cb f # ops) n l = live_cbs ops (Suc n) (l @ [(Suc n, f)])"
| "live_cbs (Del_cb i # ops) n l = live_cbs ops n (filter (\<lambda>p. fst p \<noteq> unat i) l)"
| "live_cbs (Clear_cbs # ops) n l = live_cbs ops n []"

definition cbs_ok :: "('v, 'w) config_var \<Rightarrow> bool" where
  "cbs_ok x \<longleftrightarrow> sorted_wrt (\<lambda>p q. fst p < fst q) (v_cbs x) \<and> list_all (\<lambda>(i, _). i \<le> u_funcId x) (v_cbs x)"

abbreviation numbered :: "(u64 \<times> 'c) list \<Rightarrow> (nat \<times> 'c) list" where
  "numbered m \<equiv> map (\<lambda>p. (unat (fst p), snd p)) m"

lemma addCb_appends:
  assumes "cbs_ok x" "unat (u_funcId x) + 1 < 2 ^ 64"
  shows "v_cbs (snd (addCb f x)) = v_cbs x @ [(u_funcId x + 1, f)]" "cbs_ok (snd (addCb f x))"
    and "unat (u_funcId (snd (addCb f x))) = unat (u_funcId x) + 1" "t_varVal (snd (addCb f x)) = t_varVal x"
proof -
  have less: "u_funcId x < u_funcId x + 1" using next_id [OF assms(2)] by (simp add: word_less_nat_alt)
  then have lt: "list_all (\<lambda>(i, _). i < u_funcId x + 1) (v_cbs x)"
    using assms(1) by (auto simp: list_all_iff cbs_ok_def)
  from cbs_assign_append [OF this] show c: "v_cbs (snd (addCb f x)) = v_cbs x @ [(u_funcId x + 1, f)]"
    by (simp add: addCb_def)
  show "cbs_ok (snd (addCb f x))"
    unfolding cbs_ok_def c using assms(1) less lt
    by (auto simp: addCb_def list_all_iff sorted_wrt_append cbs_ok_def)
  show "unat (u_funcId (snd (addCb f x))) = unat (u_funcId x) + 1" "t_varVal (snd (addCb f x)) = t_varVal x"
    using next_id [OF assms(2)] by (simp_all add: addCb_def)
qed

lemma cbs_erase_filter:
  "sorted_wrt (\<lambda>p q. fst p < fst q) m \<Longrightarrow> om_erase (<) (i :: u64) m = filter (\<lambda>p. fst p \<noteq> i) m"
proof (induction m)
  case (Cons p m)
  have "filter (\<lambda>q. fst q \<noteq> i) m = m" if "i \<le> fst p"
    using Cons.prems that by (intro filter_True) auto
  then show ?case using Cons by (cases p) auto
qed simp

lemma cbs_find_map_of:
  "sorted_wrt (\<lambda>p q. fst p < fst q) m \<Longrightarrow> om_find (<) (i :: u64) m = map_of (numbered m) (unat i)"
proof (induction m)
  case (Cons p m)
  have "unat i \<notin> fst ` set (numbered m)" if "i < fst p"
    using Cons.prems that by (fastforce simp: word_less_nat_alt)
  then have "map_of (numbered m) (unat i) = None" if "i < fst p" using that by (simp only: map_of_eq_None_iff) simp
  then show ?case using Cons by (cases p) (auto simp: word_unat_eq_iff [symmetric])
qed simp

lemma cb_ops_live:
  assumes "cbs_ok x" "unat (u_funcId x) + length ops < 2 ^ 64"
  shows "numbered (v_cbs (fold cb_step ops x)) = live_cbs ops (unat (u_funcId x)) (numbered (v_cbs x)) \<and>
    t_varVal (fold cb_step ops x) = t_varVal x \<and> cbs_ok (fold cb_step ops x)"
  using assms
proof (induction ops arbitrary: x)
  case (Cons d ops)
  show ?case
  proof (cases d)
    case (Add_cb f)
    have "unat (u_funcId x) + 1 < 2 ^ 64" using Cons.prems(2) by simp
    note a = addCb_appends [OF Cons.prems(1) this, of f]
    show ?thesis
      using Cons.IH [OF a(2)] Cons.prems(2) a(1,3,4) next_id [of "u_funcId x"] by (simp add: Add_cb)
  next
    case (Del_cb i)
    have e: "v_cbs (delCb i x) = filter (\<lambda>p. fst p \<noteq> i) (v_cbs x)"
      using Cons.prems(1) by (simp add: delCb_def cbs_ok_def cbs_erase_filter)
    then have "cbs_ok (delCb i x)" "numbered (v_cbs (delCb i x)) = filter (\<lambda>p. fst p \<noteq> unat i) (numbered (v_cbs x))"
      using Cons.prems(1)
      by (auto simp: cbs_ok_def delCb_def list_all_iff filter_map comp_def sorted_wrt_filter word_unat_eq_iff [symmetric])
    then show ?thesis using Cons.IH [of "delCb i x"] Cons.prems(2) by (simp add: Del_cb delCb_def)
  next
    case Clear_cbs
    then show ?thesis using Cons.IH [of "clearCbs x"] Cons.prems(2) by (simp add: clearCbs_def cbs_ok_def)
  qed
qed simp

text \<open>The listeners run on their own.\<close>

fun run_all :: "('v, 'w) on_change_cb list \<Rightarrow> 'v \<Rightarrow> 'v \<Rightarrow> 'w \<Rightarrow> bool \<times> 'w" where
  "run_all [] old v w = (True, w)"
| "run_all (f # fs) old v w = (if fst (f old v w) then run_all fs old v (snd (f old v w)) else (False, snd (f old v w)))"

lemma run_cbs_eq: "run_cbs cbs old v w = run_all (map snd cbs) old v w"
  by (induction cbs arbitrary: w) (auto split: prod.split)

text \<open>
  C33. Assigning to a variable runs the listeners that were added to it and neither deleted nor cleared,
  each once, in the order in which they were added and before the value changes, with the old
  and the new value, after any sequence of additions, deletions and clearings. An equal value
  runs none; after an exception no further listener runs and the value stays, though what the
  listeners before did remains. \<open>getCb\<close> finds exactly these listeners, under the numbers of their additions.
\<close>

theorem config_listeners_in_order:
  assumes "length ops < 2 ^ 64"
  shows "let x = fold cb_step ops (ConfigVar t name desc old); left = live_cbs ops 0 [] in
    (case setVal eq v (x, w) of (ok, y, w1) \<Rightarrow>
      if eq old v then ok \<and> t_varVal y = old \<and> w1 = w
      else (ok, w1) = run_all (map snd left) old v w \<and> t_varVal y = (if ok then v else old)) \<and>
    (\<forall>i. getCb i x = map_of left (unat i))"
proof -
  define x where "x = fold cb_step ops (ConfigVar t name desc old)"
  define left where "left = live_cbs ops 0 []"
  obtain x0 where x0: "x0 = ConfigVar t name desc old" "x = fold cb_step ops x0" by (simp add: x_def)
  then have c: "cbs_ok x0" "unat (u_funcId x0) = 0" "v_cbs x0 = []" "t_varVal x0 = old"
    by (simp_all add: ConfigVar_def cbs_ok_def)
  then have l: "numbered (v_cbs x) = left" "t_varVal x = old" "cbs_ok x"
    using cb_ops_live [OF c(1), of ops] assms(1) by (simp_all add: x0(2) left_def)
  then have "map snd (v_cbs x) = map snd left" by auto
  with l show ?thesis unfolding x_def [symmetric] left_def [symmetric] Let_def
    by (auto simp: setVal_def run_cbs_eq getCb_def cbs_ok_def cbs_find_map_of split: prod.splits)
qed

theorem config_listeners_in_order_witness:
  "case setVal (=) (5 :: nat) (fold cb_step [Add_cb (\<lambda>old v w. (False, w)), Add_cb (\<lambda>old v w. (True, w @ [(old, v)])), Del_cb 1]
       (ConfigVar 0 ''a.b'' ''d'' 3), []) of (ok, y, w) \<Rightarrow> ok \<and> t_varVal y = 5 \<and> w = [(3, 5)]"
  using config_listeners_in_order [where ops = "[Add_cb (\<lambda>old v w. (False, w)), Add_cb (\<lambda>old v w. (True, w @ [(old, v)])), Del_cb 1]"
      and eq = "(=)" and v = "5 :: nat" and old = 3 and w = "[]" and t = 0 and name = "''a.b''" and desc = "''d''"]
  unfolding Let_def by (auto simp del: fold.simps split: prod.splits)

section \<open>Paths of a tree\<close>

inductive yaml_at :: "yaml \<Rightarrow> string list \<Rightarrow> yaml \<Rightarrow> bool" where
  here: "yaml_at node [] node"
| below: "(k, val) \<in> set es \<Longrightarrow> yaml_at val ks node \<Longrightarrow> yaml_at (YMap es) (k # ks) node"

inductive_simps yaml_at_Nil [simp]: "yaml_at node [] n"
inductive_simps yaml_at_Cons [simp]: "yaml_at (YMap es) (k # ks) n"
inductive_simps yaml_at_leaf [simp]: "yaml_at YNull (k # ks) n" "yaml_at (YScalar str) (k # ks) n" "yaml_at (YSeq ns) (k # ks) n"

fun path :: "string \<Rightarrow> string list \<Rightarrow> string" where
  "path prefix [] = prefix"
| "path prefix (k # ks) = path (if prefix = [] then k else prefix @ ''.'' @ k) ks"

text \<open>All keys of the tree have a property.\<close>

definition keys_all :: "(string \<Rightarrow> bool) \<Rightarrow> yaml \<Rightarrow> bool" where
  "keys_all P node \<longleftrightarrow> (\<forall>ks n. yaml_at node ks n \<longrightarrow> list_all P ks)"

lemma keys_all_leaf [simp]: "keys_all P YNull" "keys_all P (YScalar str)" "keys_all P (YSeq ns)"
  by (auto simp: keys_all_def elim: yaml_at.cases)

lemma keys_all_map [simp]: "keys_all P (YMap es) \<longleftrightarrow> list_all (\<lambda>(k, val). P k \<and> keys_all P val) es"
proof
  assume l: "keys_all P (YMap es)"
  have "P k \<and> keys_all P val" if e: "(k, val) \<in> set es" for k val
  proof -
    have "list_all P (k # ks)" if "yaml_at val ks n" for ks n
      using l below [OF e that] unfolding keys_all_def by blast
    from this this [OF here] show ?thesis by (auto simp: keys_all_def)
  qed
  then show "list_all (\<lambda>(k, val). P k \<and> keys_all P val) es" by (auto simp: list_all_iff)
next
  assume r: "list_all (\<lambda>(k, val). P k \<and> keys_all P val) es"
  show "keys_all P (YMap es)"
    unfolding keys_all_def
  proof (intro allI impI)
    fix ks n assume "yaml_at (YMap es) ks n"
    then show "list_all P ks"
    proof cases
      case (below k val ks')
      then have "P k" "keys_all P val" using r by (auto simp: list_all_iff)
      with below show ?thesis unfolding keys_all_def by auto
    qed simp
  qed
qed

abbreviation legal_tree :: "yaml \<Rightarrow> bool" where
  "legal_tree \<equiv> keys_all (list_all legal_char)"

abbreviation named_tree :: "yaml \<Rightarrow> bool" where
  "named_tree \<equiv> keys_all (\<lambda>k. k \<noteq> [])"

text \<open>The entries below a node whose path is \<open>prefix\<close>, which is itself one unless it is the root.\<close>

definition below_path :: "string \<Rightarrow> yaml \<Rightarrow> (string \<times> yaml) set" where
  "below_path prefix node = {(path prefix ks, n) | ks n. yaml_at node ks n \<and> (ks \<noteq> [] \<or> prefix \<noteq> [])}"

definition entries_below :: "string \<Rightarrow> (string \<times> yaml) list \<Rightarrow> (string \<times> yaml) set" where
  "entries_below prefix es = (\<Union>(k, val) \<in> set es. below_path (if prefix = [] then k else prefix @ ''.'' @ k) val)"

lemma entries_below_simps [simp]:
  "entries_below prefix [] = {}"
  "entries_below prefix ((k, val) # es) =
     below_path (if prefix = [] then k else prefix @ ''.'' @ k) val \<union> entries_below prefix es"
  by (simp_all add: entries_below_def)

lemma below_path_leaf:
  "below_path prefix YNull = (if prefix = [] then {} else {(prefix, YNull)})"
  "below_path prefix (YScalar str) = (if prefix = [] then {} else {(prefix, YScalar str)})"
  "below_path prefix (YSeq ns) = (if prefix = [] then {} else {(prefix, YSeq ns)})"
  by (auto simp: below_path_def elim: yaml_at.cases) (metis here path.simps(1))+

lemma below_path_map:
  assumes "\<forall>(k, val) \<in> set es. k \<noteq> []"
  shows "below_path prefix (YMap es) = (if prefix = [] then {} else {(prefix, YMap es)}) \<union>
    entries_below prefix es"
    (is "?l = ?r")
proof (rule set_eqI)
  fix x
  show "x \<in> ?l \<longleftrightarrow> x \<in> ?r"
  proof
    assume "x \<in> ?l"
    then obtain ks n where x: "x = (path prefix ks, n)" "yaml_at (YMap es) ks n" "ks \<noteq> [] \<or> prefix \<noteq> []"
      by (auto simp: below_path_def)
    from x(2) show "x \<in> ?r"
    proof cases
      case here
      then show ?thesis using x by auto
    next
      case (below k val ks')
      then have "x \<in> below_path (if prefix = [] then k else prefix @ ''.'' @ k) val"
        using x assms by (auto simp: below_path_def)
      with below show ?thesis by (auto simp: entries_below_def)
    qed
  next
    assume "x \<in> ?r"
    then consider "prefix \<noteq> []" "x = (prefix, YMap es)"
      | k val where "(k, val) \<in> set es" "x \<in> below_path (if prefix = [] then k else prefix @ ''.'' @ k) val"
      by (auto simp: entries_below_def split: if_splits)
    then show "x \<in> ?l"
    proof cases
      case 1
      then show ?thesis unfolding below_path_def using here [of "YMap es"] by (metis (mono_tags, lifting) mem_Collect_eq path.simps(1))
    next
      case 2
      then obtain ks n where "x = (path prefix (k # ks), n)" "yaml_at (YMap es) (k # ks) n"
        using below [OF 2(1)] by (auto simp: below_path_def)
      then show ?thesis unfolding below_path_def by blast
    qed
  qed
qed

lemma listAllItem_spec:
  "(named_tree node \<longrightarrow> fst (listAllItem prefix node out) = legal_tree node \<and>
     (legal_tree node \<longrightarrow> set (snd (listAllItem prefix node out)) = set out \<union> below_path prefix node))"
  "(list_all (\<lambda>(k, val). k \<noteq> [] \<and> named_tree val) es \<longrightarrow>
     fst (list_entries prefix es out) = list_all (\<lambda>(k, val). list_all legal_char k \<and> legal_tree val) es \<and>
     (fst (list_entries prefix es out) \<longrightarrow> set (snd (list_entries prefix es out)) =
        set out \<union> entries_below prefix es))"
proof (induction prefix node out and prefix es out rule: listAllItem_list_entries.induct)
  case (1 prefix node out)
  show ?case
  proof (cases node)
    case (YMap es)
    show ?thesis
    proof
      assume n: "named_tree node"
      then have e: "list_all (\<lambda>(k, val). k \<noteq> [] \<and> named_tree val) es" using YMap by simp
      then have "\<forall>(k, val) \<in> set es. k \<noteq> []" by (auto simp: list_all_iff)
      note b = below_path_map [OF this, of prefix]
      show "fst (listAllItem prefix node out) = legal_tree node \<and>
          (legal_tree node \<longrightarrow> set (snd (listAllItem prefix node out)) = set out \<union> below_path prefix node)"
        using 1 [OF refl YMap] e b YMap by (cases "prefix = []") simp_all
    qed
  qed (auto simp: below_path_leaf Let_def)
next
  case (2 prefix out)
  then show ?case by simp
next
  case (3 prefix str val es out)
  define p where "p = (if prefix = [] then str else prefix @ ''.'' @ str)"
  obtain ok out1 where l: "listAllItem p val out = (ok, out1)" by fastforce
  show ?case
  proof (cases "list_all legal_char str \<and> ok")
    case True
    then show ?thesis
      using 3 l by (simp add: p_def [symmetric] Un_assoc del: listAllItem.simps)
  next
    case False
    then show ?thesis
      using 3 l by (auto simp: p_def [symmetric] simp del: listAllItem.simps)
  qed
qed

text \<open>
  C34. Loading looks at every node of the tree below the root, each under the path of keys that leads to
  it: for a tree without empty keys, \<open>listAllItem\<close> succeeds exactly when all keys of the tree
  consist of lower-case letters, digits, dots and underscores, and then lists exactly the
  pairs of a path, joined by dots, and the node it leads to.
\<close>

theorem config_paths_listed:
  assumes "named_tree node"
  shows "case listAllItem [] node [] of (ok, out) \<Rightarrow>
    ok = legal_tree node \<and> (ok \<longrightarrow> set out = {(path [] ks, n) | ks n. ks \<noteq> [] \<and> yaml_at node ks n})"
  using listAllItem_spec(1) [of node "[]" "[]"] assms by (auto simp: below_path_def split: prod.splits)

definition a_tree :: yaml where
  "a_tree = YMap [(''http'', YMap [(''limit'', YScalar ''10''), (''hosts'', YSeq [YScalar ''a''])]), (''debug'', YNull)]"

lemma a_tree_named: "named_tree a_tree"
  by (simp add: a_tree_def)

theorem config_paths_listed_witness:
  "fst (listAllItem [] a_tree []) = legal_tree a_tree"
  using config_paths_listed [OF a_tree_named] by (auto split: prod.splits)

section \<open>The table of names\<close>

text \<open>A registered name is legal and the name of its variable; \<open>lookUp\<close>, loading and what a client
  does to a variable keep this.\<close>

definition config_ok :: "('v, 'w) config \<Rightarrow> bool" where
  "config_ok s \<longleftrightarrow>
     (\<forall>n x. var_map s n = Some x \<longrightarrow> x < next_var s \<and> s_varName (vars s x) = n \<and> list_all legal_char n)"

inductive config_reach :: "(nat \<Rightarrow> 'v var_type) \<Rightarrow> (yaml \<Rightarrow> string) \<Rightarrow> ('v, 'w) config \<Rightarrow> bool" for ty emit where
  start: "var_map s = Map.empty \<Longrightarrow> config_reach ty emit s"
| lookUp: "config_reach ty emit s \<Longrightarrow> config_reach ty emit (snd (config_lookUp t name val desc s))"
| load: "config_reach ty emit s \<Longrightarrow> config_reach ty emit (snd (loadFromYamlNode ty emit node s))"
| addCb: "config_reach ty emit s \<Longrightarrow> config_reach ty emit (s\<lparr>vars := (vars s)(x := snd (addCb f (vars s x)))\<rparr>)"
| delCb: "config_reach ty emit s \<Longrightarrow> config_reach ty emit (s\<lparr>vars := (vars s)(x := delCb i (vars s x))\<rparr>)"
| setVal: "config_reach ty emit s \<Longrightarrow> setVal eq v (vars s x, world s) = (ok, y, w) \<Longrightarrow>
    config_reach ty emit (s\<lparr>vars := (vars s)(x := y), world := w\<rparr>)"

lemma legal_lower: "list_all legal_char str \<Longrightarrow> map to_lower str = str"
  by (induction str) (auto simp: legal_char_def to_lower_def)

lemma to_lower_idem [simp]: "to_lower (to_lower c) = to_lower c"
proof (cases "65 \<le> (of_char c :: nat) \<and> (of_char c :: nat) \<le> 90")
  case True
  then have "of_char (char_of (of_char c + 32 :: nat)) = (of_char c + 32 :: nat)" by simp
  then show ?thesis using True by (simp add: to_lower_def)
qed (auto simp: to_lower_def)

lemma setVal_frame:
  "setVal eq v (x, w) = (ok, y, w1) \<Longrightarrow> s_varName y = s_varName x \<and> v_type y = v_type x \<and> v_cbs y = v_cbs x"
  by (auto simp: setVal_def split: if_splits prod.splits)

lemma fromStr_frame:
  "fromStr ty str (x, w) = (ok, y, w1) \<Longrightarrow> s_varName y = s_varName x \<and> v_type y = v_type x \<and> v_cbs y = v_cbs x"
  by (auto simp: fromStr_def split: option.splits dest: setVal_frame)

lemma load_item_frame:
  "var_map (load_item ty emit e s) = var_map s" "next_var (load_item ty emit e s) = next_var s"
  "s_varName (vars (load_item ty emit e s) y) = s_varName (vars s y)"
  "v_type (vars (load_item ty emit e s) y) = v_type (vars s y)"
  "v_cbs (vars (load_item ty emit e s) y) = v_cbs (vars s y)"
  "var_map s (map to_lower (fst e)) \<noteq> Some y \<Longrightarrow> vars (load_item ty emit e s) y = vars s y"
  by (auto simp: load_item_def lookUpBase_def split: prod.split option.split dest!: fromStr_frame)

lemma load_fold_frame:
  "var_map (fold (load_item ty emit) out s) = var_map s" "next_var (fold (load_item ty emit) out s) = next_var s"
  "s_varName (vars (fold (load_item ty emit) out s) y) = s_varName (vars s y)"
  "v_type (vars (fold (load_item ty emit) out s) y) = v_type (vars s y)"
  "v_cbs (vars (fold (load_item ty emit) out s) y) = v_cbs (vars s y)"
  "list_all (\<lambda>e. var_map s (map to_lower (fst e)) \<noteq> Some y) out \<Longrightarrow>
     vars (fold (load_item ty emit) out s) y = vars s y"
  by (induction out arbitrary: s) (simp_all add: load_item_frame)

lemma config_ok_load [simp]: "config_ok s \<Longrightarrow> config_ok (snd (loadFromYamlNode ty emit node s))"
  by (auto simp: loadFromYamlNode_def config_ok_def load_fold_frame split: prod.splits if_splits)

lemma config_ok_lookUp [simp]: "config_ok s \<Longrightarrow> config_ok (snd (config_lookUp t name val desc s))"
  by (auto simp: config_lookUp_def Let_def config_ok_def ConfigVar_def legal_lower less_SucI split: option.split)

lemma config_ok_var:
  "config_ok s \<Longrightarrow> s_varName y = s_varName (vars s x) \<Longrightarrow> config_ok (s\<lparr>vars := (vars s)(x := y), world := w\<rparr>)"
  by (auto simp: config_ok_def)

lemma config_ok_reach: "config_reach ty emit s \<Longrightarrow> config_ok s"
proof (induction rule: config_reach.induct)
  case (start s)
  then show ?case by (simp add: config_ok_def)
next
  case (addCb s x f)
  then show ?case using config_ok_var [of s "snd (Config.addCb f (vars s x))" x "world s"] by (simp add: addCb_def)
next
  case (delCb s x i)
  then show ?case using config_ok_var [of s "Config.delCb i (vars s x)" x "world s"] by (simp add: delCb_def)
next
  case (setVal s eq v x ok y w)
  have "s_varName y = s_varName (vars s x)" using setVal_frame [OF setVal.hyps(2)] by (rule conjunct1)
  then show ?case by (rule config_ok_var [OF setVal.IH])
qed simp_all

text \<open>
  Asking twice for a variable by the same name gives the same variable when the name is in
  lower case. A legal name with an upper-case letter is stored in lower case but looked up as it
  is, so each request makes a variable of its own, and the last one stays out of the table:
  loading never changes it.
\<close>

theorem config_lookUp_twice:
  assumes "config_reach ty emit s" "var_map s name = None" "list_all legal_char (map to_lower name)"
  shows "case config_lookUp t name val desc s of (r1, s1) \<Rightarrow> case config_lookUp t name val desc s1 of (r2, s2) \<Rightarrow>
    if map to_lower name = name then r1 = r2 \<and> s2 = s1
    else (\<exists>x y. r1 = Inr (Some x) \<and> r2 = Inr (Some y) \<and> x \<noteq> y \<and>
           vars (snd (loadFromYamlNode ty emit node s2)) y = vars s2 y)"
proof -
  define x where "x = next_var s"
  define s1 where "s1 = snd (config_lookUp t name val desc s)"
  have l1: "config_lookUp t name val desc s = (Inr (Some x), s1)"
    using assms(2,3) by (simp add: s1_def config_lookUp_def Let_def x_def)
  have ok: "config_ok s1" using config_ok_reach [OF assms(1)] by (simp add: s1_def)
  have v1: "v_type (vars s1 x) = t" "next_var s1 = Suc x"
    using assms(2,3) by (simp_all add: s1_def config_lookUp_def Let_def x_def ConfigVar_def)
  show ?thesis
  proof (cases "map to_lower name = name")
    case True
    then have "var_map s1 name = Some x"
      using assms(2,3) by (simp add: s1_def config_lookUp_def Let_def x_def)
    then have "config_lookUp t name val desc s1 = (Inr (Some x), s1)" using v1 by (simp add: config_lookUp_def)
    then show ?thesis using l1 True by simp
  next
    case False
    have n1: "var_map s1 name = None" "var_map s1 (map to_lower name) \<noteq> None"
      using assms(2,3) False by (auto simp: s1_def config_lookUp_def Let_def)
    define s2 where "s2 = snd (config_lookUp t name val desc s1)"
    have l2: "config_lookUp t name val desc s1 = (Inr (Some (Suc x)), s2)" "var_map s2 = var_map s1"
      using n1 assms(3) v1 by (auto simp: s2_def config_lookUp_def Let_def)
    have "var_map s2 n \<noteq> Some (Suc x)" for n
      using ok v1(2) unfolding l2(2) by (auto simp: config_ok_def)
    then have "vars (snd (loadFromYamlNode ty emit node s2)) (Suc x) = vars s2 (Suc x)"
      by (auto simp: loadFromYamlNode_def load_fold_frame(6) list_all_iff split: prod.split)
    then show ?thesis using l1 l2(1) False by simp
  qed
qed

text \<open>The values of a variable of one type, for the examples.\<close>

definition nat_type :: "nat \<Rightarrow> nat var_type" where
  "nat_type t = \<lparr>FromStr = (\<lambda>str. Some (nat (strtoll str))), ToStr = Some \<circ> dec, val_eq = (=)\<rparr>"

definition no_vars :: "(nat, nat) config" where
  "no_vars = \<lparr>vars = (\<lambda>_. ConfigVar 0 [] [] 0), next_var = 0, var_map = Map.empty, world = 0\<rparr>"

lemma no_vars_reach: "config_reach nat_type (\<lambda>_. []) no_vars"
  by (rule config_reach.start) (simp add: no_vars_def)

theorem config_lookUp_twice_witness:
  "fst (config_lookUp 0 ''a.B'' 5 [] no_vars) \<noteq> fst (config_lookUp 0 ''a.B'' 5 [] (snd (config_lookUp 0 ''a.B'' 5 [] no_vars)))"
proof -
  have l: "map to_lower ''a.B'' = ''a.b''" by code_simp
  show ?thesis
    using config_lookUp_twice [OF no_vars_reach, unfolded l, where name = "''a.B''" and t = 0 and val = 5 and desc = "[]" and node = YNull]
    unfolding l by (auto simp: no_vars_def legal_char_def split: prod.splits)
qed

section \<open>Values after loading\<close>

lemma listAllItem_keys:
  "list_all legal_char prefix \<Longrightarrow> list_all (\<lambda>e. list_all legal_char (fst e)) out \<Longrightarrow>
     list_all (\<lambda>e. list_all legal_char (fst e)) (snd (listAllItem prefix node out))"
  "list_all legal_char prefix \<Longrightarrow> list_all (\<lambda>e. list_all legal_char (fst e)) out \<Longrightarrow>
     list_all (\<lambda>e. list_all legal_char (fst e)) (snd (list_entries prefix es out))"
proof (induction prefix node out and prefix es out rule: listAllItem_list_entries.induct)
  case (1 prefix node out)
  then show ?case by (cases node) (auto simp: Let_def)
next
  case (3 prefix str val es out)
  have "legal_char (CHR ''.'')" by (simp add: legal_char_def)
  with 3 show ?case by (auto simp del: listAllItem.simps split: prod.split)
qed simp

definition node_text :: "(yaml \<Rightarrow> string) \<Rightarrow> yaml \<Rightarrow> string" where
  "node_text emit node = (case node of YScalar str \<Rightarrow> str | _ \<Rightarrow> emit node)"

text \<open>The value a variable takes from a text.\<close>

definition taken :: "(nat \<Rightarrow> 'v var_type) \<Rightarrow> string \<Rightarrow> ('v, 'w) config_var \<Rightarrow> 'v" where
  "taken ty str x =
     (case FromStr (ty (v_type x)) str of
        None \<Rightarrow> t_varVal x
      | Some v \<Rightarrow> if val_eq (ty (v_type x)) (t_varVal x) v then t_varVal x else v)"

definition quiet :: "('v, 'w) config_var \<Rightarrow> bool" where
  "quiet x \<longleftrightarrow> (\<forall>(i, f) \<in> set (v_cbs x). \<forall>old v w. fst (f old v w))"

lemma quiet_runs: "\<forall>(i, f) \<in> set cbs. \<forall>old v w. fst (f old v w) \<Longrightarrow> fst (run_cbs cbs old v w)"
  by (induction cbs arbitrary: w) (auto split: prod.split, metis fst_conv)

lemma load_item_value:
  assumes "var_map s (map to_lower key) = Some x" "quiet (vars s x)"
  shows "t_varVal (vars (load_item ty emit (key, node) s) x) = taken ty (node_text emit node) (vars s x)"
  using assms(1) quiet_runs [OF assms(2) [unfolded quiet_def]]
  by (auto simp: load_item_def lookUpBase_def fromStr_def setVal_def taken_def node_text_def
      split: option.split prod.split) (metis fst_conv)+

lemma load_fold_value:
  assumes "config_ok s" "var_map s n = Some x" "quiet (vars s x)" "distinct (map fst out)"
    and "list_all (\<lambda>e. list_all legal_char (fst e)) out"
  shows "t_varVal (vars (fold (load_item ty emit) out s) x) =
    (case map_of out n of None \<Rightarrow> t_varVal (vars s x) | Some node \<Rightarrow> taken ty (node_text emit node) (vars s x))"
  using assms
proof (induction out arbitrary: s)
  case (Cons e out)
  obtain key node where e: "e = (key, node)" by fastforce
  have k: "map to_lower key = key" using Cons.prems(5) e by (simp add: legal_lower)
  let ?t = "load_item ty emit e s"
  have t: "config_ok ?t" "var_map ?t n = Some x" "quiet (vars ?t x)"
    using Cons.prems(1-3) by (simp_all add: config_ok_def load_item_frame quiet_def)
  have inj: "m = n" if "var_map s m = Some x" for m
    using Cons.prems(1,2) that unfolding config_ok_def by metis
  show ?case
  proof (cases "key = n")
    case True
    have "var_map s (map to_lower (fst e')) \<noteq> Some x" if "e' \<in> set out" for e'
    proof -
      have "fst e' \<noteq> n" "map to_lower (fst e') = fst e'"
        using Cons.prems(4,5) that e True by (auto simp: list_all_iff legal_lower)
      then show ?thesis using inj by metis
    qed
    then have "vars (fold (load_item ty emit) out ?t) x = vars ?t x"
      by (intro load_fold_frame) (auto simp: list_all_iff load_item_frame)
    then show ?thesis
      using load_item_value [of s key x ty emit node] Cons.prems(2,3) True k e by simp
  next
    case False
    then have "vars ?t x = vars s x" using inj k e by (intro load_item_frame) auto
    then show ?thesis using Cons.IH [OF t] Cons.prems(4,5) False unfolding e by (simp split: option.split)
  qed
qed simp

text \<open>
  What loading a tree does to the values: when every key is legal and no path occurs twice, a
  registered variable whose listeners throw nothing takes the value that its type reads from the
  text of the node at its name, keeps its value when that fails or gives an equal one, and keeps it
  when the tree has no node for it. When a key is not legal nothing is loaded at all, although
  \<open>loadFromYamlFile\<close> reports success.
\<close>

theorem config_load_values:
  assumes "config_reach ty emit s" "var_map s n = Some x" "quiet (vars s x)"
    and "distinct (map fst (snd (listAllItem [] node [])))"
  shows "case loadFromYamlFile ty emit (Some node) s of (ok, s1) \<Rightarrow> ok \<and>
    (if fst (listAllItem [] node [])
     then t_varVal (vars s1 x) =
       (case map_of (snd (listAllItem [] node [])) n of
          None \<Rightarrow> t_varVal (vars s x) | Some m \<Rightarrow> taken ty (node_text emit m) (vars s x))
     else s1 = s)"
proof -
  have "list_all (\<lambda>e. list_all legal_char (fst e)) (snd (listAllItem [] node []))"
    by (rule listAllItem_keys) simp_all
  from load_fold_value [OF config_ok_reach [OF assms(1)] assms(2-4) this, of ty emit]
  show ?thesis by (auto simp: loadFromYamlFile_def loadFromYamlNode_def split: prod.splits)
qed

theorem config_load_values_witness:
  "let s = snd (config_lookUp 0 ''http.limit'' 5 [] no_vars)
   in t_varVal (vars (snd (loadFromYamlFile nat_type (\<lambda>_. []) (Some a_tree) s)) 0) = 10"
proof -
  let ?s = "snd (config_lookUp 0 ''http.limit'' 5 [] no_vars)"
  have "config_reach nat_type (\<lambda>_. []) ?s" by (intro config_reach.lookUp no_vars_reach)
  moreover have "var_map ?s ''http.limit'' = Some 0" "vars ?s 0 = ConfigVar 0 ''http.limit'' [] 5"
    by (simp_all add: config_lookUp_def no_vars_def legal_char_def to_lower_def Let_def)
  moreover have "listAllItem [] a_tree [] =
      (True, [(''http'', YMap [(''limit'', YScalar ''10''), (''hosts'', YSeq [YScalar ''a''])]),
        (''http.limit'', YScalar ''10''), (''http.hosts'', YSeq [YScalar ''a'']), (''debug'', YNull)])"
    by (simp add: a_tree_def legal_char_def)
  moreover have "taken nat_type ''10'' (ConfigVar 0 ''http.limit'' [] 5 :: (nat, nat) config_var) = 10"
    by (simp add: taken_def nat_type_def ConfigVar_def strtoll_def is_space_def is_digit_def read_digits_def
        dec_value_def clamp_def Let_def)
  ultimately show ?thesis
    using config_load_values [of nat_type "\<lambda>_. []" ?s "''http.limit''" 0 a_tree]
    by (auto simp: quiet_def ConfigVar_def node_text_def split: prod.splits)
qed

end
