(* ===== verification/Config_Casts.thy ===== *)
theory Config_Casts
  imports Config_Props "HOL-Library.List_Lexorder" "HOL-Library.Char_ord"
begin

text \<open>
  The conversions of containers (\<open>src/src/config/config.hpp\<close>): a vector, list or set is written as
  a sequence and a map as a map of nodes. \<open>load\<close> and \<open>emit\<close> are the functions of the YAML library
  from a text to a node, which can throw, and back; \<open>index\<close> is its subscript by a number.
\<close>

section \<open>Definitions\<close>

fun node_size :: "yaml \<Rightarrow> nat" where
  "node_size (YSeq ns) = length ns"
| "node_size (YMap es) = length es"
| "node_size _ = 0"

fun all_some :: "'a option list \<Rightarrow> 'a list option" where
  "all_some [] = Some []"
| "all_some (None # xs) = None"
| "all_some (Some x # xs) = (case all_some xs of None \<Rightarrow> None | Some ys \<Rightarrow> Some (x # ys))"

definition vector_from ::
  "(string \<Rightarrow> yaml option) \<Rightarrow> (yaml \<Rightarrow> string) \<Rightarrow> (yaml \<Rightarrow> nat \<Rightarrow> yaml) \<Rightarrow> (string \<Rightarrow> 'a option) \<Rightarrow> string \<Rightarrow> 'a list option" where
  "vector_from load emit index cast v =
     (case load v of
        None \<Rightarrow> None
      | Some node \<Rightarrow> all_some (map (\<lambda>i. cast (emit (index node i))) [0..<node_size node]))"

definition vector_to ::
  "(string \<Rightarrow> yaml option) \<Rightarrow> (yaml \<Rightarrow> string) \<Rightarrow> ('a \<Rightarrow> string) \<Rightarrow> 'a list \<Rightarrow> string option" where
  "vector_to load emit cast v =
     (case all_some (map (\<lambda>val. load (cast val)) v) of None \<Rightarrow> None | Some ns \<Rightarrow> Some (emit (YSeq ns)))"

text \<open>A set is a list in the order of \<open>operator<\<close>.\<close>

definition set_from ::
  "(string \<Rightarrow> yaml option) \<Rightarrow> (yaml \<Rightarrow> string) \<Rightarrow> (yaml \<Rightarrow> nat \<Rightarrow> yaml) \<Rightarrow> (string \<Rightarrow> 'a option) \<Rightarrow> ('a \<Rightarrow> 'a \<Rightarrow> bool) \<Rightarrow>
   string \<Rightarrow> 'a list option" where
  "set_from load emit index cast lt v =
     (case vector_from load emit index cast v of None \<Rightarrow> None | Some vs \<Rightarrow> Some (fold (os_insert lt) vs []))"

definition set_to :: "(string \<Rightarrow> yaml option) \<Rightarrow> (yaml \<Rightarrow> string) \<Rightarrow> ('a \<Rightarrow> string) \<Rightarrow> 'a list \<Rightarrow> string option" where
  "set_to load emit cast v = vector_to load emit cast v"

text \<open>
  The entries that an iterator goes through; the elements of a sequence have no key, and reading
  it throws. \<open>insert\<close> keeps an entry that is there.
\<close>

fun map_entries :: "yaml \<Rightarrow> (string \<times> yaml) list option" where
  "map_entries (YMap es) = Some es"
| "map_entries (YSeq ns) = (if ns = [] then Some [] else None)"
| "map_entries _ = Some []"

definition om_insert :: "('k \<Rightarrow> 'k \<Rightarrow> bool) \<Rightarrow> 'k \<times> 'v \<Rightarrow> ('k \<times> 'v) list \<Rightarrow> ('k \<times> 'v) list" where
  "om_insert lt e m = (if om_find lt (fst e) m = None then om_assign lt (fst e) (snd e) m else m)"

definition map_from ::
  "(string \<Rightarrow> yaml option) \<Rightarrow> (yaml \<Rightarrow> string) \<Rightarrow> (string \<Rightarrow> 'a option) \<Rightarrow> string \<Rightarrow> (string \<times> 'a) list option" where
  "map_from load emit cast v =
     (case load v of
        None \<Rightarrow> None
      | Some node \<Rightarrow>
          (case map_entries node of
             None \<Rightarrow> None
           | Some es \<Rightarrow>
               (case all_some (map (\<lambda>(k, n). map_option (Pair k) (cast (emit n))) es) of
                  None \<Rightarrow> None
                | Some kvs \<Rightarrow> Some (fold (om_insert (<)) kvs []))))"

definition map_to ::
  "(string \<Rightarrow> yaml option) \<Rightarrow> (yaml \<Rightarrow> string) \<Rightarrow> ('a \<Rightarrow> string) \<Rightarrow> (string \<times> 'a) list \<Rightarrow> string option" where
  "map_to load emit cast v =
     (case all_some (map (\<lambda>(k, val). map_option (Pair k) (load (cast val))) v) of
        None \<Rightarrow> None
      | Some es \<Rightarrow> Some (emit (YMap es)))"

section \<open>Round trips\<close>

lemma all_some_map: "(\<And>x. x \<in> set xs \<Longrightarrow> f x = Some (g x)) \<Longrightarrow> all_some (map f xs) = Some (map g xs)"
  by (induction xs) auto

text \<open>What the library gives for the text of an element, and that this survives writing.\<close>

definition survives ::
  "(string \<Rightarrow> yaml option) \<Rightarrow> (yaml \<Rightarrow> string) \<Rightarrow> ('a \<Rightarrow> string) \<Rightarrow> (string \<Rightarrow> 'a option) \<Rightarrow> 'a \<Rightarrow> bool" where
  "survives load emit to cast v \<longleftrightarrow> (case load (to v) of None \<Rightarrow> False | Some n \<Rightarrow> cast (emit n) = Some v)"

lemma vector_round_trip:
  assumes "list_all (survives load emit to cast) vs"
    and "\<And>ns. load (emit (YSeq ns)) = Some (YSeq ns)" "\<And>ns i. i < length ns \<Longrightarrow> index (YSeq ns) i = ns ! i"
  shows "\<exists>str. vector_to load emit to vs = Some str \<and> vector_from load emit index cast str = Some vs"
proof -
  let ?n = "\<lambda>v. the (load (to v))"
  have n: "load (to v) = Some (?n v)" "cast (emit (?n v)) = Some v" if "v \<in> set vs" for v
    using assms(1) that by (auto simp: list_all_iff survives_def split: option.splits)
  have "all_some (map (\<lambda>v. load (to v)) vs) = Some (map ?n vs)" using n(1) by (rule all_some_map)
  then have t: "vector_to load emit to vs = Some (emit (YSeq (map ?n vs)))" by (simp add: vector_to_def)
  have "all_some (map (\<lambda>i. cast (emit (index (YSeq (map ?n vs)) i))) [0..<length vs]) = Some (map (\<lambda>i. vs ! i) [0..<length vs])"
    using assms(3) [where ns = "map ?n vs"] n(2) by (intro all_some_map) auto
  then have "vector_from load emit index cast (emit (YSeq (map ?n vs))) = Some vs"
    by (simp add: vector_from_def assms(2) map_nth)
  with t show ?thesis by blast
qed

lemma os_insert_last: "list_all (\<lambda>y. lt y x \<and> \<not> lt x y) ys \<Longrightarrow> os_insert lt x ys = ys @ [x]"
  by (induction ys) auto

lemma fold_os_insert_sorted:
  "sorted_wrt (\<lambda>x y. lt x y \<and> \<not> lt y x) (acc @ vs) \<Longrightarrow> fold (os_insert lt) vs acc = acc @ vs"
proof (induction vs arbitrary: acc)
  case (Cons v vs)
  then have "os_insert lt v acc = acc @ [v]" by (intro os_insert_last) (auto simp: sorted_wrt_append list_all_iff)
  with Cons show ?case by simp
qed simp

lemma set_round_trip:
  assumes "list_all (survives load emit to cast) vs" "sorted_wrt (\<lambda>x y. lt x y \<and> \<not> lt y x) vs"
    and "\<And>ns. load (emit (YSeq ns)) = Some (YSeq ns)" "\<And>ns i. i < length ns \<Longrightarrow> index (YSeq ns) i = ns ! i"
  shows "\<exists>str. set_to load emit to vs = Some str \<and> set_from load emit index cast lt str = Some vs"
  using vector_round_trip [of load emit to cast vs index, OF assms(1,3,4)] fold_os_insert_sorted [of lt "[]" vs] assms(2)
  by (auto simp: set_to_def set_from_def)

lemma om_insert_last:
  fixes m :: "(string \<times> 'v) list"
  assumes "list_all (\<lambda>e. fst e < k) m"
  shows "om_insert (<) (k, v) m = m @ [(k, v)]"
proof -
  have "om_find (<) k m = None" "om_assign (<) k v m = m @ [(k, v)]"
    using assms by (induction m) auto
  then show ?thesis by (simp add: om_insert_def)
qed

lemma fold_om_insert_sorted:
  fixes m :: "(string \<times> 'v) list"
  shows "sorted_wrt (<) (map fst (acc @ m)) \<Longrightarrow> fold (om_insert (<)) m acc = acc @ m"
proof (induction m arbitrary: acc)
  case (Cons e m)
  obtain k v where e: "e = (k, v)" by fastforce
  have "om_insert (<) (k, v) acc = acc @ [(k, v)]"
    using Cons.prems e by (intro om_insert_last) (auto simp: sorted_wrt_append list_all_iff)
  with Cons e show ?case by simp
qed simp

lemma map_round_trip:
  assumes "list_all (\<lambda>(k, v). survives load emit to cast v) m" "sorted_wrt (<) (map fst m)"
    and "\<And>es. load (emit (YMap es)) = Some (YMap es)"
  shows "\<exists>str. map_to load emit to m = Some str \<and> map_from load emit cast str = Some m"
proof -
  let ?n = "\<lambda>v. the (load (to v))"
  have n: "load (to v) = Some (?n v)" "cast (emit (?n v)) = Some v" if "(k, v) \<in> set m" for k v
    using assms(1) that by (auto simp: list_all_iff survives_def split: option.splits)
  have "all_some (map (\<lambda>(k, v). map_option (Pair k) (load (to v))) m) = Some (map (\<lambda>(k, v). (k, ?n v)) m)"
    using n(1) by (intro all_some_map [where g = "\<lambda>(k, v). (k, ?n v)"]) auto
  then have t: "map_to load emit to m = Some (emit (YMap (map (\<lambda>(k, v). (k, ?n v)) m)))" by (simp add: map_to_def)
  have "all_some (map (\<lambda>(k, v). map_option (Pair k) (cast (emit (?n v)))) m) = Some m"
    using n(2) all_some_map [of m "\<lambda>(k, v). map_option (Pair k) (cast (emit (?n v)))" id] by force
  then have "map_from load emit cast (emit (YMap (map (\<lambda>(k, v). (k, ?n v)) m))) = Some m"
    using fold_om_insert_sorted [of "[]" m] assms(2)
    by (simp add: map_from_def assms(3) comp_def case_prod_unfold)
  with t show ?thesis by blast
qed

end
