(* ===== verification/Log_Yaml.thy ===== *)
theory Log_Yaml
  imports Log Config_Casts
begin

text \<open>
  The conversions of logger definitions from and to YAML (\<open>src/src/log.cpp\<close>), over the nodes of the
  library. \<open>field\<close> is its subscript by a key, which throws on a scalar, and \<open>as_string\<close> its
  conversion of a node, which throws unless the node is a scalar or null.
\<close>

section \<open>Definitions\<close>

definition field :: "yaml \<Rightarrow> string \<Rightarrow> yaml option option" where
  "field node key =
     (case node of YMap es \<Rightarrow> Some (map_of es key) | YScalar _ \<Rightarrow> None | _ \<Rightarrow> Some None)"

fun as_string :: "yaml \<Rightarrow> string option" where
  "as_string (YScalar str) = Some str"
| "as_string YNull = Some ''null''"
| "as_string _ = None"

text \<open>A field as a string, a default when it is not defined, \<open>None\<close> for an exception.\<close>

definition field_or :: "yaml \<Rightarrow> string \<Rightarrow> string \<Rightarrow> string option" where
  "field_or node key dft =
     (case field node key of None \<Rightarrow> None | Some None \<Rightarrow> Some dft | Some (Some n) \<Rightarrow> as_string n)"

definition has_field :: "yaml \<Rightarrow> string \<Rightarrow> bool" where
  "has_field node key \<longleftrightarrow> (case field node key of Some (Some n) \<Rightarrow> True | _ \<Rightarrow> False)"

text \<open>The elements of \<open>appenders\<close>; the conversion of a node that is not defined throws.\<close>

definition must_field :: "yaml \<Rightarrow> string \<Rightarrow> string option" where
  "must_field node key = (case field node key of Some (Some n) \<Rightarrow> as_string n | _ \<Rightarrow> None)"

definition appender_from :: "yaml \<Rightarrow> yaml \<Rightarrow> AppenderDefine option" where
  "appender_from node n =
     (case field_or n ''level'' [] of
        None \<Rightarrow> None
      | Some level \<Rightarrow>
          (case (if has_field node ''formatter'' then must_field n ''formatter'' else Some []) of
             None \<Rightarrow> None
           | Some fmt \<Rightarrow>
               let ad = \<lparr>ad_format = fmt, ad_level = level_fromString level, ad_type = False, ad_filename = []\<rparr>
               in case field_or n ''type'' ''StdoutAppender'' of
                    None \<Rightarrow> None
                  | Some type \<Rightarrow>
                      if type = ''StdoutAppender'' then Some ad
                      else if \<not> has_field n ''file'' then Some ad
                      else case must_field n ''file'' of
                             None \<Rightarrow> None
                           | Some file \<Rightarrow> Some (ad\<lparr>ad_type := True, ad_filename := file\<rparr>)))"

definition LogDefine_from_node :: "(yaml \<Rightarrow> nat \<Rightarrow> yaml) \<Rightarrow> yaml \<Rightarrow> LogDefine option" where
  "LogDefine_from_node index node =
     (case must_field node ''name'' of
        None \<Rightarrow> None
      | Some name \<Rightarrow>
          (case field_or node ''btLevel'' ''ERROR'' of
             None \<Rightarrow> None
           | Some bt \<Rightarrow>
               (case field_or node ''level'' [] of
                  None \<Rightarrow> None
                | Some level \<Rightarrow>
                    (case field_or node ''formatter'' [] of
                       None \<Rightarrow> None
                     | Some fmt \<Rightarrow>
                         (case (case field node ''appenders'' of
                                  Some (Some apps) \<Rightarrow>
                                    all_some (map (\<lambda>i. appender_from node (index apps i)) [0..<node_size apps])
                                | _ \<Rightarrow> Some []) of
                            None \<Rightarrow> None
                          | Some as \<Rightarrow>
                              Some \<lparr>ld_logName = name, ld_format = fmt, ld_apps = as,
                                    ld_level = level_fromString level, ld_btLevel = level_fromString bt\<rparr>)))))"

definition LogDefine_from :: "(string \<Rightarrow> yaml option) \<Rightarrow> (yaml \<Rightarrow> nat \<Rightarrow> yaml) \<Rightarrow> string \<Rightarrow> LogDefine option" where
  "LogDefine_from load index v = (case load v of None \<Rightarrow> None | Some node \<Rightarrow> LogDefine_from_node index node)"

text \<open>
  The inner variable \<open>app\<close> hides the sequence of the same name, so the nodes of the appenders are
  made and dropped.
\<close>

definition LogDefine_to_node :: "LogDefine \<Rightarrow> yaml" where
  "LogDefine_to_node v =
     YMap [(''name'', YScalar (ld_logName v)),
           (''level'', YScalar (level_toString (ld_level v))),
           (''btLevel'', YScalar (level_toString (ld_btLevel v))),
           (''formatter'', YScalar (ld_format v)),
           (''appenders'', YSeq [])]"

definition LogDefine_to :: "(yaml \<Rightarrow> string) \<Rightarrow> LogDefine \<Rightarrow> string" where
  "LogDefine_to emit v = emit (LogDefine_to_node v)"

section \<open>Properties\<close>

fun named_level :: "Level \<Rightarrow> bool" where
  "named_level DEBUG = True"
| "named_level INFO = True"
| "named_level WARN = True"
| "named_level ERROR = True"
| "named_level FATAL = True"
| "named_level _ = False"

lemma level_round_trip: "named_level level \<Longrightarrow> level_fromString (level_toString level) = level"
  by (cases level) (simp_all add: level_fromString_def level_toString_def)

text \<open>
  Writing a logger definition loses its appenders: read back from its own text, a definition has
  its name, levels and format, but no appenders, provided the YAML library reads back what it
  wrote and the levels are among the five that have names.
\<close>

theorem log_define_loses_appenders:
  assumes "load (emit (LogDefine_to_node v)) = Some (LogDefine_to_node v)"
    and "named_level (ld_level v)" "named_level (ld_btLevel v)"
  shows "LogDefine_from load index (LogDefine_to emit v) = Some (v\<lparr>ld_apps := []\<rparr>)"
proof -
  have "LogDefine_from_node index (LogDefine_to_node v) = Some (v\<lparr>ld_apps := []\<rparr>)"
    using assms(2,3)
    by (simp add: LogDefine_from_node_def LogDefine_to_node_def must_field_def field_or_def field_def level_round_trip)
  then show ?thesis by (simp add: LogDefine_from_def LogDefine_to_def assms(1))
qed

definition log_sys :: LogDefine where
  "log_sys = \<lparr>ld_logName = ''sys'', ld_format = [],
     ld_apps = [\<lparr>ad_format = [], ad_level = DEBUG, ad_type = False, ad_filename = []\<rparr>], ld_level = INFO, ld_btLevel = ERROR\<rparr>"

theorem log_define_loses_appenders_witness:
  "LogDefine_from (\<lambda>str. if str = ''x'' then Some (LogDefine_to_node log_sys) else None) (\<lambda>n i. n)
     (LogDefine_to (\<lambda>n. if n = LogDefine_to_node log_sys then ''x'' else []) log_sys) = Some (log_sys\<lparr>ld_apps := []\<rparr>)"
  by (rule log_define_loses_appenders) (simp_all add: log_sys_def)

text \<open>
  A logger definition with a format of its own is refused as a whole, and with it the value of the
  variable, if one of its appenders has none: the test asks for the format of the logger where
  that of the appender is meant.
\<close>

theorem log_define_needs_appender_format:
  assumes "has_field node ''formatter''" "field node ''appenders'' = Some (Some apps)"
    and "i < node_size apps" "\<not> has_field (index apps i) ''formatter''"
  shows "LogDefine_from_node index node = None"
proof -
  have "must_field (index apps i) ''formatter'' = None"
    using assms(4) by (auto simp: must_field_def has_field_def split: option.splits)
  then have "appender_from node (index apps i) = None"
    using assms(1) by (simp add: appender_from_def split: option.split)
  moreover have "None \<in> set xs \<Longrightarrow> all_some xs = None" for xs :: "AppenderDefine option list"
    by (induction xs rule: all_some.induct) auto
  ultimately have "all_some (map (\<lambda>i. appender_from node (index apps i)) [0..<node_size apps]) = None"
    using assms(3) by force
  then show ?thesis using assms(2) by (simp add: LogDefine_from_node_def split: option.split)
qed

theorem log_define_needs_appender_format_witness:
  "LogDefine_from_node (\<lambda>n i. case n of YSeq ns \<Rightarrow> ns ! i | _ \<Rightarrow> YNull)
     (YMap [(''name'', YScalar ''sys''), (''formatter'', YScalar ''%s%n''),
            (''appenders'', YSeq [YMap [(''type'', YScalar ''StdoutAppender'')]])]) = None"
  by (rule log_define_needs_appender_format [where apps = "YSeq [YMap [(''type'', YScalar ''StdoutAppender'')]]" and i = 0])
     (simp_all add: has_field_def field_def)

end
