(* ===== verification/Mysql_Pool.thy ===== *)
theory Mysql_Pool
  imports Text_Out
begin

text \<open>
  Connections, the connection pool, commands and transactions of the MySQL binding
  (\<open>src/src/db/db.hpp\<close>, \<open>mysql.hpp\<close>, \<open>mysql.cpp\<close>). The client library is a record of functions on a
  state of its own; a handle is a number. Connections are shared objects and live in a store.
\<close>

section \<open>The client library and connections\<close>

record connect_args =
  ca_timeout :: int
  ca_charset :: string
  ca_host :: string
  ca_user :: string
  ca_passwd :: string
  ca_dbname :: string
  ca_port :: "32 word"

text \<open>\<open>mysql_query\<close> and \<open>mysql_ping\<close> return 0 on success; \<open>store\<close> gives no result for a statement without rows.\<close>

record ('r, 'w) mysql_lib =
  lib_init :: "'w \<Rightarrow> nat option \<times> 'w"
  lib_connect :: "nat \<Rightarrow> connect_args \<Rightarrow> 'w \<Rightarrow> bool \<times> 'w"
  lib_close :: "nat \<Rightarrow> 'w \<Rightarrow> 'w"
  lib_ping :: "nat \<Rightarrow> 'w \<Rightarrow> int \<times> 'w"
  lib_query :: "nat \<Rightarrow> string \<Rightarrow> 'w \<Rightarrow> int \<times> 'w"
  lib_store :: "nat \<Rightarrow> 'w \<Rightarrow> 'r option \<times> 'w"
  lib_affected :: "nat \<Rightarrow> 'w \<Rightarrow> u64"
  lib_errno :: "nat \<Rightarrow> 'w \<Rightarrow> int"
  lib_error :: "nat \<Rightarrow> 'w \<Rightarrow> string"

text \<open>\<open>getParamValue\<close> of \<open>util.hpp\<close>: the default when the key is missing or the conversion fails.\<close>

definition getParamValue :: "(string \<Rightarrow> 'a option) \<Rightarrow> (string \<rightharpoonup> string) \<Rightarrow> string \<Rightarrow> 'a \<Rightarrow> 'a" where
  "getParamValue cast mp key dft =
     (case mp key of None \<Rightarrow> dft | Some str \<Rightarrow> (case cast str of None \<Rightarrow> dft | Some v \<Rightarrow> v))"

text \<open>\<open>boost::lexical_cast<int>\<close>: an optional sign and digits, nothing else, in the range of the type.\<close>

definition lexical_int :: "string \<Rightarrow> 32 word option" where
  "lexical_int str =
     (let neg = (take 1 str = ''-'');
          ds = (if neg \<or> take 1 str = ''+'' then tl str else str);
          n = int (read_digits 10 dec_value ds);
          i = (if neg then - n else n)
      in if ds \<noteq> [] \<and> list_all (\<lambda>c. 48 \<le> (of_char c :: nat) \<and> (of_char c :: nat) \<le> 57) ds \<and> - (2 ^ 31) \<le> i \<and> i < 2 ^ 31
         then Some (word_of_int i) else None)"

record conn =
  m_mysql :: "nat option"
  m_params :: "string \<rightharpoonup> string"
  m_lastUsedTime :: u64
  m_name :: string
  m_connect :: bool
  m_hasError :: bool
  m_transcation :: bool

definition MySQLConn :: "(string \<rightharpoonup> string) \<Rightarrow> conn" where
  "MySQLConn params =
     \<lparr>m_mysql = None, m_params = params, m_lastUsedTime = 0, m_name = ''root'',
      m_connect = False, m_hasError = False, m_transcation = False\<rparr>"

definition mysql_init :: "('r, 'w) mysql_lib \<Rightarrow> (string \<rightharpoonup> string) \<Rightarrow> int \<Rightarrow> 'w \<Rightarrow> nat option \<times> 'w" where
  "mysql_init lib params timeout w =
     (case lib_init lib w of
        (None, w1) \<Rightarrow> (None, w1)
      | (Some h, w1) \<Rightarrow>
          let args = \<lparr>ca_timeout = (if 0 < timeout then timeout else 0),
                      ca_charset = getParamValue Some params ''charset'' ''UTF8'',
                      ca_host = getParamValue Some params ''host'' [],
                      ca_user = getParamValue Some params ''user'' [],
                      ca_passwd = getParamValue Some params ''passwd'' [],
                      ca_dbname = getParamValue Some params ''dbname'' [],
                      ca_port = getParamValue lexical_int params ''port'' 0\<rparr>
          in case lib_connect lib h args w1 of
               (ok, w2) \<Rightarrow> if ok then (Some h, w2) else (None, lib_close lib h w2))"

definition connect :: "('r, 'w) mysql_lib \<Rightarrow> conn \<times> 'w \<Rightarrow> bool \<times> conn \<times> 'w" where
  "connect lib s =
     (case s of (c, w) \<Rightarrow>
        if m_mysql c \<noteq> None \<and> \<not> m_hasError c then (True, c, w)
        else case mysql_init lib (m_params c) 10000 w of
               (None, w1) \<Rightarrow> (False, c\<lparr>m_mysql := None, m_hasError := True\<rparr>, w1)
             | (Some h, w1) \<Rightarrow> (True, c\<lparr>m_mysql := Some h, m_hasError := False, m_connect := True\<rparr>, w1))"

text \<open>\<open>IDBConn::init\<close>.\<close>

definition conn_init :: "('r, 'w) mysql_lib \<Rightarrow> conn \<times> 'w \<Rightarrow> conn \<times> 'w" where
  "conn_init lib s = (if \<not> m_connect (fst s) then snd (connect lib s) else s)"

text \<open>The test is the wrong way round: a connection that is open stays open. Closing a null handle does nothing.\<close>

definition conn_close :: "('r, 'w) mysql_lib \<Rightarrow> conn \<times> 'w \<Rightarrow> conn \<times> 'w" where
  "conn_close lib s =
     (case s of (c, w) \<Rightarrow>
        if \<not> m_connect c
        then (c\<lparr>m_connect := True\<rparr>, case m_mysql c of None \<Rightarrow> w | Some h \<Rightarrow> lib_close lib h w)
        else (c, w))"

definition ping :: "('r, 'w) mysql_lib \<Rightarrow> conn \<times> 'w \<Rightarrow> bool \<times> conn \<times> 'w" where
  "ping lib s =
     (case s of (c, w) \<Rightarrow>
        case m_mysql c of
          None \<Rightarrow> (False, c, w)
        | Some h \<Rightarrow>
            if \<not> m_connect c then (False, c, w)
            else case lib_ping lib h w of
                   (rt, w1) \<Rightarrow> if rt \<noteq> 0 then (False, c\<lparr>m_hasError := True\<rparr>, w1) else (True, c\<lparr>m_hasError := False\<rparr>, w1))"

definition conn_errno :: "('r, 'w) mysql_lib \<Rightarrow> conn \<times> 'w \<Rightarrow> int" where
  "conn_errno lib s = (case m_mysql (fst s) of None \<Rightarrow> - 1 | Some h \<Rightarrow> lib_errno lib h (snd s))"

definition conn_error :: "('r, 'w) mysql_lib \<Rightarrow> conn \<times> 'w \<Rightarrow> string" where
  "conn_error lib s = (case m_mysql (fst s) of None \<Rightarrow> ''connection failure'' | Some h \<Rightarrow> lib_error lib h (snd s))"

section \<open>The pool\<close>

record 'w pool =
  conns :: "nat \<Rightarrow> conn"
  next_conn :: nat
  m_conns :: "string \<rightharpoonup> nat list"
  m_maxConns :: u32
  m_dbDefine :: "string \<rightharpoonup> string"
  lib_state :: 'w

definition MySQLManager :: "u32 \<Rightarrow> (string \<rightharpoonup> string) \<Rightarrow> 'w \<Rightarrow> 'w pool" where
  "MySQLManager max_conns def w =
     \<lparr>conns = (\<lambda>_. MySQLConn Map.empty), next_conn = 0, m_conns = Map.empty,
      m_maxConns = (if max_conns = 0 then 30 else max_conns), m_dbDefine = def, lib_state = w\<rparr>"

definition setDefine :: "(string \<rightharpoonup> string) \<Rightarrow> 'w pool \<Rightarrow> 'w pool" where
  "setDefine def s = s\<lparr>m_dbDefine := def\<rparr>"

definition new_conn :: "conn \<Rightarrow> 'w pool \<Rightarrow> nat \<times> 'w pool" where
  "new_conn c s = (next_conn s, s\<lparr>conns := (conns s)(next_conn s := c), next_conn := Suc (next_conn s)\<rparr>)"

text \<open>The part of \<open>getConn\<close> under the lock; \<open>None\<close> stands for the early return.\<close>

definition pick_conn :: "string \<Rightarrow> bool \<Rightarrow> 'w pool \<Rightarrow> nat option \<times> 'w pool" where
  "pick_conn name newName s =
     (case m_conns s name of
        None \<Rightarrow>
          if \<not> newName then (None, s)
          else (case new_conn (MySQLConn (m_dbDefine s)) (s\<lparr>m_conns := (m_conns s)(name \<mapsto> [])\<rparr>) of
                  (c, s1) \<Rightarrow> (Some c, s1))
      | Some [] \<Rightarrow>
          (case new_conn ((MySQLConn (m_dbDefine s))\<lparr>m_name := name\<rparr>) s of (c, s1) \<Rightarrow> (Some c, s1))
      | Some (c # deq) \<Rightarrow> (Some c, s\<lparr>m_conns := (m_conns s)(name \<mapsto> deq)\<rparr>))"

text \<open>Run an operation of a connection of the store.\<close>

definition on_conn :: "(conn \<times> 'w \<Rightarrow> bool \<times> conn \<times> 'w) \<Rightarrow> nat \<Rightarrow> 'w pool \<Rightarrow> bool \<times> 'w pool" where
  "on_conn f c s =
     (case f (conns s c, lib_state s) of (ok, x, w) \<Rightarrow> (ok, s\<lparr>conns := (conns s)(c := x), lib_state := w\<rparr>))"

definition getConn :: "('r, 'w) mysql_lib \<Rightarrow> string \<Rightarrow> bool \<Rightarrow> 'w pool \<Rightarrow> nat option \<times> 'w pool" where
  "getConn lib name newName s =
     (case pick_conn name newName s of
        (None, s1) \<Rightarrow> (None, s1)
      | (Some c, s1) \<Rightarrow>
          (case on_conn (connect lib) c s1 of
             (ok, s2) \<Rightarrow>
               if \<not> ok then (None, s2)
               else case on_conn (ping lib) c s2 of
                      (ok2, s3) \<Rightarrow> if \<not> ok2 then (None, s3) else (Some c, s3)))"

definition addConn :: "('r, 'w) mysql_lib \<Rightarrow> string \<Rightarrow> nat option \<Rightarrow> bool \<Rightarrow> 'w pool \<Rightarrow> bool \<times> 'w pool" where
  "addConn lib name conn newName s =
     (case conn of
        None \<Rightarrow> (False, s)
      | Some c \<Rightarrow>
          (case m_conns s name of
             None \<Rightarrow> if newName then (True, s\<lparr>m_conns := (m_conns s)(name \<mapsto> [c])\<rparr>) else (False, s)
           | Some deq \<Rightarrow>
               if unat (m_maxConns s) < length deq
               then (False, snd (on_conn (\<lambda>x. (True, conn_close lib x)) c s))
               else (True, s\<lparr>m_conns := (m_conns s)(name \<mapsto> deq @ [c])\<rparr>)))"

text \<open>\<open>MySQLConn::Create\<close>, and the destructors of a guard and of a command that returns its connection.\<close>

definition conn_Create :: "('r, 'w) mysql_lib \<Rightarrow> string \<Rightarrow> 'w pool \<Rightarrow> nat option \<times> 'w pool" where
  "conn_Create lib name s = getConn lib name True s"

definition give_back :: "('r, 'w) mysql_lib \<Rightarrow> nat \<Rightarrow> 'w pool \<Rightarrow> bool \<times> 'w pool" where
  "give_back lib c s = addConn lib (m_name (conns s c)) (Some c) True s"

section \<open>Commands and transactions\<close>

text \<open>
  A statement on a connection without a handle follows a null pointer; a statement that the server
  refuses throws. A command without a connection returns a null result.
\<close>

datatype db_error = NullHandle | AssertFailed | SqlError string | OutOfRange | BadIndex | NullString | OutOfMemory | Overrun

record db_command =
  c_conn :: "nat option"
  c_close :: bool
  c_hasError :: bool
  c_cmdStr :: string
  c_row :: "32 word"

definition MySQLCommand :: "nat option \<Rightarrow> bool \<Rightarrow> db_command" where
  "MySQLCommand conn close = \<lparr>c_conn = conn, c_close = close, c_hasError = False, c_cmdStr = [], c_row = 0\<rparr>"

definition command ::
  "('r, 'w) mysql_lib \<Rightarrow> string \<Rightarrow> db_command \<times> 'w pool \<Rightarrow> (db_error + 'r option option) \<times> db_command \<times> 'w pool" where
  "command lib sql st =
     (case st of (x, s) \<Rightarrow>
        case c_conn x of
          None \<Rightarrow> (Inr None, x, s)
        | Some c \<Rightarrow>
            (case m_mysql (conns s c) of
               None \<Rightarrow> (Inl NullHandle, x, s)
             | Some h \<Rightarrow>
                 (case lib_query lib h sql (lib_state s) of
                    (rt, w1) \<Rightarrow>
                      if rt \<noteq> 0
                      then (Inl (SqlError sql), x\<lparr>c_hasError := True\<rparr>, s\<lparr>lib_state := w1\<rparr>)
                      else case lib_store lib h w1 of
                             (res, w2) \<Rightarrow>
                               (Inr (Some res),
                                x\<lparr>c_hasError := False, c_cmdStr := sql, c_row := ucast (lib_affected lib h w2)\<rparr>,
                                s\<lparr>lib_state := w2\<rparr>))))"

definition getAffectedRow :: "db_command \<Rightarrow> 32 word" where
  "getAffectedRow x = c_row x"

definition command_end :: "('r, 'w) mysql_lib \<Rightarrow> db_command \<times> 'w pool \<Rightarrow> (db_error + unit) \<times> 'w pool" where
  "command_end lib st =
     (case st of (x, s) \<Rightarrow>
        if \<not> c_close x then (Inr (), s)
        else case c_conn x of None \<Rightarrow> (Inl AssertFailed, s) | Some c \<Rightarrow> (Inr (), snd (give_back lib c s)))"

record transcation = db_command +
  t_isFinished :: bool

definition MySQLTranscation :: "nat option \<Rightarrow> transcation" where
  "MySQLTranscation conn = db_command.extend (MySQLCommand conn False) \<lparr>t_isFinished = True\<rparr>"

text \<open>A control statement; the exceptions are caught. A null pointer is not an exception.\<close>

definition control ::
  "('r, 'w) mysql_lib \<Rightarrow> string \<Rightarrow> bool \<Rightarrow> transcation \<times> 'w pool \<Rightarrow> (db_error + bool) \<times> transcation \<times> 'w pool" where
  "control lib sql finished st =
     (case st of (x, s) \<Rightarrow>
        case command lib sql (db_command.truncate x, s) of
          (Inr _, y, s1) \<Rightarrow> (Inr True, db_command.extend y \<lparr>t_isFinished = finished\<rparr>, s1)
        | (Inl NullHandle, y, s1) \<Rightarrow> (Inl NullHandle, db_command.extend y \<lparr>t_isFinished = t_isFinished x\<rparr>, s1)
        | (Inl e, y, s1) \<Rightarrow> (Inr False, db_command.extend y \<lparr>t_isFinished = t_isFinished x\<rparr>, s1))"

definition begin_tx ::
  "('r, 'w) mysql_lib \<Rightarrow> transcation \<times> 'w pool \<Rightarrow> (db_error + bool) \<times> transcation \<times> 'w pool" where
  "begin_tx lib st = control lib ''BEGIN'' False st"

definition commit_tx ::
  "('r, 'w) mysql_lib \<Rightarrow> transcation \<times> 'w pool \<Rightarrow> (db_error + bool) \<times> transcation \<times> 'w pool" where
  "commit_tx lib st = (if t_isFinished (fst st) then (Inr False, st) else control lib ''COMMIT'' True st)"

definition rollback_tx ::
  "('r, 'w) mysql_lib \<Rightarrow> transcation \<times> 'w pool \<Rightarrow> (db_error + bool) \<times> transcation \<times> 'w pool" where
  "rollback_tx lib st = (if t_isFinished (fst st) then (Inr False, st) else control lib ''ROLLBACK'' True st)"

definition tx_Create :: "('r, 'w) mysql_lib \<Rightarrow> string \<Rightarrow> 'w pool \<Rightarrow> transcation \<times> 'w pool" where
  "tx_Create lib name s = (case getConn lib name True s of (c, s1) \<Rightarrow> (MySQLTranscation c, s1))"

end
