(* ===== verification/Mysql_Pool_Props.thy ===== *)
theory Mysql_Pool_Props
  imports Mysql_Pool
begin

text \<open>
  Properties of the connection pool and of transactions: no connection has two users, how many
  wait in the pool, that a surplus connection is not closed, and which control statements a
  transaction sends.
\<close>

section \<open>Who has a connection\<close>

text \<open>
  The pool together with the connections that clients hold. A client gives a connection to the
  pool under any name, and does with one it holds whatever it likes.
\<close>

inductive pool_reach :: "('r, 'w) mysql_lib \<Rightarrow> 'w pool \<times> nat set \<Rightarrow> bool" for lib where
  start: "pool_reach lib (MySQLManager mc def w, {})"
| get: "pool_reach lib (s, held) \<Longrightarrow> getConn lib name newName s = (Some c, s1) \<Longrightarrow> pool_reach lib (s1, insert c held)"
| get_fails: "pool_reach lib (s, held) \<Longrightarrow> getConn lib name newName s = (None, s1) \<Longrightarrow> pool_reach lib (s1, held)"
| add: "pool_reach lib (s, held) \<Longrightarrow> c \<in> held \<Longrightarrow> addConn lib name (Some c) newName s = (True, s1) \<Longrightarrow>
    pool_reach lib (s1, held - {c})"
| add_fails: "pool_reach lib (s, held) \<Longrightarrow> c \<in> held \<Longrightarrow> addConn lib name (Some c) newName s = (False, s1) \<Longrightarrow>
    pool_reach lib (s1, held)"
| use_conn: "pool_reach lib (s, held) \<Longrightarrow> c \<in> held \<Longrightarrow> pool_reach lib (snd (on_conn f c s), held)"
| redefine: "pool_reach lib (s, held) \<Longrightarrow> pool_reach lib (setDefine def s, held)"

text \<open>The invariant speaks of the queues, the counter and the limit only.\<close>

definition queues_ok :: "(string \<rightharpoonup> nat list) \<Rightarrow> nat \<Rightarrow> u32 \<Rightarrow> nat set \<Rightarrow> bool" where
  "queues_ok q k mc held \<longleftrightarrow>
     (\<forall>c \<in> held. c < k) \<and>
     (\<forall>name deq. q name = Some deq \<longrightarrow>
        distinct deq \<and> length deq \<le> Suc (unat mc) \<and> (\<forall>c \<in> set deq. c < k \<and> c \<notin> held)) \<and>
     (\<forall>n m deq deq'. q n = Some deq \<longrightarrow> q m = Some deq' \<longrightarrow> n \<noteq> m \<longrightarrow> set deq \<inter> set deq' = {})"

abbreviation pool_ok :: "'w pool \<Rightarrow> nat set \<Rightarrow> bool" where
  "pool_ok s held \<equiv> queues_ok (m_conns s) (next_conn s) (m_maxConns s) held"

lemma on_conn_frame [simp]:
  "m_conns (snd (on_conn f c s)) = m_conns s" "next_conn (snd (on_conn f c s)) = next_conn s"
  "m_maxConns (snd (on_conn f c s)) = m_maxConns s" "b \<noteq> c \<Longrightarrow> conns (snd (on_conn f c s)) b = conns s b"
  by (auto simp: on_conn_def split: prod.split)

lemma queues_set:
  assumes "queues_ok q k mc held" "distinct deq" "length deq \<le> Suc (unat mc)" "\<forall>c \<in> set deq. c < k \<and> c \<notin> held"
    and "\<forall>m deq'. q m = Some deq' \<longrightarrow> name \<noteq> m \<longrightarrow> set deq \<inter> set deq' = {}"
  shows "queues_ok (q(name \<mapsto> deq)) k mc held"
  using assms unfolding queues_ok_def by (auto simp: Int_commute)

lemma queues_held:
  "queues_ok q k mc held \<Longrightarrow> c < k \<Longrightarrow> \<forall>name deq. q name = Some deq \<longrightarrow> c \<notin> set deq \<Longrightarrow> queues_ok q k mc (insert c held)"
  unfolding queues_ok_def by auto

lemma queues_mono: "queues_ok q k mc held \<Longrightarrow> k \<le> k' \<Longrightarrow> held' \<subseteq> held \<Longrightarrow> queues_ok q k' mc held'"
  unfolding queues_ok_def by (fastforce intro: less_le_trans)

lemma pick_conn_ok:
  assumes "pool_ok s held" "pick_conn name newName s = (res, s1)"
  shows "m_maxConns s1 = m_maxConns s \<and> pool_ok s1 held \<and>
    (case res of None \<Rightarrow> True | Some c \<Rightarrow> c \<notin> held \<and> pool_ok s1 (insert c held))"
proof (cases "m_conns s name")
  case None
  show ?thesis
  proof (cases newName)
    case True
    let ?q = "(m_conns s)(name \<mapsto> [])"
    have s1: "res = Some (next_conn s)" "m_conns s1 = ?q" "next_conn s1 = Suc (next_conn s)" "m_maxConns s1 = m_maxConns s"
      using assms(2) None True by (auto simp: pick_conn_def new_conn_def)
    have q: "queues_ok ?q (next_conn s) (m_maxConns s) held"
      using assms(1) by (rule queues_set) simp_all
    have "next_conn s \<notin> held" "\<forall>name deq. ?q name = Some deq \<longrightarrow> next_conn s \<notin> set deq"
      using q unfolding queues_ok_def by blast+
    then show ?thesis using queues_mono [OF q, of "Suc (next_conn s)" held] by (simp add: s1 queues_held)
  qed (use assms None in \<open>auto simp: pick_conn_def\<close>)
next
  case (Some deq)
  show ?thesis
  proof (cases deq)
    case Nil
    have s1: "res = Some (next_conn s)" "m_conns s1 = m_conns s" "next_conn s1 = Suc (next_conn s)" "m_maxConns s1 = m_maxConns s"
      using assms(2) Some Nil by (auto simp: pick_conn_def new_conn_def)
    have "next_conn s \<notin> held" "\<forall>name deq. m_conns s name = Some deq \<longrightarrow> next_conn s \<notin> set deq"
      using assms(1) unfolding queues_ok_def by blast+
    then show ?thesis using queues_mono [OF assms(1), of "Suc (next_conn s)" held] by (simp add: s1 queues_held)
  next
    case (Cons c rest)
    let ?q = "(m_conns s)(name \<mapsto> rest)"
    have s1: "res = Some c" "m_conns s1 = ?q" "next_conn s1 = next_conn s" "m_maxConns s1 = m_maxConns s"
      using assms(2) Some Cons by (auto simp: pick_conn_def)
    have d: "distinct (c # rest)" "length (c # rest) \<le> Suc (unat (m_maxConns s))"
      "\<forall>c' \<in> set (c # rest). c' < next_conn s \<and> c' \<notin> held"
      using assms(1) Some Cons unfolding queues_ok_def by blast+
    have o: "set (c # rest) \<inter> set deq' = {}" if "m_conns s m = Some deq'" "name \<noteq> m" for m deq'
      using assms(1) Some Cons that unfolding queues_ok_def by blast
    have q: "queues_ok ?q (next_conn s) (m_maxConns s) held"
      using assms(1) by (rule queues_set) (use d o in auto)
    have "\<forall>m deq'. ?q m = Some deq' \<longrightarrow> c \<notin> set deq'" using d(1) o by (auto split: if_splits)
    then show ?thesis using q d(3) by (simp add: s1 queues_held)
  qed
qed

lemma getConn_ok:
  assumes "pool_ok s held" "getConn lib name newName s = (res, s1)"
  shows "pool_ok s1 held \<and>
    (case res of None \<Rightarrow> True
     | Some c \<Rightarrow> c \<notin> held \<and> pool_ok s1 (insert c held) \<and> m_connect (conns s1 c) \<and> \<not> m_hasError (conns s1 c) \<and>
         m_mysql (conns s1 c) \<noteq> None)"
proof -
  obtain r0 t where p: "pick_conn name newName s = (r0, t)" by fastforce
  note P = pick_conn_ok [OF assms(1) p, THEN conjunct2]
  show ?thesis
  proof (cases r0)
    case None
    then show ?thesis using assms(2) p P by (auto simp: getConn_def)
  next
    case (Some c)
    obtain ok s2 where c1: "on_conn (connect lib) c t = (ok, s2)" by fastforce
    obtain ok2 s3 where c2: "on_conn (ping lib) c s2 = (ok2, s3)" by fastforce
    have f2: "m_conns s2 = m_conns t" "next_conn s2 = next_conn t" "m_maxConns s2 = m_maxConns t"
      using on_conn_frame [where f = "connect lib" and c = c and s = t] c1 by simp_all
    have f3: "m_conns s3 = m_conns t" "next_conn s3 = next_conn t" "m_maxConns s3 = m_maxConns t"
      using on_conn_frame [where f = "ping lib" and c = c and s = s2] c2 f2 by simp_all
    have pinged: "ok2 \<Longrightarrow> m_connect (conns s3 c) \<and> \<not> m_hasError (conns s3 c) \<and> m_mysql (conns s3 c) \<noteq> None"
      using c2 by (auto simp: on_conn_def ping_def split: prod.splits option.splits if_splits)
    show ?thesis
    proof (cases "ok \<and> ok2")
      case True
      then have "res = Some c" "s1 = s3" using assms(2) p Some c1 c2 by (auto simp: getConn_def)
      then show ?thesis using P Some True pinged by (simp add: f3)
    next
      case False
      then have "res = None \<and> (s1 = s2 \<or> s1 = s3)" using assms(2) p Some c1 c2 by (auto simp: getConn_def split: if_splits)
      then show ?thesis using P by (auto simp: f2 f3)
    qed
  qed
qed

lemma addConn_ok:
  assumes "pool_ok s held" "c \<in> held" "addConn lib name (Some c) newName s = (ok, s1)"
  shows "pool_ok s1 (if ok then held - {c} else held)"
proof -
  have c: "c < next_conn s" "\<forall>n deq. m_conns s n = Some deq \<longrightarrow> c \<notin> set deq"
    using assms(1,2) unfolding queues_ok_def by blast+
  have less: "queues_ok (m_conns s) (next_conn s) (m_maxConns s) (held - {c})"
    using queues_mono [OF assms(1), of "next_conn s" "held - {c}"] by blast
  show ?thesis
  proof (cases "m_conns s name")
    case None
    have "queues_ok ((m_conns s)(name \<mapsto> [c])) (next_conn s) (m_maxConns s) (held - {c})"
      using less by (rule queues_set) (use c in auto)
    then show ?thesis using assms(1,3) None by (auto simp: addConn_def split: if_splits)
  next
    case (Some deq)
    show ?thesis
    proof (cases "unat (m_maxConns s) < length deq")
      case True
      then have "s1 = snd (on_conn (\<lambda>x. (True, conn_close lib x)) c s)" "\<not> ok"
        using assms(3) Some by (auto simp: addConn_def)
      then show ?thesis using assms(1) by simp
    next
      case False
      have d: "distinct deq" "\<forall>c' \<in> set deq. c' < next_conn s \<and> c' \<notin> held"
        using assms(1) Some unfolding queues_ok_def by blast+
      have o: "set deq \<inter> set deq' = {}" if "m_conns s m = Some deq'" "name \<noteq> m" for m deq'
        using assms(1) Some that unfolding queues_ok_def by blast
      have "queues_ok ((m_conns s)(name \<mapsto> deq @ [c])) (next_conn s) (m_maxConns s) (held - {c})"
        using less by (rule queues_set) (use d o c Some False in auto)
      then show ?thesis using assms(3) Some False by (auto simp: addConn_def)
    qed
  qed
qed

lemma pool_ok_reach: "pool_reach lib S \<Longrightarrow> pool_ok (fst S) (snd S)"
proof (induction rule: pool_reach.induct)
  case (start mc def w)
  then show ?case by (simp add: queues_ok_def MySQLManager_def)
next
  case (get s held name newName c s1)
  then show ?case using getConn_ok by fastforce
next
  case (get_fails s held name newName s1)
  then show ?case using getConn_ok by fastforce
next
  case (add s held c name newName s1)
  then show ?case using addConn_ok by fastforce
next
  case (add_fails s held c name newName s1)
  then show ?case using addConn_ok by fastforce
qed (simp_all add: setDefine_def)

text \<open>
  C35. A connection has one user: whatever clients do with the connections they hold, a connection
  that \<open>getConn\<close> hands out is held by no other client, waits under no name of the pool any more, and
  is connected and answered a ping. Under each name at most one connection more than the
  maximum waits.
\<close>

theorem pool_connection_unique:
  assumes "pool_reach lib (s, held)" "getConn lib name newName s = (Some c, s1)"
  shows "c \<notin> held \<and> m_mysql (conns s1 c) \<noteq> None \<and> m_connect (conns s1 c) \<and> \<not> m_hasError (conns s1 c) \<and>
    (case m_conns s1 other of None \<Rightarrow> True | Some deq \<Rightarrow> c \<notin> set deq \<and> distinct deq \<and> length deq \<le> unat (m_maxConns s1) + 1)"
proof -
  have ok: "pool_ok s held" using pool_ok_reach [OF assms(1)] by simp
  have "c \<notin> set deq \<and> distinct deq \<and> length deq \<le> unat (m_maxConns s1) + 1" if "m_conns s1 other = Some deq" for deq
  proof -
    have "pool_ok s1 (insert c held)" using getConn_ok [OF ok assms(2)] by simp
    then show ?thesis using that unfolding queues_ok_def by (metis Suc_eq_plus1 insertI1)
  qed
  then show ?thesis using getConn_ok [OF ok assms(2)] by (auto split: option.split)
qed

text \<open>A client library whose calls succeed and which lists the handles it was asked to close.\<close>

definition good_lib :: "(unit, nat list) mysql_lib" where
  "good_lib = \<lparr>lib_init = (\<lambda>w. (Some 7, w)), lib_connect = (\<lambda>h a w. (True, w)), lib_close = (\<lambda>h w. w @ [h]),
     lib_ping = (\<lambda>h w. (0, w)), lib_query = (\<lambda>h sql w. (0, w)), lib_store = (\<lambda>h w. (Some (), w)),
     lib_affected = (\<lambda>h w. 0), lib_errno = (\<lambda>h w. 0), lib_error = (\<lambda>h w. [])\<rparr>"

definition a_pool :: "nat list pool" where
  "a_pool = MySQLManager 1 Map.empty []"

lemmas pool_defs = getConn_def pick_conn_def new_conn_def on_conn_def connect_def ping_def mysql_init_def MySQLConn_def
  good_lib_def a_pool_def MySQLManager_def getParamValue_def

theorem pool_connection_unique_witness:
  "fst (getConn good_lib ''db'' True a_pool) = Some 0 \<and> (0 :: nat) \<notin> {}"
proof -
  obtain s1 where g: "getConn good_lib ''db'' True a_pool = (Some 0, s1)" by (simp add: pool_defs)
  have "pool_reach good_lib (a_pool, {})" unfolding a_pool_def by (rule pool_reach.start)
  from pool_connection_unique [OF this g, of "''db''"] show ?thesis using g by simp
qed

section \<open>Surplus connections\<close>

text \<open>
  A connection that \<open>getConn\<close> has handed out and that does not fit into the pool any more is refused
  but not closed: \<open>close\<close> closes only what is not connected, so the library is not called, the handle
  stays open and nobody refers to it.
\<close>

theorem surplus_connection_stays_open:
  assumes "pool_reach lib (s, held)" "getConn lib name newName s = (Some c, s1)"
    and "m_conns s1 other = Some deq" "unat (m_maxConns s1) < length deq"
  shows "addConn lib other (Some c) newName' s1 = (False, s1)"
proof -
  have "m_connect (conns s1 c)"
    using getConn_ok [OF _ assms(2)] pool_ok_reach [OF assms(1)] by fastforce
  then show ?thesis using assms(3,4) by (simp add: addConn_def on_conn_def conn_close_def)
qed

theorem surplus_connection_stays_open_witness:
  "\<exists>s1. addConn good_lib ''db'' (Some 2) True s1 = (False, s1) \<and> m_conns s1 ''db'' = Some [0, 1] \<and> m_maxConns s1 = 1"
proof -
  let ?s1 = "snd (getConn good_lib ''db'' True a_pool)"
  let ?s2 = "snd (getConn good_lib ''db'' True ?s1)"
  let ?s3 = "snd (getConn good_lib ''x'' True ?s2)"
  let ?s4 = "snd (addConn good_lib ''db'' (Some 0) True ?s3)"
  let ?s5 = "snd (addConn good_lib ''db'' (Some 1) True ?s4)"
  let ?s6 = "snd (addConn good_lib ''x'' (Some 2) True ?s5)"
  let ?s7 = "snd (getConn good_lib ''x'' True ?s6)"
  have r0: "pool_reach good_lib (a_pool, {})" unfolding a_pool_def by (rule pool_reach.start)
  have r1: "pool_reach good_lib (?s1, {0})"
    using pool_reach.get [OF r0, of "''db''" True 0 ?s1] by (simp add: pool_defs)
  have r2: "pool_reach good_lib (?s2, {0, 1})"
    using pool_reach.get [OF r1, of "''db''" True 1 ?s2] by (simp add: pool_defs insert_commute)
  have r3: "pool_reach good_lib (?s3, {0, 1, 2})"
    using pool_reach.get [OF r2, of "''x''" True 2 ?s3] by (simp add: pool_defs insert_commute)
  have r4: "pool_reach good_lib (?s4, {1, 2})"
    using pool_reach.add [OF r3, of 0 "''db''" True ?s4] by (simp add: pool_defs addConn_def)
  have r5: "pool_reach good_lib (?s5, {2})"
    using pool_reach.add [OF r4, of 1 "''db''" True ?s5] by (simp add: pool_defs addConn_def)
  have r6: "pool_reach good_lib (?s6, {})"
    using pool_reach.add [OF r5, of 2 "''x''" True ?s6] by (simp add: pool_defs addConn_def)
  have g: "getConn good_lib ''x'' True ?s6 = (Some 2, ?s7)" "m_conns ?s7 ''db'' = Some [0, 1]" "m_maxConns ?s7 = 1"
    by (simp_all add: pool_defs addConn_def)
  from surplus_connection_stays_open [OF r6 g(1,2), of True] g show ?thesis by auto
qed

section \<open>Transactions\<close>

datatype tx_op = Begin | Commit | Rollback

fun do_tx :: "('r, 'w) mysql_lib \<Rightarrow> tx_op \<Rightarrow> transcation \<times> 'w pool \<Rightarrow> (db_error + bool) \<times> transcation \<times> 'w pool" where
  "do_tx lib Begin st = begin_tx lib st"
| "do_tx lib Commit st = commit_tx lib st"
| "do_tx lib Rollback st = rollback_tx lib st"

text \<open>The operations that reported success, until a null pointer is followed.\<close>

fun succeeded :: "('r, 'w) mysql_lib \<Rightarrow> tx_op list \<Rightarrow> transcation \<times> 'w pool \<Rightarrow> tx_op list" where
  "succeeded lib [] st = []"
| "succeeded lib (op # ops) st =
     (case do_tx lib op st of
        (Inl e, st1) \<Rightarrow> []
      | (Inr ok, st1) \<Rightarrow> (if ok then [op] else []) @ succeeded lib ops st1)"

text \<open>Each end is the end of something that has begun.\<close>

fun bracketed :: "bool \<Rightarrow> tx_op list \<Rightarrow> bool" where
  "bracketed open_tx [] = True"
| "bracketed open_tx (Begin # ops) = bracketed True ops"
| "bracketed open_tx (op # ops) = (open_tx \<and> bracketed False ops)"

lemma control_state:
  "case control lib sql fin (x, s) of
     (Inr ok, y, s1) \<Rightarrow> t_isFinished y = (if ok then fin else t_isFinished x) | (Inl e, y, s1) \<Rightarrow> True"
  by (auto simp: control_def db_command.defs split: prod.split sum.split db_error.split)

lemma succeeded_bracketed: "bracketed (\<not> t_isFinished (fst st)) (succeeded lib ops st)"
proof (induction ops arbitrary: st)
  case (Cons op ops)
  obtain x s where st: "st = (x, s)" by fastforce
  obtain r y s1 where d: "do_tx lib op st = (r, y, s1)" by (metis prod_cases3)
  have weaken: "bracketed False xs \<Longrightarrow> bracketed b xs" for b xs
    by (induction b xs rule: bracketed.induct) auto
  show ?case
  proof (cases r)
    case (Inr ok)
    note IH = Cons.IH [of "(y, s1)"]
    show ?thesis
    proof (cases op)
      case Begin
      then have "t_isFinished y = (if ok then False else t_isFinished x)"
        using d Inr control_state [where lib = lib and sql = "''BEGIN''" and fin = False and x = x and s = s] by (auto simp: st begin_tx_def)
      then show ?thesis using IH d Inr st Begin by (auto split: if_splits)
    next
      case Commit
      then have "ok \<longrightarrow> \<not> t_isFinished x \<and> t_isFinished y" "\<not> ok \<longrightarrow> t_isFinished y = t_isFinished x"
        using d Inr control_state [where lib = lib and sql = "''COMMIT''" and fin = True and x = x and s = s] by (auto simp: st commit_tx_def split: if_splits)
      then show ?thesis using IH d Inr st Commit by (auto split: if_splits)
    next
      case Rollback
      then have "ok \<longrightarrow> \<not> t_isFinished x \<and> t_isFinished y" "\<not> ok \<longrightarrow> t_isFinished y = t_isFinished x"
        using d Inr control_state [where lib = lib and sql = "''ROLLBACK''" and fin = True and x = x and s = s] by (auto simp: st rollback_tx_def split: if_splits)
      then show ?thesis using IH d Inr st Rollback by (auto split: if_splits)
    qed
  qed (simp add: d)
qed simp

lemma no_connection_succeeds:
  "succeeded lib (Begin # ops) (MySQLTranscation None, s) = Begin # succeeded lib ops (MySQLTranscation None\<lparr>t_isFinished := False\<rparr>, s)"
  by (simp add: begin_tx_def control_def command_def MySQLTranscation_def MySQLCommand_def db_command.defs)

text \<open>
  A transaction keeps its brackets: of the control statements that it reports as done, every commit
  or rollback follows a begin with no other end between, for every order of the calls and
  whichever statements the server refuses. But a transaction that got no connection reports the
  same without sending anything: begin and commit both succeed and the pool is as it was.
\<close>

theorem transaction_brackets:
  "bracketed False (succeeded lib ops (MySQLTranscation c, s)) \<and>
   (case begin_tx lib (MySQLTranscation None, s) of
      (r1, x1, s1) \<Rightarrow> case commit_tx lib (x1, s1) of (r2, x2, s2) \<Rightarrow> r1 = Inr True \<and> r2 = Inr True \<and> s2 = s)"
proof
  have "t_isFinished (MySQLTranscation c)" by (simp add: MySQLTranscation_def db_command.defs)
  then show "bracketed False (succeeded lib ops (MySQLTranscation c, s))"
    using succeeded_bracketed [of "(MySQLTranscation c, s)" lib ops] by simp
  show "case begin_tx lib (MySQLTranscation None, s) of
      (r1, x1, s1) \<Rightarrow> case commit_tx lib (x1, s1) of (r2, x2, s2) \<Rightarrow> r1 = Inr True \<and> r2 = Inr True \<and> s2 = s"
    by (simp add: begin_tx_def commit_tx_def control_def command_def MySQLTranscation_def MySQLCommand_def db_command.defs)
qed

end
