(* ===== verification/Mysql_Res.thy ===== *)
theory Mysql_Res
  imports Mysql_Pool Config_Props
begin

text \<open>
  Results of plain queries (\<open>MySQLRes\<close> in \<open>src/src/db/mysql.hpp\<close>, \<open>mysql.cpp\<close>). The rows of a result
  are what the client library has stored, a cell is a text or null.
\<close>

section \<open>Numbers in cells\<close>

text \<open>\<open>strtoull\<close>: a minus sign negates modulo 2^64, and what does not fit becomes the largest value.\<close>

definition strtoull :: "string \<Rightarrow> u64" where
  "strtoull str =
     (let s = dropWhile is_space str;
          digits = (\<lambda>t. read_digits 10 dec_value (takeWhile is_digit t));
          big = (\<lambda>n. if 2 ^ 64 \<le> n then - 1 else of_nat n)
      in case s of
           [] \<Rightarrow> 0
         | c # t \<Rightarrow> if c = CHR ''-'' then (if 2 ^ 64 \<le> digits t then - 1 else - of_nat (digits t))
                   else if c = CHR ''+'' then big (digits t) else big (digits s))"

definition toInt64 :: "string option \<Rightarrow> u64" where
  "toInt64 str = (case str of None \<Rightarrow> 0 | Some t \<Rightarrow> word_of_int (strtoll t))"

definition toUint64 :: "string option \<Rightarrow> u64" where
  "toUint64 str = (case str of None \<Rightarrow> 0 | Some t \<Rightarrow> strtoull t)"

text \<open>\<open>atof\<close> is a parameter.\<close>

definition toDouble :: "(string \<Rightarrow> 'd) \<Rightarrow> 'd \<Rightarrow> string option \<Rightarrow> 'd" where
  "toDouble atof zero str = (case str of None \<Rightarrow> zero | Some t \<Rightarrow> atof t)"

text \<open>\<open>str2Time\<close> of \<open>util.cpp\<close>, over \<open>strptime\<close> and \<open>mktime\<close>.\<close>

definition str2Time :: "(string \<Rightarrow> string \<Rightarrow> 't option) \<Rightarrow> ('t \<Rightarrow> int) \<Rightarrow> string option \<Rightarrow> string option \<Rightarrow> int" where
  "str2Time strptime mktime str fmt =
     (case str of None \<Rightarrow> - 1
      | Some s \<Rightarrow> (case fmt of None \<Rightarrow> - 1
        | Some f \<Rightarrow> (case strptime s f of None \<Rightarrow> - 1 | Some tm \<Rightarrow> mktime tm)))"

section \<open>The result\<close>

record mysql_res =
  rs_rows :: "string option list list option" \<comment> \<open>the rows not fetched yet; no result for a null pointer\<close>
  m_fields :: "(string \<times> nat) list option"
  m_rowCnt :: int
  m_colCnt :: int
  m_curLength :: "nat list option"
  m_row :: "string option list option"
  rs_error :: string
  rs_errno :: int

text \<open>The constructor; without the descriptions of the columns it throws the error text.\<close>

definition MySQLRes ::
  "(string option list list \<times> nat \<times> (string \<times> nat) list option) option \<Rightarrow> string \<Rightarrow> int \<Rightarrow> db_error + mysql_res" where
  "MySQLRes res err eno =
     (case res of
        None \<Rightarrow> Inr \<lparr>rs_rows = None, m_fields = None, m_rowCnt = 0, m_colCnt = 0, m_curLength = None, m_row = None,
                     rs_error = err, rs_errno = eno\<rparr>
      | Some (rows, cols, descs) \<Rightarrow>
          if descs = None then Inl (SqlError err)
          else Inr \<lparr>rs_rows = Some rows, m_fields = descs, m_rowCnt = int (length rows), m_colCnt = int cols,
                    m_curLength = None, m_row = None, rs_error = err, rs_errno = eno\<rparr>)"

definition cell_length :: "string option \<Rightarrow> nat" where
  "cell_length c = (case c of None \<Rightarrow> 0 | Some str \<Rightarrow> length str)"

definition nextRow :: "mysql_res \<Rightarrow> db_error + bool \<times> mysql_res" where
  "nextRow r =
     (case rs_rows r of
        None \<Rightarrow> Inl NullHandle
      | Some [] \<Rightarrow> Inr (False, r\<lparr>m_row := None, m_curLength := None\<rparr>)
      | Some (row # rows) \<Rightarrow>
          Inr (True, r\<lparr>rs_rows := Some rows, m_row := Some row, m_curLength := Some (map cell_length row)\<rparr>))"

text \<open>The callback gets the row, the number of columns, a counter and the lengths.\<close>

type_synonym 'w row_cb = "string option list \<Rightarrow> int \<Rightarrow> u32 \<Rightarrow> nat list \<Rightarrow> 'w \<Rightarrow> bool \<times> 'w"

fun foreach_loop ::
  "'w row_cb \<Rightarrow> int \<Rightarrow> string option list list \<Rightarrow> u32 \<Rightarrow> nat list option \<Rightarrow> 'w \<Rightarrow>
   bool \<times> string option list list \<times> nat list option \<times> 'w" where
  "foreach_loop cb cols [] i cur w = (True, [], cur, w)"
| "foreach_loop cb cols (row # rows) i cur w =
     (let len = map cell_length row
      in case cb row cols i len w of
           (ok, w1) \<Rightarrow> if \<not> ok then (False, rows, Some len, w1) else foreach_loop cb cols rows (i + 1) (Some len) w1)"

definition foreach_row :: "'w row_cb \<Rightarrow> mysql_res \<times> 'w \<Rightarrow> bool \<times> mysql_res \<times> 'w" where
  "foreach_row cb s =
     (case s of (r, w) \<Rightarrow>
        case rs_rows r of
          None \<Rightarrow> (False, r, w)
        | Some rows \<Rightarrow>
            (case foreach_loop cb (m_colCnt r) rows 0 (m_curLength r) w of
               (ok, rest, cur, w1) \<Rightarrow> (ok, r\<lparr>rs_rows := Some rest, m_curLength := cur\<rparr>, w1)))"

definition getColumnBytes :: "int \<Rightarrow> mysql_res \<Rightarrow> db_error + int" where
  "getColumnBytes idx r =
     (case m_curLength r of
        None \<Rightarrow> Inr (- 1)
      | Some len \<Rightarrow> if m_colCnt r \<le> idx then Inr (- 1)
                    else if idx < 0 \<or> length len \<le> nat idx then Inl BadIndex else Inr (int (len ! nat idx)))"

definition getColumnType :: "int \<Rightarrow> mysql_res \<Rightarrow> db_error + int" where
  "getColumnType idx r =
     (case m_fields r of
        None \<Rightarrow> Inr (- 1)
      | Some fs \<Rightarrow> if m_colCnt r \<le> idx then Inr (- 1)
                   else if idx < 0 \<or> length fs \<le> nat idx then Inl BadIndex else Inr (int (snd (fs ! nat idx))))"

definition getColumnName :: "int \<Rightarrow> mysql_res \<Rightarrow> db_error + string" where
  "getColumnName idx r =
     (case m_fields r of
        None \<Rightarrow> Inr ''ERROR''
      | Some fs \<Rightarrow> if m_colCnt r \<le> idx then Inr ''ERROR''
                   else if idx < 0 \<or> length fs \<le> nat idx then Inl BadIndex else Inr (fst (fs ! nat idx)))"

text \<open>The subscript of the current row, which is a null pointer before the first and after the last one.\<close>

definition row_at :: "int \<Rightarrow> mysql_res \<Rightarrow> db_error + string option" where
  "row_at idx r =
     (case m_row r of
        None \<Rightarrow> Inl NullHandle
      | Some row \<Rightarrow> if idx < 0 \<or> length row \<le> nat idx then Inl BadIndex else Inr (row ! nat idx))"

definition isNull :: "int \<Rightarrow> mysql_res \<Rightarrow> db_error + bool" where
  "isNull idx r =
     (if m_curLength r = None \<or> m_colCnt r \<le> idx then Inr True
      else case row_at idx r of Inl e \<Rightarrow> Inl e | Inr c \<Rightarrow> Inr (c = None))"

text \<open>The check that all accessors of values begin with.\<close>

definition get_cell :: "int \<Rightarrow> mysql_res \<Rightarrow> db_error + string option" where
  "get_cell idx r = (if m_colCnt r \<le> idx then Inl OutOfRange else row_at idx r)"

definition get_as :: "(string option \<Rightarrow> 'a) \<Rightarrow> int \<Rightarrow> mysql_res \<Rightarrow> db_error + 'a" where
  "get_as f idx r = (case get_cell idx r of Inl e \<Rightarrow> Inl e | Inr c \<Rightarrow> Inr (f c))"

definition getInt8 :: "int \<Rightarrow> mysql_res \<Rightarrow> db_error + 8 word" where
  "getInt8 = get_as (\<lambda>c. ucast (toInt64 c))"

definition getInt16 :: "int \<Rightarrow> mysql_res \<Rightarrow> db_error + 16 word" where
  "getInt16 = get_as (\<lambda>c. ucast (toInt64 c))"

definition getInt32 :: "int \<Rightarrow> mysql_res \<Rightarrow> db_error + 32 word" where
  "getInt32 = get_as (\<lambda>c. ucast (toInt64 c))"

definition getInt64 :: "int \<Rightarrow> mysql_res \<Rightarrow> db_error + 64 word" where
  "getInt64 = get_as toInt64"

definition getUint8 :: "int \<Rightarrow> mysql_res \<Rightarrow> db_error + 8 word" where
  "getUint8 = get_as (\<lambda>c. ucast (toUint64 c))"

definition getUint16 :: "int \<Rightarrow> mysql_res \<Rightarrow> db_error + 16 word" where
  "getUint16 = get_as (\<lambda>c. ucast (toUint64 c))"

definition getUint32 :: "int \<Rightarrow> mysql_res \<Rightarrow> db_error + 32 word" where
  "getUint32 = get_as (\<lambda>c. ucast (toUint64 c))"

definition getUint64 :: "int \<Rightarrow> mysql_res \<Rightarrow> db_error + 64 word" where
  "getUint64 = get_as toUint64"

definition getFloat :: "('d \<Rightarrow> 'f) \<Rightarrow> (string \<Rightarrow> 'd) \<Rightarrow> 'd \<Rightarrow> int \<Rightarrow> mysql_res \<Rightarrow> db_error + 'f" where
  "getFloat narrow atof zero = get_as (\<lambda>c. narrow (toDouble atof zero c))"

definition getDoube :: "(string \<Rightarrow> 'd) \<Rightarrow> 'd \<Rightarrow> int \<Rightarrow> mysql_res \<Rightarrow> db_error + 'd" where
  "getDoube atof zero = get_as (toDouble atof zero)"

text \<open>A string is made from a pointer to characters: it ends at the first null character, and a null pointer throws.\<close>

definition c_str :: "string \<Rightarrow> string" where
  "c_str = takeWhile (\<lambda>c. c \<noteq> CHR 0x00)"

definition getString :: "int \<Rightarrow> mysql_res \<Rightarrow> db_error + string" where
  "getString idx r =
     (case get_cell idx r of Inl e \<Rightarrow> Inl e | Inr None \<Rightarrow> Inl NullString | Inr (Some str) \<Rightarrow> Inr (c_str str))"

definition getBlob :: "int \<Rightarrow> mysql_res \<Rightarrow> db_error + string" where
  "getBlob idx r =
     (case get_cell idx r of Inl e \<Rightarrow> Inl e | Inr None \<Rightarrow> Inl NullString | Inr (Some str) \<Rightarrow> Inr (c_str str))"

definition getTime :: "(string \<Rightarrow> string \<Rightarrow> 't option) \<Rightarrow> ('t \<Rightarrow> int) \<Rightarrow> int \<Rightarrow> mysql_res \<Rightarrow> db_error + int" where
  "getTime strptime mktime = get_as (\<lambda>c. str2Time strptime mktime c (Some ''%Y-%m-%d %H:%M:%S''))"

section \<open>Properties\<close>

lemma strtoull_dec: "n < 2 ^ 64 \<Longrightarrow> strtoull (dec n) = of_nat n"
proof -
  assume n: "n < 2 ^ 64"
  obtain c t where d: "dec n = c # t" "is_digit c" using dec_first by blast
  have "dropWhile is_space (dec n) = dec n" using d digit_no_space by simp
  then have "strtoull (dec n) = (let m = read_digits 10 dec_value (takeWhile is_digit (dec n)) in if 2 ^ 64 \<le> m then - 1 else of_nat m)"
    using d digit_no_space [OF d(2)] by (simp add: strtoull_def Let_def)
  then show ?thesis using n by (simp add: takeWhile_dec read_dec)
qed

lemma to_signed:
  fixes w :: "'w::len word"
  assumes "LENGTH('w) \<le> 64"
  shows "ucast (toInt64 (Some (show_signed w))) = w"
proof -
  have "strtoll (show_signed w) = sint w"
    using sint_bounds [OF assms, of w] by (simp add: show_signed_def strtoll_dec_int clamp_id)
  moreover have "ucast (scast w :: u64) = w"
  proof (rule bit_word_eqI)
    fix n
    assume n: "n < LENGTH('w)"
    then have "min (LENGTH('w) - Suc 0) n = n" by simp
    then show "bit (ucast (scast w :: u64) :: 'w word) n = bit w n" using n assms by (simp add: bit_simps)
  qed
  ultimately show ?thesis by (simp add: toInt64_def)
qed

lemma to_unsigned:
  fixes w :: "'w::len word"
  assumes "LENGTH('w) \<le> 64"
  shows "ucast (toUint64 (Some (show_unsigned w))) = w"
proof -
  have "unat w < 2 ^ LENGTH('w)" by (rule unsigned_less)
  also have "(2::nat) ^ LENGTH('w) \<le> 2 ^ 64" using assms by (intro power_increasing) simp_all
  finally have "strtoull (show_unsigned w) = of_nat (unat w)"
    by (simp add: show_unsigned_def strtoull_dec)
  moreover have "ucast (ucast w :: u64) = w"
    using assms by (intro bit_word_eqI) (auto simp: bit_simps)
  ultimately show ?thesis by (simp add: toUint64_def)
qed

lemma to_signed_64: "toInt64 (Some (show_signed (w :: 64 word))) = w"
  and to_unsigned_64: "toUint64 (Some (show_unsigned (w :: 64 word))) = w"
  using to_signed [of w] to_unsigned [of w] by simp_all

text \<open>
  C36. The columns of a row have the values that were stored. After the library has delivered a row, every
  column of it tells its length and whether it is null. When its cell is the decimal text of an
  integer of a type, the accessor of that type gives the integer, for signed and unsigned types
  of all four widths over their whole range. A text comes back up to its first null character, so it is
  whole exactly when it has none, and a blob is cut in the same way although its length is known. Of a null
  column the integers are 0 and the strings fail; a column behind the last one is refused.
\<close>

theorem mysql_columns_read_back:
  assumes "rs_rows r = Some (row # rest)" "m_colCnt r = int (length row)"
  shows "\<exists>r'. nextRow r = Inr (True, r') \<and> rs_rows r' = Some rest \<and>
    (\<forall>i < length row. getColumnBytes (int i) r' = Inr (int (cell_length (row ! i))) \<and>
       isNull (int i) r' = Inr (row ! i = None) \<and>
       (case row ! i of
          None \<Rightarrow> getInt64 (int i) r' = Inr 0 \<and> getUint64 (int i) r' = Inr 0 \<and>
            getString (int i) r' = Inl NullString \<and> getBlob (int i) r' = Inl NullString
        | Some str \<Rightarrow>
            (str = show_signed a8 \<longrightarrow> getInt8 (int i) r' = Inr a8) \<and> (str = show_signed a16 \<longrightarrow> getInt16 (int i) r' = Inr a16) \<and>
            (str = show_signed a32 \<longrightarrow> getInt32 (int i) r' = Inr a32) \<and> (str = show_signed a64 \<longrightarrow> getInt64 (int i) r' = Inr a64) \<and>
            (str = show_unsigned u8 \<longrightarrow> getUint8 (int i) r' = Inr u8) \<and> (str = show_unsigned u16 \<longrightarrow> getUint16 (int i) r' = Inr u16) \<and>
            (str = show_unsigned u32 \<longrightarrow> getUint32 (int i) r' = Inr u32) \<and> (str = show_unsigned u64 \<longrightarrow> getUint64 (int i) r' = Inr u64) \<and>
            getString (int i) r' = Inr (c_str str) \<and> getBlob (int i) r' = Inr (c_str str) \<and>
            (c_str str = str \<longleftrightarrow> CHR 0x00 \<notin> set str))) \<and>
    (\<forall>i. int (length row) \<le> i \<longrightarrow> getInt64 i r' = Inl OutOfRange \<and> getString i r' = Inl OutOfRange \<and> isNull i r' = Inr True)"
proof -
  let ?r = "r\<lparr>rs_rows := Some rest, m_row := Some row, m_curLength := Some (map cell_length row)\<rparr>"
  have cell: "get_cell (int i) ?r = Inr (row ! i)" if "i < length row" for i
    using that assms(2) by (simp add: get_cell_def row_at_def)
  have whole: "c_str str = str \<longleftrightarrow> CHR 0x00 \<notin> set str" for str by (auto simp: c_str_def takeWhile_eq_all_conv)
  have "nextRow r = Inr (True, ?r)" using assms(1) by (simp add: nextRow_def)
  moreover have "getColumnBytes (int i) ?r = Inr (int (cell_length (row ! i)))" "isNull (int i) ?r = Inr (row ! i = None)"
    if "i < length row" for i
    using that assms(2) by (simp_all add: getColumnBytes_def isNull_def row_at_def)
  moreover have "case row ! i of
          None \<Rightarrow> getInt64 (int i) ?r = Inr 0 \<and> getUint64 (int i) ?r = Inr 0 \<and>
            getString (int i) ?r = Inl NullString \<and> getBlob (int i) ?r = Inl NullString
        | Some str \<Rightarrow>
            (str = show_signed a8 \<longrightarrow> getInt8 (int i) ?r = Inr a8) \<and> (str = show_signed a16 \<longrightarrow> getInt16 (int i) ?r = Inr a16) \<and>
            (str = show_signed a32 \<longrightarrow> getInt32 (int i) ?r = Inr a32) \<and> (str = show_signed a64 \<longrightarrow> getInt64 (int i) ?r = Inr a64) \<and>
            (str = show_unsigned u8 \<longrightarrow> getUint8 (int i) ?r = Inr u8) \<and> (str = show_unsigned u16 \<longrightarrow> getUint16 (int i) ?r = Inr u16) \<and>
            (str = show_unsigned u32 \<longrightarrow> getUint32 (int i) ?r = Inr u32) \<and> (str = show_unsigned u64 \<longrightarrow> getUint64 (int i) ?r = Inr u64) \<and>
            getString (int i) ?r = Inr (c_str str) \<and> getBlob (int i) ?r = Inr (c_str str) \<and>
            (c_str str = str \<longleftrightarrow> CHR 0x00 \<notin> set str)" if "i < length row" for i
    using cell [OF that] to_signed [of a8] to_signed [of a16] to_signed [of a32] to_signed_64 [of a64]
      to_unsigned [of u8] to_unsigned [of u16] to_unsigned [of u32] to_unsigned_64 [of u64]
    by (auto simp: get_as_def getInt8_def getInt16_def getInt32_def getInt64_def getUint8_def getUint16_def getUint32_def
        getUint64_def getBlob_def getString_def whole toInt64_def toUint64_def split: option.split)
  moreover have "getInt64 i ?r = Inl OutOfRange \<and> getString i ?r = Inl OutOfRange \<and> isNull i ?r = Inr True"
    if "int (length row) \<le> i" for i
    using that assms(2) by (simp add: getInt64_def get_as_def getString_def get_cell_def isNull_def)
  ultimately show ?thesis by (intro exI [of _ ?r]) simp
qed

definition a_result :: mysql_res where
  "a_result = \<lparr>rs_rows = Some [[Some (show_signed (- 129 :: 16 word)), None]], m_fields = Some [(''id'', 2), (''x'', 253)], m_rowCnt = 1,
     m_colCnt = 2, m_curLength = None, m_row = None, rs_error = [], rs_errno = 0\<rparr>"

theorem mysql_columns_read_back_witness:
  "\<exists>r'. nextRow a_result = Inr (True, r') \<and> getInt16 0 r' = Inr (- 129) \<and> isNull 1 r' = Inr True \<and> getString 1 r' = Inl NullString"
proof -
  let ?row = "[Some (show_signed (- 129 :: 16 word)), None]"
  have "rs_rows a_result = Some (?row # [])" "m_colCnt a_result = int (length ?row)" by (simp_all add: a_result_def)
  from mysql_columns_read_back [OF this, of 0 "- 129" 0 0 0 0 0 0] show ?thesis
    by (elim exE) (simp add: All_less_Suc numeral_2_eq_2)
qed

end
