(* ===== verification/Mysql_Stmt.thy ===== *)
theory Mysql_Stmt
  imports Mysql_Res Endian
begin

text \<open>
  Prepared statements of the MySQL binding (\<open>MySQLStmt\<close>, \<open>MySQLStmtRes\<close>, \<open>MySQLStmtCommand\<close> and the
  variadic templates in \<open>src/src/db/mysql.hpp\<close>, \<open>mysql.cpp\<close>). A buffer is the list of the bytes that were
  allocated for it; \<open>mem\<close> tells which allocations succeed. What the client library does with a
  statement is a record of functions on its state, as for plain queries.
\<close>

section \<open>Parameters\<close>

text \<open>The values of \<open>enum_field_types\<close> in \<open>mysql.h\<close>.\<close>

abbreviation (input) MYSQL_TYPE_TINY :: nat where "MYSQL_TYPE_TINY \<equiv> 1"
abbreviation (input) MYSQL_TYPE_SHORT :: nat where "MYSQL_TYPE_SHORT \<equiv> 2"
abbreviation (input) MYSQL_TYPE_LONG :: nat where "MYSQL_TYPE_LONG \<equiv> 3"
abbreviation (input) MYSQL_TYPE_FLOAT :: nat where "MYSQL_TYPE_FLOAT \<equiv> 4"
abbreviation (input) MYSQL_TYPE_DOUBLE :: nat where "MYSQL_TYPE_DOUBLE \<equiv> 5"
abbreviation (input) MYSQL_TYPE_NULL :: nat where "MYSQL_TYPE_NULL \<equiv> 6"
abbreviation (input) MYSQL_TYPE_TIMESTAMP :: nat where "MYSQL_TYPE_TIMESTAMP \<equiv> 7"
abbreviation (input) MYSQL_TYPE_LONGLONG :: nat where "MYSQL_TYPE_LONGLONG \<equiv> 8"
abbreviation (input) MYSQL_TYPE_DATE :: nat where "MYSQL_TYPE_DATE \<equiv> 10"
abbreviation (input) MYSQL_TYPE_TIME :: nat where "MYSQL_TYPE_TIME \<equiv> 11"
abbreviation (input) MYSQL_TYPE_DATETIME :: nat where "MYSQL_TYPE_DATETIME \<equiv> 12"
abbreviation (input) MYSQL_TYPE_BLOB :: nat where "MYSQL_TYPE_BLOB \<equiv> 252"
abbreviation (input) MYSQL_TYPE_STRING :: nat where "MYSQL_TYPE_STRING \<equiv> 254"

record mysql_bind =
  buffer_type :: nat
  b_buffer :: "u8 list option"
  b_length :: nat
  is_unsigned :: bool

definition zero_bind :: mysql_bind where
  "zero_bind = \<lparr>buffer_type = 0, b_buffer = None, b_length = 0, is_unsigned = False\<rparr>"

record stmt =
  st_handle :: nat
  st_binds :: "mysql_bind list"

definition char_bytes :: "string \<Rightarrow> u8 list" where
  "char_bytes str = map (\<lambda>c. of_nat (of_char c)) str"

definition ALLOC_AND_COPY ::
  "(nat \<Rightarrow> bool) \<Rightarrow> u8 list \<Rightarrow> mysql_bind \<Rightarrow> (db_error + unit) \<times> mysql_bind" where
  "ALLOC_AND_COPY mem src b =
     (case b_buffer b of
        None \<Rightarrow> if mem (length src) then (Inr (), b\<lparr>b_buffer := Some src\<rparr>) else (Inl OutOfMemory, b)
      | Some old \<Rightarrow>
          if b_length b < length src
          then (if mem (length src) then (Inr (), b\<lparr>b_buffer := Some src\<rparr>)
                else (Inl OutOfMemory, b\<lparr>b_buffer := None\<rparr>))
          else if length old < length src then (Inl Overrun, b)
          else (Inr (), b\<lparr>b_buffer := Some (overlay 0 src old)\<rparr>))"

definition BIND_VALUE ::
  "(nat \<Rightarrow> bool) \<Rightarrow> nat \<Rightarrow> u8 list \<Rightarrow> bool \<Rightarrow> mysql_bind \<Rightarrow> (db_error + unit) \<times> mysql_bind" where
  "BIND_VALUE mem typ src unsign b =
     (case ALLOC_AND_COPY mem src (b\<lparr>buffer_type := typ\<rparr>) of
        (Inl e, b1) \<Rightarrow> (Inl e, b1)
      | (Inr _, b1) \<Rightarrow> (Inr (), b1\<lparr>is_unsigned := unsign, b_length := length src\<rparr>))"

text \<open>The binding at an index; nothing checks the index against the vector. The result is always 0.\<close>

definition on_bind ::
  "int \<Rightarrow> (mysql_bind \<Rightarrow> (db_error + unit) \<times> mysql_bind) \<Rightarrow> stmt \<Rightarrow> (db_error + int) \<times> stmt" where
  "on_bind idx f s =
     (if idx < 0 \<or> length (st_binds s) \<le> nat idx then (Inl BadIndex, s)
      else case f (st_binds s ! nat idx) of
             (r, b) \<Rightarrow> ((case r of Inl e \<Rightarrow> Inl e | Inr _ \<Rightarrow> Inr 0), s\<lparr>st_binds := (st_binds s)[nat idx := b]\<rparr>))"

definition bindInt8 :: "(nat \<Rightarrow> bool) \<Rightarrow> int \<Rightarrow> u8 \<Rightarrow> stmt \<Rightarrow> (db_error + int) \<times> stmt" where
  "bindInt8 mem idx v = on_bind idx (BIND_VALUE mem MYSQL_TYPE_TINY (le_bytes 1 v) False)"

definition bindInt16 :: "(nat \<Rightarrow> bool) \<Rightarrow> int \<Rightarrow> u16 \<Rightarrow> stmt \<Rightarrow> (db_error + int) \<times> stmt" where
  "bindInt16 mem idx v = on_bind idx (BIND_VALUE mem MYSQL_TYPE_SHORT (le_bytes 2 v) False)"

definition bindInt32 :: "(nat \<Rightarrow> bool) \<Rightarrow> int \<Rightarrow> u32 \<Rightarrow> stmt \<Rightarrow> (db_error + int) \<times> stmt" where
  "bindInt32 mem idx v = on_bind idx (BIND_VALUE mem MYSQL_TYPE_LONG (le_bytes 4 v) False)"

definition bindInt64 :: "(nat \<Rightarrow> bool) \<Rightarrow> int \<Rightarrow> u64 \<Rightarrow> stmt \<Rightarrow> (db_error + int) \<times> stmt" where
  "bindInt64 mem idx v = on_bind idx (BIND_VALUE mem MYSQL_TYPE_LONGLONG (le_bytes 8 v) False)"

definition bindUint8 :: "(nat \<Rightarrow> bool) \<Rightarrow> int \<Rightarrow> u8 \<Rightarrow> stmt \<Rightarrow> (db_error + int) \<times> stmt" where
  "bindUint8 mem idx v = on_bind idx (BIND_VALUE mem MYSQL_TYPE_TINY (le_bytes 1 v) True)"

definition bindUint16 :: "(nat \<Rightarrow> bool) \<Rightarrow> int \<Rightarrow> u16 \<Rightarrow> stmt \<Rightarrow> (db_error + int) \<times> stmt" where
  "bindUint16 mem idx v = on_bind idx (BIND_VALUE mem MYSQL_TYPE_SHORT (le_bytes 2 v) True)"

definition bindUint32 :: "(nat \<Rightarrow> bool) \<Rightarrow> int \<Rightarrow> u32 \<Rightarrow> stmt \<Rightarrow> (db_error + int) \<times> stmt" where
  "bindUint32 mem idx v = on_bind idx (BIND_VALUE mem MYSQL_TYPE_LONG (le_bytes 4 v) True)"

definition bindUint64 :: "(nat \<Rightarrow> bool) \<Rightarrow> int \<Rightarrow> u64 \<Rightarrow> stmt \<Rightarrow> (db_error + int) \<times> stmt" where
  "bindUint64 mem idx v = on_bind idx (BIND_VALUE mem MYSQL_TYPE_LONGLONG (le_bytes 8 v) True)"

text \<open>The arguments are the object representations of the floating point numbers.\<close>

definition bindFloat :: "(nat \<Rightarrow> bool) \<Rightarrow> int \<Rightarrow> u32 \<Rightarrow> stmt \<Rightarrow> (db_error + int) \<times> stmt" where
  "bindFloat mem idx v = on_bind idx (BIND_VALUE mem MYSQL_TYPE_FLOAT (le_bytes 4 v) False)"

definition bindDouble :: "(nat \<Rightarrow> bool) \<Rightarrow> int \<Rightarrow> u64 \<Rightarrow> stmt \<Rightarrow> (db_error + int) \<times> stmt" where
  "bindDouble mem idx v = on_bind idx (BIND_VALUE mem MYSQL_TYPE_DOUBLE (le_bytes 8 v) False)"

definition bindString :: "(nat \<Rightarrow> bool) \<Rightarrow> int \<Rightarrow> string \<Rightarrow> stmt \<Rightarrow> (db_error + int) \<times> stmt" where
  "bindString mem idx v = on_bind idx (BIND_VALUE mem MYSQL_TYPE_STRING (char_bytes v) False)"

text \<open>For a pointer to characters: what lies there up to the first null character.\<close>

definition bindString_ptr :: "(nat \<Rightarrow> bool) \<Rightarrow> int \<Rightarrow> string \<Rightarrow> stmt \<Rightarrow> (db_error + int) \<times> stmt" where
  "bindString_ptr mem idx v = on_bind idx (BIND_VALUE mem MYSQL_TYPE_STRING (char_bytes (c_str v)) False)"

text \<open>Copying more bytes than the source has reads behind it.\<close>

definition bindBlob_ptr :: "(nat \<Rightarrow> bool) \<Rightarrow> int \<Rightarrow> string \<Rightarrow> u64 \<Rightarrow> stmt \<Rightarrow> (db_error + int) \<times> stmt" where
  "bindBlob_ptr mem idx v n s =
     (if length v < unat n then (Inl Overrun, s)
      else on_bind idx (BIND_VALUE mem MYSQL_TYPE_BLOB (char_bytes (take (unat n) v)) False) s)"

definition bindBlob :: "(nat \<Rightarrow> bool) \<Rightarrow> int \<Rightarrow> string \<Rightarrow> stmt \<Rightarrow> (db_error + int) \<times> stmt" where
  "bindBlob mem idx v = on_bind idx (BIND_VALUE mem MYSQL_TYPE_BLOB (char_bytes v) False)"

definition bindTime ::
  "(int \<Rightarrow> string \<Rightarrow> string) \<Rightarrow> (nat \<Rightarrow> bool) \<Rightarrow> int \<Rightarrow> int \<Rightarrow> stmt \<Rightarrow> (db_error + int) \<times> stmt" where
  "bindTime time2Str mem idx v = bindString mem idx (time2Str v ''%Y-%m-%d %H:%M:%S'')"

definition bindNull :: "int \<Rightarrow> stmt \<Rightarrow> (db_error + int) \<times> stmt" where
  "bindNull idx = on_bind idx (\<lambda>b. (Inr (), b\<lparr>buffer_type := MYSQL_TYPE_NULL\<rparr>))"

text \<open>The overloads of \<open>bind\<close> that the templates choose from by the type of the argument.\<close>

datatype bind_arg =
    Arg_int8 u8 | Arg_int16 u16 | Arg_int32 u32 | Arg_int64 u64
  | Arg_uint8 u8 | Arg_uint16 u16 | Arg_uint32 u32 | Arg_uint64 u64
  | Arg_string string | Arg_chars string

fun bind :: "(nat \<Rightarrow> bool) \<Rightarrow> int \<Rightarrow> bind_arg \<Rightarrow> stmt \<Rightarrow> (db_error + int) \<times> stmt" where
  "bind mem idx (Arg_int8 v) = bindInt8 mem idx v"
| "bind mem idx (Arg_int16 v) = bindInt16 mem idx v"
| "bind mem idx (Arg_int32 v) = bindInt32 mem idx v"
| "bind mem idx (Arg_int64 v) = bindInt64 mem idx v"
| "bind mem idx (Arg_uint8 v) = bindUint8 mem idx v"
| "bind mem idx (Arg_uint16 v) = bindUint16 mem idx v"
| "bind mem idx (Arg_uint32 v) = bindUint32 mem idx v"
| "bind mem idx (Arg_uint64 v) = bindUint64 mem idx v"
| "bind mem idx (Arg_string v) = bindString mem idx v"
| "bind mem idx (Arg_chars v) = bindString_ptr mem idx v"

text \<open>\<open>bind(idx, v, len)\<close>: the length is an \<open>int\<close> that becomes a \<open>uint64_t\<close>.\<close>

definition bind_blob :: "(nat \<Rightarrow> bool) \<Rightarrow> int \<Rightarrow> string \<Rightarrow> int \<Rightarrow> stmt \<Rightarrow> (db_error + int) \<times> stmt" where
  "bind_blob mem idx v len = bindBlob_ptr mem idx v (word_of_int len)"

text \<open>\<open>(stmt->bind(idx++, args), ...)\<close>.\<close>

fun bind_args :: "(nat \<Rightarrow> bool) \<Rightarrow> int \<Rightarrow> bind_arg list \<Rightarrow> stmt \<Rightarrow> (db_error + unit) \<times> stmt" where
  "bind_args mem idx [] s = (Inr (), s)"
| "bind_args mem idx (a # args) s =
     (case bind mem idx a s of (Inl e, s1) \<Rightarrow> (Inl e, s1) | (Inr _, s1) \<Rightarrow> bind_args mem (idx + 1) args s1)"

section \<open>The client library\<close>

record field =
  f_name :: string
  f_type :: nat
  f_length :: nat

text \<open>
  What a binding of a result tells the library: the type and the size of the buffer. Its pointers
  lead to the data of the column with the same index.
\<close>

record result_bind =
  rb_type :: nat
  rb_length :: u64

text \<open>What fetching a row writes for a column through these pointers.\<close>

record cell_write =
  cw_bytes :: "u8 list"
  cw_length :: u64
  cw_null :: bool
  cw_error :: bool

record 'w stmt_lib =
  sl_init :: "nat option \<Rightarrow> 'w \<Rightarrow> nat option \<times> 'w"
  sl_prepare :: "nat \<Rightarrow> string \<Rightarrow> 'w \<Rightarrow> int \<times> 'w"
  sl_close :: "nat \<Rightarrow> 'w \<Rightarrow> 'w"
  sl_param_count :: "nat \<Rightarrow> 'w \<Rightarrow> nat"
  sl_errno :: "nat \<Rightarrow> 'w \<Rightarrow> int"
  sl_error :: "nat \<Rightarrow> 'w \<Rightarrow> string"
  sl_insert_id :: "nat \<Rightarrow> 'w \<Rightarrow> u64"
  sl_bind_param :: "nat \<Rightarrow> mysql_bind list \<Rightarrow> 'w \<Rightarrow> 'w"
  sl_execute :: "nat \<Rightarrow> 'w \<Rightarrow> int \<times> 'w"
  sl_affected :: "nat \<Rightarrow> 'w \<Rightarrow> u64"
  sl_metadata :: "nat \<Rightarrow> 'w \<Rightarrow> field list option \<times> 'w"
  sl_bind_result :: "nat \<Rightarrow> result_bind list \<Rightarrow> 'w \<Rightarrow> int \<times> 'w"
  sl_store :: "nat \<Rightarrow> 'w \<Rightarrow> int \<times> 'w"
  sl_num_rows :: "nat \<Rightarrow> 'w \<Rightarrow> u64"
  sl_fetch :: "nat \<Rightarrow> 'w \<Rightarrow> (int \<times> cell_write list) \<times> 'w"
  sl_free_result :: "nat \<Rightarrow> 'w \<Rightarrow> 'w"

text \<open>\<open>MySQLStmt::Create\<close>.\<close>

definition stmt_Create :: "'w stmt_lib \<Rightarrow> nat option \<Rightarrow> string \<Rightarrow> 'w \<Rightarrow> stmt option \<times> 'w" where
  "stmt_Create lib conn sql w =
     (case sl_init lib conn w of
        (None, w1) \<Rightarrow> (None, w1)
      | (Some h, w1) \<Rightarrow>
          (case sl_prepare lib h sql w1 of
             (rt, w2) \<Rightarrow>
               if rt \<noteq> 0 then (None, sl_close lib h w2)
               else (Some \<lparr>st_handle = h, st_binds = replicate (sl_param_count lib h w2) zero_bind\<rparr>, w2)))"

definition getLastInsertId :: "'w stmt_lib \<Rightarrow> stmt \<Rightarrow> 'w \<Rightarrow> u64" where
  "getLastInsertId lib s w = sl_insert_id lib (st_handle s) w"

definition stmt_execute :: "'w stmt_lib \<Rightarrow> stmt \<Rightarrow> 'w \<Rightarrow> int \<times> 'w" where
  "stmt_execute lib s w = sl_execute lib (st_handle s) (sl_bind_param lib (st_handle s) (st_binds s) w)"

section \<open>Results\<close>

record stmt_data =
  d_is_null :: bool
  d_error :: bool
  d_type :: nat
  d_length :: u64
  d_buffer_length :: int
  d_buffer :: "u8 list option"

text \<open>\<open>Data::alloc\<close>; \<open>length = buffer_length = size\<close> goes through an \<open>int32_t\<close>.\<close>

definition data_alloc :: "(nat \<Rightarrow> bool) \<Rightarrow> nat \<Rightarrow> stmt_data \<Rightarrow> db_error + stmt_data" where
  "data_alloc mem n d =
     (if mem n then Inr (d\<lparr>d_buffer := Some (replicate n 0), d_buffer_length := int_of_size n,
                           d_length := word_of_int (int_of_size n)\<rparr>)
      else Inl OutOfMemory)"

text \<open>The size of the buffer of a column; \<open>MYSQL_TIME\<close> has 40 bytes.\<close>

definition column_size :: "field \<Rightarrow> nat" where
  "column_size f =
     (if f_type f = MYSQL_TYPE_TINY then 1
      else if f_type f = MYSQL_TYPE_SHORT then 2
      else if f_type f = MYSQL_TYPE_LONG then 4
      else if f_type f = MYSQL_TYPE_LONGLONG then 8
      else if f_type f = MYSQL_TYPE_FLOAT then 4
      else if f_type f = MYSQL_TYPE_DOUBLE then 8
      else if f_type f = MYSQL_TYPE_TIMESTAMP \<or> f_type f = MYSQL_TYPE_DATETIME \<or> f_type f = MYSQL_TYPE_DATE \<or>
              f_type f = MYSQL_TYPE_TIME then 40
      else f_length f)"

fun alloc_columns :: "(nat \<Rightarrow> bool) \<Rightarrow> field list \<Rightarrow> db_error + stmt_data list" where
  "alloc_columns mem [] = Inr []"
| "alloc_columns mem (f # fs) =
     (case data_alloc mem (column_size f)
             \<lparr>d_is_null = False, d_error = False, d_type = f_type f, d_length = 0, d_buffer_length = 0, d_buffer = None\<rparr> of
        Inl e \<Rightarrow> Inl e
      | Inr d \<Rightarrow> (case alloc_columns mem fs of Inl e \<Rightarrow> Inl e | Inr ds \<Rightarrow> Inr (d # ds)))"

definition bind_of_data :: "stmt_data \<Rightarrow> result_bind" where
  "bind_of_data d = \<lparr>rb_type = d_type d, rb_length = word_of_int (d_buffer_length d)\<rparr>"

text \<open>Without columns neither the fields nor the number of rows are set.\<close>

record stmt_res =
  sr_handle :: nat
  sr_binds :: "result_bind list"
  sr_datas :: "stmt_data list"
  sr_fields :: "field list option"
  sr_rowCnt :: "int option"
  sr_error :: string
  sr_errno :: int

definition MySQLStmtRes :: "nat \<Rightarrow> string \<Rightarrow> int \<Rightarrow> stmt_res" where
  "MySQLStmtRes h err eno =
     \<lparr>sr_handle = h, sr_binds = [], sr_datas = [], sr_fields = None, sr_rowCnt = None, sr_error = err, sr_errno = eno\<rparr>"

text \<open>The result with the library's error; the unfinished one is destroyed, which frees what the statement stores.\<close>

definition res_failed :: "'w stmt_lib \<Rightarrow> nat \<Rightarrow> 'w \<Rightarrow> (db_error + stmt_res) \<times> 'w" where
  "res_failed lib h w = (Inr (MySQLStmtRes h (sl_error lib h w) (sl_errno lib h w)), sl_free_result lib h w)"

definition res_Create :: "(nat \<Rightarrow> bool) \<Rightarrow> 'w stmt_lib \<Rightarrow> stmt \<Rightarrow> 'w \<Rightarrow> (db_error + stmt_res) \<times> 'w" where
  "res_Create mem lib s w =
     (let h = st_handle s; eno = sl_errno lib h w; err = sl_error lib h w
      in if eno \<noteq> 0 then (Inr (MySQLStmtRes h err eno), w)
         else case sl_metadata lib h w of
                (None, w1) \<Rightarrow> res_failed lib h w1
              | (Some fs, w1) \<Rightarrow>
                  (case alloc_columns mem fs of
                     Inl e \<Rightarrow> (Inl e, sl_free_result lib h w1)
                   | Inr ds \<Rightarrow>
                       (case sl_bind_result lib h (map bind_of_data ds) w1 of
                          (rt1, w2) \<Rightarrow> if rt1 \<noteq> 0 then res_failed lib h w2
                            else case stmt_execute lib s w2 of
                              (rt2, w3) \<Rightarrow> if rt2 \<noteq> 0 then res_failed lib h w3
                                else case sl_store lib h w3 of
                                  (rt3, w4) \<Rightarrow> if rt3 \<noteq> 0 then res_failed lib h w4
                                    else (Inr ((MySQLStmtRes h err eno)\<lparr>sr_binds := map bind_of_data ds, sr_datas := ds,
                                            sr_fields := Some fs,
                                            sr_rowCnt := Some (sint (ucast (sl_num_rows lib h w4) :: u32))\<rparr>), w4))))"

definition stmt_command :: "(nat \<Rightarrow> bool) \<Rightarrow> 'w stmt_lib \<Rightarrow> stmt \<Rightarrow> 'w \<Rightarrow> (db_error + stmt_res) \<times> 'w" where
  "stmt_command mem lib s w = res_Create mem lib s (sl_bind_param lib (st_handle s) (st_binds s) w)"

text \<open>The destructor.\<close>

definition res_end :: "'w stmt_lib \<Rightarrow> stmt_res \<Rightarrow> 'w \<Rightarrow> 'w" where
  "res_end lib r w = (if sr_errno r = 0 then sl_free_result lib (sr_handle r) w else w)"

definition res_getRowCount :: "stmt_res \<Rightarrow> int option" where
  "res_getRowCount r = sr_rowCnt r"

definition res_getColumnCount :: "stmt_res \<Rightarrow> int" where
  "res_getColumnCount r = int (length (sr_binds r))"

definition res_data :: "int \<Rightarrow> stmt_res \<Rightarrow> db_error + stmt_data" where
  "res_data idx r = (if idx < 0 \<or> length (sr_datas r) \<le> nat idx then Inl BadIndex else Inr (sr_datas r ! nat idx))"

text \<open>The accessors that check the index; a negative one passes.\<close>

definition res_checked :: "(stmt_data \<Rightarrow> 'a) \<Rightarrow> int \<Rightarrow> stmt_res \<Rightarrow> db_error + 'a" where
  "res_checked f idx r =
     (if res_getColumnCount r \<le> idx then Inl OutOfRange
      else case res_data idx r of Inl e \<Rightarrow> Inl e | Inr d \<Rightarrow> Inr (f d))"

definition res_getColumnBytes :: "int \<Rightarrow> stmt_res \<Rightarrow> db_error + int" where
  "res_getColumnBytes = res_checked (\<lambda>d. sint (ucast (d_length d) :: u32))"

definition res_getColumnType :: "int \<Rightarrow> stmt_res \<Rightarrow> db_error + int" where
  "res_getColumnType = res_checked (\<lambda>d. int (d_type d))"

definition res_getColumnName :: "int \<Rightarrow> stmt_res \<Rightarrow> db_error + string" where
  "res_getColumnName idx r =
     (if res_getColumnCount r \<le> idx then Inl OutOfRange
      else case sr_fields r of
             None \<Rightarrow> Inl BadIndex
           | Some fs \<Rightarrow> if idx < 0 \<or> length fs \<le> nat idx then Inl BadIndex else Inr (f_name (fs ! nat idx)))"

definition res_isNull :: "int \<Rightarrow> stmt_res \<Rightarrow> db_error + bool" where
  "res_isNull = res_checked d_is_null"

text \<open>The first \<open>n\<close> bytes of a column's buffer; these accessors check nothing.\<close>

definition res_read :: "nat \<Rightarrow> int \<Rightarrow> stmt_res \<Rightarrow> db_error + u8 list" where
  "res_read n idx r =
     (case res_data idx r of
        Inl e \<Rightarrow> Inl e
      | Inr d \<Rightarrow> (case d_buffer d of
                    None \<Rightarrow> Inl NullHandle
                  | Some buf \<Rightarrow> if length buf < n then Inl Overrun else Inr (take n buf)))"

definition res_word :: "nat \<Rightarrow> int \<Rightarrow> stmt_res \<Rightarrow> db_error + 'w::len word" where
  "res_word n idx r = (case res_read n idx r of Inl e \<Rightarrow> Inl e | Inr bs \<Rightarrow> Inr (le_word bs))"

definition res_getInt8 :: "int \<Rightarrow> stmt_res \<Rightarrow> db_error + u8" where
  "res_getInt8 = res_word 1"

definition res_getInt16 :: "int \<Rightarrow> stmt_res \<Rightarrow> db_error + u16" where
  "res_getInt16 = res_word 2"

definition res_getInt32 :: "int \<Rightarrow> stmt_res \<Rightarrow> db_error + u32" where
  "res_getInt32 = res_word 4"

definition res_getInt64 :: "int \<Rightarrow> stmt_res \<Rightarrow> db_error + u64" where
  "res_getInt64 = res_word 8"

definition res_getUint8 :: "int \<Rightarrow> stmt_res \<Rightarrow> db_error + u8" where
  "res_getUint8 = res_word 1"

definition res_getUint16 :: "int \<Rightarrow> stmt_res \<Rightarrow> db_error + u16" where
  "res_getUint16 = res_word 2"

definition res_getUint32 :: "int \<Rightarrow> stmt_res \<Rightarrow> db_error + u32" where
  "res_getUint32 = res_word 4"

definition res_getUint64 :: "int \<Rightarrow> stmt_res \<Rightarrow> db_error + u64" where
  "res_getUint64 = res_word 8"

definition res_getFloat :: "int \<Rightarrow> stmt_res \<Rightarrow> db_error + u32" where
  "res_getFloat = res_word 4"

definition res_getDoube :: "int \<Rightarrow> stmt_res \<Rightarrow> db_error + u64" where
  "res_getDoube = res_word 8"

text \<open>A string takes its length from the library, not from the buffer.\<close>

definition res_chars :: "int \<Rightarrow> stmt_res \<Rightarrow> db_error + string" where
  "res_chars idx r =
     (case res_data idx r of
        Inl e \<Rightarrow> Inl e
      | Inr d \<Rightarrow> (case res_read (unat (d_length d)) idx r of
                    Inl e \<Rightarrow> Inl e
                  | Inr bs \<Rightarrow> Inr (map (\<lambda>b. char_of (unat b)) bs)))"

definition res_getString :: "int \<Rightarrow> stmt_res \<Rightarrow> db_error + string" where
  "res_getString = res_chars"

definition res_getBlob :: "int \<Rightarrow> stmt_res \<Rightarrow> db_error + string" where
  "res_getBlob = res_chars"

text \<open>
  \<open>MYSQL_TIME\<close> begins with six unsigned numbers. \<open>fromMySQLTime\<close> fills a \<open>tm\<close> that \<open>localtime_r\<close> has
  made from an uninitialised \<open>time_t\<close>, here \<open>t0\<close>; the fields that it does not set stay.
\<close>

record mysql_time =
  mt_year :: u32
  mt_month :: u32
  mt_day :: u32
  mt_hour :: u32
  mt_minute :: u32
  mt_second :: u32

record 'z c_tm =
  tm_year :: int
  tm_mon :: int
  tm_mday :: int
  tm_hour :: int
  tm_min :: int
  tm_sec :: int
  tm_rest :: 'z

definition fromMySQLTime :: "(int \<Rightarrow> 'z c_tm) \<Rightarrow> ('z c_tm \<Rightarrow> int) \<Rightarrow> int \<Rightarrow> mysql_time \<Rightarrow> int" where
  "fromMySQLTime localtime mktime t0 mt =
     (let t = mktime ((localtime t0)\<lparr>tm_year := sint (mt_year mt - 1900), tm_mon := sint (mt_month mt - 1),
                tm_mday := sint (mt_day mt), tm_hour := sint (mt_hour mt), tm_min := sint (mt_minute mt),
                tm_sec := sint (mt_second mt)\<rparr>)
      in if t = - 1 then 0 else t)"

definition toMySQLTime :: "(int \<Rightarrow> 'z c_tm) \<Rightarrow> int \<Rightarrow> mysql_time" where
  "toMySQLTime localtime t =
     (let x = localtime t
      in \<lparr>mt_year = word_of_int (tm_year x + 1900), mt_month = word_of_int (tm_mon x + 1),
          mt_day = word_of_int (tm_mday x), mt_hour = word_of_int (tm_hour x),
          mt_minute = word_of_int (tm_min x), mt_second = word_of_int (tm_sec x)\<rparr>)"

definition time_of_bytes :: "u8 list \<Rightarrow> mysql_time" where
  "time_of_bytes bs =
     (let at = (\<lambda>i. le_word (take 4 (drop (4 * i) bs)))
      in \<lparr>mt_year = at 0, mt_month = at 1, mt_day = at 2, mt_hour = at 3, mt_minute = at 4, mt_second = at 5\<rparr>)"

definition res_getTime ::
  "(int \<Rightarrow> 'z c_tm) \<Rightarrow> ('z c_tm \<Rightarrow> int) \<Rightarrow> int \<Rightarrow> int \<Rightarrow> stmt_res \<Rightarrow> db_error + int" where
  "res_getTime localtime mktime t0 idx r =
     (case res_read 40 idx r of
        Inl e \<Rightarrow> Inl e
      | Inr bs \<Rightarrow> Inr (fromMySQLTime localtime mktime t0 (time_of_bytes bs)))"

text \<open>Fetching a row: what the library writes has to fit into the buffers.\<close>

definition store_cell :: "cell_write \<Rightarrow> stmt_data \<Rightarrow> db_error + stmt_data" where
  "store_cell c d =
     (case d_buffer d of
        None \<Rightarrow> Inl NullHandle
      | Some buf \<Rightarrow>
          if length buf < length (cw_bytes c) then Inl Overrun
          else Inr (d\<lparr>d_buffer := Some (overlay 0 (cw_bytes c) buf), d_length := cw_length c,
                      d_is_null := cw_null c, d_error := cw_error c\<rparr>))"

fun store_row :: "cell_write list \<Rightarrow> stmt_data list \<Rightarrow> db_error + stmt_data list" where
  "store_row (c # cs) (d # ds) =
     (case store_cell c d of
        Inl e \<Rightarrow> Inl e
      | Inr d1 \<Rightarrow> (case store_row cs ds of Inl e \<Rightarrow> Inl e | Inr ds1 \<Rightarrow> Inr (d1 # ds1)))"
| "store_row _ ds = Inr ds"

definition res_nextRow :: "'w stmt_lib \<Rightarrow> stmt_res \<Rightarrow> 'w \<Rightarrow> (db_error + bool) \<times> stmt_res \<times> 'w" where
  "res_nextRow lib r w =
     (case sl_fetch lib (sr_handle r) w of
        ((rt, cells), w1) \<Rightarrow>
          (case store_row cells (sr_datas r) of
             Inl e \<Rightarrow> (Inl e, r, w1)
           | Inr ds \<Rightarrow> (Inr (rt = 0), r\<lparr>sr_datas := ds\<rparr>, w1)))"

section \<open>Commands with arguments\<close>

text \<open>
  \<open>executeStmtStr\<close> and \<open>commandStmtStr\<close> of a command on a connection of the pool. The statement ends
  with the call, but a result keeps it.
\<close>

definition executeStmtStr ::
  "(nat \<Rightarrow> bool) \<Rightarrow> 'w stmt_lib \<Rightarrow> string \<Rightarrow> bind_arg list \<Rightarrow> db_command \<times> 'w pool \<Rightarrow>
   (db_error + int) \<times> db_command \<times> 'w pool" where
  "executeStmtStr mem lib sql args st =
     (case st of (x, s) \<Rightarrow>
        case c_conn x of
          None \<Rightarrow> (Inr (- 1), x, s)
        | Some c \<Rightarrow>
            (case stmt_Create lib (m_mysql (conns s c)) sql (lib_state s) of
               (None, w1) \<Rightarrow> (Inr (- 1), x, s\<lparr>lib_state := w1\<rparr>)
             | (Some p, w1) \<Rightarrow>
                 (case bind_args mem 0 args p of
                    (Inl e, q) \<Rightarrow> (Inl e, x, s\<lparr>lib_state := sl_close lib (st_handle q) w1\<rparr>)
                  | (Inr _, q) \<Rightarrow>
                      (case stmt_execute lib q w1 of
                         (rt, w2) \<Rightarrow>
                           (Inr rt, x\<lparr>c_row := ucast (sl_affected lib (st_handle q) w2)\<rparr>,
                            s\<lparr>lib_state := sl_close lib (st_handle q) w2\<rparr>)))))"

definition commandStmtStr ::
  "(nat \<Rightarrow> bool) \<Rightarrow> 'w stmt_lib \<Rightarrow> string \<Rightarrow> bind_arg list \<Rightarrow> db_command \<times> 'w pool \<Rightarrow>
   (db_error + stmt_res option) \<times> db_command \<times> 'w pool" where
  "commandStmtStr mem lib sql args st =
     (case st of (x, s) \<Rightarrow>
        case c_conn x of
          None \<Rightarrow> (Inl AssertFailed, x, s)
        | Some c \<Rightarrow>
            (case stmt_Create lib (m_mysql (conns s c)) sql (lib_state s) of
               (None, w1) \<Rightarrow> (Inr None, x, s\<lparr>lib_state := w1\<rparr>)
             | (Some p, w1) \<Rightarrow>
                 (case bind_args mem 0 args p of
                    (Inl e, q) \<Rightarrow> (Inl e, x, s\<lparr>lib_state := sl_close lib (st_handle q) w1\<rparr>)
                  | (Inr _, q) \<Rightarrow>
                      (case stmt_command mem lib q w1 of
                         (Inl e, w2) \<Rightarrow> (Inl e, x, s\<lparr>lib_state := sl_close lib (st_handle q) w2\<rparr>)
                       | (Inr r, w2) \<Rightarrow>
                           (Inr (Some r), x\<lparr>c_row := ucast (sl_affected lib (st_handle q) w2)\<rparr>,
                            s\<lparr>lib_state := w2\<rparr>)))))"

text \<open>\<open>MySQLStmtCommand\<close> shares a statement that is used again.\<close>

record stmt_cmd =
  sc_stmt :: stmt
  sc_row :: u32

definition cmd_command ::
  "(nat \<Rightarrow> bool) \<Rightarrow> 'w stmt_lib \<Rightarrow> bind_arg list \<Rightarrow> stmt_cmd \<times> 'w \<Rightarrow> (db_error + stmt_res) \<times> stmt_cmd \<times> 'w" where
  "cmd_command mem lib args st =
     (case st of (x, w) \<Rightarrow>
        case bind_args mem 0 args (sc_stmt x) of
          (Inl e, q) \<Rightarrow> (Inl e, x\<lparr>sc_stmt := q\<rparr>, w)
        | (Inr _, q) \<Rightarrow>
            (case stmt_command mem lib q w of
               (Inl e, w1) \<Rightarrow> (Inl e, x\<lparr>sc_stmt := q\<rparr>, w1)
             | (Inr r, w1) \<Rightarrow> (Inr r, x\<lparr>sc_stmt := q, sc_row := ucast (sl_affected lib (st_handle q) w1)\<rparr>, w1)))"

definition cmd_execute ::
  "(nat \<Rightarrow> bool) \<Rightarrow> 'w stmt_lib \<Rightarrow> bind_arg list \<Rightarrow> stmt_cmd \<times> 'w \<Rightarrow> (db_error + int) \<times> stmt_cmd \<times> 'w" where
  "cmd_execute mem lib args st =
     (case st of (x, w) \<Rightarrow>
        case bind_args mem 0 args (sc_stmt x) of
          (Inl e, q) \<Rightarrow> (Inl e, x\<lparr>sc_stmt := q\<rparr>, w)
        | (Inr _, q) \<Rightarrow>
            (case stmt_execute lib q w of
               (rt, w1) \<Rightarrow> (Inr rt, x\<lparr>sc_stmt := q, sc_row := ucast (sl_affected lib (st_handle q) w1)\<rparr>, w1)))"

definition cmd_errno :: "'w stmt_lib \<Rightarrow> stmt_cmd \<times> 'w \<Rightarrow> int" where
  "cmd_errno lib st = sl_errno lib (st_handle (sc_stmt (fst st))) (snd st)"

definition cmd_error :: "'w stmt_lib \<Rightarrow> stmt_cmd \<times> 'w \<Rightarrow> string" where
  "cmd_error lib st = sl_error lib (st_handle (sc_stmt (fst st))) (snd st)"

section \<open>Bindings never run over their buffers\<close>

text \<open>
  The states of a statement: it is created, arguments of any kind are bound to its indexes, and
  an allocation may fail at any time, which leaves a binding half done.
\<close>

inductive prepared :: "stmt \<Rightarrow> bool" where
  prepared_new: "st_binds s = replicate n zero_bind \<Longrightarrow> prepared s"
| prepared_bind: "prepared s \<Longrightarrow> prepared (snd (bind mem idx a s))"
| prepared_null: "prepared s \<Longrightarrow> prepared (snd (bindNull idx s))"
| prepared_float: "prepared s \<Longrightarrow> prepared (snd (bindFloat mem idx f s))"
| prepared_double: "prepared s \<Longrightarrow> prepared (snd (bindDouble mem idx d s))"
| prepared_blob: "prepared s \<Longrightarrow> prepared (snd (bindBlob mem idx v s))"
| prepared_blob_ptr: "prepared s \<Longrightarrow> prepared (snd (bindBlob_ptr mem idx v n s))"

lemma Create_prepared: "stmt_Create lib conn sql w = (Some s, w1) \<Longrightarrow> prepared s"
  by (auto simp: stmt_Create_def intro: prepared_new split: option.splits prod.splits if_splits)

definition bind_ok :: "mysql_bind \<Rightarrow> bool" where
  "bind_ok b = (case b_buffer b of None \<Rightarrow> True | Some buf \<Rightarrow> b_length b \<le> length buf)"

definition binds_ok :: "stmt \<Rightarrow> bool" where
  "binds_ok s = list_all bind_ok (st_binds s)"

text \<open>What the library gets for a parameter: the type, the sign and the bytes.\<close>

definition seen :: "mysql_bind \<Rightarrow> nat \<times> bool \<times> u8 list" where
  "seen b = (buffer_type b, is_unsigned b, case b_buffer b of None \<Rightarrow> [] | Some buf \<Rightarrow> take (b_length b) buf)"

fun arg_type :: "bind_arg \<Rightarrow> nat" where
  "arg_type (Arg_int8 v) = 1" | "arg_type (Arg_int16 v) = 2" | "arg_type (Arg_int32 v) = 3" | "arg_type (Arg_int64 v) = 8"
| "arg_type (Arg_uint8 v) = 1" | "arg_type (Arg_uint16 v) = 2" | "arg_type (Arg_uint32 v) = 3" | "arg_type (Arg_uint64 v) = 8"
| "arg_type (Arg_string v) = 254" | "arg_type (Arg_chars v) = 254"

fun arg_unsigned :: "bind_arg \<Rightarrow> bool" where
  "arg_unsigned (Arg_uint8 v) = True" | "arg_unsigned (Arg_uint16 v) = True"
| "arg_unsigned (Arg_uint32 v) = True" | "arg_unsigned (Arg_uint64 v) = True"
| "arg_unsigned _ = False"

fun arg_bytes :: "bind_arg \<Rightarrow> u8 list" where
  "arg_bytes (Arg_int8 v) = le_bytes 1 v" | "arg_bytes (Arg_int16 v) = le_bytes 2 v"
| "arg_bytes (Arg_int32 v) = le_bytes 4 v" | "arg_bytes (Arg_int64 v) = le_bytes 8 v"
| "arg_bytes (Arg_uint8 v) = le_bytes 1 v" | "arg_bytes (Arg_uint16 v) = le_bytes 2 v"
| "arg_bytes (Arg_uint32 v) = le_bytes 4 v" | "arg_bytes (Arg_uint64 v) = le_bytes 8 v"
| "arg_bytes (Arg_string v) = char_bytes v" | "arg_bytes (Arg_chars v) = char_bytes (c_str v)"

lemmas bind_defs = bindInt8_def bindInt16_def bindInt32_def bindInt64_def bindUint8_def bindUint16_def bindUint32_def
  bindUint64_def bindString_def bindString_ptr_def

lemma bind_eq: "bind mem idx a = on_bind idx (BIND_VALUE mem (arg_type a) (arg_bytes a) (arg_unsigned a))"
  by (cases a) (simp_all add: bind_defs)

lemma BIND_VALUE_keeps: "bind_ok b \<Longrightarrow> bind_ok (snd (BIND_VALUE mem t src u b))"
  by (auto simp: BIND_VALUE_def ALLOC_AND_COPY_def bind_ok_def split: option.splits)

lemma BIND_VALUE_no_overrun: "bind_ok b \<Longrightarrow> fst (BIND_VALUE mem t src u b) \<noteq> Inl Overrun"
  by (auto simp: BIND_VALUE_def ALLOC_AND_COPY_def bind_ok_def split: option.splits)

lemma BIND_VALUE_seen:
  assumes "bind_ok b" "\<forall>n. mem n"
  shows "\<exists>b1. BIND_VALUE mem t src u b = (Inr (), b1) \<and> seen b1 = (t, u, src) \<and> bind_ok b1"
  using assms by (auto simp: BIND_VALUE_def ALLOC_AND_COPY_def bind_ok_def seen_def overlay_def split: option.splits)

lemma binds_ok_update:
  assumes "binds_ok s" "bind_ok b"
  shows "binds_ok (s\<lparr>st_binds := (st_binds s)[i := b]\<rparr>)"
  using assms set_update_subset_insert [of "st_binds s" i b] by (auto simp: binds_ok_def list_all_iff)

lemma bind_no_overrun:
  assumes "binds_ok s"
  shows "fst (on_bind idx (BIND_VALUE mem t src u) s) \<noteq> Inl Overrun"
proof (cases "idx < 0 \<or> length (st_binds s) \<le> nat idx")
  case False
  then have "bind_ok (st_binds s ! nat idx)" using assms by (simp add: binds_ok_def list_all_length)
  from BIND_VALUE_no_overrun [OF this, of mem t src u] show ?thesis
    using False by (cases "BIND_VALUE mem t src u (st_binds s ! nat idx)") (auto simp: on_bind_def split: sum.split)
qed (auto simp: on_bind_def)

lemma on_bind_keeps:
  assumes "binds_ok s" "\<And>b. bind_ok b \<Longrightarrow> bind_ok (snd (f b))"
  shows "binds_ok (snd (on_bind idx f s))"
proof (cases "idx < 0 \<or> length (st_binds s) \<le> nat idx")
  case True
  then show ?thesis using assms(1) by (simp add: on_bind_def)
next
  case False
  then have "bind_ok (st_binds s ! nat idx)" using assms(1) by (simp add: binds_ok_def list_all_length)
  from binds_ok_update [OF assms(1) assms(2) [OF this], of "nat idx"] show ?thesis
    using False by (cases "f (st_binds s ! nat idx)") (simp add: on_bind_def)
qed

lemma prepared_ok: "prepared s \<Longrightarrow> binds_ok s"
proof (induction rule: prepared.induct)
  case (prepared_new s n)
  then show ?case by (auto simp: binds_ok_def list_all_iff bind_ok_def zero_bind_def)
next
  case (prepared_null s idx)
  from prepared_null.IH show ?case unfolding bindNull_def by (rule on_bind_keeps) (simp add: bind_ok_def split: option.splits)
next
  case (prepared_blob_ptr s mem idx v n)
  then show ?case unfolding bindBlob_ptr_def by (auto intro: on_bind_keeps BIND_VALUE_keeps)
qed (auto simp: bind_eq bindFloat_def bindDouble_def bindBlob_def intro!: on_bind_keeps BIND_VALUE_keeps)

lemma bind_seen:
  assumes "binds_ok s" "\<forall>n. mem n" "i < length (st_binds s)"
  shows "\<exists>b. bind mem (int i) a s = (Inr 0, s\<lparr>st_binds := (st_binds s)[i := b]\<rparr>) \<and>
    seen b = (arg_type a, arg_unsigned a, arg_bytes a) \<and> bind_ok b"
proof -
  have "bind_ok (st_binds s ! i)" using assms(1,3) by (simp add: binds_ok_def list_all_length)
  from BIND_VALUE_seen [OF this assms(2)] obtain b where
    "BIND_VALUE mem (arg_type a) (arg_bytes a) (arg_unsigned a) (st_binds s ! i) = (Inr (), b)"
    "seen b = (arg_type a, arg_unsigned a, arg_bytes a)" "bind_ok b" by blast
  then show ?thesis using assms(3) by (intro exI [of _ b]) (simp add: bind_eq on_bind_def)
qed

lemma bind_args_seen:
  assumes "binds_ok s" "\<forall>n. mem n" "i + length args \<le> length (st_binds s)"
  shows "\<exists>bs. bind_args mem (int i) args s = (Inr (), s\<lparr>st_binds := take i (st_binds s) @ bs @ drop (i + length args) (st_binds s)\<rparr>) \<and>
    map seen bs = map (\<lambda>a. (arg_type a, arg_unsigned a, arg_bytes a)) args"
  using assms(1,3)
proof (induction args arbitrary: i s)
  case Nil
  then show ?case by (intro exI [of _ "[]"]) simp
next
  case (Cons a args)
  then have i: "i < length (st_binds s)" by simp
  from bind_seen [OF Cons.prems(1) assms(2) this, of a] obtain b where
    b: "bind mem (int i) a s = (Inr 0, s\<lparr>st_binds := (st_binds s)[i := b]\<rparr>)"
      "seen b = (arg_type a, arg_unsigned a, arg_bytes a)" "bind_ok b" by blast
  let ?s = "s\<lparr>st_binds := (st_binds s)[i := b]\<rparr>"
  have "Suc i + length args \<le> length (st_binds ?s)" using Cons.prems(2) by simp
  from Cons.IH [OF binds_ok_update [OF Cons.prems(1) b(3)] this] obtain bs where
    bs: "bind_args mem (int (Suc i)) args ?s =
      (Inr (), ?s\<lparr>st_binds := take (Suc i) (st_binds ?s) @ bs @ drop (Suc i + length args) (st_binds ?s)\<rparr>)"
      "map seen bs = map (\<lambda>a. (arg_type a, arg_unsigned a, arg_bytes a)) args" by blast
  have "take (Suc i) ((st_binds s)[i := b]) = take i (st_binds s) @ [b]"
    using i by (simp add: take_Suc_conv_app_nth)
  moreover have "drop (Suc i + length args) ((st_binds s)[i := b]) = drop (Suc i + length args) (st_binds s)"
    by simp
  ultimately show ?case
    using b bs by (intro exI [of _ "b # bs"]) (simp add: add.commute)
qed

lemma bind_args_append:
  "bind_args mem idx (xs @ ys) s =
     (case bind_args mem idx xs s of (Inl e, t) \<Rightarrow> (Inl e, t) | (Inr _, t) \<Rightarrow> bind_args mem (idx + int (length xs)) ys t)"
  by (induction xs arbitrary: idx s) (auto split: prod.split sum.split simp: algebra_simps)

lemma bind_args_too_many:
  assumes "binds_ok s" "\<forall>n. mem n" "length (st_binds s) < length args"
  shows "\<exists>t. bind_args mem 0 args s = (Inl BadIndex, t)"
proof -
  let ?n = "length (st_binds s)"
  from assms(3) obtain a rest where d: "drop ?n args = a # rest" by (metis Cons_nth_drop_Suc)
  have "?n = 0 + length (take ?n args)" using assms(3) by simp
  with bind_args_seen [OF assms(1,2), of 0 "take ?n args"] obtain bs where
    bs: "bind_args mem 0 (take ?n args) s = (Inr (), s\<lparr>st_binds := bs\<rparr>)" "length bs = ?n"
    by (auto dest: map_eq_imp_length_eq)
  have "bind_args mem 0 (take ?n args @ a # rest) s = (Inl BadIndex, s\<lparr>st_binds := bs\<rparr>)"
    unfolding bind_args_append using bs assms(3) by (simp add: bind_eq on_bind_def)
  then show ?thesis by (metis append_take_drop_id d)
qed

text \<open>
  C39. A prepared statement is executed with the arguments of the call. Whatever was bound to it before,
  short or long values, nulls or half done bindings after a failed allocation, binding never writes
  behind a buffer; an execution with \<open>k\<close> arguments hands the library, for each of the first \<open>k\<close> parameters,
  exactly the type, the sign and the bytes of its argument, and leaves the bindings of the others. More
  arguments than the statement has parameters go behind the vector of bindings.
\<close>

theorem executed_with_arguments:
  assumes "prepared (sc_stmt x)" "\<forall>n. mem n"
  defines "h \<equiv> st_handle (sc_stmt x)" and "old \<equiv> st_binds (sc_stmt x)"
  shows "(\<forall>m idx a. fst (bind m idx a (sc_stmt x)) \<noteq> Inl Overrun) \<and>
    (if length args \<le> length old
     then \<exists>bs x'. cmd_execute mem lib args (x, w) =
            (case sl_execute lib h (sl_bind_param lib h (bs @ drop (length args) old) w) of (rt, w1) \<Rightarrow> (Inr rt, x', w1)) \<and>
          map seen bs = map (\<lambda>a. (arg_type a, arg_unsigned a, arg_bytes a)) args
     else fst (cmd_execute mem lib args (x, w)) = Inl BadIndex)"
proof (intro conjI allI)
  fix m idx a
  have ok: "binds_ok (sc_stmt x)" by (rule prepared_ok) fact
  then show "fst (bind m idx a (sc_stmt x)) \<noteq> Inl Overrun" unfolding bind_eq by (rule bind_no_overrun)
next
  have ok: "binds_ok (sc_stmt x)" by (rule prepared_ok) fact
  show "if length args \<le> length old
     then \<exists>bs x'. cmd_execute mem lib args (x, w) =
            (case sl_execute lib h (sl_bind_param lib h (bs @ drop (length args) old) w) of (rt, w1) \<Rightarrow> (Inr rt, x', w1)) \<and>
          map seen bs = map (\<lambda>a. (arg_type a, arg_unsigned a, arg_bytes a)) args
     else fst (cmd_execute mem lib args (x, w)) = Inl BadIndex"
  proof (cases "length args \<le> length old")
    case True
    with bind_args_seen [OF ok assms(2), of 0 args] obtain bs where
      "bind_args mem 0 args (sc_stmt x) = (Inr (), (sc_stmt x)\<lparr>st_binds := bs @ drop (length args) old\<rparr>)"
      "map seen bs = map (\<lambda>a. (arg_type a, arg_unsigned a, arg_bytes a)) args"
      by (auto simp: old_def)
    with True show ?thesis
      by (cases "sl_execute lib h (sl_bind_param lib h (bs @ drop (length args) old) w)")
        (auto simp: cmd_execute_def stmt_execute_def h_def intro!: exI [of _ bs])
  next
    case False
    with bind_args_too_many [OF ok assms(2), of args] show ?thesis
      by (auto simp: cmd_execute_def old_def)
  qed
qed

text \<open>A library that prepares everything with two parameters and gives rows of one column.\<close>

definition a_stmt_lib :: "field list option \<Rightarrow> cell_write list \<Rightarrow> unit stmt_lib" where
  "a_stmt_lib fs row =
     \<lparr>sl_init = (\<lambda>_ w. (Some 1, w)), sl_prepare = (\<lambda>_ _ w. (0, w)), sl_close = (\<lambda>_ w. w), sl_param_count = (\<lambda>_ _. 2),
      sl_errno = (\<lambda>_ _. 0), sl_error = (\<lambda>_ _. []), sl_insert_id = (\<lambda>_ _. 0), sl_bind_param = (\<lambda>_ _ w. w),
      sl_execute = (\<lambda>_ w. (0, w)), sl_affected = (\<lambda>_ _. 0), sl_metadata = (\<lambda>_ w. (fs, w)),
      sl_bind_result = (\<lambda>_ _ w. (0, w)), sl_store = (\<lambda>_ w. (0, w)), sl_num_rows = (\<lambda>_ _. 1),
      sl_fetch = (\<lambda>_ w. ((0, row), w)), sl_free_result = (\<lambda>_ w. w)\<rparr>"

definition a_stmt :: stmt where
  "a_stmt = \<lparr>st_handle = 1, st_binds = replicate 2 zero_bind\<rparr>"

lemma a_stmt_prepared: "prepared a_stmt"
  by (rule prepared_new) (simp add: a_stmt_def)

theorem executed_with_arguments_witness:
  "\<exists>bs x'. cmd_execute (\<lambda>_. True) (a_stmt_lib None []) [Arg_uint16 258] (\<lparr>sc_stmt = a_stmt, sc_row = 0\<rparr>, ()) = (Inr 0, x', ()) \<and>
     map seen bs = [(2, True, [2, 1])]"
proof -
  have "le_bytes 2 (258 :: u16) = [2, 1]" by code_simp
  moreover note executed_with_arguments [of "\<lparr>sc_stmt = a_stmt, sc_row = 0\<rparr>" "\<lambda>_. True" "[Arg_uint16 258]" "a_stmt_lib None []" "()"]
  moreover have "sl_execute (a_stmt_lib None []) h () = (0, ())" for h by (simp add: a_stmt_lib_def)
  moreover have "length (st_binds a_stmt) = 2" by (simp add: a_stmt_def)
  ultimately show ?thesis using a_stmt_prepared by auto
qed

section \<open>Columns\<close>

text \<open>The results of a statement: a new one, and after each row.\<close>

inductive row_state :: "(nat \<Rightarrow> bool) \<Rightarrow> 'w stmt_lib \<Rightarrow> field list \<Rightarrow> stmt_res \<Rightarrow> bool" for mem lib fs where
  row_first: "stmt_command mem lib s w = (Inr r, w1) \<Longrightarrow> sr_fields r = Some fs \<Longrightarrow> row_state mem lib fs r"
| row_next: "row_state mem lib fs r \<Longrightarrow> res_nextRow lib r w = (Inr b, r', w1) \<Longrightarrow> row_state mem lib fs r'"

definition sized :: "field \<Rightarrow> stmt_data \<Rightarrow> bool" where
  "sized f d = (case d_buffer d of None \<Rightarrow> False | Some buf \<Rightarrow> length buf = column_size f)"

lemma alloc_columns_sized: "alloc_columns mem fs = Inr ds \<Longrightarrow> list_all2 sized fs ds"
  by (induction fs arbitrary: ds) (auto simp: data_alloc_def sized_def split: sum.splits if_splits)

lemma store_cell_sized: "store_cell c d = Inr d' \<Longrightarrow> sized f d \<Longrightarrow> sized f d'"
  by (auto simp: store_cell_def sized_def split: option.splits if_splits)

lemma store_row_sized: "store_row cells ds = Inr ds' \<Longrightarrow> list_all2 sized fs ds \<Longrightarrow> list_all2 sized fs ds'"
proof (induction cells ds arbitrary: ds' fs rule: store_row.induct)
  case (1 c cs d ds)
  then show ?case by (auto simp: list_all2_Cons2 dest: store_cell_sized split: sum.splits)
qed auto

lemma res_Create_fields:
  assumes "res_Create mem lib s w = (Inr r, w1)" "sr_fields r = Some fs"
  shows "\<exists>ds. alloc_columns mem fs = Inr ds \<and> sr_datas r = ds"
  using assms
  by (auto simp: res_Create_def res_failed_def MySQLStmtRes_def Let_def split: if_splits option.splits prod.splits sum.splits)

lemma row_state_sized: "row_state mem lib fs r \<Longrightarrow> list_all2 sized fs (sr_datas r)"
proof (induction rule: row_state.induct)
  case (row_first s w r w1)
  then show ?case by (auto simp: stmt_command_def dest!: res_Create_fields intro: alloc_columns_sized)
next
  case (row_next r w b r' w1)
  then show ?case by (auto simp: res_nextRow_def dest: store_row_sized split: prod.splits sum.splits)
qed

text \<open>What a column holds after a row was fetched.\<close>

definition holds :: "cell_write \<Rightarrow> stmt_data \<Rightarrow> bool" where
  "holds c d = (case d_buffer d of None \<Rightarrow> False
     | Some buf \<Rightarrow> take (length (cw_bytes c)) buf = cw_bytes c \<and> d_length d = cw_length c \<and> d_is_null d = cw_null c)"

lemma store_row_holds:
  assumes "list_all2 sized fs ds" "list_all2 (\<lambda>f c. length (cw_bytes c) \<le> column_size f) fs cells"
  shows "\<exists>ds'. store_row cells ds = Inr ds' \<and> list_all2 holds cells ds'"
  using assms
proof (induction fs arbitrary: ds cells)
  case (Cons f fs)
  then obtain d ds1 c cs where eq: "ds = d # ds1" "cells = c # cs" "sized f d" "length (cw_bytes c) \<le> column_size f"
    "list_all2 sized fs ds1" "list_all2 (\<lambda>f c. length (cw_bytes c) \<le> column_size f) fs cs"
    by (auto simp: list_all2_Cons1)
  from Cons.IH [OF eq(5,6)] obtain ds' where "store_row cs ds1 = Inr ds'" "list_all2 holds cs ds'" by blast
  moreover have "\<exists>d'. store_cell c d = Inr d' \<and> holds c d'"
    using eq(3,4) by (auto simp: store_cell_def sized_def holds_def overlay_def split: option.splits)
  ultimately show ?case using eq(1,2) by auto
qed simp

lemma read_column:
  assumes "sized f (sr_datas r ! i)" "holds c (sr_datas r ! i)" "i < length (sr_datas r)"
  shows "column_size f < n \<Longrightarrow> res_read n (int i) r = Inl Overrun"
    and "length (cw_bytes c) \<le> column_size f \<Longrightarrow> res_read (length (cw_bytes c)) (int i) r = Inr (cw_bytes c)"
  using assms by (auto simp: res_read_def res_data_def sized_def holds_def split: option.splits)

lemma word_column:
  assumes "sized f (sr_datas r ! i)" "holds c (sr_datas r ! i)" "i < length (sr_datas r)"
    and "column_size f = n" "cw_bytes c = le_bytes n (v :: 'w::len word)" "LENGTH('w) = 8 * n"
  shows "res_word n (int i) r = Inr v"
  using read_column(2) [OF assms(1-3)] assms(4-6) by (simp add: res_word_def le_word_le_bytes)

lemma wide_column:
  assumes "sized f (sr_datas r ! i)" "holds c (sr_datas r ! i)" "i < length (sr_datas r)" "column_size f < n"
  shows "res_word n (int i) r = Inl Overrun"
  using read_column(1) [OF assms] by (simp add: res_word_def)

text \<open>
  C40. Columns of a prepared statement have the values of the row: after any number of rows, when the library
  fetches a row whose images fit the columns, the accessor of a column's own width gives the
  integer, for all four widths, and a text column gives its bytes. A wider accessor reads behind the
  buffer of the column, as does a text longer than its column.
\<close>

theorem statement_columns_read_back:
  assumes "row_state mem lib fs r" "sl_fetch lib (sr_handle r) w = ((0, cells), w1)"
    and "list_all2 (\<lambda>f c. length (cw_bytes c) \<le> column_size f) fs cells" "i < length fs"
  defines "t \<equiv> f_type (fs ! i)" and "c \<equiv> cells ! i"
  shows "\<exists>r'. res_nextRow lib r w = (Inr True, r', w1) \<and>
    (t = MYSQL_TYPE_TINY \<and> cw_bytes c = le_bytes 1 v8 \<longrightarrow>
       res_getInt8 (int i) r' = Inr v8 \<and> res_getUint8 (int i) r' = Inr v8 \<and> res_getInt16 (int i) r' = Inl Overrun) \<and>
    (t = MYSQL_TYPE_SHORT \<and> cw_bytes c = le_bytes 2 v16 \<longrightarrow>
       res_getInt16 (int i) r' = Inr v16 \<and> res_getUint16 (int i) r' = Inr v16 \<and> res_getInt32 (int i) r' = Inl Overrun) \<and>
    (t = MYSQL_TYPE_LONG \<and> cw_bytes c = le_bytes 4 v32 \<longrightarrow>
       res_getInt32 (int i) r' = Inr v32 \<and> res_getUint32 (int i) r' = Inr v32 \<and> res_getInt64 (int i) r' = Inl Overrun) \<and>
    (t = MYSQL_TYPE_LONGLONG \<and> cw_bytes c = le_bytes 8 v64 \<longrightarrow>
       res_getInt64 (int i) r' = Inr v64 \<and> res_getUint64 (int i) r' = Inr v64) \<and>
    (t = MYSQL_TYPE_STRING \<and> unat (cw_length c) = length (cw_bytes c) \<longrightarrow>
       res_getString (int i) r' = Inr (map (\<lambda>b. char_of (unat b)) (cw_bytes c))) \<and>
    (t = MYSQL_TYPE_STRING \<and> f_length (fs ! i) < unat (cw_length c) \<longrightarrow> res_getString (int i) r' = Inl Overrun)"
proof -
  have sz: "list_all2 sized fs (sr_datas r)" by (rule row_state_sized) fact
  from store_row_holds [OF this assms(3)] obtain ds' where
    ds': "store_row cells (sr_datas r) = Inr ds'" "list_all2 holds cells ds'" by blast
  let ?r = "r\<lparr>sr_datas := ds'\<rparr>"
  have next_row: "res_nextRow lib r w = (Inr True, ?r, w1)" using assms(2) ds'(1) by (simp add: res_nextRow_def)
  have "list_all2 sized fs (sr_datas ?r)" using store_row_sized [OF ds'(1) sz] by simp
  then have col: "sized (fs ! i) (sr_datas ?r ! i)" "i < length (sr_datas ?r)"
    using assms(4) by (auto simp: list_all2_conv_all_nth)
  have h: "holds c (sr_datas ?r ! i)" and fit: "length (cw_bytes c) \<le> column_size (fs ! i)"
    using ds'(2) assms(3,4) by (auto simp: list_all2_conv_all_nth c_def)
  note fits = word_column [OF col(1) h col(2)] and wide = wide_column [OF col(1) h col(2)]
  have "d_length (sr_datas ?r ! i) = cw_length c" using h by (auto simp: holds_def split: option.splits)
  then have str: "res_getString (int i) ?r = (case res_read (unat (cw_length c)) (int i) ?r of
      Inl e \<Rightarrow> Inl e | Inr bs \<Rightarrow> Inr (map (\<lambda>b. char_of (unat b)) bs))"
    using col(2) by (simp add: res_getString_def res_chars_def res_data_def)
  show ?thesis
  proof (intro exI [of _ ?r] conjI next_row impI)
    assume a: "t = 254 \<and> unat (cw_length c) = length (cw_bytes c)"
    then show "res_getString (int i) ?r = Inr (map (\<lambda>b. char_of (unat b)) (cw_bytes c))"
      using str read_column(2) [OF col(1) h col(2) fit] by simp
  next
    assume a: "t = 254 \<and> f_length (fs ! i) < unat (cw_length c)"
    then have "column_size (fs ! i) < unat (cw_length c)" by (simp add: column_size_def t_def)
    from read_column(1) [OF col(1) h col(2) this] show "res_getString (int i) ?r = Inl Overrun" using str by simp
  qed (auto simp: res_getInt8_def res_getUint8_def res_getInt16_def res_getUint16_def res_getInt32_def
      res_getUint32_def res_getInt64_def res_getUint64_def t_def column_size_def intro!: fits wide)
qed

definition a_column :: field where
  "a_column = \<lparr>f_name = ''id'', f_type = 2, f_length = 6\<rparr>"

definition a_cell :: cell_write where
  "a_cell = \<lparr>cw_bytes = le_bytes 2 (258 :: u16), cw_length = 2, cw_null = False, cw_error = False\<rparr>"

theorem statement_columns_read_back_witness:
  "\<exists>r r'. stmt_command (\<lambda>_. True) (a_stmt_lib (Some [a_column]) [a_cell]) a_stmt () = (Inr r, ()) \<and>
     res_nextRow (a_stmt_lib (Some [a_column]) [a_cell]) r () = (Inr True, r', ()) \<and>
     res_getInt16 0 r' = Inr 258 \<and> res_getInt32 0 r' = Inl Overrun"
proof -
  let ?lib = "a_stmt_lib (Some [a_column]) [a_cell]"
  obtain r where r: "stmt_command (\<lambda>_. True) ?lib a_stmt () = (Inr r, ())" "sr_fields r = Some [a_column]"
    by (simp add: stmt_command_def res_Create_def a_stmt_lib_def Let_def data_alloc_def stmt_execute_def)
  have fetch: "sl_fetch ?lib (sr_handle r) () = ((0, [a_cell]), ())" by (simp add: a_stmt_lib_def)
  have "list_all2 (\<lambda>f c. length (cw_bytes c) \<le> column_size f) [a_column] [a_cell]"
    by (simp add: a_cell_def a_column_def column_size_def)
  from statement_columns_read_back [OF row_first [OF r] fetch this, of 0 _ 258]
  show ?thesis using r(1) by (auto simp: a_column_def a_cell_def)
qed

text \<open>
  A statement without a result set, such as an insertion, is prepared without metadata and without an
  error: \<open>command\<close> then returns a result without an error although it never executes the statement. Nor
  does it execute one whose last call has left an error.
\<close>

theorem command_without_columns_not_executed:
  assumes "sl_errno lib h (sl_bind_param lib h (st_binds s) w) = eno" "st_handle s = h"
    and "eno = 0 \<longrightarrow> sl_metadata lib h (sl_bind_param lib h (st_binds s) w) = (None, w1) \<and> sl_errno lib h w1 = 0"
  shows "\<exists>r. stmt_command mem lib s w =
      (Inr r, if eno = 0 then sl_free_result lib h w1 else sl_bind_param lib h (st_binds s) w) \<and> sr_errno r = eno"
  using assms by (auto simp: stmt_command_def res_Create_def res_failed_def MySQLStmtRes_def Let_def)

theorem command_without_columns_not_executed_witness:
  "\<exists>r. stmt_command (\<lambda>_. True) (a_stmt_lib None []) a_stmt () = (Inr r, ()) \<and> sr_errno r = 0"
  using command_without_columns_not_executed [of "a_stmt_lib None []" 1 a_stmt "()" 0 "()" "\<lambda>_. True"]
  by (simp add: a_stmt_lib_def a_stmt_def)

end
