(* ===== verification/Ragel.thy ===== *)
theory Ragel
  imports Text_Out
begin

text \<open>
  The shape of the state machines that Ragel generates with \<open>goto\<close> (\<open>src/src/http/*.rl.cpp\<close>). Each
  \<open>case\<close> of the switch maps a character to a jump: to a state (\<open>st\<close>) or to a transition with
  actions (\<open>tr\<close>) that leads to one. State 0 is the error state; it is entered without moving past
  the character. Characters are signed.
\<close>

datatype goto = St nat | Tr nat

fun switch :: "'a \<Rightarrow> ('a \<times> 'b) list \<Rightarrow> 'b \<Rightarrow> 'b" where
  "switch x [] other = other"
| "switch x ((k, target) # cases) other = (if x = k then target else switch x cases other)"

definition schar :: "char \<Rightarrow> int" where
  "schar c = (if (of_char c :: int) < 128 then of_char c else of_char c - 256)"

text \<open>The wide character: three delimiters are moved out of the way and mark whether URIs are relaxed.\<close>

definition widec :: "bool \<Rightarrow> int \<Rightarrow> int" where
  "widec relaxed p =
     (if p = 94 \<or> p = 123 \<or> p = 125 then 128 + (p - - 128) + (if relaxed then 256 else 0) else p)"

text \<open>Actions in order; \<open>None\<close> when one of them throws.\<close>

fun run_actions :: "('a \<Rightarrow> 's \<Rightarrow> 's option) \<Rightarrow> 'a list \<Rightarrow> 's \<Rightarrow> 's option" where
  "run_actions act [] s = Some s"
| "run_actions act (a # more_acts) s = (case act a s of None \<Rightarrow> None | Some s1 \<Rightarrow> run_actions act more_acts s1)"

text \<open>
  The loop from state \<open>cs\<close> with the offset \<open>p\<close> of the first of the characters; \<open>act\<close> performs an action
  at an offset. The result is the state, the offset where the loop stopped, and what the actions
  have done.
\<close>

fun run_machine ::
  "(nat \<Rightarrow> int \<Rightarrow> goto) \<Rightarrow> (nat \<Rightarrow> 'a list \<times> nat \<times> bool) \<Rightarrow> (nat \<Rightarrow> 'a \<Rightarrow> 's \<Rightarrow> 's option) \<Rightarrow>
   nat \<Rightarrow> nat \<Rightarrow> string \<Rightarrow> 's \<Rightarrow> (nat \<times> nat \<times> 's) option" where
  "run_machine edge jumps act cs p [] s = Some (cs, p, s)"
| "run_machine edge jumps act cs p (c # rest) s =
     (case edge cs (schar c) of
        St m \<Rightarrow> if m = 0 then Some (0, p, s) else run_machine edge jumps act m (p + 1) rest s
      | Tr k \<Rightarrow>
          (case jumps k of (acts, m, stop) \<Rightarrow>
             case run_actions (act p) acts s of
               None \<Rightarrow> None
             | Some s1 \<Rightarrow> if stop then Some (m, p + 1, s1) else run_machine edge jumps act m (p + 1) rest s1))"

lemma scan_stay:
  "0 < cs \<Longrightarrow> list_all (\<lambda>c. edge cs (schar c) = St cs) t \<Longrightarrow>
    run_machine edge jumps act cs p (t @ rest) s = run_machine edge jumps act cs (p + length t) rest s"
  by (induction t arbitrary: p) auto

end
