(* ===== verification/Httpclient_Machine.thy ===== *)
theory Httpclient_Machine
  imports Ragel
begin

text \<open>
  The state machine of the response parser (\<open>src/src/http/httpclient_parser.rl.cpp\<close>, from
  \<open>httpclient_parser.rl\<close>), written like that of the request parser.
\<close>

datatype client_action =
    C_mark | C_start_field | C_write_field | C_write_value | C_write_content_len | C_write_connection_close
  | C_trans_chunked | C_chunk_size | C_reason_phrase | C_status_code | C_http_version | C_done

definition client_actions_1 :: "(nat \<times> client_action list \<times> nat \<times> bool) list" where
  "client_actions_1 =
     [(0, ([C_mark], 2, False)),
      (3, ([C_chunk_size, C_done], 120, True)),
      (7, ([C_done], 120, True)),
      (9, ([C_write_field, C_mark, C_write_value, C_done], 120, True)),
      (15, ([C_write_value, C_done], 120, True)),
      (74, ([C_write_connection_close, C_done], 120, True))]"

definition client_states_1 :: "int \<Rightarrow> nat \<Rightarrow> goto" where
  "client_states_1 p cs =
     (if cs = 1 then
        (if p = 72 then Tr 2
        else if p < 65 then (if 48 \<le> p \<and> p \<le> 57 then Tr 0 else St 0)
        else if p > 70 then (if 97 \<le> p \<and> p \<le> 102 then Tr 0 else St 0) else Tr 0)
      else if cs = 2 then
        (switch p [(10, Tr 3), (13, Tr 4), (59, Tr 6)]
          (if p < 65 then (if 48 \<le> p \<and> p \<le> 57 then St 2 else St 0)
        else if p > 70 then (if 97 \<le> p \<and> p \<le> 102 then St 2 else St 0) else St 2))
      else if cs = 120 then
        (St 0)
      else St 0)"

definition client_actions_2 :: "(nat \<times> client_action list \<times> nat \<times> bool) list" where
  "client_actions_2 =
     [(4, ([C_chunk_size], 3, False)),
      (10, ([C_write_field, C_mark, C_write_value], 3, False)),
      (16, ([C_write_value], 3, False)),
      (75, ([C_write_connection_close], 3, False)),
      (6, ([C_chunk_size], 4, False)),
      (12, ([C_write_field, C_mark, C_write_value], 4, False)),
      (18, ([C_write_value], 4, False)),
      (8, ([C_start_field], 5, False))]"

definition client_states_2 :: "int \<Rightarrow> nat \<Rightarrow> goto" where
  "client_states_2 p cs =
     (if cs = 3 then
        (if p = 10 then Tr 7 else St 0)
      else if cs = 4 then
        (switch p [(33, Tr 8), (124, Tr 8), (126, Tr 8)]
          (if p < 45 then
          (if p > 39 then (if 42 \<le> p \<and> p \<le> 43 then Tr 8 else St 0)
          else if p \<ge> 35 then Tr 8 else St 0)
        else if p > 46 then
            (if p < 65 then (if 48 \<le> p \<and> p \<le> 57 then Tr 8 else St 0)
            else if p > 90 then (if 94 \<le> p \<and> p \<le> 122 then Tr 8 else St 0) else Tr 8) else Tr 8))
      else if cs = 5 then
        (switch p [(10, Tr 9), (13, Tr 10), (33, St 5), (59, Tr 12), (61, Tr 13), (124, St 5), (126, St 5)]
          (if p < 45 then
          (if p > 39 then (if 42 \<le> p \<and> p \<le> 43 then St 5 else St 0)
          else if p \<ge> 35 then St 5 else St 0)
        else if p > 46 then
            (if p < 65 then (if 48 \<le> p \<and> p \<le> 57 then St 5 else St 0)
            else if p > 90 then (if 94 \<le> p \<and> p \<le> 122 then St 5 else St 0) else St 5) else St 5))
      else St 0)"

definition client_actions_3 :: "(nat \<times> client_action list \<times> nat \<times> bool) list" where
  "client_actions_3 =
     [(13, ([C_write_field, C_mark], 6, False)),
      (14, ([C_mark], 7, False)),
      (2, ([C_mark], 8, False))]"

definition client_states_3 :: "int \<Rightarrow> nat \<Rightarrow> goto" where
  "client_states_3 p cs =
     (if cs = 6 then
        (switch p [(33, Tr 14), (124, Tr 14), (126, Tr 14)]
          (if p < 45 then
          (if p > 39 then (if 42 \<le> p \<and> p \<le> 43 then Tr 14 else St 0)
          else if p \<ge> 35 then Tr 14 else St 0)
        else if p > 46 then
            (if p < 65 then (if 48 \<le> p \<and> p \<le> 57 then Tr 14 else St 0)
            else if p > 90 then (if 94 \<le> p \<and> p \<le> 122 then Tr 14 else St 0) else Tr 14) else Tr 14))
      else if cs = 7 then
        (switch p [(10, Tr 15), (13, Tr 16), (33, St 7), (59, Tr 18), (124, St 7), (126, St 7)]
          (if p < 45 then
          (if p > 39 then (if 42 \<le> p \<and> p \<le> 43 then St 7 else St 0)
          else if p \<ge> 35 then St 7 else St 0)
        else if p > 46 then
            (if p < 65 then (if 48 \<le> p \<and> p \<le> 57 then St 7 else St 0)
            else if p > 90 then (if 94 \<le> p \<and> p \<le> 122 then St 7 else St 0) else St 7) else St 7))
      else if cs = 8 then
        (if p = 84 then St 9 else St 0)
      else if cs = 9 then
        (if p = 84 then St 10 else St 0)
      else if cs = 10 then
        (if p = 80 then St 11 else St 0)
      else if cs = 11 then
        (if p = 47 then St 12 else St 0)
      else if cs = 12 then
        (if 48 \<le> p \<and> p \<le> 57 then St 13 else St 0)
      else if cs = 13 then
        (if p = 46 then St 14
        else if 48 \<le> p \<and> p \<le> 57 then St 13 else St 0)
      else if cs = 14 then
        (if 48 \<le> p \<and> p \<le> 57 then St 15 else St 0)
      else if cs = 15 then
        (if p = 32 then Tr 26
        else if 48 \<le> p \<and> p \<le> 57 then St 15 else St 0)
      else St 0)"

definition client_actions_4 :: "(nat \<times> client_action list \<times> nat \<times> bool) list" where
  "client_actions_4 =
     [(26, ([C_http_version], 16, False)),
      (27, ([C_mark], 17, False)),
      (28, ([C_status_code], 18, False)),
      (30, ([C_mark], 19, False)),
      (45, ([C_write_value], 20, False)),
      (32, ([C_reason_phrase], 20, False)),
      (42, ([C_mark, C_write_value], 20, False)),
      (111, ([C_write_value, C_trans_chunked], 20, False)),
      (113, ([C_trans_chunked], 20, False)),
      (158, ([C_write_content_len, C_write_value], 20, False))]"

definition client_states_4 :: "int \<Rightarrow> nat \<Rightarrow> goto" where
  "client_states_4 p cs =
     (if cs = 16 then
        (if 48 \<le> p \<and> p \<le> 57 then Tr 27 else St 0)
      else if cs = 17 then
        (if p = 32 then Tr 28
        else if 48 \<le> p \<and> p \<le> 57 then St 17 else St 0)
      else if cs = 18 then
        (if p = 10 then St 0 else Tr 30)
      else if cs = 19 then
        (switch p [(10, Tr 32), (13, Tr 33)]
          (St 19))
      else if cs = 20 then
        (switch p [(10, Tr 7), (13, St 3), (33, Tr 35), (67, Tr 36), (84, Tr 37), (99, Tr 36), (116, Tr 37),
           (124, Tr 35), (126, Tr 35)]
          (if p < 45 then
          (if p > 39 then (if 42 \<le> p \<and> p \<le> 43 then Tr 35 else St 0)
          else if p \<ge> 35 then Tr 35 else St 0)
        else if p > 46 then
            (if p < 65 then (if 48 \<le> p \<and> p \<le> 57 then Tr 35 else St 0)
            else if p > 90 then (if 94 \<le> p \<and> p \<le> 122 then Tr 35 else St 0) else Tr 35) else Tr 35))
      else St 0)"

definition client_actions_5 :: "(nat \<times> client_action list \<times> nat \<times> bool) list" where
  "client_actions_5 =
     [(35, ([C_start_field], 21, False)),
      (76, ([C_write_connection_close, C_start_field], 21, False)),
      (41, ([C_mark], 22, False)),
      (39, ([C_write_field], 22, False)),
      (40, ([C_mark], 23, False)),
      (46, ([C_write_value], 24, False)),
      (33, ([C_reason_phrase], 24, False)),
      (43, ([C_mark, C_write_value], 24, False)),
      (159, ([C_write_content_len, C_write_value], 24, False))]"

definition client_states_5 :: "int \<Rightarrow> nat \<Rightarrow> goto" where
  "client_states_5 p cs =
     (if cs = 21 then
        (switch p [(33, St 21), (58, Tr 39), (124, St 21), (126, St 21)]
          (if p < 45 then
          (if p > 39 then (if 42 \<le> p \<and> p \<le> 43 then St 21 else St 0)
          else if p \<ge> 35 then St 21 else St 0)
        else if p > 46 then
            (if p < 65 then (if 48 \<le> p \<and> p \<le> 57 then St 21 else St 0)
            else if p > 90 then (if 94 \<le> p \<and> p \<le> 122 then St 21 else St 0) else St 21) else St 21))
      else if cs = 22 then
        (switch p [(10, Tr 42), (13, Tr 43), (32, Tr 41)]
          (if 9 \<le> p \<and> p \<le> 12 then Tr 41 else Tr 40))
      else if cs = 23 then
        (switch p [(10, Tr 45), (13, Tr 46)]
          (St 23))
      else if cs = 24 then
        (if p = 10 then St 20 else St 0)
      else St 0)"

definition client_actions_6 :: "(nat \<times> client_action list \<times> nat \<times> bool) list" where
  "client_actions_6 =
     [(36, ([C_start_field], 25, False)),
      (77, ([C_write_connection_close, C_start_field], 25, False))]"

definition client_states_6 :: "int \<Rightarrow> nat \<Rightarrow> goto" where
  "client_states_6 p cs =
     (if cs = 25 then
        (switch p [(33, St 21), (58, Tr 39), (79, St 26), (111, St 26), (124, St 21), (126, St 21)]
          (if p < 45 then
          (if p > 39 then (if 42 \<le> p \<and> p \<le> 43 then St 21 else St 0)
          else if p \<ge> 35 then St 21 else St 0)
        else if p > 46 then
            (if p < 65 then (if 48 \<le> p \<and> p \<le> 57 then St 21 else St 0)
            else if p > 90 then (if 94 \<le> p \<and> p \<le> 122 then St 21 else St 0) else St 21) else St 21))
      else if cs = 26 then
        (switch p [(33, St 21), (58, Tr 39), (78, St 27), (110, St 27), (124, St 21), (126, St 21)]
          (if p < 45 then
          (if p > 39 then (if 42 \<le> p \<and> p \<le> 43 then St 21 else St 0)
          else if p \<ge> 35 then St 21 else St 0)
        else if p > 46 then
            (if p < 65 then (if 48 \<le> p \<and> p \<le> 57 then St 21 else St 0)
            else if p > 90 then (if 94 \<le> p \<and> p \<le> 122 then St 21 else St 0) else St 21) else St 21))
      else if cs = 27 then
        (switch p [(33, St 21), (58, Tr 39), (78, St 28), (84, St 101), (110, St 28), (116, St 101),
           (124, St 21), (126, St 21)]
          (if p < 45 then
          (if p > 39 then (if 42 \<le> p \<and> p \<le> 43 then St 21 else St 0)
          else if p \<ge> 35 then St 21 else St 0)
        else if p > 46 then
            (if p < 65 then (if 48 \<le> p \<and> p \<le> 57 then St 21 else St 0)
            else if p > 90 then (if 94 \<le> p \<and> p \<le> 122 then St 21 else St 0) else St 21) else St 21))
      else if cs = 28 then
        (switch p [(33, St 21), (58, Tr 39), (69, St 29), (101, St 29), (124, St 21), (126, St 21)]
          (if p < 45 then
          (if p > 39 then (if 42 \<le> p \<and> p \<le> 43 then St 21 else St 0)
          else if p \<ge> 35 then St 21 else St 0)
        else if p > 46 then
            (if p < 65 then (if 48 \<le> p \<and> p \<le> 57 then St 21 else St 0)
            else if p > 90 then (if 94 \<le> p \<and> p \<le> 122 then St 21 else St 0) else St 21) else St 21))
      else St 0)"

definition client_states_7 :: "int \<Rightarrow> nat \<Rightarrow> goto" where
  "client_states_7 p cs =
     (if cs = 29 then
        (switch p [(33, St 21), (58, Tr 39), (67, St 30), (99, St 30), (124, St 21), (126, St 21)]
          (if p < 45 then
          (if p > 39 then (if 42 \<le> p \<and> p \<le> 43 then St 21 else St 0)
          else if p \<ge> 35 then St 21 else St 0)
        else if p > 46 then
            (if p < 65 then (if 48 \<le> p \<and> p \<le> 57 then St 21 else St 0)
            else if p > 90 then (if 94 \<le> p \<and> p \<le> 122 then St 21 else St 0) else St 21) else St 21))
      else if cs = 30 then
        (switch p [(33, St 21), (58, Tr 39), (84, St 31), (116, St 31), (124, St 21), (126, St 21)]
          (if p < 45 then
          (if p > 39 then (if 42 \<le> p \<and> p \<le> 43 then St 21 else St 0)
          else if p \<ge> 35 then St 21 else St 0)
        else if p > 46 then
            (if p < 65 then (if 48 \<le> p \<and> p \<le> 57 then St 21 else St 0)
            else if p > 90 then (if 94 \<le> p \<and> p \<le> 122 then St 21 else St 0) else St 21) else St 21))
      else if cs = 31 then
        (switch p [(33, St 21), (58, Tr 39), (73, St 32), (105, St 32), (124, St 21), (126, St 21)]
          (if p < 45 then
          (if p > 39 then (if 42 \<le> p \<and> p \<le> 43 then St 21 else St 0)
          else if p \<ge> 35 then St 21 else St 0)
        else if p > 46 then
            (if p < 65 then (if 48 \<le> p \<and> p \<le> 57 then St 21 else St 0)
            else if p > 90 then (if 94 \<le> p \<and> p \<le> 122 then St 21 else St 0) else St 21) else St 21))
      else if cs = 32 then
        (switch p [(33, St 21), (58, Tr 39), (79, St 33), (111, St 33), (124, St 21), (126, St 21)]
          (if p < 45 then
          (if p > 39 then (if 42 \<le> p \<and> p \<le> 43 then St 21 else St 0)
          else if p \<ge> 35 then St 21 else St 0)
        else if p > 46 then
            (if p < 65 then (if 48 \<le> p \<and> p \<le> 57 then St 21 else St 0)
            else if p > 90 then (if 94 \<le> p \<and> p \<le> 122 then St 21 else St 0) else St 21) else St 21))
      else if cs = 33 then
        (switch p [(33, St 21), (58, Tr 39), (78, St 34), (110, St 34), (124, St 21), (126, St 21)]
          (if p < 45 then
          (if p > 39 then (if 42 \<le> p \<and> p \<le> 43 then St 21 else St 0)
          else if p \<ge> 35 then St 21 else St 0)
        else if p > 46 then
            (if p < 65 then (if 48 \<le> p \<and> p \<le> 57 then St 21 else St 0)
            else if p > 90 then (if 94 \<le> p \<and> p \<le> 122 then St 21 else St 0) else St 21) else St 21))
      else St 0)"

definition client_actions_8 :: "(nat \<times> client_action list \<times> nat \<times> bool) list" where
  "client_actions_8 =
     [(59, ([C_mark], 35, False)),
      (58, ([C_write_field], 35, False)),
      (60, ([C_mark, C_write_value], 36, False))]"

definition client_states_8 :: "int \<Rightarrow> nat \<Rightarrow> goto" where
  "client_states_8 p cs =
     (if cs = 34 then
        (switch p [(33, St 21), (58, Tr 58), (124, St 21), (126, St 21)]
          (if p < 45 then
          (if p > 39 then (if 42 \<le> p \<and> p \<le> 43 then St 21 else St 0)
          else if p \<ge> 35 then St 21 else St 0)
        else if p > 46 then
            (if p < 65 then (if 48 \<le> p \<and> p \<le> 57 then St 21 else St 0)
            else if p > 90 then (if 94 \<le> p \<and> p \<le> 122 then St 21 else St 0) else St 21) else St 21))
      else if cs = 35 then
        (switch p [(10, Tr 60), (13, Tr 61), (32, Tr 59), (67, Tr 62), (99, Tr 62)]
          (if 9 \<le> p \<and> p \<le> 12 then Tr 59 else Tr 40))
      else if cs = 36 then
        (switch p [(10, Tr 64), (13, St 89), (32, St 37), (33, Tr 35), (67, Tr 66), (84, Tr 37), (99, Tr 66),
           (116, Tr 37), (124, Tr 35), (126, Tr 35)]
          (if p < 45 then
          (if p < 35 then (if 9 \<le> p \<and> p \<le> 12 then St 37 else St 0)
          else if p > 39 then (if 42 \<le> p \<and> p \<le> 43 then Tr 35 else St 0) else Tr 35)
        else if p > 46 then
            (if p < 65 then (if 48 \<le> p \<and> p \<le> 57 then Tr 35 else St 0)
            else if p > 90 then (if 94 \<le> p \<and> p \<le> 122 then Tr 35 else St 0) else Tr 35) else Tr 35))
      else if cs = 37 then
        (switch p [(32, St 37), (67, St 38), (99, St 38)]
          (if 9 \<le> p \<and> p \<le> 13 then St 37 else St 0))
      else if cs = 38 then
        (switch p [(76, St 39), (108, St 39)]
          (St 0))
      else if cs = 39 then
        (switch p [(79, St 40), (111, St 40)]
          (St 0))
      else if cs = 40 then
        (switch p [(83, St 41), (115, St 41)]
          (St 0))
      else if cs = 41 then
        (switch p [(69, St 42), (101, St 42)]
          (St 0))
      else St 0)"

definition client_actions_9 :: "(nat \<times> client_action list \<times> nat \<times> bool) list" where
  "client_actions_9 =
     [(136, ([C_write_value], 43, False)),
      (37, ([C_start_field], 44, False)),
      (78, ([C_write_connection_close, C_start_field], 44, False))]"

definition client_states_9 :: "int \<Rightarrow> nat \<Rightarrow> goto" where
  "client_states_9 p cs =
     (if cs = 42 then
        (switch p [(10, St 43), (13, St 88)]
          (St 0))
      else if cs = 43 then
        (switch p [(10, Tr 74), (13, Tr 75), (33, Tr 76), (67, Tr 77), (84, Tr 78), (99, Tr 77), (116, Tr 78),
           (124, Tr 76), (126, Tr 76)]
          (if p < 45 then
          (if p > 39 then (if 42 \<le> p \<and> p \<le> 43 then Tr 76 else St 0)
          else if p \<ge> 35 then Tr 76 else St 0)
        else if p > 46 then
            (if p < 65 then (if 48 \<le> p \<and> p \<le> 57 then Tr 76 else St 0)
            else if p > 90 then (if 94 \<le> p \<and> p \<le> 122 then Tr 76 else St 0) else Tr 76) else Tr 76))
      else if cs = 44 then
        (switch p [(33, St 21), (58, Tr 39), (82, St 45), (114, St 45), (124, St 21), (126, St 21)]
          (if p < 45 then
          (if p > 39 then (if 42 \<le> p \<and> p \<le> 43 then St 21 else St 0)
          else if p \<ge> 35 then St 21 else St 0)
        else if p > 46 then
            (if p < 65 then (if 48 \<le> p \<and> p \<le> 57 then St 21 else St 0)
            else if p > 90 then (if 94 \<le> p \<and> p \<le> 122 then St 21 else St 0) else St 21) else St 21))
      else if cs = 45 then
        (switch p [(33, St 21), (58, Tr 39), (65, St 46), (97, St 46), (124, St 21), (126, St 21)]
          (if p < 45 then
          (if p > 39 then (if 42 \<le> p \<and> p \<le> 43 then St 21 else St 0)
          else if p \<ge> 35 then St 21 else St 0)
        else if p > 46 then
            (if p < 66 then (if 48 \<le> p \<and> p \<le> 57 then St 21 else St 0)
            else if p > 90 then (if 94 \<le> p \<and> p \<le> 122 then St 21 else St 0) else St 21) else St 21))
      else St 0)"

definition client_states_10 :: "int \<Rightarrow> nat \<Rightarrow> goto" where
  "client_states_10 p cs =
     (if cs = 46 then
        (switch p [(33, St 21), (58, Tr 39), (78, St 47), (110, St 47), (124, St 21), (126, St 21)]
          (if p < 45 then
          (if p > 39 then (if 42 \<le> p \<and> p \<le> 43 then St 21 else St 0)
          else if p \<ge> 35 then St 21 else St 0)
        else if p > 46 then
            (if p < 65 then (if 48 \<le> p \<and> p \<le> 57 then St 21 else St 0)
            else if p > 90 then (if 94 \<le> p \<and> p \<le> 122 then St 21 else St 0) else St 21) else St 21))
      else if cs = 47 then
        (switch p [(33, St 21), (58, Tr 39), (83, St 48), (115, St 48), (124, St 21), (126, St 21)]
          (if p < 45 then
          (if p > 39 then (if 42 \<le> p \<and> p \<le> 43 then St 21 else St 0)
          else if p \<ge> 35 then St 21 else St 0)
        else if p > 46 then
            (if p < 65 then (if 48 \<le> p \<and> p \<le> 57 then St 21 else St 0)
            else if p > 90 then (if 94 \<le> p \<and> p \<le> 122 then St 21 else St 0) else St 21) else St 21))
      else if cs = 48 then
        (switch p [(33, St 21), (58, Tr 39), (70, St 49), (102, St 49), (124, St 21), (126, St 21)]
          (if p < 45 then
          (if p > 39 then (if 42 \<le> p \<and> p \<le> 43 then St 21 else St 0)
          else if p \<ge> 35 then St 21 else St 0)
        else if p > 46 then
            (if p < 65 then (if 48 \<le> p \<and> p \<le> 57 then St 21 else St 0)
            else if p > 90 then (if 94 \<le> p \<and> p \<le> 122 then St 21 else St 0) else St 21) else St 21))
      else if cs = 49 then
        (switch p [(33, St 21), (58, Tr 39), (69, St 50), (101, St 50), (124, St 21), (126, St 21)]
          (if p < 45 then
          (if p > 39 then (if 42 \<le> p \<and> p \<le> 43 then St 21 else St 0)
          else if p \<ge> 35 then St 21 else St 0)
        else if p > 46 then
            (if p < 65 then (if 48 \<le> p \<and> p \<le> 57 then St 21 else St 0)
            else if p > 90 then (if 94 \<le> p \<and> p \<le> 122 then St 21 else St 0) else St 21) else St 21))
      else if cs = 50 then
        (switch p [(33, St 21), (58, Tr 39), (82, St 51), (114, St 51), (124, St 21), (126, St 21)]
          (if p < 45 then
          (if p > 39 then (if 42 \<le> p \<and> p \<le> 43 then St 21 else St 0)
          else if p \<ge> 35 then St 21 else St 0)
        else if p > 46 then
            (if p < 65 then (if 48 \<le> p \<and> p \<le> 57 then St 21 else St 0)
            else if p > 90 then (if 94 \<le> p \<and> p \<le> 122 then St 21 else St 0) else St 21) else St 21))
      else St 0)"

definition client_states_11 :: "int \<Rightarrow> nat \<Rightarrow> goto" where
  "client_states_11 p cs =
     (if cs = 51 then
        (switch p [(33, St 21), (45, St 52), (46, St 21), (58, Tr 39), (124, St 21), (126, St 21)]
          (if p < 48 then
          (if p > 39 then (if 42 \<le> p \<and> p \<le> 43 then St 21 else St 0)
          else if p \<ge> 35 then St 21 else St 0)
        else if p > 57 then
            (if p > 90 then (if 94 \<le> p \<and> p \<le> 122 then St 21 else St 0)
            else if p \<ge> 65 then St 21 else St 0) else St 21))
      else if cs = 52 then
        (switch p [(33, St 21), (58, Tr 39), (69, St 53), (101, St 53), (124, St 21), (126, St 21)]
          (if p < 45 then
          (if p > 39 then (if 42 \<le> p \<and> p \<le> 43 then St 21 else St 0)
          else if p \<ge> 35 then St 21 else St 0)
        else if p > 46 then
            (if p < 65 then (if 48 \<le> p \<and> p \<le> 57 then St 21 else St 0)
            else if p > 90 then (if 94 \<le> p \<and> p \<le> 122 then St 21 else St 0) else St 21) else St 21))
      else if cs = 53 then
        (switch p [(33, St 21), (58, Tr 39), (78, St 54), (110, St 54), (124, St 21), (126, St 21)]
          (if p < 45 then
          (if p > 39 then (if 42 \<le> p \<and> p \<le> 43 then St 21 else St 0)
          else if p \<ge> 35 then St 21 else St 0)
        else if p > 46 then
            (if p < 65 then (if 48 \<le> p \<and> p \<le> 57 then St 21 else St 0)
            else if p > 90 then (if 94 \<le> p \<and> p \<le> 122 then St 21 else St 0) else St 21) else St 21))
      else if cs = 54 then
        (switch p [(33, St 21), (58, Tr 39), (67, St 55), (99, St 55), (124, St 21), (126, St 21)]
          (if p < 45 then
          (if p > 39 then (if 42 \<le> p \<and> p \<le> 43 then St 21 else St 0)
          else if p \<ge> 35 then St 21 else St 0)
        else if p > 46 then
            (if p < 65 then (if 48 \<le> p \<and> p \<le> 57 then St 21 else St 0)
            else if p > 90 then (if 94 \<le> p \<and> p \<le> 122 then St 21 else St 0) else St 21) else St 21))
      else if cs = 55 then
        (switch p [(33, St 21), (58, Tr 39), (79, St 56), (111, St 56), (124, St 21), (126, St 21)]
          (if p < 45 then
          (if p > 39 then (if 42 \<le> p \<and> p \<le> 43 then St 21 else St 0)
          else if p \<ge> 35 then St 21 else St 0)
        else if p > 46 then
            (if p < 65 then (if 48 \<le> p \<and> p \<le> 57 then St 21 else St 0)
            else if p > 90 then (if 94 \<le> p \<and> p \<le> 122 then St 21 else St 0) else St 21) else St 21))
      else St 0)"

definition client_states_12 :: "int \<Rightarrow> nat \<Rightarrow> goto" where
  "client_states_12 p cs =
     (if cs = 56 then
        (switch p [(33, St 21), (58, Tr 39), (68, St 57), (100, St 57), (124, St 21), (126, St 21)]
          (if p < 45 then
          (if p > 39 then (if 42 \<le> p \<and> p \<le> 43 then St 21 else St 0)
          else if p \<ge> 35 then St 21 else St 0)
        else if p > 46 then
            (if p < 65 then (if 48 \<le> p \<and> p \<le> 57 then St 21 else St 0)
            else if p > 90 then (if 94 \<le> p \<and> p \<le> 122 then St 21 else St 0) else St 21) else St 21))
      else if cs = 57 then
        (switch p [(33, St 21), (58, Tr 39), (73, St 58), (105, St 58), (124, St 21), (126, St 21)]
          (if p < 45 then
          (if p > 39 then (if 42 \<le> p \<and> p \<le> 43 then St 21 else St 0)
          else if p \<ge> 35 then St 21 else St 0)
        else if p > 46 then
            (if p < 65 then (if 48 \<le> p \<and> p \<le> 57 then St 21 else St 0)
            else if p > 90 then (if 94 \<le> p \<and> p \<le> 122 then St 21 else St 0) else St 21) else St 21))
      else if cs = 58 then
        (switch p [(33, St 21), (58, Tr 39), (78, St 59), (110, St 59), (124, St 21), (126, St 21)]
          (if p < 45 then
          (if p > 39 then (if 42 \<le> p \<and> p \<le> 43 then St 21 else St 0)
          else if p \<ge> 35 then St 21 else St 0)
        else if p > 46 then
            (if p < 65 then (if 48 \<le> p \<and> p \<le> 57 then St 21 else St 0)
            else if p > 90 then (if 94 \<le> p \<and> p \<le> 122 then St 21 else St 0) else St 21) else St 21))
      else if cs = 59 then
        (switch p [(33, St 21), (58, Tr 39), (71, St 60), (103, St 60), (124, St 21), (126, St 21)]
          (if p < 45 then
          (if p > 39 then (if 42 \<le> p \<and> p \<le> 43 then St 21 else St 0)
          else if p \<ge> 35 then St 21 else St 0)
        else if p > 46 then
            (if p < 65 then (if 48 \<le> p \<and> p \<le> 57 then St 21 else St 0)
            else if p > 90 then (if 94 \<le> p \<and> p \<le> 122 then St 21 else St 0) else St 21) else St 21))
      else if cs = 60 then
        (switch p [(33, St 21), (58, Tr 95), (124, St 21), (126, St 21)]
          (if p < 45 then
          (if p > 39 then (if 42 \<le> p \<and> p \<le> 43 then St 21 else St 0)
          else if p \<ge> 35 then St 21 else St 0)
        else if p > 46 then
            (if p < 65 then (if 48 \<le> p \<and> p \<le> 57 then St 21 else St 0)
            else if p > 90 then (if 94 \<le> p \<and> p \<le> 122 then St 21 else St 0) else St 21) else St 21))
      else St 0)"

definition client_actions_13 :: "(nat \<times> client_action list \<times> nat \<times> bool) list" where
  "client_actions_13 =
     [(96, ([C_mark], 61, False)),
      (95, ([C_write_field], 61, False)),
      (97, ([C_mark, C_write_value], 62, False)),
      (104, ([C_mark], 64, False))]"

definition client_states_13 :: "int \<Rightarrow> nat \<Rightarrow> goto" where
  "client_states_13 p cs =
     (if cs = 61 then
        (switch p [(10, Tr 97), (13, Tr 98), (32, Tr 96), (67, Tr 99), (99, Tr 99)]
          (if 9 \<le> p \<and> p \<le> 12 then Tr 96 else Tr 40))
      else if cs = 62 then
        (switch p [(10, Tr 101), (13, St 72), (32, St 63), (33, Tr 35), (67, Tr 103), (84, Tr 37), (99, Tr 103),
           (116, Tr 37), (124, Tr 35), (126, Tr 35)]
          (if p < 45 then
          (if p < 35 then (if 9 \<le> p \<and> p \<le> 12 then St 63 else St 0)
          else if p > 39 then (if 42 \<le> p \<and> p \<le> 43 then Tr 35 else St 0) else Tr 35)
        else if p > 46 then
            (if p < 65 then (if 48 \<le> p \<and> p \<le> 57 then Tr 35 else St 0)
            else if p > 90 then (if 94 \<le> p \<and> p \<le> 122 then Tr 35 else St 0) else Tr 35) else Tr 35))
      else if cs = 63 then
        (switch p [(32, St 63), (67, Tr 104), (99, Tr 104)]
          (if 9 \<le> p \<and> p \<le> 13 then St 63 else St 0))
      else if cs = 64 then
        (switch p [(72, St 65), (104, St 65)]
          (St 0))
      else if cs = 65 then
        (switch p [(85, St 66), (117, St 66)]
          (St 0))
      else if cs = 66 then
        (switch p [(78, St 67), (110, St 67)]
          (St 0))
      else if cs = 67 then
        (switch p [(75, St 68), (107, St 68)]
          (St 0))
      else if cs = 68 then
        (switch p [(69, St 69), (101, St 69)]
          (St 0))
      else if cs = 69 then
        (switch p [(68, St 70), (100, St 70)]
          (St 0))
      else St 0)"

definition client_actions_14 :: "(nat \<times> client_action list \<times> nat \<times> bool) list" where
  "client_actions_14 =
     [(112, ([C_write_value], 71, False)),
      (101, ([C_done], 121, True)),
      (103, ([C_mark, C_start_field], 73, False))]"

definition client_states_14 :: "int \<Rightarrow> nat \<Rightarrow> goto" where
  "client_states_14 p cs =
     (if cs = 70 then
        (switch p [(10, Tr 111), (13, Tr 112)]
          (St 0))
      else if cs = 71 then
        (if p = 10 then Tr 113 else St 0)
      else if cs = 121 then
        (switch p [(32, St 63), (67, Tr 104), (99, Tr 104)]
          (if 9 \<le> p \<and> p \<le> 13 then St 63 else St 0))
      else if cs = 72 then
        (switch p [(10, Tr 101), (32, St 63), (67, Tr 104), (99, Tr 104)]
          (if 9 \<le> p \<and> p \<le> 13 then St 63 else St 0))
      else if cs = 73 then
        (switch p [(33, St 21), (58, Tr 39), (72, St 74), (79, St 26), (104, St 74), (111, St 26), (124, St 21),
           (126, St 21)]
          (if p < 45 then
          (if p > 39 then (if 42 \<le> p \<and> p \<le> 43 then St 21 else St 0)
          else if p \<ge> 35 then St 21 else St 0)
        else if p > 46 then
            (if p < 65 then (if 48 \<le> p \<and> p \<le> 57 then St 21 else St 0)
            else if p > 90 then (if 94 \<le> p \<and> p \<le> 122 then St 21 else St 0) else St 21) else St 21))
      else if cs = 74 then
        (switch p [(33, St 21), (58, Tr 39), (85, St 75), (117, St 75), (124, St 21), (126, St 21)]
          (if p < 45 then
          (if p > 39 then (if 42 \<le> p \<and> p \<le> 43 then St 21 else St 0)
          else if p \<ge> 35 then St 21 else St 0)
        else if p > 46 then
            (if p < 65 then (if 48 \<le> p \<and> p \<le> 57 then St 21 else St 0)
            else if p > 90 then (if 94 \<le> p \<and> p \<le> 122 then St 21 else St 0) else St 21) else St 21))
      else St 0)"

definition client_states_15 :: "int \<Rightarrow> nat \<Rightarrow> goto" where
  "client_states_15 p cs =
     (if cs = 75 then
        (switch p [(33, St 21), (58, Tr 39), (78, St 76), (110, St 76), (124, St 21), (126, St 21)]
          (if p < 45 then
          (if p > 39 then (if 42 \<le> p \<and> p \<le> 43 then St 21 else St 0)
          else if p \<ge> 35 then St 21 else St 0)
        else if p > 46 then
            (if p < 65 then (if 48 \<le> p \<and> p \<le> 57 then St 21 else St 0)
            else if p > 90 then (if 94 \<le> p \<and> p \<le> 122 then St 21 else St 0) else St 21) else St 21))
      else if cs = 76 then
        (switch p [(33, St 21), (58, Tr 39), (75, St 77), (107, St 77), (124, St 21), (126, St 21)]
          (if p < 45 then
          (if p > 39 then (if 42 \<le> p \<and> p \<le> 43 then St 21 else St 0)
          else if p \<ge> 35 then St 21 else St 0)
        else if p > 46 then
            (if p < 65 then (if 48 \<le> p \<and> p \<le> 57 then St 21 else St 0)
            else if p > 90 then (if 94 \<le> p \<and> p \<le> 122 then St 21 else St 0) else St 21) else St 21))
      else if cs = 77 then
        (switch p [(33, St 21), (58, Tr 39), (69, St 78), (101, St 78), (124, St 21), (126, St 21)]
          (if p < 45 then
          (if p > 39 then (if 42 \<le> p \<and> p \<le> 43 then St 21 else St 0)
          else if p \<ge> 35 then St 21 else St 0)
        else if p > 46 then
            (if p < 65 then (if 48 \<le> p \<and> p \<le> 57 then St 21 else St 0)
            else if p > 90 then (if 94 \<le> p \<and> p \<le> 122 then St 21 else St 0) else St 21) else St 21))
      else if cs = 78 then
        (switch p [(33, St 21), (58, Tr 39), (68, St 79), (100, St 79), (124, St 21), (126, St 21)]
          (if p < 45 then
          (if p > 39 then (if 42 \<le> p \<and> p \<le> 43 then St 21 else St 0)
          else if p \<ge> 35 then St 21 else St 0)
        else if p > 46 then
            (if p < 65 then (if 48 \<le> p \<and> p \<le> 57 then St 21 else St 0)
            else if p > 90 then (if 94 \<le> p \<and> p \<le> 122 then St 21 else St 0) else St 21) else St 21))
      else if cs = 79 then
        (switch p [(10, Tr 111), (13, Tr 112), (33, St 21), (58, Tr 39), (124, St 21), (126, St 21)]
          (if p < 45 then
          (if p > 39 then (if 42 \<le> p \<and> p \<le> 43 then St 21 else St 0)
          else if p \<ge> 35 then St 21 else St 0)
        else if p > 46 then
            (if p < 65 then (if 48 \<le> p \<and> p \<le> 57 then St 21 else St 0)
            else if p > 90 then (if 94 \<le> p \<and> p \<le> 122 then St 21 else St 0) else St 21) else St 21))
      else St 0)"

definition client_actions_16 :: "(nat \<times> client_action list \<times> nat \<times> bool) list" where
  "client_actions_16 =
     [(98, ([C_mark, C_write_value], 80, False)),
      (99, ([C_mark], 81, False)),
      (137, ([C_write_value], 88, False)),
      (64, ([C_done], 122, True))]"

definition client_states_16 :: "int \<Rightarrow> nat \<Rightarrow> goto" where
  "client_states_16 p cs =
     (if cs = 80 then
        (switch p [(10, St 62), (32, St 63), (67, Tr 104), (99, Tr 104)]
          (if 9 \<le> p \<and> p \<le> 13 then St 63 else St 0))
      else if cs = 81 then
        (switch p [(10, Tr 45), (13, Tr 46), (72, St 82), (104, St 82)]
          (St 23))
      else if cs = 82 then
        (switch p [(10, Tr 45), (13, Tr 46), (85, St 83), (117, St 83)]
          (St 23))
      else if cs = 83 then
        (switch p [(10, Tr 45), (13, Tr 46), (78, St 84), (110, St 84)]
          (St 23))
      else if cs = 84 then
        (switch p [(10, Tr 45), (13, Tr 46), (75, St 85), (107, St 85)]
          (St 23))
      else if cs = 85 then
        (switch p [(10, Tr 45), (13, Tr 46), (69, St 86), (101, St 86)]
          (St 23))
      else if cs = 86 then
        (switch p [(10, Tr 45), (13, Tr 46), (68, St 87), (100, St 87)]
          (St 23))
      else if cs = 87 then
        (switch p [(10, Tr 111), (13, Tr 112)]
          (St 23))
      else if cs = 88 then
        (if p = 10 then St 43 else St 0)
      else if cs = 122 then
        (switch p [(32, St 37), (67, St 38), (99, St 38)]
          (if 9 \<le> p \<and> p \<le> 13 then St 37 else St 0))
      else St 0)"

definition client_actions_17 :: "(nat \<times> client_action list \<times> nat \<times> bool) list" where
  "client_actions_17 =
     [(66, ([C_start_field], 90, False))]"

definition client_states_17 :: "int \<Rightarrow> nat \<Rightarrow> goto" where
  "client_states_17 p cs =
     (if cs = 89 then
        (switch p [(10, Tr 64), (32, St 37), (67, St 38), (99, St 38)]
          (if 9 \<le> p \<and> p \<le> 13 then St 37 else St 0))
      else if cs = 90 then
        (switch p [(33, St 21), (58, Tr 39), (76, St 91), (79, St 26), (108, St 91), (111, St 26), (124, St 21),
           (126, St 21)]
          (if p < 45 then
          (if p > 39 then (if 42 \<le> p \<and> p \<le> 43 then St 21 else St 0)
          else if p \<ge> 35 then St 21 else St 0)
        else if p > 46 then
            (if p < 65 then (if 48 \<le> p \<and> p \<le> 57 then St 21 else St 0)
            else if p > 90 then (if 94 \<le> p \<and> p \<le> 122 then St 21 else St 0) else St 21) else St 21))
      else if cs = 91 then
        (switch p [(33, St 21), (58, Tr 39), (79, St 92), (111, St 92), (124, St 21), (126, St 21)]
          (if p < 45 then
          (if p > 39 then (if 42 \<le> p \<and> p \<le> 43 then St 21 else St 0)
          else if p \<ge> 35 then St 21 else St 0)
        else if p > 46 then
            (if p < 65 then (if 48 \<le> p \<and> p \<le> 57 then St 21 else St 0)
            else if p > 90 then (if 94 \<le> p \<and> p \<le> 122 then St 21 else St 0) else St 21) else St 21))
      else if cs = 92 then
        (switch p [(33, St 21), (58, Tr 39), (83, St 93), (115, St 93), (124, St 21), (126, St 21)]
          (if p < 45 then
          (if p > 39 then (if 42 \<le> p \<and> p \<le> 43 then St 21 else St 0)
          else if p \<ge> 35 then St 21 else St 0)
        else if p > 46 then
            (if p < 65 then (if 48 \<le> p \<and> p \<le> 57 then St 21 else St 0)
            else if p > 90 then (if 94 \<le> p \<and> p \<le> 122 then St 21 else St 0) else St 21) else St 21))
      else if cs = 93 then
        (switch p [(33, St 21), (58, Tr 39), (69, St 94), (101, St 94), (124, St 21), (126, St 21)]
          (if p < 45 then
          (if p > 39 then (if 42 \<le> p \<and> p \<le> 43 then St 21 else St 0)
          else if p \<ge> 35 then St 21 else St 0)
        else if p > 46 then
            (if p < 65 then (if 48 \<le> p \<and> p \<le> 57 then St 21 else St 0)
            else if p > 90 then (if 94 \<le> p \<and> p \<le> 122 then St 21 else St 0) else St 21) else St 21))
      else St 0)"

definition client_actions_18 :: "(nat \<times> client_action list \<times> nat \<times> bool) list" where
  "client_actions_18 =
     [(61, ([C_mark, C_write_value], 95, False)),
      (62, ([C_mark], 96, False))]"

definition client_states_18 :: "int \<Rightarrow> nat \<Rightarrow> goto" where
  "client_states_18 p cs =
     (if cs = 94 then
        (switch p [(10, St 43), (13, St 88), (33, St 21), (58, Tr 39), (124, St 21), (126, St 21)]
          (if p < 45 then
          (if p > 39 then (if 42 \<le> p \<and> p \<le> 43 then St 21 else St 0)
          else if p \<ge> 35 then St 21 else St 0)
        else if p > 46 then
            (if p < 65 then (if 48 \<le> p \<and> p \<le> 57 then St 21 else St 0)
            else if p > 90 then (if 94 \<le> p \<and> p \<le> 122 then St 21 else St 0) else St 21) else St 21))
      else if cs = 95 then
        (switch p [(10, St 36), (32, St 37), (67, St 38), (99, St 38)]
          (if 9 \<le> p \<and> p \<le> 13 then St 37 else St 0))
      else if cs = 96 then
        (switch p [(10, Tr 45), (13, Tr 46), (76, St 97), (108, St 97)]
          (St 23))
      else if cs = 97 then
        (switch p [(10, Tr 45), (13, Tr 46), (79, St 98), (111, St 98)]
          (St 23))
      else if cs = 98 then
        (switch p [(10, Tr 45), (13, Tr 46), (83, St 99), (115, St 99)]
          (St 23))
      else if cs = 99 then
        (switch p [(10, Tr 45), (13, Tr 46), (69, St 100), (101, St 100)]
          (St 23))
      else if cs = 100 then
        (switch p [(10, Tr 136), (13, Tr 137)]
          (St 23))
      else if cs = 101 then
        (switch p [(33, St 21), (58, Tr 39), (69, St 102), (101, St 102), (124, St 21), (126, St 21)]
          (if p < 45 then
          (if p > 39 then (if 42 \<le> p \<and> p \<le> 43 then St 21 else St 0)
          else if p \<ge> 35 then St 21 else St 0)
        else if p > 46 then
            (if p < 65 then (if 48 \<le> p \<and> p \<le> 57 then St 21 else St 0)
            else if p > 90 then (if 94 \<le> p \<and> p \<le> 122 then St 21 else St 0) else St 21) else St 21))
      else St 0)"

definition client_states_19 :: "int \<Rightarrow> nat \<Rightarrow> goto" where
  "client_states_19 p cs =
     (if cs = 102 then
        (switch p [(33, St 21), (58, Tr 39), (78, St 103), (110, St 103), (124, St 21), (126, St 21)]
          (if p < 45 then
          (if p > 39 then (if 42 \<le> p \<and> p \<le> 43 then St 21 else St 0)
          else if p \<ge> 35 then St 21 else St 0)
        else if p > 46 then
            (if p < 65 then (if 48 \<le> p \<and> p \<le> 57 then St 21 else St 0)
            else if p > 90 then (if 94 \<le> p \<and> p \<le> 122 then St 21 else St 0) else St 21) else St 21))
      else if cs = 103 then
        (switch p [(33, St 21), (58, Tr 39), (84, St 104), (116, St 104), (124, St 21), (126, St 21)]
          (if p < 45 then
          (if p > 39 then (if 42 \<le> p \<and> p \<le> 43 then St 21 else St 0)
          else if p \<ge> 35 then St 21 else St 0)
        else if p > 46 then
            (if p < 65 then (if 48 \<le> p \<and> p \<le> 57 then St 21 else St 0)
            else if p > 90 then (if 94 \<le> p \<and> p \<le> 122 then St 21 else St 0) else St 21) else St 21))
      else if cs = 104 then
        (switch p [(33, St 21), (45, St 105), (46, St 21), (58, Tr 39), (124, St 21), (126, St 21)]
          (if p < 48 then
          (if p > 39 then (if 42 \<le> p \<and> p \<le> 43 then St 21 else St 0)
          else if p \<ge> 35 then St 21 else St 0)
        else if p > 57 then
            (if p > 90 then (if 94 \<le> p \<and> p \<le> 122 then St 21 else St 0)
            else if p \<ge> 65 then St 21 else St 0) else St 21))
      else if cs = 105 then
        (switch p [(33, St 21), (58, Tr 39), (76, St 106), (108, St 106), (124, St 21), (126, St 21)]
          (if p < 45 then
          (if p > 39 then (if 42 \<le> p \<and> p \<le> 43 then St 21 else St 0)
          else if p \<ge> 35 then St 21 else St 0)
        else if p > 46 then
            (if p < 65 then (if 48 \<le> p \<and> p \<le> 57 then St 21 else St 0)
            else if p > 90 then (if 94 \<le> p \<and> p \<le> 122 then St 21 else St 0) else St 21) else St 21))
      else if cs = 106 then
        (switch p [(33, St 21), (58, Tr 39), (69, St 107), (101, St 107), (124, St 21), (126, St 21)]
          (if p < 45 then
          (if p > 39 then (if 42 \<le> p \<and> p \<le> 43 then St 21 else St 0)
          else if p \<ge> 35 then St 21 else St 0)
        else if p > 46 then
            (if p < 65 then (if 48 \<le> p \<and> p \<le> 57 then St 21 else St 0)
            else if p > 90 then (if 94 \<le> p \<and> p \<le> 122 then St 21 else St 0) else St 21) else St 21))
      else St 0)"

definition client_states_20 :: "int \<Rightarrow> nat \<Rightarrow> goto" where
  "client_states_20 p cs =
     (if cs = 107 then
        (switch p [(33, St 21), (58, Tr 39), (78, St 108), (110, St 108), (124, St 21), (126, St 21)]
          (if p < 45 then
          (if p > 39 then (if 42 \<le> p \<and> p \<le> 43 then St 21 else St 0)
          else if p \<ge> 35 then St 21 else St 0)
        else if p > 46 then
            (if p < 65 then (if 48 \<le> p \<and> p \<le> 57 then St 21 else St 0)
            else if p > 90 then (if 94 \<le> p \<and> p \<le> 122 then St 21 else St 0) else St 21) else St 21))
      else if cs = 108 then
        (switch p [(33, St 21), (58, Tr 39), (71, St 109), (103, St 109), (124, St 21), (126, St 21)]
          (if p < 45 then
          (if p > 39 then (if 42 \<le> p \<and> p \<le> 43 then St 21 else St 0)
          else if p \<ge> 35 then St 21 else St 0)
        else if p > 46 then
            (if p < 65 then (if 48 \<le> p \<and> p \<le> 57 then St 21 else St 0)
            else if p > 90 then (if 94 \<le> p \<and> p \<le> 122 then St 21 else St 0) else St 21) else St 21))
      else if cs = 109 then
        (switch p [(33, St 21), (58, Tr 39), (84, St 110), (116, St 110), (124, St 21), (126, St 21)]
          (if p < 45 then
          (if p > 39 then (if 42 \<le> p \<and> p \<le> 43 then St 21 else St 0)
          else if p \<ge> 35 then St 21 else St 0)
        else if p > 46 then
            (if p < 65 then (if 48 \<le> p \<and> p \<le> 57 then St 21 else St 0)
            else if p > 90 then (if 94 \<le> p \<and> p \<le> 122 then St 21 else St 0) else St 21) else St 21))
      else if cs = 110 then
        (switch p [(33, St 21), (58, Tr 39), (72, St 111), (104, St 111), (124, St 21), (126, St 21)]
          (if p < 45 then
          (if p > 39 then (if 42 \<le> p \<and> p \<le> 43 then St 21 else St 0)
          else if p \<ge> 35 then St 21 else St 0)
        else if p > 46 then
            (if p < 65 then (if 48 \<le> p \<and> p \<le> 57 then St 21 else St 0)
            else if p > 90 then (if 94 \<le> p \<and> p \<le> 122 then St 21 else St 0) else St 21) else St 21))
      else if cs = 111 then
        (switch p [(33, St 21), (58, Tr 148), (124, St 21), (126, St 21)]
          (if p < 45 then
          (if p > 39 then (if 42 \<le> p \<and> p \<le> 43 then St 21 else St 0)
          else if p \<ge> 35 then St 21 else St 0)
        else if p > 46 then
            (if p < 65 then (if 48 \<le> p \<and> p \<le> 57 then St 21 else St 0)
            else if p > 90 then (if 94 \<le> p \<and> p \<le> 122 then St 21 else St 0) else St 21) else St 21))
      else St 0)"

definition client_actions_21 :: "(nat \<times> client_action list \<times> nat \<times> bool) list" where
  "client_actions_21 =
     [(149, ([C_mark], 112, False)),
      (148, ([C_write_field], 112, False)),
      (150, ([C_mark, C_write_value], 113, False)),
      (157, ([C_mark], 115, False)),
      (154, ([C_done], 123, True))]"

definition client_states_21 :: "int \<Rightarrow> nat \<Rightarrow> goto" where
  "client_states_21 p cs =
     (if cs = 112 then
        (switch p [(10, Tr 150), (13, Tr 151), (32, Tr 149)]
          (if p > 12 then (if 48 \<le> p \<and> p \<le> 57 then Tr 152 else Tr 40)
        else if p \<ge> 9 then Tr 149 else Tr 40))
      else if cs = 113 then
        (switch p [(10, Tr 154), (13, St 116), (32, St 114), (33, Tr 35), (67, Tr 36), (84, Tr 37), (99, Tr 36),
           (116, Tr 37), (124, Tr 35), (126, Tr 35)]
          (if p < 45 then
          (if p < 35 then (if 9 \<le> p \<and> p \<le> 12 then St 114 else St 0)
          else if p > 39 then (if 42 \<le> p \<and> p \<le> 43 then Tr 35 else St 0) else Tr 35)
        else if p > 46 then
            (if p < 65 then (if 48 \<le> p \<and> p \<le> 57 then Tr 156 else St 0)
            else if p > 90 then (if 94 \<le> p \<and> p \<le> 122 then Tr 35 else St 0) else Tr 35) else Tr 35))
      else if cs = 114 then
        (if p = 32 then St 114
        else if p > 13 then (if 48 \<le> p \<and> p \<le> 57 then Tr 157 else St 0)
        else if p \<ge> 9 then St 114 else St 0)
      else if cs = 115 then
        (switch p [(10, Tr 158), (13, Tr 159)]
          (if 48 \<le> p \<and> p \<le> 57 then St 115 else St 0))
      else if cs = 123 then
        (if p = 32 then St 114
        else if p > 13 then (if 48 \<le> p \<and> p \<le> 57 then Tr 157 else St 0)
        else if p \<ge> 9 then St 114 else St 0)
      else if cs = 116 then
        (switch p [(10, Tr 154), (32, St 114)]
          (if p > 13 then (if 48 \<le> p \<and> p \<le> 57 then Tr 157 else St 0)
        else if p \<ge> 9 then St 114 else St 0))
      else St 0)"

definition client_actions_22 :: "(nat \<times> client_action list \<times> nat \<times> bool) list" where
  "client_actions_22 =
     [(156, ([C_mark, C_start_field], 117, False)),
      (151, ([C_mark, C_write_value], 118, False)),
      (152, ([C_mark], 119, False))]"

definition client_states_22 :: "int \<Rightarrow> nat \<Rightarrow> goto" where
  "client_states_22 p cs =
     (if cs = 117 then
        (switch p [(10, Tr 158), (13, Tr 159), (33, St 21), (58, Tr 39), (124, St 21), (126, St 21)]
          (if p < 45 then
          (if p > 39 then (if 42 \<le> p \<and> p \<le> 43 then St 21 else St 0)
          else if p \<ge> 35 then St 21 else St 0)
        else if p > 46 then
            (if p < 65 then (if 48 \<le> p \<and> p \<le> 57 then St 117 else St 0)
            else if p > 90 then (if 94 \<le> p \<and> p \<le> 122 then St 21 else St 0) else St 21) else St 21))
      else if cs = 118 then
        (switch p [(10, St 113), (32, St 114)]
          (if p > 13 then (if 48 \<le> p \<and> p \<le> 57 then Tr 157 else St 0)
        else if p \<ge> 9 then St 114 else St 0))
      else if cs = 119 then
        (switch p [(10, Tr 158), (13, Tr 159)]
          (if 48 \<le> p \<and> p \<le> 57 then St 119 else St 23))
      else St 0)"

definition client_edge :: "nat \<Rightarrow> int \<Rightarrow> goto" where
  "client_edge cs p =
     (if cs \<le> 2 then client_states_1 p cs
      else if cs \<le> 5 then client_states_2 p cs
      else if cs \<le> 15 then client_states_3 p cs
      else if cs \<le> 20 then client_states_4 p cs
      else if cs \<le> 24 then client_states_5 p cs
      else if cs \<le> 28 then client_states_6 p cs
      else if cs \<le> 33 then client_states_7 p cs
      else if cs \<le> 41 then client_states_8 p cs
      else if cs \<le> 45 then client_states_9 p cs
      else if cs \<le> 50 then client_states_10 p cs
      else if cs \<le> 55 then client_states_11 p cs
      else if cs \<le> 60 then client_states_12 p cs
      else if cs \<le> 69 then client_states_13 p cs
      else if cs \<le> 74 then client_states_14 p cs
      else if cs \<le> 79 then client_states_15 p cs
      else if cs \<le> 88 then client_states_16 p cs
      else if cs \<le> 93 then client_states_17 p cs
      else if cs \<le> 101 then client_states_18 p cs
      else if cs \<le> 106 then client_states_19 p cs
      else if cs \<le> 111 then client_states_20 p cs
      else if cs \<le> 116 then client_states_21 p cs
      else if cs \<le> 119 then client_states_22 p cs
      else if cs = 120 then client_states_1 p cs
      else if cs = 121 then client_states_14 p cs
      else if cs = 122 then client_states_16 p cs
      else client_states_21 p cs)"

definition client_trans :: "nat \<Rightarrow> client_action list \<times> nat \<times> bool" where
  "client_trans tr =
     switch tr (client_actions_1 @
       client_actions_2 @
       client_actions_3 @
       client_actions_4 @
       client_actions_5 @
       client_actions_6 @
       client_actions_8 @
       client_actions_9 @
       client_actions_13 @
       client_actions_14 @
       client_actions_16 @
       client_actions_17 @
       client_actions_18 @
       client_actions_21 @
       client_actions_22) ([], 0, False)"

end
