(* ===== verification/Http11_Machine.thy ===== *)
theory Http11_Machine
  imports Ragel
begin

text \<open>
  The state machine of the request parser (\<open>src/src/http/http11_parser.rl.cpp\<close>, from
  \<open>http11_parser.rl\<close>). \<open>http_states_k\<close> holds the cases of the big switch, in the order of the file and
  with the tests as they stand there, and \<open>http_actions_k\<close> the labels \<open>tr\<close> between them: the actions
  that are run, the state that follows, and whether the action ends the loop.
\<close>

datatype http_action =
    Mark | Start_query | Start_field | Write_field | Write_value | Request_method | Request_uri | Request_path
  | Save_scheme | Fragment | Query_string | Http_version | Xml | Json | Done

definition http_actions_1 :: "(nat \<times> http_action list \<times> nat \<times> bool) list" where
  "http_actions_1 =
     [(0, ([Mark], 2, False)),
      (4, ([Request_method], 3, False))]"

definition http_states_1 :: "int \<Rightarrow> int \<Rightarrow> nat \<Rightarrow> goto" where
  "http_states_1 w p cs =
     (if cs = 1 then
        (switch p [(60, Tr 2), (64, Tr 3)]
          (if p > 57 then (if 65 \<le> p \<and> p \<le> 90 then Tr 0 else St 0)
        else if p \<ge> 48 then Tr 0 else St 0))
      else if cs = 2 then
        (if p = 32 then Tr 4
        else if p > 57 then (if 65 \<le> p \<and> p \<le> 90 then St 175 else St 0)
        else if p \<ge> 48 then St 175 else St 0)
      else if cs = 3 then
        (switch w [(32, Tr 6), (33, Tr 7), (35, Tr 8), (37, Tr 9), (47, Tr 10), (59, Tr 7), (61, Tr 7),
           (63, Tr 11), (64, Tr 7), (95, Tr 7), (126, Tr 7), (606, Tr 7), (635, Tr 7), (637, Tr 7)]
          (if w < 65 then (if 36 \<le> w \<and> w \<le> 57 then Tr 7 else St 0)
        else if w > 90 then (if 97 \<le> w \<and> w \<le> 122 then Tr 12 else St 0) else Tr 12))
      else St 0)"

definition http_actions_2 :: "(nat \<times> http_action list \<times> nat \<times> bool) list" where
  "http_actions_2 =
     [(6, ([Mark, Request_path, Request_uri], 4, False)),
      (37, ([Request_path, Request_uri], 4, False)),
      (44, ([Mark, Fragment], 4, False)),
      (47, ([Fragment], 4, False)),
      (54, ([Start_query, Query_string, Request_uri], 4, False)),
      (58, ([Query_string, Request_uri], 4, False)),
      (13, ([Mark], 5, False))]"

definition http_states_2 :: "int \<Rightarrow> int \<Rightarrow> nat \<Rightarrow> goto" where
  "http_states_2 w p cs =
     (if cs = 4 then
        (if p = 72 then Tr 13 else St 0)
      else if cs = 5 then
        (if p = 84 then St 6 else St 0)
      else if cs = 6 then
        (if p = 84 then St 7 else St 0)
      else if cs = 7 then
        (if p = 80 then St 8 else St 0)
      else if cs = 8 then
        (if p = 47 then St 9 else St 0)
      else if cs = 9 then
        (if p = 49 then St 10 else St 0)
      else if cs = 10 then
        (if p = 46 then St 11 else St 0)
      else if cs = 11 then
        (if 48 \<le> p \<and> p \<le> 49 then St 12 else St 0)
      else if cs = 12 then
        (switch p [(10, Tr 21), (13, Tr 22)]
          (St 0))
      else St 0)"

definition http_actions_3 :: "(nat \<times> http_action list \<times> nat \<times> bool) list" where
  "http_actions_3 =
     [(21, ([Http_version], 13, False)),
      (30, ([Mark, Write_value], 13, False)),
      (33, ([Write_value], 13, False)),
      (23, ([Start_field], 14, False)),
      (27, ([Write_field], 15, False)),
      (29, ([Mark], 15, False)),
      (28, ([Mark], 16, False))]"

definition http_states_3 :: "int \<Rightarrow> int \<Rightarrow> nat \<Rightarrow> goto" where
  "http_states_3 w p cs =
     (if cs = 13 then
        (switch p [(10, Tr 24), (13, Tr 25), (33, Tr 23), (124, Tr 23), (126, Tr 23)]
          (if p < 42 then
          (if p < 11 then (if 1 \<le> p \<and> p \<le> 8 then Tr 23 else St 0)
          else if p > 31 then (if 35 \<le> p \<and> p \<le> 39 then Tr 23 else St 0) else Tr 23)
        else if p > 43 then
            (if p < 48 then (if 45 \<le> p \<and> p \<le> 46 then Tr 23 else St 0)
            else if p > 57 then
                (if p > 90 then (if 94 \<le> p \<and> p \<le> 122 then Tr 23 else St 0)
                else if p \<ge> 65 then Tr 23 else St 0) else Tr 23) else Tr 23))
      else if cs = 14 then
        (switch p [(33, St 14), (58, Tr 27), (124, St 14), (126, St 14)]
          (if p < 42 then
          (if p < 10 then (if 1 \<le> p \<and> p \<le> 8 then St 14 else St 0)
          else if p > 31 then (if 35 \<le> p \<and> p \<le> 39 then St 14 else St 0) else St 14)
        else if p > 43 then
            (if p < 48 then (if 45 \<le> p \<and> p \<le> 46 then St 14 else St 0)
            else if p > 57 then
                (if p > 90 then (if 94 \<le> p \<and> p \<le> 122 then St 14 else St 0)
                else if p \<ge> 65 then St 14 else St 0) else St 14) else St 14))
      else if cs = 15 then
        (switch p [(0, St 0), (9, Tr 29), (10, Tr 30), (13, Tr 31), (32, Tr 29), (127, St 0)]
          (Tr 28))
      else if cs = 16 then
        (switch p [(0, St 0), (10, Tr 33), (13, Tr 34), (127, St 0)]
          (St 16))
      else St 0)"

definition http_actions_4 :: "(nat \<times> http_action list \<times> nat \<times> bool) list" where
  "http_actions_4 =
     [(22, ([Http_version], 17, False)),
      (31, ([Mark, Write_value], 17, False)),
      (34, ([Write_value], 17, False)),
      (24, ([Start_field, Done], 348, True)),
      (36, ([Done], 348, True)),
      (25, ([Start_field], 18, False))]"

definition http_states_4 :: "int \<Rightarrow> int \<Rightarrow> nat \<Rightarrow> goto" where
  "http_states_4 w p cs =
     (if cs = 17 then
        (if p = 10 then St 13 else St 0)
      else if cs = 348 then
        (switch p [(33, St 14), (58, Tr 27), (124, St 14), (126, St 14)]
          (if p < 42 then
          (if p < 10 then (if 1 \<le> p \<and> p \<le> 8 then St 14 else St 0)
          else if p > 31 then (if 35 \<le> p \<and> p \<le> 39 then St 14 else St 0) else St 14)
        else if p > 43 then
            (if p < 48 then (if 45 \<le> p \<and> p \<le> 46 then St 14 else St 0)
            else if p > 57 then
                (if p > 90 then (if 94 \<le> p \<and> p \<le> 122 then St 14 else St 0)
                else if p \<ge> 65 then St 14 else St 0) else St 14) else St 14))
      else if cs = 18 then
        (switch p [(10, Tr 36), (33, St 14), (58, Tr 27), (124, St 14), (126, St 14)]
          (if p < 42 then
          (if p < 11 then (if 1 \<le> p \<and> p \<le> 8 then St 14 else St 0)
          else if p > 31 then (if 35 \<le> p \<and> p \<le> 39 then St 14 else St 0) else St 14)
        else if p > 43 then
            (if p < 48 then (if 45 \<le> p \<and> p \<le> 46 then St 14 else St 0)
            else if p > 57 then
                (if p > 90 then (if 94 \<le> p \<and> p \<le> 122 then St 14 else St 0)
                else if p \<ge> 65 then St 14 else St 0) else St 14) else St 14))
      else St 0)"

definition http_actions_5 :: "(nat \<times> http_action list \<times> nat \<times> bool) list" where
  "http_actions_5 =
     [(7, ([Mark], 19, False))]"

definition http_states_5 :: "int \<Rightarrow> int \<Rightarrow> nat \<Rightarrow> goto" where
  "http_states_5 w p cs =
     (if cs = 19 then
        (switch w [(32, Tr 37), (33, St 19), (35, Tr 39), (37, St 24), (47, St 26), (59, St 19), (61, St 19),
           (63, Tr 42), (95, St 19), (126, St 19), (606, St 19), (635, St 19), (637, St 19)]
          (if w < 64 then (if 36 \<le> w \<and> w \<le> 57 then St 19 else St 0)
        else if w > 90 then (if 97 \<le> w \<and> w \<le> 122 then St 19 else St 0) else St 19))
      else St 0)"

definition http_actions_6 :: "(nat \<times> http_action list \<times> nat \<times> bool) list" where
  "http_actions_6 =
     [(8, ([Mark, Request_path, Request_uri], 20, False)),
      (39, ([Request_path, Request_uri], 20, False)),
      (55, ([Start_query, Query_string, Request_uri], 20, False)),
      (59, ([Query_string, Request_uri], 20, False))]"

definition http_states_6 :: "int \<Rightarrow> int \<Rightarrow> nat \<Rightarrow> goto" where
  "http_states_6 w p cs =
     (if cs = 20 then
        (switch w [(32, Tr 44), (33, Tr 43), (37, Tr 45), (61, Tr 43), (95, Tr 43), (124, Tr 43), (126, Tr 43),
           (606, Tr 43), (635, Tr 43), (637, Tr 43)]
          (if w < 36 then (if w \<le> -1 then Tr 43 else St 0)
        else if w > 59 then
            (if w > 90 then (if 97 \<le> w \<and> w \<le> 122 then Tr 43 else St 0)
            else if w \<ge> 63 then Tr 43 else St 0) else Tr 43))
      else St 0)"

definition http_actions_7 :: "(nat \<times> http_action list \<times> nat \<times> bool) list" where
  "http_actions_7 =
     [(43, ([Mark], 21, False)),
      (45, ([Mark], 22, False)),
      (9, ([Mark], 24, False))]"

definition http_states_7 :: "int \<Rightarrow> int \<Rightarrow> nat \<Rightarrow> goto" where
  "http_states_7 w p cs =
     (if cs = 21 then
        (switch w [(32, Tr 47), (33, St 21), (37, St 22), (61, St 21), (95, St 21), (124, St 21), (126, St 21),
           (606, St 21), (635, St 21), (637, St 21)]
          (if w < 36 then (if w \<le> -1 then St 21 else St 0)
        else if w > 59 then
            (if w > 90 then (if 97 \<le> w \<and> w \<le> 122 then St 21 else St 0)
            else if w \<ge> 63 then St 21 else St 0) else St 21))
      else if cs = 22 then
        (if p < 65 then (if 48 \<le> p \<and> p \<le> 57 then St 23 else St 0)
        else if p > 70 then (if 97 \<le> p \<and> p \<le> 102 then St 23 else St 0) else St 23)
      else if cs = 23 then
        (if p < 65 then (if 48 \<le> p \<and> p \<le> 57 then St 21 else St 0)
        else if p > 70 then (if 97 \<le> p \<and> p \<le> 102 then St 21 else St 0) else St 21)
      else if cs = 24 then
        (if p < 65 then (if 48 \<le> p \<and> p \<le> 57 then St 25 else St 0)
        else if p > 70 then (if 97 \<le> p \<and> p \<le> 102 then St 25 else St 0) else St 25)
      else if cs = 25 then
        (if p < 65 then (if 48 \<le> p \<and> p \<le> 57 then St 19 else St 0)
        else if p > 70 then (if 97 \<le> p \<and> p \<le> 102 then St 19 else St 0) else St 19)
      else St 0)"

definition http_actions_8 :: "(nat \<times> http_action list \<times> nat \<times> bool) list" where
  "http_actions_8 =
     [(203, ([Mark], 26, False)),
      (204, ([Mark], 27, False))]"

definition http_states_8 :: "int \<Rightarrow> int \<Rightarrow> nat \<Rightarrow> goto" where
  "http_states_8 w p cs =
     (if cs = 26 then
        (switch w [(32, Tr 37), (33, St 26), (35, Tr 39), (37, St 27), (61, St 26), (63, Tr 42), (95, St 26),
           (126, St 26), (606, St 26), (635, St 26), (637, St 26)]
          (if w < 36 then (if w \<le> -1 then St 26 else St 0)
        else if w > 59 then
            (if w > 90 then (if 97 \<le> w \<and> w \<le> 122 then St 26 else St 0)
            else if w \<ge> 64 then St 26 else St 0) else St 26))
      else if cs = 27 then
        (if p < 65 then (if 48 \<le> p \<and> p \<le> 57 then St 28 else St 0)
        else if p > 70 then (if 97 \<le> p \<and> p \<le> 102 then St 28 else St 0) else St 28)
      else if cs = 28 then
        (if p < 65 then (if 48 \<le> p \<and> p \<le> 57 then St 26 else St 0)
        else if p > 70 then (if 97 \<le> p \<and> p \<le> 102 then St 26 else St 0) else St 26)
      else St 0)"

definition http_actions_9 :: "(nat \<times> http_action list \<times> nat \<times> bool) list" where
  "http_actions_9 =
     [(11, ([Mark, Request_path], 29, False)),
      (42, ([Request_path], 29, False)),
      (53, ([Start_query], 30, False)),
      (56, ([Start_query], 31, False))]"

definition http_states_9 :: "int \<Rightarrow> int \<Rightarrow> nat \<Rightarrow> goto" where
  "http_states_9 w p cs =
     (if cs = 29 then
        (switch w [(32, Tr 54), (33, Tr 53), (35, Tr 55), (37, Tr 56), (61, Tr 53), (95, Tr 53), (124, Tr 53),
           (126, Tr 53), (606, Tr 53), (635, Tr 53), (637, Tr 53)]
          (if w < 36 then (if w \<le> -1 then Tr 53 else St 0)
        else if w > 59 then
            (if w > 90 then (if 97 \<le> w \<and> w \<le> 122 then Tr 53 else St 0)
            else if w \<ge> 63 then Tr 53 else St 0) else Tr 53))
      else if cs = 30 then
        (switch w [(32, Tr 58), (33, St 30), (35, Tr 59), (37, St 31), (61, St 30), (95, St 30), (124, St 30),
           (126, St 30), (606, St 30), (635, St 30), (637, St 30)]
          (if w < 36 then (if w \<le> -1 then St 30 else St 0)
        else if w > 59 then
            (if w > 90 then (if 97 \<le> w \<and> w \<le> 122 then St 30 else St 0)
            else if w \<ge> 63 then St 30 else St 0) else St 30))
      else if cs = 31 then
        (if p < 65 then (if 48 \<le> p \<and> p \<le> 57 then St 32 else St 0)
        else if p > 70 then (if 97 \<le> p \<and> p \<le> 102 then St 32 else St 0) else St 32)
      else St 0)"

definition http_actions_10 :: "(nat \<times> http_action list \<times> nat \<times> bool) list" where
  "http_actions_10 =
     [(10, ([Mark], 33, False))]"

definition http_states_10 :: "int \<Rightarrow> int \<Rightarrow> nat \<Rightarrow> goto" where
  "http_states_10 w p cs =
     (if cs = 32 then
        (if p < 65 then (if 48 \<le> p \<and> p \<le> 57 then St 30 else St 0)
        else if p > 70 then (if 97 \<le> p \<and> p \<le> 102 then St 30 else St 0) else St 30)
      else if cs = 33 then
        (switch w [(32, Tr 37), (33, St 26), (35, Tr 39), (37, St 27), (47, St 34), (61, St 26), (63, Tr 42),
           (95, St 26), (126, St 26), (606, St 26), (635, St 26), (637, St 26)]
          (if w < 36 then (if w \<le> -1 then St 26 else St 0)
        else if w > 59 then
            (if w > 90 then (if 97 \<le> w \<and> w \<le> 122 then St 26 else St 0)
            else if w \<ge> 64 then St 26 else St 0) else St 26))
      else if cs = 34 then
        (switch w [(32, Tr 37), (33, St 35), (35, Tr 39), (37, St 36), (47, St 26), (58, St 38), (61, St 35),
           (63, Tr 42), (64, St 42), (91, St 47), (95, St 35), (126, St 35), (606, St 35), (635, St 35),
           (637, St 35)]
          (if w < 65 then (if 36 \<le> w \<and> w \<le> 59 then St 35 else St 0)
        else if w > 90 then (if 97 \<le> w \<and> w \<le> 122 then St 35 else St 0) else St 35))
      else St 0)"

definition http_states_11 :: "int \<Rightarrow> int \<Rightarrow> nat \<Rightarrow> goto" where
  "http_states_11 w p cs =
     (if cs = 35 then
        (switch w [(32, Tr 37), (33, St 35), (35, Tr 39), (37, St 36), (47, St 26), (58, St 38), (61, St 35),
           (63, Tr 42), (64, St 42), (95, St 35), (126, St 35), (606, St 35), (635, St 35),
           (637, St 35)]
          (if w < 65 then (if 36 \<le> w \<and> w \<le> 59 then St 35 else St 0)
        else if w > 90 then (if 97 \<le> w \<and> w \<le> 122 then St 35 else St 0) else St 35))
      else if cs = 36 then
        (if p < 65 then (if 48 \<le> p \<and> p \<le> 57 then St 37 else St 0)
        else if p > 70 then (if 97 \<le> p \<and> p \<le> 102 then St 37 else St 0) else St 37)
      else if cs = 37 then
        (if p < 65 then (if 48 \<le> p \<and> p \<le> 57 then St 35 else St 0)
        else if p > 70 then (if 97 \<le> p \<and> p \<le> 102 then St 35 else St 0) else St 35)
      else if cs = 38 then
        (switch w [(32, Tr 37), (33, St 39), (35, Tr 39), (37, St 40), (47, St 26), (61, St 39), (63, Tr 42),
           (64, St 42), (95, St 39), (126, St 39), (606, St 39), (635, St 39), (637, St 39)]
          (if w < 58 then
          (if w > 46 then (if 48 \<le> w \<and> w \<le> 57 then St 38 else St 0)
          else if w \<ge> 36 then St 39 else St 0)
        else if w > 59 then
            (if w > 90 then (if 97 \<le> w \<and> w \<le> 122 then St 39 else St 0)
            else if w \<ge> 65 then St 39 else St 0) else St 39))
      else St 0)"

definition http_states_12 :: "int \<Rightarrow> int \<Rightarrow> nat \<Rightarrow> goto" where
  "http_states_12 w p cs =
     (if cs = 39 then
        (switch w [(33, St 39), (37, St 40), (61, St 39), (64, St 42), (95, St 39), (126, St 39), (606, St 39),
           (635, St 39), (637, St 39)]
          (if w < 48 then (if 36 \<le> w \<and> w \<le> 46 then St 39 else St 0)
        else if w > 59 then
            (if w > 90 then (if 97 \<le> w \<and> w \<le> 122 then St 39 else St 0)
            else if w \<ge> 65 then St 39 else St 0) else St 39))
      else if cs = 40 then
        (if p < 65 then (if 48 \<le> p \<and> p \<le> 57 then St 41 else St 0)
        else if p > 70 then (if 97 \<le> p \<and> p \<le> 102 then St 41 else St 0) else St 41)
      else if cs = 41 then
        (if p < 65 then (if 48 \<le> p \<and> p \<le> 57 then St 39 else St 0)
        else if p > 70 then (if 97 \<le> p \<and> p \<le> 102 then St 39 else St 0) else St 39)
      else if cs = 42 then
        (switch w [(32, Tr 37), (33, St 43), (35, Tr 39), (37, St 44), (47, St 26), (58, St 46), (61, St 43),
           (63, Tr 42), (91, St 47), (95, St 43), (126, St 43), (606, St 43), (635, St 43),
           (637, St 43)]
          (if w < 65 then (if 36 \<le> w \<and> w \<le> 59 then St 43 else St 0)
        else if w > 90 then (if 97 \<le> w \<and> w \<le> 122 then St 43 else St 0) else St 43))
      else St 0)"

definition http_states_13 :: "int \<Rightarrow> int \<Rightarrow> nat \<Rightarrow> goto" where
  "http_states_13 w p cs =
     (if cs = 43 then
        (switch w [(32, Tr 37), (33, St 43), (35, Tr 39), (37, St 44), (47, St 26), (58, St 46), (61, St 43),
           (63, Tr 42), (95, St 43), (126, St 43), (606, St 43), (635, St 43), (637, St 43)]
          (if w < 65 then (if 36 \<le> w \<and> w \<le> 59 then St 43 else St 0)
        else if w > 90 then (if 97 \<le> w \<and> w \<le> 122 then St 43 else St 0) else St 43))
      else if cs = 44 then
        (if p < 65 then (if 48 \<le> p \<and> p \<le> 57 then St 45 else St 0)
        else if p > 70 then (if 97 \<le> p \<and> p \<le> 102 then St 45 else St 0) else St 45)
      else if cs = 45 then
        (if p < 65 then (if 48 \<le> p \<and> p \<le> 57 then St 43 else St 0)
        else if p > 70 then (if 97 \<le> p \<and> p \<le> 102 then St 43 else St 0) else St 43)
      else if cs = 46 then
        (switch p [(32, Tr 37), (35, Tr 39), (47, St 26), (63, Tr 42)]
          (if 48 \<le> p \<and> p \<le> 57 then St 46 else St 0))
      else if cs = 47 then
        (switch p [(6, St 48), (58, St 167), (118, St 169)]
          (if p < 65 then (if 48 \<le> p \<and> p \<le> 57 then St 91 else St 0)
        else if p > 70 then (if 97 \<le> p \<and> p \<le> 102 then St 91 else St 0) else St 91))
      else if cs = 48 then
        (if p < 65 then (if 48 \<le> p \<and> p \<le> 57 then St 49 else St 0)
        else if p > 70 then (if 97 \<le> p \<and> p \<le> 102 then St 49 else St 0) else St 49)
      else if cs = 49 then
        (if p = 58 then St 53
        else if p < 65 then (if 48 \<le> p \<and> p \<le> 57 then St 50 else St 0)
        else if p > 70 then (if 97 \<le> p \<and> p \<le> 102 then St 50 else St 0) else St 50)
      else if cs = 50 then
        (if p = 58 then St 53
        else if p < 65 then (if 48 \<le> p \<and> p \<le> 57 then St 51 else St 0)
        else if p > 70 then (if 97 \<le> p \<and> p \<le> 102 then St 51 else St 0) else St 51)
      else St 0)"

definition http_states_14 :: "int \<Rightarrow> int \<Rightarrow> nat \<Rightarrow> goto" where
  "http_states_14 w p cs =
     (if cs = 51 then
        (if p = 58 then St 53
        else if p < 65 then (if 48 \<le> p \<and> p \<le> 57 then St 52 else St 0)
        else if p > 70 then (if 97 \<le> p \<and> p \<le> 102 then St 52 else St 0) else St 52)
      else if cs = 52 then
        (if p = 58 then St 53 else St 0)
      else if cs = 53 then
        (switch p [(49, St 84), (50, St 87)]
          (if p < 65 then (if 48 \<le> p \<and> p \<le> 57 then St 54 else St 0)
        else if p > 70 then (if 97 \<le> p \<and> p \<le> 102 then St 90 else St 0) else St 90))
      else if cs = 54 then
        (switch p [(46, St 55), (58, St 80)]
          (if p < 65 then (if 48 \<le> p \<and> p \<le> 57 then St 77 else St 0)
        else if p > 70 then (if 97 \<le> p \<and> p \<le> 102 then St 77 else St 0) else St 77))
      else if cs = 55 then
        (switch p [(49, St 72), (50, St 74)]
          (if 48 \<le> p \<and> p \<le> 57 then St 56 else St 0))
      else if cs = 56 then
        (if p = 46 then St 57 else St 0)
      else if cs = 57 then
        (switch p [(49, St 67), (50, St 69)]
          (if 48 \<le> p \<and> p \<le> 57 then St 58 else St 0))
      else if cs = 58 then
        (if p = 46 then St 59 else St 0)
      else if cs = 59 then
        (switch p [(49, St 62), (50, St 64)]
          (if 48 \<le> p \<and> p \<le> 57 then St 60 else St 0))
      else if cs = 60 then
        (if p = 93 then St 61 else St 0)
      else if cs = 61 then
        (switch p [(32, Tr 37), (35, Tr 39), (47, St 26), (58, St 46), (63, Tr 42)]
          (St 0))
      else if cs = 62 then
        (if p = 93 then St 61
        else if 48 \<le> p \<and> p \<le> 57 then St 63 else St 0)
      else if cs = 63 then
        (if p = 93 then St 61
        else if 48 \<le> p \<and> p \<le> 57 then St 60 else St 0)
      else if cs = 64 then
        (switch p [(48, St 65), (53, St 66), (93, St 61)]
          (St 0))
      else St 0)"

definition http_states_15 :: "int \<Rightarrow> int \<Rightarrow> nat \<Rightarrow> goto" where
  "http_states_15 w p cs =
     (if cs = 65 then
        (if 48 \<le> p \<and> p \<le> 57 then St 60 else St 0)
      else if cs = 66 then
        (if p = 48 then St 60 else St 0)
      else if cs = 67 then
        (if p = 46 then St 59
        else if 48 \<le> p \<and> p \<le> 57 then St 68 else St 0)
      else if cs = 68 then
        (if p = 46 then St 59
        else if 48 \<le> p \<and> p \<le> 57 then St 58 else St 0)
      else if cs = 69 then
        (switch p [(46, St 59), (48, St 70), (53, St 71)]
          (St 0))
      else if cs = 70 then
        (if 48 \<le> p \<and> p \<le> 57 then St 58 else St 0)
      else if cs = 71 then
        (if p = 48 then St 58 else St 0)
      else if cs = 72 then
        (if p = 46 then St 57
        else if 48 \<le> p \<and> p \<le> 57 then St 73 else St 0)
      else if cs = 73 then
        (if p = 46 then St 57
        else if 48 \<le> p \<and> p \<le> 57 then St 56 else St 0)
      else if cs = 74 then
        (switch p [(46, St 57), (48, St 75), (53, St 76)]
          (St 0))
      else if cs = 75 then
        (if 48 \<le> p \<and> p \<le> 57 then St 56 else St 0)
      else if cs = 76 then
        (if p = 48 then St 56 else St 0)
      else if cs = 77 then
        (if p = 58 then St 80
        else if p < 65 then (if 48 \<le> p \<and> p \<le> 57 then St 78 else St 0)
        else if p > 70 then (if 97 \<le> p \<and> p \<le> 102 then St 78 else St 0) else St 78)
      else if cs = 78 then
        (if p = 58 then St 80
        else if p < 65 then (if 48 \<le> p \<and> p \<le> 57 then St 79 else St 0)
        else if p > 70 then (if 97 \<le> p \<and> p \<le> 102 then St 79 else St 0) else St 79)
      else if cs = 79 then
        (if p = 58 then St 80 else St 0)
      else if cs = 80 then
        (if p < 65 then (if 48 \<le> p \<and> p \<le> 57 then St 81 else St 0)
        else if p > 70 then (if 97 \<le> p \<and> p \<le> 102 then St 81 else St 0) else St 81)
      else St 0)"

definition http_states_16 :: "int \<Rightarrow> int \<Rightarrow> nat \<Rightarrow> goto" where
  "http_states_16 w p cs =
     (if cs = 81 then
        (if p = 93 then St 61
        else if p < 65 then (if 48 \<le> p \<and> p \<le> 57 then St 82 else St 0)
        else if p > 70 then (if 97 \<le> p \<and> p \<le> 102 then St 82 else St 0) else St 82)
      else if cs = 82 then
        (if p = 93 then St 61
        else if p < 65 then (if 48 \<le> p \<and> p \<le> 57 then St 83 else St 0)
        else if p > 70 then (if 97 \<le> p \<and> p \<le> 102 then St 83 else St 0) else St 83)
      else if cs = 83 then
        (if p = 93 then St 61
        else if p < 65 then (if 48 \<le> p \<and> p \<le> 57 then St 60 else St 0)
        else if p > 70 then (if 97 \<le> p \<and> p \<le> 102 then St 60 else St 0) else St 60)
      else if cs = 84 then
        (switch p [(46, St 55), (58, St 80)]
          (if p < 65 then (if 48 \<le> p \<and> p \<le> 57 then St 85 else St 0)
        else if p > 70 then (if 97 \<le> p \<and> p \<le> 102 then St 77 else St 0) else St 77))
      else if cs = 85 then
        (switch p [(46, St 55), (58, St 80)]
          (if p < 65 then (if 48 \<le> p \<and> p \<le> 57 then St 86 else St 0)
        else if p > 70 then (if 97 \<le> p \<and> p \<le> 102 then St 78 else St 0) else St 78))
      else if cs = 86 then
        (switch p [(46, St 55), (58, St 80)]
          (if p < 65 then (if 48 \<le> p \<and> p \<le> 57 then St 79 else St 0)
        else if p > 70 then (if 97 \<le> p \<and> p \<le> 102 then St 79 else St 0) else St 79))
      else if cs = 87 then
        (switch p [(46, St 55), (48, St 88), (53, St 89), (58, St 80)]
          (if p < 65 then (if 49 \<le> p \<and> p \<le> 57 then St 77 else St 0)
        else if p > 70 then (if 97 \<le> p \<and> p \<le> 102 then St 77 else St 0) else St 77))
      else if cs = 88 then
        (if p = 58 then St 80
        else if p < 65 then (if 48 \<le> p \<and> p \<le> 57 then St 86 else St 0)
        else if p > 70 then (if 97 \<le> p \<and> p \<le> 102 then St 78 else St 0) else St 78)
      else if cs = 89 then
        (switch p [(48, St 86), (58, St 80)]
          (if p < 65 then (if 49 \<le> p \<and> p \<le> 57 then St 78 else St 0)
        else if p > 70 then (if 97 \<le> p \<and> p \<le> 102 then St 78 else St 0) else St 78))
      else St 0)"

definition http_states_17 :: "int \<Rightarrow> int \<Rightarrow> nat \<Rightarrow> goto" where
  "http_states_17 w p cs =
     (if cs = 90 then
        (if p = 58 then St 80
        else if p < 65 then (if 48 \<le> p \<and> p \<le> 57 then St 77 else St 0)
        else if p > 70 then (if 97 \<le> p \<and> p \<le> 102 then St 77 else St 0) else St 77)
      else if cs = 91 then
        (if p = 58 then St 95
        else if p < 65 then (if 48 \<le> p \<and> p \<le> 57 then St 92 else St 0)
        else if p > 70 then (if 97 \<le> p \<and> p \<le> 102 then St 92 else St 0) else St 92)
      else if cs = 92 then
        (if p = 58 then St 95
        else if p < 65 then (if 48 \<le> p \<and> p \<le> 57 then St 93 else St 0)
        else if p > 70 then (if 97 \<le> p \<and> p \<le> 102 then St 93 else St 0) else St 93)
      else if cs = 93 then
        (if p = 58 then St 95
        else if p < 65 then (if 48 \<le> p \<and> p \<le> 57 then St 94 else St 0)
        else if p > 70 then (if 97 \<le> p \<and> p \<le> 102 then St 94 else St 0) else St 94)
      else if cs = 94 then
        (if p = 58 then St 95 else St 0)
      else if cs = 95 then
        (if p = 58 then St 166
        else if p < 65 then (if 48 \<le> p \<and> p \<le> 57 then St 96 else St 0)
        else if p > 70 then (if 97 \<le> p \<and> p \<le> 102 then St 96 else St 0) else St 96)
      else if cs = 96 then
        (if p = 58 then St 100
        else if p < 65 then (if 48 \<le> p \<and> p \<le> 57 then St 97 else St 0)
        else if p > 70 then (if 97 \<le> p \<and> p \<le> 102 then St 97 else St 0) else St 97)
      else if cs = 97 then
        (if p = 58 then St 100
        else if p < 65 then (if 48 \<le> p \<and> p \<le> 57 then St 98 else St 0)
        else if p > 70 then (if 97 \<le> p \<and> p \<le> 102 then St 98 else St 0) else St 98)
      else if cs = 98 then
        (if p = 58 then St 100
        else if p < 65 then (if 48 \<le> p \<and> p \<le> 57 then St 99 else St 0)
        else if p > 70 then (if 97 \<le> p \<and> p \<le> 102 then St 99 else St 0) else St 99)
      else if cs = 99 then
        (if p = 58 then St 100 else St 0)
      else if cs = 100 then
        (if p = 58 then St 165
        else if p < 65 then (if 48 \<le> p \<and> p \<le> 57 then St 101 else St 0)
        else if p > 70 then (if 97 \<le> p \<and> p \<le> 102 then St 101 else St 0) else St 101)
      else St 0)"

definition http_states_18 :: "int \<Rightarrow> int \<Rightarrow> nat \<Rightarrow> goto" where
  "http_states_18 w p cs =
     (if cs = 101 then
        (if p = 58 then St 105
        else if p < 65 then (if 48 \<le> p \<and> p \<le> 57 then St 102 else St 0)
        else if p > 70 then (if 97 \<le> p \<and> p \<le> 102 then St 102 else St 0) else St 102)
      else if cs = 102 then
        (if p = 58 then St 105
        else if p < 65 then (if 48 \<le> p \<and> p \<le> 57 then St 103 else St 0)
        else if p > 70 then (if 97 \<le> p \<and> p \<le> 102 then St 103 else St 0) else St 103)
      else if cs = 103 then
        (if p = 58 then St 105
        else if p < 65 then (if 48 \<le> p \<and> p \<le> 57 then St 104 else St 0)
        else if p > 70 then (if 97 \<le> p \<and> p \<le> 102 then St 104 else St 0) else St 104)
      else if cs = 104 then
        (if p = 58 then St 105 else St 0)
      else if cs = 105 then
        (if p = 58 then St 164
        else if p < 65 then (if 48 \<le> p \<and> p \<le> 57 then St 106 else St 0)
        else if p > 70 then (if 97 \<le> p \<and> p \<le> 102 then St 106 else St 0) else St 106)
      else if cs = 106 then
        (if p = 58 then St 110
        else if p < 65 then (if 48 \<le> p \<and> p \<le> 57 then St 107 else St 0)
        else if p > 70 then (if 97 \<le> p \<and> p \<le> 102 then St 107 else St 0) else St 107)
      else if cs = 107 then
        (if p = 58 then St 110
        else if p < 65 then (if 48 \<le> p \<and> p \<le> 57 then St 108 else St 0)
        else if p > 70 then (if 97 \<le> p \<and> p \<le> 102 then St 108 else St 0) else St 108)
      else if cs = 108 then
        (if p = 58 then St 110
        else if p < 65 then (if 48 \<le> p \<and> p \<le> 57 then St 109 else St 0)
        else if p > 70 then (if 97 \<le> p \<and> p \<le> 102 then St 109 else St 0) else St 109)
      else if cs = 109 then
        (if p = 58 then St 110 else St 0)
      else if cs = 110 then
        (if p = 58 then St 163
        else if p < 65 then (if 48 \<le> p \<and> p \<le> 57 then St 111 else St 0)
        else if p > 70 then (if 97 \<le> p \<and> p \<le> 102 then St 111 else St 0) else St 111)
      else if cs = 111 then
        (if p = 58 then St 115
        else if p < 65 then (if 48 \<le> p \<and> p \<le> 57 then St 112 else St 0)
        else if p > 70 then (if 97 \<le> p \<and> p \<le> 102 then St 112 else St 0) else St 112)
      else St 0)"

definition http_states_19 :: "int \<Rightarrow> int \<Rightarrow> nat \<Rightarrow> goto" where
  "http_states_19 w p cs =
     (if cs = 112 then
        (if p = 58 then St 115
        else if p < 65 then (if 48 \<le> p \<and> p \<le> 57 then St 113 else St 0)
        else if p > 70 then (if 97 \<le> p \<and> p \<le> 102 then St 113 else St 0) else St 113)
      else if cs = 113 then
        (if p = 58 then St 115
        else if p < 65 then (if 48 \<le> p \<and> p \<le> 57 then St 114 else St 0)
        else if p > 70 then (if 97 \<le> p \<and> p \<le> 102 then St 114 else St 0) else St 114)
      else if cs = 114 then
        (if p = 58 then St 115 else St 0)
      else if cs = 115 then
        (if p = 58 then St 151
        else if p < 65 then (if 48 \<le> p \<and> p \<le> 57 then St 116 else St 0)
        else if p > 70 then (if 97 \<le> p \<and> p \<le> 102 then St 116 else St 0) else St 116)
      else if cs = 116 then
        (if p = 58 then St 120
        else if p < 65 then (if 48 \<le> p \<and> p \<le> 57 then St 117 else St 0)
        else if p > 70 then (if 97 \<le> p \<and> p \<le> 102 then St 117 else St 0) else St 117)
      else if cs = 117 then
        (if p = 58 then St 120
        else if p < 65 then (if 48 \<le> p \<and> p \<le> 57 then St 118 else St 0)
        else if p > 70 then (if 97 \<le> p \<and> p \<le> 102 then St 118 else St 0) else St 118)
      else if cs = 118 then
        (if p = 58 then St 120
        else if p < 65 then (if 48 \<le> p \<and> p \<le> 57 then St 119 else St 0)
        else if p > 70 then (if 97 \<le> p \<and> p \<le> 102 then St 119 else St 0) else St 119)
      else if cs = 119 then
        (if p = 58 then St 120 else St 0)
      else if cs = 120 then
        (if p = 58 then St 150
        else if p < 65 then (if 48 \<le> p \<and> p \<le> 57 then St 121 else St 0)
        else if p > 70 then (if 97 \<le> p \<and> p \<le> 102 then St 121 else St 0) else St 121)
      else if cs = 121 then
        (if p = 58 then St 125
        else if p < 65 then (if 48 \<le> p \<and> p \<le> 57 then St 122 else St 0)
        else if p > 70 then (if 97 \<le> p \<and> p \<le> 102 then St 122 else St 0) else St 122)
      else if cs = 122 then
        (if p = 58 then St 125
        else if p < 65 then (if 48 \<le> p \<and> p \<le> 57 then St 123 else St 0)
        else if p > 70 then (if 97 \<le> p \<and> p \<le> 102 then St 123 else St 0) else St 123)
      else St 0)"

definition http_states_20 :: "int \<Rightarrow> int \<Rightarrow> nat \<Rightarrow> goto" where
  "http_states_20 w p cs =
     (if cs = 123 then
        (if p = 58 then St 125
        else if p < 65 then (if 48 \<le> p \<and> p \<le> 57 then St 124 else St 0)
        else if p > 70 then (if 97 \<le> p \<and> p \<le> 102 then St 124 else St 0) else St 124)
      else if cs = 124 then
        (if p = 58 then St 125 else St 0)
      else if cs = 125 then
        (if p = 58 then St 126
        else if p < 65 then (if 48 \<le> p \<and> p \<le> 57 then St 121 else St 0)
        else if p > 70 then (if 97 \<le> p \<and> p \<le> 102 then St 121 else St 0) else St 121)
      else if cs = 126 then
        (switch p [(49, St 143), (50, St 146), (93, St 61)]
          (if p < 48 then (if 2 \<le> p \<and> p \<le> 3 then St 48 else St 0)
        else if p > 57 then
            (if p > 70 then (if 97 \<le> p \<and> p \<le> 102 then St 149 else St 0)
            else if p \<ge> 65 then St 149 else St 0) else St 127))
      else if cs = 127 then
        (switch p [(46, St 55), (58, St 131), (93, St 61)]
          (if p < 65 then (if 48 \<le> p \<and> p \<le> 57 then St 128 else St 0)
        else if p > 70 then (if 97 \<le> p \<and> p \<le> 102 then St 128 else St 0) else St 128))
      else if cs = 128 then
        (switch p [(58, St 131), (93, St 61)]
          (if p < 65 then (if 48 \<le> p \<and> p \<le> 57 then St 129 else St 0)
        else if p > 70 then (if 97 \<le> p \<and> p \<le> 102 then St 129 else St 0) else St 129))
      else if cs = 129 then
        (switch p [(58, St 131), (93, St 61)]
          (if p < 65 then (if 48 \<le> p \<and> p \<le> 57 then St 130 else St 0)
        else if p > 70 then (if 97 \<le> p \<and> p \<le> 102 then St 130 else St 0) else St 130))
      else if cs = 130 then
        (switch p [(58, St 131), (93, St 61)]
          (St 0))
      else if cs = 131 then
        (switch p [(49, St 136), (50, St 139)]
          (if p < 65 then (if 48 \<le> p \<and> p \<le> 57 then St 132 else St 0)
        else if p > 70 then (if 97 \<le> p \<and> p \<le> 102 then St 142 else St 0) else St 142))
      else St 0)"

definition http_states_21 :: "int \<Rightarrow> int \<Rightarrow> nat \<Rightarrow> goto" where
  "http_states_21 w p cs =
     (if cs = 132 then
        (switch p [(46, St 55), (58, St 80), (93, St 61)]
          (if p < 65 then (if 48 \<le> p \<and> p \<le> 57 then St 133 else St 0)
        else if p > 70 then (if 97 \<le> p \<and> p \<le> 102 then St 133 else St 0) else St 133))
      else if cs = 133 then
        (switch p [(58, St 80), (93, St 61)]
          (if p < 65 then (if 48 \<le> p \<and> p \<le> 57 then St 134 else St 0)
        else if p > 70 then (if 97 \<le> p \<and> p \<le> 102 then St 134 else St 0) else St 134))
      else if cs = 134 then
        (switch p [(58, St 80), (93, St 61)]
          (if p < 65 then (if 48 \<le> p \<and> p \<le> 57 then St 135 else St 0)
        else if p > 70 then (if 97 \<le> p \<and> p \<le> 102 then St 135 else St 0) else St 135))
      else if cs = 135 then
        (switch p [(58, St 80), (93, St 61)]
          (St 0))
      else if cs = 136 then
        (switch p [(46, St 55), (58, St 80), (93, St 61)]
          (if p < 65 then (if 48 \<le> p \<and> p \<le> 57 then St 137 else St 0)
        else if p > 70 then (if 97 \<le> p \<and> p \<le> 102 then St 133 else St 0) else St 133))
      else if cs = 137 then
        (switch p [(46, St 55), (58, St 80), (93, St 61)]
          (if p < 65 then (if 48 \<le> p \<and> p \<le> 57 then St 138 else St 0)
        else if p > 70 then (if 97 \<le> p \<and> p \<le> 102 then St 134 else St 0) else St 134))
      else if cs = 138 then
        (switch p [(46, St 55), (58, St 80), (93, St 61)]
          (if p < 65 then (if 48 \<le> p \<and> p \<le> 57 then St 135 else St 0)
        else if p > 70 then (if 97 \<le> p \<and> p \<le> 102 then St 135 else St 0) else St 135))
      else if cs = 139 then
        (switch p [(46, St 55), (48, St 140), (53, St 141), (58, St 80), (93, St 61)]
          (if p < 65 then (if 49 \<le> p \<and> p \<le> 57 then St 133 else St 0)
        else if p > 70 then (if 97 \<le> p \<and> p \<le> 102 then St 133 else St 0) else St 133))
      else St 0)"

definition http_states_22 :: "int \<Rightarrow> int \<Rightarrow> nat \<Rightarrow> goto" where
  "http_states_22 w p cs =
     (if cs = 140 then
        (switch p [(58, St 80), (93, St 61)]
          (if p < 65 then (if 48 \<le> p \<and> p \<le> 57 then St 138 else St 0)
        else if p > 70 then (if 97 \<le> p \<and> p \<le> 102 then St 134 else St 0) else St 134))
      else if cs = 141 then
        (switch p [(48, St 138), (58, St 80), (93, St 61)]
          (if p < 65 then (if 49 \<le> p \<and> p \<le> 57 then St 134 else St 0)
        else if p > 70 then (if 97 \<le> p \<and> p \<le> 102 then St 134 else St 0) else St 134))
      else if cs = 142 then
        (switch p [(58, St 80), (93, St 61)]
          (if p < 65 then (if 48 \<le> p \<and> p \<le> 57 then St 133 else St 0)
        else if p > 70 then (if 97 \<le> p \<and> p \<le> 102 then St 133 else St 0) else St 133))
      else if cs = 143 then
        (switch p [(46, St 55), (58, St 131), (93, St 61)]
          (if p < 65 then (if 48 \<le> p \<and> p \<le> 57 then St 144 else St 0)
        else if p > 70 then (if 97 \<le> p \<and> p \<le> 102 then St 128 else St 0) else St 128))
      else if cs = 144 then
        (switch p [(46, St 55), (58, St 131), (93, St 61)]
          (if p < 65 then (if 48 \<le> p \<and> p \<le> 57 then St 145 else St 0)
        else if p > 70 then (if 97 \<le> p \<and> p \<le> 102 then St 129 else St 0) else St 129))
      else if cs = 145 then
        (switch p [(46, St 55), (58, St 131), (93, St 61)]
          (if p < 65 then (if 48 \<le> p \<and> p \<le> 57 then St 130 else St 0)
        else if p > 70 then (if 97 \<le> p \<and> p \<le> 102 then St 130 else St 0) else St 130))
      else if cs = 146 then
        (switch p [(46, St 55), (48, St 147), (53, St 148), (58, St 131), (93, St 61)]
          (if p < 65 then (if 49 \<le> p \<and> p \<le> 57 then St 128 else St 0)
        else if p > 70 then (if 97 \<le> p \<and> p \<le> 102 then St 128 else St 0) else St 128))
      else if cs = 147 then
        (switch p [(58, St 131), (93, St 61)]
          (if p < 65 then (if 48 \<le> p \<and> p \<le> 57 then St 145 else St 0)
        else if p > 70 then (if 97 \<le> p \<and> p \<le> 102 then St 129 else St 0) else St 129))
      else St 0)"

definition http_states_23 :: "int \<Rightarrow> int \<Rightarrow> nat \<Rightarrow> goto" where
  "http_states_23 w p cs =
     (if cs = 148 then
        (switch p [(48, St 145), (58, St 131), (93, St 61)]
          (if p < 65 then (if 49 \<le> p \<and> p \<le> 57 then St 129 else St 0)
        else if p > 70 then (if 97 \<le> p \<and> p \<le> 102 then St 129 else St 0) else St 129))
      else if cs = 149 then
        (switch p [(58, St 131), (93, St 61)]
          (if p < 65 then (if 48 \<le> p \<and> p \<le> 57 then St 128 else St 0)
        else if p > 70 then (if 97 \<le> p \<and> p \<le> 102 then St 128 else St 0) else St 128))
      else if cs = 150 then
        (switch p [(49, St 143), (50, St 146)]
          (if p < 48 then (if 2 \<le> p \<and> p \<le> 3 then St 48 else St 0)
        else if p > 57 then
            (if p > 70 then (if 97 \<le> p \<and> p \<le> 102 then St 149 else St 0)
            else if p \<ge> 65 then St 149 else St 0) else St 127))
      else if cs = 151 then
        (switch p [(49, St 156), (50, St 159)]
          (if p < 48 then (if 2 \<le> p \<and> p \<le> 3 then St 48 else St 0)
        else if p > 57 then
            (if p > 70 then (if 97 \<le> p \<and> p \<le> 102 then St 162 else St 0)
            else if p \<ge> 65 then St 162 else St 0) else St 152))
      else if cs = 152 then
        (switch p [(46, St 55), (58, St 131)]
          (if p < 65 then (if 48 \<le> p \<and> p \<le> 57 then St 153 else St 0)
        else if p > 70 then (if 97 \<le> p \<and> p \<le> 102 then St 153 else St 0) else St 153))
      else if cs = 153 then
        (if p = 58 then St 131
        else if p < 65 then (if 48 \<le> p \<and> p \<le> 57 then St 154 else St 0)
        else if p > 70 then (if 97 \<le> p \<and> p \<le> 102 then St 154 else St 0) else St 154)
      else if cs = 154 then
        (if p = 58 then St 131
        else if p < 65 then (if 48 \<le> p \<and> p \<le> 57 then St 155 else St 0)
        else if p > 70 then (if 97 \<le> p \<and> p \<le> 102 then St 155 else St 0) else St 155)
      else if cs = 155 then
        (if p = 58 then St 131 else St 0)
      else if cs = 156 then
        (switch p [(46, St 55), (58, St 131)]
          (if p < 65 then (if 48 \<le> p \<and> p \<le> 57 then St 157 else St 0)
        else if p > 70 then (if 97 \<le> p \<and> p \<le> 102 then St 153 else St 0) else St 153))
      else St 0)"

definition http_states_24 :: "int \<Rightarrow> int \<Rightarrow> nat \<Rightarrow> goto" where
  "http_states_24 w p cs =
     (if cs = 157 then
        (switch p [(46, St 55), (58, St 131)]
          (if p < 65 then (if 48 \<le> p \<and> p \<le> 57 then St 158 else St 0)
        else if p > 70 then (if 97 \<le> p \<and> p \<le> 102 then St 154 else St 0) else St 154))
      else if cs = 158 then
        (switch p [(46, St 55), (58, St 131)]
          (if p < 65 then (if 48 \<le> p \<and> p \<le> 57 then St 155 else St 0)
        else if p > 70 then (if 97 \<le> p \<and> p \<le> 102 then St 155 else St 0) else St 155))
      else if cs = 159 then
        (switch p [(46, St 55), (48, St 160), (53, St 161), (58, St 131)]
          (if p < 65 then (if 49 \<le> p \<and> p \<le> 57 then St 153 else St 0)
        else if p > 70 then (if 97 \<le> p \<and> p \<le> 102 then St 153 else St 0) else St 153))
      else if cs = 160 then
        (if p = 58 then St 131
        else if p < 65 then (if 48 \<le> p \<and> p \<le> 57 then St 158 else St 0)
        else if p > 70 then (if 97 \<le> p \<and> p \<le> 102 then St 154 else St 0) else St 154)
      else if cs = 161 then
        (switch p [(48, St 158), (58, St 131)]
          (if p < 65 then (if 49 \<le> p \<and> p \<le> 57 then St 154 else St 0)
        else if p > 70 then (if 97 \<le> p \<and> p \<le> 102 then St 154 else St 0) else St 154))
      else if cs = 162 then
        (if p = 58 then St 131
        else if p < 65 then (if 48 \<le> p \<and> p \<le> 57 then St 153 else St 0)
        else if p > 70 then (if 97 \<le> p \<and> p \<le> 102 then St 153 else St 0) else St 153)
      else if cs = 163 then
        (if p < 48 then (if 2 \<le> p \<and> p \<le> 3 then St 48 else St 0)
        else if p > 57 then
            (if p > 70 then (if 97 \<le> p \<and> p \<le> 102 then St 49 else St 0)
            else if p \<ge> 65 then St 49 else St 0) else St 49)
      else if cs = 164 then
        (if 2 \<le> p \<and> p \<le> 3 then St 48 else St 0)
      else if cs = 165 then
        (if p = 3 then St 48 else St 0)
      else if cs = 166 then
        (if p = 4 then St 48 else St 0)
      else if cs = 167 then
        (if p = 58 then St 168 else St 0)
      else St 0)"

definition http_states_25 :: "int \<Rightarrow> int \<Rightarrow> nat \<Rightarrow> goto" where
  "http_states_25 w p cs =
     (if cs = 168 then
        (switch p [(49, St 143), (50, St 146), (93, St 61)]
          (if p < 48 then (if 2 \<le> p \<and> p \<le> 5 then St 48 else St 0)
        else if p > 57 then
            (if p > 70 then (if 97 \<le> p \<and> p \<le> 102 then St 149 else St 0)
            else if p \<ge> 65 then St 149 else St 0) else St 127))
      else if cs = 169 then
        (if p < 65 then (if 48 \<le> p \<and> p \<le> 57 then St 170 else St 0)
        else if p > 70 then (if 97 \<le> p \<and> p \<le> 102 then St 170 else St 0) else St 170)
      else if cs = 170 then
        (if p = 46 then St 171
        else if p < 65 then (if 48 \<le> p \<and> p \<le> 57 then St 170 else St 0)
        else if p > 70 then (if 97 \<le> p \<and> p \<le> 102 then St 170 else St 0) else St 170)
      else if cs = 171 then
        (switch w [(33, St 172), (36, St 172), (61, St 172), (95, St 172), (126, St 172), (606, St 172),
           (635, St 172), (637, St 172)]
          (if w < 48 then (if 38 \<le> w \<and> w \<le> 46 then St 172 else St 0)
        else if w > 59 then
            (if w > 90 then (if 97 \<le> w \<and> w \<le> 122 then St 172 else St 0)
            else if w \<ge> 65 then St 172 else St 0) else St 172))
      else if cs = 172 then
        (switch w [(33, St 172), (36, St 172), (61, St 172), (93, St 61), (95, St 172), (126, St 172),
           (606, St 172), (635, St 172), (637, St 172)]
          (if w < 48 then (if 38 \<le> w \<and> w \<le> 46 then St 172 else St 0)
        else if w > 59 then
            (if w > 90 then (if 97 \<le> w \<and> w \<le> 122 then St 172 else St 0)
            else if w \<ge> 65 then St 172 else St 0) else St 172))
      else St 0)"

definition http_actions_26 :: "(nat \<times> http_action list \<times> nat \<times> bool) list" where
  "http_actions_26 =
     [(12, ([Mark], 173, False)),
      (202, ([Save_scheme], 174, False))]"

definition http_states_26 :: "int \<Rightarrow> int \<Rightarrow> nat \<Rightarrow> goto" where
  "http_states_26 w p cs =
     (if cs = 173 then
        (switch w [(32, Tr 37), (33, St 19), (35, Tr 39), (37, St 24), (43, St 173), (47, St 26), (58, Tr 202),
           (59, St 19), (61, St 19), (63, Tr 42), (64, St 19), (95, St 19), (126, St 19), (606, St 19),
           (635, St 19), (637, St 19)]
          (if w < 45 then (if 36 \<le> w \<and> w \<le> 44 then St 19 else St 0)
        else if w > 57 then
            (if w > 90 then (if 97 \<le> w \<and> w \<le> 122 then St 173 else St 0)
            else if w \<ge> 65 then St 173 else St 0) else St 173))
      else if cs = 174 then
        (switch w [(32, Tr 6), (33, Tr 203), (35, Tr 8), (37, Tr 204), (47, Tr 10), (61, Tr 203), (63, Tr 11),
           (95, Tr 203), (126, Tr 203), (606, Tr 203), (635, Tr 203), (637, Tr 203)]
          (if w < 36 then (if w \<le> -1 then Tr 203 else St 0)
        else if w > 59 then
            (if w > 90 then (if 97 \<le> w \<and> w \<le> 122 then Tr 203 else St 0)
            else if w \<ge> 64 then Tr 203 else St 0) else Tr 203))
      else if cs = 175 then
        (if p = 32 then Tr 4
        else if p > 57 then (if 65 \<le> p \<and> p \<le> 90 then St 176 else St 0)
        else if p \<ge> 48 then St 176 else St 0)
      else if cs = 176 then
        (if p = 32 then Tr 4
        else if p > 57 then (if 65 \<le> p \<and> p \<le> 90 then St 177 else St 0)
        else if p \<ge> 48 then St 177 else St 0)
      else St 0)"

definition http_states_27 :: "int \<Rightarrow> int \<Rightarrow> nat \<Rightarrow> goto" where
  "http_states_27 w p cs =
     (if cs = 177 then
        (if p = 32 then Tr 4
        else if p > 57 then (if 65 \<le> p \<and> p \<le> 90 then St 178 else St 0)
        else if p \<ge> 48 then St 178 else St 0)
      else if cs = 178 then
        (if p = 32 then Tr 4
        else if p > 57 then (if 65 \<le> p \<and> p \<le> 90 then St 179 else St 0)
        else if p \<ge> 48 then St 179 else St 0)
      else if cs = 179 then
        (if p = 32 then Tr 4
        else if p > 57 then (if 65 \<le> p \<and> p \<le> 90 then St 180 else St 0)
        else if p \<ge> 48 then St 180 else St 0)
      else if cs = 180 then
        (if p = 32 then Tr 4
        else if p > 57 then (if 65 \<le> p \<and> p \<le> 90 then St 181 else St 0)
        else if p \<ge> 48 then St 181 else St 0)
      else if cs = 181 then
        (if p = 32 then Tr 4
        else if p > 57 then (if 65 \<le> p \<and> p \<le> 90 then St 182 else St 0)
        else if p \<ge> 48 then St 182 else St 0)
      else if cs = 182 then
        (if p = 32 then Tr 4
        else if p > 57 then (if 65 \<le> p \<and> p \<le> 90 then St 183 else St 0)
        else if p \<ge> 48 then St 183 else St 0)
      else if cs = 183 then
        (if p = 32 then Tr 4
        else if p > 57 then (if 65 \<le> p \<and> p \<le> 90 then St 184 else St 0)
        else if p \<ge> 48 then St 184 else St 0)
      else if cs = 184 then
        (if p = 32 then Tr 4
        else if p > 57 then (if 65 \<le> p \<and> p \<le> 90 then St 185 else St 0)
        else if p \<ge> 48 then St 185 else St 0)
      else if cs = 185 then
        (if p = 32 then Tr 4
        else if p > 57 then (if 65 \<le> p \<and> p \<le> 90 then St 186 else St 0)
        else if p \<ge> 48 then St 186 else St 0)
      else if cs = 186 then
        (if p = 32 then Tr 4
        else if p > 57 then (if 65 \<le> p \<and> p \<le> 90 then St 187 else St 0)
        else if p \<ge> 48 then St 187 else St 0)
      else if cs = 187 then
        (if p = 32 then Tr 4
        else if p > 57 then (if 65 \<le> p \<and> p \<le> 90 then St 188 else St 0)
        else if p \<ge> 48 then St 188 else St 0)
      else if cs = 188 then
        (if p = 32 then Tr 4
        else if p > 57 then (if 65 \<le> p \<and> p \<le> 90 then St 189 else St 0)
        else if p \<ge> 48 then St 189 else St 0)
      else St 0)"

definition http_actions_28 :: "(nat \<times> http_action list \<times> nat \<times> bool) list" where
  "http_actions_28 =
     [(2, ([Mark], 194, False)),
      (224, ([Request_path], 196, False))]"

definition http_states_28 :: "int \<Rightarrow> int \<Rightarrow> nat \<Rightarrow> goto" where
  "http_states_28 w p cs =
     (if cs = 189 then
        (if p = 32 then Tr 4
        else if p > 57 then (if 65 \<le> p \<and> p \<le> 90 then St 190 else St 0)
        else if p \<ge> 48 then St 190 else St 0)
      else if cs = 190 then
        (if p = 32 then Tr 4
        else if p > 57 then (if 65 \<le> p \<and> p \<le> 90 then St 191 else St 0)
        else if p \<ge> 48 then St 191 else St 0)
      else if cs = 191 then
        (if p = 32 then Tr 4
        else if p > 57 then (if 65 \<le> p \<and> p \<le> 90 then St 192 else St 0)
        else if p \<ge> 48 then St 192 else St 0)
      else if cs = 192 then
        (if p = 32 then Tr 4
        else if p > 57 then (if 65 \<le> p \<and> p \<le> 90 then St 193 else St 0)
        else if p \<ge> 48 then St 193 else St 0)
      else if cs = 193 then
        (if p = 32 then Tr 4 else St 0)
      else if cs = 194 then
        (if p < 48 then (if 45 \<le> p \<and> p \<le> 46 then St 195 else St 0)
        else if p > 57 then
            (if p > 90 then (if 97 \<le> p \<and> p \<le> 122 then St 195 else St 0)
            else if p \<ge> 65 then St 195 else St 0) else St 195)
      else if cs = 195 then
        (switch p [(32, Tr 224), (47, Tr 224), (62, Tr 224)]
          (if p < 45 then (if 9 \<le> p \<and> p \<le> 13 then Tr 224 else St 0)
        else if p > 57 then
            (if p > 90 then (if 97 \<le> p \<and> p \<le> 122 then St 195 else St 0)
            else if p \<ge> 65 then St 195 else St 0) else St 195))
      else if cs = 196 then
        (if p = 62 then St 197 else St 196)
      else if cs = 197 then
        (switch p [(0, Tr 227), (62, St 197)]
          (St 196))
      else St 0)"

definition http_actions_29 :: "(nat \<times> http_action list \<times> nat \<times> bool) list" where
  "http_actions_29 =
     [(227, ([Xml, Done], 349, True)),
      (235, ([Json, Done], 349, True)),
      (3, ([Mark], 198, False)),
      (228, ([Request_path], 199, False)),
      (232, ([Mark], 200, False))]"

definition http_states_29 :: "int \<Rightarrow> int \<Rightarrow> nat \<Rightarrow> goto" where
  "http_states_29 w p cs =
     (if cs = 349 then
        (St 0)
      else if cs = 198 then
        (switch w [(32, Tr 228), (33, St 202), (37, St 203), (47, St 208), (59, St 202), (61, St 202),
           (95, St 202), (126, St 202), (606, St 202), (635, St 202), (637, St 202)]
          (if w < 64 then (if 36 \<le> w \<and> w \<le> 57 then St 202 else St 0)
        else if w > 90 then (if 97 \<le> w \<and> w \<le> 122 then St 202 else St 0) else St 202))
      else if cs = 199 then
        (if p = 123 then Tr 232 else St 0)
      else if cs = 200 then
        (if p = 125 then St 201 else St 200)
      else if cs = 201 then
        (switch p [(0, Tr 235), (125, St 201)]
          (St 200))
      else St 0)"

definition http_states_30 :: "int \<Rightarrow> int \<Rightarrow> nat \<Rightarrow> goto" where
  "http_states_30 w p cs =
     (if cs = 202 then
        (switch w [(32, Tr 228), (33, St 202), (37, St 203), (47, St 205), (59, St 202), (61, St 202),
           (95, St 202), (126, St 202), (606, St 202), (635, St 202), (637, St 202)]
          (if w < 64 then (if 36 \<le> w \<and> w \<le> 57 then St 202 else St 0)
        else if w > 90 then (if 97 \<le> w \<and> w \<le> 122 then St 202 else St 0) else St 202))
      else if cs = 203 then
        (if p < 65 then (if 48 \<le> p \<and> p \<le> 57 then St 204 else St 0)
        else if p > 70 then (if 97 \<le> p \<and> p \<le> 102 then St 204 else St 0) else St 204)
      else if cs = 204 then
        (if p < 65 then (if 48 \<le> p \<and> p \<le> 57 then St 202 else St 0)
        else if p > 70 then (if 97 \<le> p \<and> p \<le> 102 then St 202 else St 0) else St 202)
      else if cs = 205 then
        (switch w [(32, Tr 228), (33, St 205), (37, St 206), (61, St 205), (95, St 205), (126, St 205),
           (606, St 205), (635, St 205), (637, St 205)]
          (if w < 36 then (if w \<le> -1 then St 205 else St 0)
        else if w > 59 then
            (if w > 90 then (if 97 \<le> w \<and> w \<le> 122 then St 205 else St 0)
            else if w \<ge> 64 then St 205 else St 0) else St 205))
      else if cs = 206 then
        (if p < 65 then (if 48 \<le> p \<and> p \<le> 57 then St 207 else St 0)
        else if p > 70 then (if 97 \<le> p \<and> p \<le> 102 then St 207 else St 0) else St 207)
      else if cs = 207 then
        (if p < 65 then (if 48 \<le> p \<and> p \<le> 57 then St 205 else St 0)
        else if p > 70 then (if 97 \<le> p \<and> p \<le> 102 then St 205 else St 0) else St 205)
      else St 0)"

definition http_states_31 :: "int \<Rightarrow> int \<Rightarrow> nat \<Rightarrow> goto" where
  "http_states_31 w p cs =
     (if cs = 208 then
        (switch w [(32, Tr 228), (33, St 205), (37, St 206), (47, St 209), (61, St 205), (95, St 205),
           (126, St 205), (606, St 205), (635, St 205), (637, St 205)]
          (if w < 36 then (if w \<le> -1 then St 205 else St 0)
        else if w > 59 then
            (if w > 90 then (if 97 \<le> w \<and> w \<le> 122 then St 205 else St 0)
            else if w \<ge> 64 then St 205 else St 0) else St 205))
      else if cs = 209 then
        (switch w [(32, Tr 228), (33, St 210), (37, St 211), (47, St 205), (58, St 213), (61, St 210),
           (64, St 217), (91, St 222), (95, St 210), (126, St 210), (606, St 210), (635, St 210),
           (637, St 210)]
          (if w < 65 then (if 36 \<le> w \<and> w \<le> 59 then St 210 else St 0)
        else if w > 90 then (if 97 \<le> w \<and> w \<le> 122 then St 210 else St 0) else St 210))
      else if cs = 210 then
        (switch w [(32, Tr 228), (33, St 210), (37, St 211), (47, St 205), (58, St 213), (61, St 210),
           (64, St 217), (95, St 210), (126, St 210), (606, St 210), (635, St 210), (637, St 210)]
          (if w < 65 then (if 36 \<le> w \<and> w \<le> 59 then St 210 else St 0)
        else if w > 90 then (if 97 \<le> w \<and> w \<le> 122 then St 210 else St 0) else St 210))
      else St 0)"

definition http_states_32 :: "int \<Rightarrow> int \<Rightarrow> nat \<Rightarrow> goto" where
  "http_states_32 w p cs =
     (if cs = 211 then
        (if p < 65 then (if 48 \<le> p \<and> p \<le> 57 then St 212 else St 0)
        else if p > 70 then (if 97 \<le> p \<and> p \<le> 102 then St 212 else St 0) else St 212)
      else if cs = 212 then
        (if p < 65 then (if 48 \<le> p \<and> p \<le> 57 then St 210 else St 0)
        else if p > 70 then (if 97 \<le> p \<and> p \<le> 102 then St 210 else St 0) else St 210)
      else if cs = 213 then
        (switch w [(32, Tr 228), (33, St 214), (37, St 215), (47, St 205), (61, St 214), (64, St 217),
           (95, St 214), (126, St 214), (606, St 214), (635, St 214), (637, St 214)]
          (if w < 58 then
          (if w > 46 then (if 48 \<le> w \<and> w \<le> 57 then St 213 else St 0)
          else if w \<ge> 36 then St 214 else St 0)
        else if w > 59 then
            (if w > 90 then (if 97 \<le> w \<and> w \<le> 122 then St 214 else St 0)
            else if w \<ge> 65 then St 214 else St 0) else St 214))
      else if cs = 214 then
        (switch w [(33, St 214), (37, St 215), (61, St 214), (64, St 217), (95, St 214), (126, St 214),
           (606, St 214), (635, St 214), (637, St 214)]
          (if w < 48 then (if 36 \<le> w \<and> w \<le> 46 then St 214 else St 0)
        else if w > 59 then
            (if w > 90 then (if 97 \<le> w \<and> w \<le> 122 then St 214 else St 0)
            else if w \<ge> 65 then St 214 else St 0) else St 214))
      else if cs = 215 then
        (if p < 65 then (if 48 \<le> p \<and> p \<le> 57 then St 216 else St 0)
        else if p > 70 then (if 97 \<le> p \<and> p \<le> 102 then St 216 else St 0) else St 216)
      else St 0)"

definition http_states_33 :: "int \<Rightarrow> int \<Rightarrow> nat \<Rightarrow> goto" where
  "http_states_33 w p cs =
     (if cs = 216 then
        (if p < 65 then (if 48 \<le> p \<and> p \<le> 57 then St 214 else St 0)
        else if p > 70 then (if 97 \<le> p \<and> p \<le> 102 then St 214 else St 0) else St 214)
      else if cs = 217 then
        (switch w [(32, Tr 228), (33, St 218), (37, St 219), (47, St 205), (58, St 221), (61, St 218),
           (91, St 222), (95, St 218), (126, St 218), (606, St 218), (635, St 218), (637, St 218)]
          (if w < 65 then (if 36 \<le> w \<and> w \<le> 59 then St 218 else St 0)
        else if w > 90 then (if 97 \<le> w \<and> w \<le> 122 then St 218 else St 0) else St 218))
      else if cs = 218 then
        (switch w [(32, Tr 228), (33, St 218), (37, St 219), (47, St 205), (58, St 221), (61, St 218),
           (95, St 218), (126, St 218), (606, St 218), (635, St 218), (637, St 218)]
          (if w < 65 then (if 36 \<le> w \<and> w \<le> 59 then St 218 else St 0)
        else if w > 90 then (if 97 \<le> w \<and> w \<le> 122 then St 218 else St 0) else St 218))
      else if cs = 219 then
        (if p < 65 then (if 48 \<le> p \<and> p \<le> 57 then St 220 else St 0)
        else if p > 70 then (if 97 \<le> p \<and> p \<le> 102 then St 220 else St 0) else St 220)
      else if cs = 220 then
        (if p < 65 then (if 48 \<le> p \<and> p \<le> 57 then St 218 else St 0)
        else if p > 70 then (if 97 \<le> p \<and> p \<le> 102 then St 218 else St 0) else St 218)
      else if cs = 221 then
        (switch p [(32, Tr 228), (47, St 205)]
          (if 48 \<le> p \<and> p \<le> 57 then St 221 else St 0))
      else St 0)"

definition http_states_34 :: "int \<Rightarrow> int \<Rightarrow> nat \<Rightarrow> goto" where
  "http_states_34 w p cs =
     (if cs = 222 then
        (switch p [(6, St 223), (58, St 342), (118, St 344)]
          (if p < 65 then (if 48 \<le> p \<and> p \<le> 57 then St 266 else St 0)
        else if p > 70 then (if 97 \<le> p \<and> p \<le> 102 then St 266 else St 0) else St 266))
      else if cs = 223 then
        (if p < 65 then (if 48 \<le> p \<and> p \<le> 57 then St 224 else St 0)
        else if p > 70 then (if 97 \<le> p \<and> p \<le> 102 then St 224 else St 0) else St 224)
      else if cs = 224 then
        (if p = 58 then St 228
        else if p < 65 then (if 48 \<le> p \<and> p \<le> 57 then St 225 else St 0)
        else if p > 70 then (if 97 \<le> p \<and> p \<le> 102 then St 225 else St 0) else St 225)
      else if cs = 225 then
        (if p = 58 then St 228
        else if p < 65 then (if 48 \<le> p \<and> p \<le> 57 then St 226 else St 0)
        else if p > 70 then (if 97 \<le> p \<and> p \<le> 102 then St 226 else St 0) else St 226)
      else if cs = 226 then
        (if p = 58 then St 228
        else if p < 65 then (if 48 \<le> p \<and> p \<le> 57 then St 227 else St 0)
        else if p > 70 then (if 97 \<le> p \<and> p \<le> 102 then St 227 else St 0) else St 227)
      else if cs = 227 then
        (if p = 58 then St 228 else St 0)
      else if cs = 228 then
        (switch p [(49, St 259), (50, St 262)]
          (if p < 65 then (if 48 \<le> p \<and> p \<le> 57 then St 229 else St 0)
        else if p > 70 then (if 97 \<le> p \<and> p \<le> 102 then St 265 else St 0) else St 265))
      else if cs = 229 then
        (switch p [(46, St 230), (58, St 255)]
          (if p < 65 then (if 48 \<le> p \<and> p \<le> 57 then St 252 else St 0)
        else if p > 70 then (if 97 \<le> p \<and> p \<le> 102 then St 252 else St 0) else St 252))
      else if cs = 230 then
        (switch p [(49, St 247), (50, St 249)]
          (if 48 \<le> p \<and> p \<le> 57 then St 231 else St 0))
      else if cs = 231 then
        (if p = 46 then St 232 else St 0)
      else if cs = 232 then
        (switch p [(49, St 242), (50, St 244)]
          (if 48 \<le> p \<and> p \<le> 57 then St 233 else St 0))
      else St 0)"

definition http_states_35 :: "int \<Rightarrow> int \<Rightarrow> nat \<Rightarrow> goto" where
  "http_states_35 w p cs =
     (if cs = 233 then
        (if p = 46 then St 234 else St 0)
      else if cs = 234 then
        (switch p [(49, St 237), (50, St 239)]
          (if 48 \<le> p \<and> p \<le> 57 then St 235 else St 0))
      else if cs = 235 then
        (if p = 93 then St 236 else St 0)
      else if cs = 236 then
        (switch p [(32, Tr 228), (47, St 205), (58, St 221)]
          (St 0))
      else if cs = 237 then
        (if p = 93 then St 236
        else if 48 \<le> p \<and> p \<le> 57 then St 238 else St 0)
      else if cs = 238 then
        (if p = 93 then St 236
        else if 48 \<le> p \<and> p \<le> 57 then St 235 else St 0)
      else if cs = 239 then
        (switch p [(48, St 240), (53, St 241), (93, St 236)]
          (St 0))
      else if cs = 240 then
        (if 48 \<le> p \<and> p \<le> 57 then St 235 else St 0)
      else if cs = 241 then
        (if p = 48 then St 235 else St 0)
      else if cs = 242 then
        (if p = 46 then St 234
        else if 48 \<le> p \<and> p \<le> 57 then St 243 else St 0)
      else if cs = 243 then
        (if p = 46 then St 234
        else if 48 \<le> p \<and> p \<le> 57 then St 233 else St 0)
      else if cs = 244 then
        (switch p [(46, St 234), (48, St 245), (53, St 246)]
          (St 0))
      else if cs = 245 then
        (if 48 \<le> p \<and> p \<le> 57 then St 233 else St 0)
      else if cs = 246 then
        (if p = 48 then St 233 else St 0)
      else if cs = 247 then
        (if p = 46 then St 232
        else if 48 \<le> p \<and> p \<le> 57 then St 248 else St 0)
      else if cs = 248 then
        (if p = 46 then St 232
        else if 48 \<le> p \<and> p \<le> 57 then St 231 else St 0)
      else if cs = 249 then
        (switch p [(46, St 232), (48, St 250), (53, St 251)]
          (St 0))
      else St 0)"

definition http_states_36 :: "int \<Rightarrow> int \<Rightarrow> nat \<Rightarrow> goto" where
  "http_states_36 w p cs =
     (if cs = 250 then
        (if 48 \<le> p \<and> p \<le> 57 then St 231 else St 0)
      else if cs = 251 then
        (if p = 48 then St 231 else St 0)
      else if cs = 252 then
        (if p = 58 then St 255
        else if p < 65 then (if 48 \<le> p \<and> p \<le> 57 then St 253 else St 0)
        else if p > 70 then (if 97 \<le> p \<and> p \<le> 102 then St 253 else St 0) else St 253)
      else if cs = 253 then
        (if p = 58 then St 255
        else if p < 65 then (if 48 \<le> p \<and> p \<le> 57 then St 254 else St 0)
        else if p > 70 then (if 97 \<le> p \<and> p \<le> 102 then St 254 else St 0) else St 254)
      else if cs = 254 then
        (if p = 58 then St 255 else St 0)
      else if cs = 255 then
        (if p < 65 then (if 48 \<le> p \<and> p \<le> 57 then St 256 else St 0)
        else if p > 70 then (if 97 \<le> p \<and> p \<le> 102 then St 256 else St 0) else St 256)
      else if cs = 256 then
        (if p = 93 then St 236
        else if p < 65 then (if 48 \<le> p \<and> p \<le> 57 then St 257 else St 0)
        else if p > 70 then (if 97 \<le> p \<and> p \<le> 102 then St 257 else St 0) else St 257)
      else if cs = 257 then
        (if p = 93 then St 236
        else if p < 65 then (if 48 \<le> p \<and> p \<le> 57 then St 258 else St 0)
        else if p > 70 then (if 97 \<le> p \<and> p \<le> 102 then St 258 else St 0) else St 258)
      else if cs = 258 then
        (if p = 93 then St 236
        else if p < 65 then (if 48 \<le> p \<and> p \<le> 57 then St 235 else St 0)
        else if p > 70 then (if 97 \<le> p \<and> p \<le> 102 then St 235 else St 0) else St 235)
      else if cs = 259 then
        (switch p [(46, St 230), (58, St 255)]
          (if p < 65 then (if 48 \<le> p \<and> p \<le> 57 then St 260 else St 0)
        else if p > 70 then (if 97 \<le> p \<and> p \<le> 102 then St 252 else St 0) else St 252))
      else if cs = 260 then
        (switch p [(46, St 230), (58, St 255)]
          (if p < 65 then (if 48 \<le> p \<and> p \<le> 57 then St 261 else St 0)
        else if p > 70 then (if 97 \<le> p \<and> p \<le> 102 then St 253 else St 0) else St 253))
      else St 0)"

definition http_states_37 :: "int \<Rightarrow> int \<Rightarrow> nat \<Rightarrow> goto" where
  "http_states_37 w p cs =
     (if cs = 261 then
        (switch p [(46, St 230), (58, St 255)]
          (if p < 65 then (if 48 \<le> p \<and> p \<le> 57 then St 254 else St 0)
        else if p > 70 then (if 97 \<le> p \<and> p \<le> 102 then St 254 else St 0) else St 254))
      else if cs = 262 then
        (switch p [(46, St 230), (48, St 263), (53, St 264), (58, St 255)]
          (if p < 65 then (if 49 \<le> p \<and> p \<le> 57 then St 252 else St 0)
        else if p > 70 then (if 97 \<le> p \<and> p \<le> 102 then St 252 else St 0) else St 252))
      else if cs = 263 then
        (if p = 58 then St 255
        else if p < 65 then (if 48 \<le> p \<and> p \<le> 57 then St 261 else St 0)
        else if p > 70 then (if 97 \<le> p \<and> p \<le> 102 then St 253 else St 0) else St 253)
      else if cs = 264 then
        (switch p [(48, St 261), (58, St 255)]
          (if p < 65 then (if 49 \<le> p \<and> p \<le> 57 then St 253 else St 0)
        else if p > 70 then (if 97 \<le> p \<and> p \<le> 102 then St 253 else St 0) else St 253))
      else if cs = 265 then
        (if p = 58 then St 255
        else if p < 65 then (if 48 \<le> p \<and> p \<le> 57 then St 252 else St 0)
        else if p > 70 then (if 97 \<le> p \<and> p \<le> 102 then St 252 else St 0) else St 252)
      else if cs = 266 then
        (if p = 58 then St 270
        else if p < 65 then (if 48 \<le> p \<and> p \<le> 57 then St 267 else St 0)
        else if p > 70 then (if 97 \<le> p \<and> p \<le> 102 then St 267 else St 0) else St 267)
      else if cs = 267 then
        (if p = 58 then St 270
        else if p < 65 then (if 48 \<le> p \<and> p \<le> 57 then St 268 else St 0)
        else if p > 70 then (if 97 \<le> p \<and> p \<le> 102 then St 268 else St 0) else St 268)
      else if cs = 268 then
        (if p = 58 then St 270
        else if p < 65 then (if 48 \<le> p \<and> p \<le> 57 then St 269 else St 0)
        else if p > 70 then (if 97 \<le> p \<and> p \<le> 102 then St 269 else St 0) else St 269)
      else if cs = 269 then
        (if p = 58 then St 270 else St 0)
      else if cs = 270 then
        (if p = 58 then St 341
        else if p < 65 then (if 48 \<le> p \<and> p \<le> 57 then St 271 else St 0)
        else if p > 70 then (if 97 \<le> p \<and> p \<le> 102 then St 271 else St 0) else St 271)
      else St 0)"

definition http_states_38 :: "int \<Rightarrow> int \<Rightarrow> nat \<Rightarrow> goto" where
  "http_states_38 w p cs =
     (if cs = 271 then
        (if p = 58 then St 275
        else if p < 65 then (if 48 \<le> p \<and> p \<le> 57 then St 272 else St 0)
        else if p > 70 then (if 97 \<le> p \<and> p \<le> 102 then St 272 else St 0) else St 272)
      else if cs = 272 then
        (if p = 58 then St 275
        else if p < 65 then (if 48 \<le> p \<and> p \<le> 57 then St 273 else St 0)
        else if p > 70 then (if 97 \<le> p \<and> p \<le> 102 then St 273 else St 0) else St 273)
      else if cs = 273 then
        (if p = 58 then St 275
        else if p < 65 then (if 48 \<le> p \<and> p \<le> 57 then St 274 else St 0)
        else if p > 70 then (if 97 \<le> p \<and> p \<le> 102 then St 274 else St 0) else St 274)
      else if cs = 274 then
        (if p = 58 then St 275 else St 0)
      else if cs = 275 then
        (if p = 58 then St 340
        else if p < 65 then (if 48 \<le> p \<and> p \<le> 57 then St 276 else St 0)
        else if p > 70 then (if 97 \<le> p \<and> p \<le> 102 then St 276 else St 0) else St 276)
      else if cs = 276 then
        (if p = 58 then St 280
        else if p < 65 then (if 48 \<le> p \<and> p \<le> 57 then St 277 else St 0)
        else if p > 70 then (if 97 \<le> p \<and> p \<le> 102 then St 277 else St 0) else St 277)
      else if cs = 277 then
        (if p = 58 then St 280
        else if p < 65 then (if 48 \<le> p \<and> p \<le> 57 then St 278 else St 0)
        else if p > 70 then (if 97 \<le> p \<and> p \<le> 102 then St 278 else St 0) else St 278)
      else if cs = 278 then
        (if p = 58 then St 280
        else if p < 65 then (if 48 \<le> p \<and> p \<le> 57 then St 279 else St 0)
        else if p > 70 then (if 97 \<le> p \<and> p \<le> 102 then St 279 else St 0) else St 279)
      else if cs = 279 then
        (if p = 58 then St 280 else St 0)
      else if cs = 280 then
        (if p = 58 then St 339
        else if p < 65 then (if 48 \<le> p \<and> p \<le> 57 then St 281 else St 0)
        else if p > 70 then (if 97 \<le> p \<and> p \<le> 102 then St 281 else St 0) else St 281)
      else if cs = 281 then
        (if p = 58 then St 285
        else if p < 65 then (if 48 \<le> p \<and> p \<le> 57 then St 282 else St 0)
        else if p > 70 then (if 97 \<le> p \<and> p \<le> 102 then St 282 else St 0) else St 282)
      else St 0)"

definition http_states_39 :: "int \<Rightarrow> int \<Rightarrow> nat \<Rightarrow> goto" where
  "http_states_39 w p cs =
     (if cs = 282 then
        (if p = 58 then St 285
        else if p < 65 then (if 48 \<le> p \<and> p \<le> 57 then St 283 else St 0)
        else if p > 70 then (if 97 \<le> p \<and> p \<le> 102 then St 283 else St 0) else St 283)
      else if cs = 283 then
        (if p = 58 then St 285
        else if p < 65 then (if 48 \<le> p \<and> p \<le> 57 then St 284 else St 0)
        else if p > 70 then (if 97 \<le> p \<and> p \<le> 102 then St 284 else St 0) else St 284)
      else if cs = 284 then
        (if p = 58 then St 285 else St 0)
      else if cs = 285 then
        (if p = 58 then St 338
        else if p < 65 then (if 48 \<le> p \<and> p \<le> 57 then St 286 else St 0)
        else if p > 70 then (if 97 \<le> p \<and> p \<le> 102 then St 286 else St 0) else St 286)
      else if cs = 286 then
        (if p = 58 then St 290
        else if p < 65 then (if 48 \<le> p \<and> p \<le> 57 then St 287 else St 0)
        else if p > 70 then (if 97 \<le> p \<and> p \<le> 102 then St 287 else St 0) else St 287)
      else if cs = 287 then
        (if p = 58 then St 290
        else if p < 65 then (if 48 \<le> p \<and> p \<le> 57 then St 288 else St 0)
        else if p > 70 then (if 97 \<le> p \<and> p \<le> 102 then St 288 else St 0) else St 288)
      else if cs = 288 then
        (if p = 58 then St 290
        else if p < 65 then (if 48 \<le> p \<and> p \<le> 57 then St 289 else St 0)
        else if p > 70 then (if 97 \<le> p \<and> p \<le> 102 then St 289 else St 0) else St 289)
      else if cs = 289 then
        (if p = 58 then St 290 else St 0)
      else if cs = 290 then
        (if p = 58 then St 326
        else if p < 65 then (if 48 \<le> p \<and> p \<le> 57 then St 291 else St 0)
        else if p > 70 then (if 97 \<le> p \<and> p \<le> 102 then St 291 else St 0) else St 291)
      else if cs = 291 then
        (if p = 58 then St 295
        else if p < 65 then (if 48 \<le> p \<and> p \<le> 57 then St 292 else St 0)
        else if p > 70 then (if 97 \<le> p \<and> p \<le> 102 then St 292 else St 0) else St 292)
      else if cs = 292 then
        (if p = 58 then St 295
        else if p < 65 then (if 48 \<le> p \<and> p \<le> 57 then St 293 else St 0)
        else if p > 70 then (if 97 \<le> p \<and> p \<le> 102 then St 293 else St 0) else St 293)
      else St 0)"

definition http_states_40 :: "int \<Rightarrow> int \<Rightarrow> nat \<Rightarrow> goto" where
  "http_states_40 w p cs =
     (if cs = 293 then
        (if p = 58 then St 295
        else if p < 65 then (if 48 \<le> p \<and> p \<le> 57 then St 294 else St 0)
        else if p > 70 then (if 97 \<le> p \<and> p \<le> 102 then St 294 else St 0) else St 294)
      else if cs = 294 then
        (if p = 58 then St 295 else St 0)
      else if cs = 295 then
        (if p = 58 then St 325
        else if p < 65 then (if 48 \<le> p \<and> p \<le> 57 then St 296 else St 0)
        else if p > 70 then (if 97 \<le> p \<and> p \<le> 102 then St 296 else St 0) else St 296)
      else if cs = 296 then
        (if p = 58 then St 300
        else if p < 65 then (if 48 \<le> p \<and> p \<le> 57 then St 297 else St 0)
        else if p > 70 then (if 97 \<le> p \<and> p \<le> 102 then St 297 else St 0) else St 297)
      else if cs = 297 then
        (if p = 58 then St 300
        else if p < 65 then (if 48 \<le> p \<and> p \<le> 57 then St 298 else St 0)
        else if p > 70 then (if 97 \<le> p \<and> p \<le> 102 then St 298 else St 0) else St 298)
      else if cs = 298 then
        (if p = 58 then St 300
        else if p < 65 then (if 48 \<le> p \<and> p \<le> 57 then St 299 else St 0)
        else if p > 70 then (if 97 \<le> p \<and> p \<le> 102 then St 299 else St 0) else St 299)
      else if cs = 299 then
        (if p = 58 then St 300 else St 0)
      else if cs = 300 then
        (if p = 58 then St 301
        else if p < 65 then (if 48 \<le> p \<and> p \<le> 57 then St 296 else St 0)
        else if p > 70 then (if 97 \<le> p \<and> p \<le> 102 then St 296 else St 0) else St 296)
      else if cs = 301 then
        (switch p [(49, St 318), (50, St 321), (93, St 236)]
          (if p < 48 then (if 2 \<le> p \<and> p \<le> 3 then St 223 else St 0)
        else if p > 57 then
            (if p > 70 then (if 97 \<le> p \<and> p \<le> 102 then St 324 else St 0)
            else if p \<ge> 65 then St 324 else St 0) else St 302))
      else if cs = 302 then
        (switch p [(46, St 230), (58, St 306), (93, St 236)]
          (if p < 65 then (if 48 \<le> p \<and> p \<le> 57 then St 303 else St 0)
        else if p > 70 then (if 97 \<le> p \<and> p \<le> 102 then St 303 else St 0) else St 303))
      else St 0)"

definition http_states_41 :: "int \<Rightarrow> int \<Rightarrow> nat \<Rightarrow> goto" where
  "http_states_41 w p cs =
     (if cs = 303 then
        (switch p [(58, St 306), (93, St 236)]
          (if p < 65 then (if 48 \<le> p \<and> p \<le> 57 then St 304 else St 0)
        else if p > 70 then (if 97 \<le> p \<and> p \<le> 102 then St 304 else St 0) else St 304))
      else if cs = 304 then
        (switch p [(58, St 306), (93, St 236)]
          (if p < 65 then (if 48 \<le> p \<and> p \<le> 57 then St 305 else St 0)
        else if p > 70 then (if 97 \<le> p \<and> p \<le> 102 then St 305 else St 0) else St 305))
      else if cs = 305 then
        (switch p [(58, St 306), (93, St 236)]
          (St 0))
      else if cs = 306 then
        (switch p [(49, St 311), (50, St 314)]
          (if p < 65 then (if 48 \<le> p \<and> p \<le> 57 then St 307 else St 0)
        else if p > 70 then (if 97 \<le> p \<and> p \<le> 102 then St 317 else St 0) else St 317))
      else if cs = 307 then
        (switch p [(46, St 230), (58, St 255), (93, St 236)]
          (if p < 65 then (if 48 \<le> p \<and> p \<le> 57 then St 308 else St 0)
        else if p > 70 then (if 97 \<le> p \<and> p \<le> 102 then St 308 else St 0) else St 308))
      else if cs = 308 then
        (switch p [(58, St 255), (93, St 236)]
          (if p < 65 then (if 48 \<le> p \<and> p \<le> 57 then St 309 else St 0)
        else if p > 70 then (if 97 \<le> p \<and> p \<le> 102 then St 309 else St 0) else St 309))
      else if cs = 309 then
        (switch p [(58, St 255), (93, St 236)]
          (if p < 65 then (if 48 \<le> p \<and> p \<le> 57 then St 310 else St 0)
        else if p > 70 then (if 97 \<le> p \<and> p \<le> 102 then St 310 else St 0) else St 310))
      else if cs = 310 then
        (switch p [(58, St 255), (93, St 236)]
          (St 0))
      else if cs = 311 then
        (switch p [(46, St 230), (58, St 255), (93, St 236)]
          (if p < 65 then (if 48 \<le> p \<and> p \<le> 57 then St 312 else St 0)
        else if p > 70 then (if 97 \<le> p \<and> p \<le> 102 then St 308 else St 0) else St 308))
      else St 0)"

definition http_states_42 :: "int \<Rightarrow> int \<Rightarrow> nat \<Rightarrow> goto" where
  "http_states_42 w p cs =
     (if cs = 312 then
        (switch p [(46, St 230), (58, St 255), (93, St 236)]
          (if p < 65 then (if 48 \<le> p \<and> p \<le> 57 then St 313 else St 0)
        else if p > 70 then (if 97 \<le> p \<and> p \<le> 102 then St 309 else St 0) else St 309))
      else if cs = 313 then
        (switch p [(46, St 230), (58, St 255), (93, St 236)]
          (if p < 65 then (if 48 \<le> p \<and> p \<le> 57 then St 310 else St 0)
        else if p > 70 then (if 97 \<le> p \<and> p \<le> 102 then St 310 else St 0) else St 310))
      else if cs = 314 then
        (switch p [(46, St 230), (48, St 315), (53, St 316), (58, St 255), (93, St 236)]
          (if p < 65 then (if 49 \<le> p \<and> p \<le> 57 then St 308 else St 0)
        else if p > 70 then (if 97 \<le> p \<and> p \<le> 102 then St 308 else St 0) else St 308))
      else if cs = 315 then
        (switch p [(58, St 255), (93, St 236)]
          (if p < 65 then (if 48 \<le> p \<and> p \<le> 57 then St 313 else St 0)
        else if p > 70 then (if 97 \<le> p \<and> p \<le> 102 then St 309 else St 0) else St 309))
      else if cs = 316 then
        (switch p [(48, St 313), (58, St 255), (93, St 236)]
          (if p < 65 then (if 49 \<le> p \<and> p \<le> 57 then St 309 else St 0)
        else if p > 70 then (if 97 \<le> p \<and> p \<le> 102 then St 309 else St 0) else St 309))
      else if cs = 317 then
        (switch p [(58, St 255), (93, St 236)]
          (if p < 65 then (if 48 \<le> p \<and> p \<le> 57 then St 308 else St 0)
        else if p > 70 then (if 97 \<le> p \<and> p \<le> 102 then St 308 else St 0) else St 308))
      else if cs = 318 then
        (switch p [(46, St 230), (58, St 306), (93, St 236)]
          (if p < 65 then (if 48 \<le> p \<and> p \<le> 57 then St 319 else St 0)
        else if p > 70 then (if 97 \<le> p \<and> p \<le> 102 then St 303 else St 0) else St 303))
      else if cs = 319 then
        (switch p [(46, St 230), (58, St 306), (93, St 236)]
          (if p < 65 then (if 48 \<le> p \<and> p \<le> 57 then St 320 else St 0)
        else if p > 70 then (if 97 \<le> p \<and> p \<le> 102 then St 304 else St 0) else St 304))
      else St 0)"

definition http_states_43 :: "int \<Rightarrow> int \<Rightarrow> nat \<Rightarrow> goto" where
  "http_states_43 w p cs =
     (if cs = 320 then
        (switch p [(46, St 230), (58, St 306), (93, St 236)]
          (if p < 65 then (if 48 \<le> p \<and> p \<le> 57 then St 305 else St 0)
        else if p > 70 then (if 97 \<le> p \<and> p \<le> 102 then St 305 else St 0) else St 305))
      else if cs = 321 then
        (switch p [(46, St 230), (48, St 322), (53, St 323), (58, St 306), (93, St 236)]
          (if p < 65 then (if 49 \<le> p \<and> p \<le> 57 then St 303 else St 0)
        else if p > 70 then (if 97 \<le> p \<and> p \<le> 102 then St 303 else St 0) else St 303))
      else if cs = 322 then
        (switch p [(58, St 306), (93, St 236)]
          (if p < 65 then (if 48 \<le> p \<and> p \<le> 57 then St 320 else St 0)
        else if p > 70 then (if 97 \<le> p \<and> p \<le> 102 then St 304 else St 0) else St 304))
      else if cs = 323 then
        (switch p [(48, St 320), (58, St 306), (93, St 236)]
          (if p < 65 then (if 49 \<le> p \<and> p \<le> 57 then St 304 else St 0)
        else if p > 70 then (if 97 \<le> p \<and> p \<le> 102 then St 304 else St 0) else St 304))
      else if cs = 324 then
        (switch p [(58, St 306), (93, St 236)]
          (if p < 65 then (if 48 \<le> p \<and> p \<le> 57 then St 303 else St 0)
        else if p > 70 then (if 97 \<le> p \<and> p \<le> 102 then St 303 else St 0) else St 303))
      else if cs = 325 then
        (switch p [(49, St 318), (50, St 321)]
          (if p < 48 then (if 2 \<le> p \<and> p \<le> 3 then St 223 else St 0)
        else if p > 57 then
            (if p > 70 then (if 97 \<le> p \<and> p \<le> 102 then St 324 else St 0)
            else if p \<ge> 65 then St 324 else St 0) else St 302))
      else if cs = 326 then
        (switch p [(49, St 331), (50, St 334)]
          (if p < 48 then (if 2 \<le> p \<and> p \<le> 3 then St 223 else St 0)
        else if p > 57 then
            (if p > 70 then (if 97 \<le> p \<and> p \<le> 102 then St 337 else St 0)
            else if p \<ge> 65 then St 337 else St 0) else St 327))
      else if cs = 327 then
        (switch p [(46, St 230), (58, St 306)]
          (if p < 65 then (if 48 \<le> p \<and> p \<le> 57 then St 328 else St 0)
        else if p > 70 then (if 97 \<le> p \<and> p \<le> 102 then St 328 else St 0) else St 328))
      else St 0)"

definition http_states_44 :: "int \<Rightarrow> int \<Rightarrow> nat \<Rightarrow> goto" where
  "http_states_44 w p cs =
     (if cs = 328 then
        (if p = 58 then St 306
        else if p < 65 then (if 48 \<le> p \<and> p \<le> 57 then St 329 else St 0)
        else if p > 70 then (if 97 \<le> p \<and> p \<le> 102 then St 329 else St 0) else St 329)
      else if cs = 329 then
        (if p = 58 then St 306
        else if p < 65 then (if 48 \<le> p \<and> p \<le> 57 then St 330 else St 0)
        else if p > 70 then (if 97 \<le> p \<and> p \<le> 102 then St 330 else St 0) else St 330)
      else if cs = 330 then
        (if p = 58 then St 306 else St 0)
      else if cs = 331 then
        (switch p [(46, St 230), (58, St 306)]
          (if p < 65 then (if 48 \<le> p \<and> p \<le> 57 then St 332 else St 0)
        else if p > 70 then (if 97 \<le> p \<and> p \<le> 102 then St 328 else St 0) else St 328))
      else if cs = 332 then
        (switch p [(46, St 230), (58, St 306)]
          (if p < 65 then (if 48 \<le> p \<and> p \<le> 57 then St 333 else St 0)
        else if p > 70 then (if 97 \<le> p \<and> p \<le> 102 then St 329 else St 0) else St 329))
      else if cs = 333 then
        (switch p [(46, St 230), (58, St 306)]
          (if p < 65 then (if 48 \<le> p \<and> p \<le> 57 then St 330 else St 0)
        else if p > 70 then (if 97 \<le> p \<and> p \<le> 102 then St 330 else St 0) else St 330))
      else if cs = 334 then
        (switch p [(46, St 230), (48, St 335), (53, St 336), (58, St 306)]
          (if p < 65 then (if 49 \<le> p \<and> p \<le> 57 then St 328 else St 0)
        else if p > 70 then (if 97 \<le> p \<and> p \<le> 102 then St 328 else St 0) else St 328))
      else if cs = 335 then
        (if p = 58 then St 306
        else if p < 65 then (if 48 \<le> p \<and> p \<le> 57 then St 333 else St 0)
        else if p > 70 then (if 97 \<le> p \<and> p \<le> 102 then St 329 else St 0) else St 329)
      else if cs = 336 then
        (switch p [(48, St 333), (58, St 306)]
          (if p < 65 then (if 49 \<le> p \<and> p \<le> 57 then St 329 else St 0)
        else if p > 70 then (if 97 \<le> p \<and> p \<le> 102 then St 329 else St 0) else St 329))
      else St 0)"

definition http_states_45 :: "int \<Rightarrow> int \<Rightarrow> nat \<Rightarrow> goto" where
  "http_states_45 w p cs =
     (if cs = 337 then
        (if p = 58 then St 306
        else if p < 65 then (if 48 \<le> p \<and> p \<le> 57 then St 328 else St 0)
        else if p > 70 then (if 97 \<le> p \<and> p \<le> 102 then St 328 else St 0) else St 328)
      else if cs = 338 then
        (if p < 48 then (if 2 \<le> p \<and> p \<le> 3 then St 223 else St 0)
        else if p > 57 then
            (if p > 70 then (if 97 \<le> p \<and> p \<le> 102 then St 224 else St 0)
            else if p \<ge> 65 then St 224 else St 0) else St 224)
      else if cs = 339 then
        (if 2 \<le> p \<and> p \<le> 3 then St 223 else St 0)
      else if cs = 340 then
        (if p = 3 then St 223 else St 0)
      else if cs = 341 then
        (if p = 4 then St 223 else St 0)
      else if cs = 342 then
        (if p = 58 then St 343 else St 0)
      else if cs = 343 then
        (switch p [(49, St 318), (50, St 321), (93, St 236)]
          (if p < 48 then (if 2 \<le> p \<and> p \<le> 5 then St 223 else St 0)
        else if p > 57 then
            (if p > 70 then (if 97 \<le> p \<and> p \<le> 102 then St 324 else St 0)
            else if p \<ge> 65 then St 324 else St 0) else St 302))
      else if cs = 344 then
        (if p < 65 then (if 48 \<le> p \<and> p \<le> 57 then St 345 else St 0)
        else if p > 70 then (if 97 \<le> p \<and> p \<le> 102 then St 345 else St 0) else St 345)
      else if cs = 345 then
        (if p = 46 then St 346
        else if p < 65 then (if 48 \<le> p \<and> p \<le> 57 then St 345 else St 0)
        else if p > 70 then (if 97 \<le> p \<and> p \<le> 102 then St 345 else St 0) else St 345)
      else St 0)"

definition http_states_46 :: "int \<Rightarrow> int \<Rightarrow> nat \<Rightarrow> goto" where
  "http_states_46 w p cs =
     (if cs = 346 then
        (switch w [(33, St 347), (36, St 347), (61, St 347), (95, St 347), (126, St 347), (606, St 347),
           (635, St 347), (637, St 347)]
          (if w < 48 then (if 38 \<le> w \<and> w \<le> 46 then St 347 else St 0)
        else if w > 59 then
            (if w > 90 then (if 97 \<le> w \<and> w \<le> 122 then St 347 else St 0)
            else if w \<ge> 65 then St 347 else St 0) else St 347))
      else if cs = 347 then
        (switch w [(33, St 347), (36, St 347), (61, St 347), (93, St 236), (95, St 347), (126, St 347),
           (606, St 347), (635, St 347), (637, St 347)]
          (if w < 48 then (if 38 \<le> w \<and> w \<le> 46 then St 347 else St 0)
        else if w > 59 then
            (if w > 90 then (if 97 \<le> w \<and> w \<le> 122 then St 347 else St 0)
            else if w \<ge> 65 then St 347 else St 0) else St 347))
      else St 0)"

definition http_edge :: "bool \<Rightarrow> nat \<Rightarrow> int \<Rightarrow> goto" where
  "http_edge relaxed cs p =
     (let w = widec relaxed p in
      if cs \<le> 3 then http_states_1 w p cs
      else if cs \<le> 12 then http_states_2 w p cs
      else if cs \<le> 16 then http_states_3 w p cs
      else if cs \<le> 18 then http_states_4 w p cs
      else if cs \<le> 19 then http_states_5 w p cs
      else if cs \<le> 20 then http_states_6 w p cs
      else if cs \<le> 25 then http_states_7 w p cs
      else if cs \<le> 28 then http_states_8 w p cs
      else if cs \<le> 31 then http_states_9 w p cs
      else if cs \<le> 34 then http_states_10 w p cs
      else if cs \<le> 38 then http_states_11 w p cs
      else if cs \<le> 42 then http_states_12 w p cs
      else if cs \<le> 50 then http_states_13 w p cs
      else if cs \<le> 64 then http_states_14 w p cs
      else if cs \<le> 80 then http_states_15 w p cs
      else if cs \<le> 89 then http_states_16 w p cs
      else if cs \<le> 100 then http_states_17 w p cs
      else if cs \<le> 111 then http_states_18 w p cs
      else if cs \<le> 122 then http_states_19 w p cs
      else if cs \<le> 131 then http_states_20 w p cs
      else if cs \<le> 139 then http_states_21 w p cs
      else if cs \<le> 147 then http_states_22 w p cs
      else if cs \<le> 156 then http_states_23 w p cs
      else if cs \<le> 167 then http_states_24 w p cs
      else if cs \<le> 172 then http_states_25 w p cs
      else if cs \<le> 176 then http_states_26 w p cs
      else if cs \<le> 188 then http_states_27 w p cs
      else if cs \<le> 197 then http_states_28 w p cs
      else if cs \<le> 201 then http_states_29 w p cs
      else if cs \<le> 207 then http_states_30 w p cs
      else if cs \<le> 210 then http_states_31 w p cs
      else if cs \<le> 215 then http_states_32 w p cs
      else if cs \<le> 221 then http_states_33 w p cs
      else if cs \<le> 232 then http_states_34 w p cs
      else if cs \<le> 249 then http_states_35 w p cs
      else if cs \<le> 260 then http_states_36 w p cs
      else if cs \<le> 270 then http_states_37 w p cs
      else if cs \<le> 281 then http_states_38 w p cs
      else if cs \<le> 292 then http_states_39 w p cs
      else if cs \<le> 302 then http_states_40 w p cs
      else if cs \<le> 311 then http_states_41 w p cs
      else if cs \<le> 319 then http_states_42 w p cs
      else if cs \<le> 327 then http_states_43 w p cs
      else if cs \<le> 336 then http_states_44 w p cs
      else if cs \<le> 345 then http_states_45 w p cs
      else if cs \<le> 347 then http_states_46 w p cs
      else if cs = 348 then http_states_4 w p cs
      else http_states_29 w p cs)"

definition http_trans :: "nat \<Rightarrow> http_action list \<times> nat \<times> bool" where
  "http_trans tr =
     switch tr (http_actions_1 @
       http_actions_2 @
       http_actions_3 @
       http_actions_4 @
       http_actions_5 @
       http_actions_6 @
       http_actions_7 @
       http_actions_8 @
       http_actions_9 @
       http_actions_10 @
       http_actions_26 @
       http_actions_28 @
       http_actions_29) ([], 0, False)"

end
