(* ===== verification/Http11_Parser.thy ===== *)
theory Http11_Parser
  imports Http11_Machine Http_Session
begin

text \<open>
  The request parser around its state machine (\<open>src/src/http/http11_parser.rl.cpp\<close>,
  \<open>http11_parser.hpp\<close>): the actions, \<open>http_parser_init\<close>, \<open>http_parser_execute\<close> and the tests of
  the result. The callbacks are those of \<open>HttpRequestParser\<close>, which sets every one; an action that
  calls one records the event with its text. Pointers into the buffer are offsets.
\<close>

record http_parser =
  hp_cs :: nat
  body_start :: nat
  content_len :: "32 word"
  nread :: nat
  mark :: nat
  field_start :: nat
  field_len :: nat
  query_start :: nat
  xml_sent :: bool
  json_sent :: bool
  uri_relaxed :: bool

text \<open>
  The macro \<open>LEN\<close>: the difference is unsigned, so it wraps when the offset lies behind \<open>p\<close>. The text of
  such a length cannot be made: the constructor of \<open>std::string\<close> throws.
\<close>

definition LEN :: "nat \<Rightarrow> nat \<Rightarrow> nat" where
  "LEN from p = (if from \<le> p then p - from else 2 ^ 64 + p - from)"

definition text_at :: "string \<Rightarrow> nat \<Rightarrow> nat \<Rightarrow> string option" where
  "text_at buffer from len =
     (if from + len \<le> length buffer then Some (take len (drop from buffer)) else None)"

definition element_cb ::
  "string \<Rightarrow> (string \<Rightarrow> req_event) \<Rightarrow> nat \<Rightarrow> nat \<Rightarrow> http_parser \<times> req_event list \<Rightarrow> (http_parser \<times> req_event list) option" where
  "element_cb buffer ev from p s =
     (case text_at buffer from (LEN from p) of None \<Rightarrow> None | Some at \<Rightarrow> Some (fst s, snd s @ [ev at]))"

text \<open>The actions, at the offset \<open>p\<close>; \<open>pe\<close> is the end of the buffer.\<close>

fun http_perform ::
  "string \<Rightarrow> nat \<Rightarrow> http_action \<Rightarrow> http_parser \<times> req_event list \<Rightarrow> (http_parser \<times> req_event list) option" where
  "http_perform buffer p Mark (x, evs) = Some (x\<lparr>mark := p\<rparr>, evs)"
| "http_perform buffer p Start_query (x, evs) = Some (x\<lparr>query_start := p\<rparr>, evs)"
| "http_perform buffer p Start_field (x, evs) = Some (x\<lparr>field_start := p\<rparr>, evs)"
| "http_perform buffer p Write_field (x, evs) = Some (x\<lparr>field_len := LEN (field_start x) p\<rparr>, evs)"
| "http_perform buffer p Write_value (x, evs) =
     (case (text_at buffer (field_start x) (field_len x), text_at buffer (mark x) (LEN (mark x) p)) of
        (Some field, Some val) \<Rightarrow> Some (x, evs @ [Ev_field field val])
      | _ \<Rightarrow> None)"
| "http_perform buffer p Request_method (x, evs) = element_cb buffer Ev_method (mark x) p (x, evs)"
| "http_perform buffer p Request_uri (x, evs) = element_cb buffer Ev_uri (mark x) p (x, evs)"
| "http_perform buffer p Request_path (x, evs) = element_cb buffer Ev_path (mark x) p (x, evs)"
| "http_perform buffer p Save_scheme (x, evs) = element_cb buffer Ev_scheme (mark x) p (x, evs)"
| "http_perform buffer p Fragment (x, evs) = element_cb buffer Ev_fragment (mark x) p (x, evs)"
| "http_perform buffer p Query_string (x, evs) = element_cb buffer Ev_query (query_start x) p (x, evs)"
| "http_perform buffer p Http_version (x, evs) = element_cb buffer Ev_version (mark x) p (x, evs)"
| "http_perform buffer p Xml (x, evs) = Some (x\<lparr>xml_sent := True\<rparr>, evs)"
| "http_perform buffer p Json (x, evs) = Some (x\<lparr>json_sent := True\<rparr>, evs)"
| "http_perform buffer p Done (x, evs) =
     (if xml_sent x \<or> json_sent x
      then Some (x\<lparr>body_start := mark x, content_len := of_nat p - of_nat (mark x) + 1\<rparr>, evs)
      else Some (x\<lparr>body_start := p + 1\<rparr>, evs @ [Ev_header_done (drop (p + 1) buffer)]))"

section \<open>The functions of the parser\<close>

abbreviation (input) http_parser_start :: nat where "http_parser_start \<equiv> 1"
abbreviation (input) http_parser_first_final :: nat where "http_parser_first_final \<equiv> 348"
abbreviation (input) http_parser_error :: nat where "http_parser_error \<equiv> 0"

text \<open>The memory \<open>x\<close> of the parser: \<open>query_start\<close> and \<open>uri_relaxed\<close> are left as they are.\<close>

definition http_parser_init :: "http_parser \<Rightarrow> http_parser" where
  "http_parser_init x =
     x\<lparr>hp_cs := http_parser_start, body_start := 0, content_len := 0, mark := 0, nread := 0, field_len := 0,
       field_start := 0, xml_sent := False, json_sent := False\<rparr>"

definition http_parser_has_error :: "http_parser \<Rightarrow> bool" where
  "http_parser_has_error x \<longleftrightarrow> hp_cs x = http_parser_error"

definition http_parser_is_finished :: "http_parser \<Rightarrow> bool" where
  "http_parser_is_finished x \<longleftrightarrow> http_parser_first_final \<le> hp_cs x"

definition http_parser_finish :: "http_parser \<Rightarrow> int" where
  "http_parser_finish x = (if http_parser_has_error x then - 1 else if http_parser_is_finished x then 1 else 0)"

datatype parse_failure = Bad_length | Assertion

text \<open>
  The loop of \<open>execute\<close>. No case matches the error state, so control falls out of the switch to the
  label for the end of input in state 2.
\<close>

definition http_loop ::
  "string \<Rightarrow> nat \<Rightarrow> http_parser \<Rightarrow> (nat \<times> nat \<times> http_parser \<times> req_event list) option" where
  "http_loop buffer off x =
     (if hp_cs x = http_parser_error \<and> off \<noteq> length buffer then Some (2, off, x, [])
      else run_machine (http_edge (uri_relaxed x)) http_trans (http_perform buffer) (hp_cs x) off (drop off buffer) (x, []))"

text \<open>What follows the loop: the state is kept unless the parser was in error before, and the assertions.\<close>

definition http_execute_end ::
  "string \<Rightarrow> nat \<Rightarrow> nat \<times> nat \<times> http_parser \<times> req_event list \<Rightarrow> parse_failure + req_event list \<times> nat \<times> http_parser" where
  "http_execute_end buffer off st =
     (case st of (cs, p, x1, evs) \<Rightarrow>
        let x2 = (if \<not> http_parser_has_error x1 then x1\<lparr>hp_cs := cs\<rparr> else x1);
            x3 = x2\<lparr>nread := nread x2 + (p - off)\<rparr>
        in if p \<le> length buffer \<and> nread x3 \<le> length buffer \<and> body_start x3 \<le> length buffer \<and>
              mark x3 < length buffer \<and> field_len x3 \<le> length buffer \<and> field_start x3 < length buffer
           then Inr (evs, nread x3, x3) else Inl Assertion)"

definition http_parser_execute ::
  "http_parser \<Rightarrow> string \<Rightarrow> nat \<Rightarrow> parse_failure + req_event list \<times> nat \<times> http_parser" where
  "http_parser_execute x buffer off =
     (if buffer = [] then Inr ([], 0, x)
      else if length buffer < off \<or> int (length buffer - off) \<noteq> int_of_size (length buffer) - int_of_size off then Inl Assertion
      else
        case http_loop buffer off (x\<lparr>nread := 0, mark := 0, field_len := 0, field_start := 0\<rparr>) of
          None \<Rightarrow> Inl Bad_length
        | Some st \<Rightarrow> http_execute_end buffer off st)"

end
