(* ===== verification/Httpclient_Parser.thy ===== *)
theory Httpclient_Parser
  imports Httpclient_Machine Http11_Parser
begin

text \<open>
  The response parser around its state machine (\<open>src/src/http/httpclient_parser.rl.cpp\<close>,
  \<open>httpclient_parser.hpp\<close>), in the style of the request parser: actions, initialisation, execution
  and the tests of the result. The callbacks are those of \<open>HttpResponseParser\<close>, which sets every
  one. The buffer is the text before its terminator, which the caller has written.
\<close>

record httpclient_parser =
  hc_cs :: nat
  hc_body_start :: nat
  hc_content_len :: "32 word"
  hc_status :: "32 word"
  hc_chunked :: bool
  hc_chunks_done :: bool
  hc_close :: bool
  hc_nread :: nat
  hc_mark :: nat
  hc_field_start :: nat
  hc_field_len :: nat

section \<open>Numbers\<close>

text \<open>
  \<open>strtol\<close>: blanks, a sign, for base 16 a prefix, and digits up to the first other character; the
  result saturates at the range of \<open>long\<close>. It is stored in an \<open>int\<close>, which keeps its low 32 bits.
\<close>

definition blank :: "char \<Rightarrow> bool" where
  "blank c \<longleftrightarrow> schar c = 32 \<or> (9 \<le> schar c \<and> schar c \<le> 13)"

definition digit_of :: "int \<Rightarrow> char \<Rightarrow> int option" where
  "digit_of base c =
     (let p = schar c;
          d = (if 48 \<le> p \<and> p \<le> 57 then p - 48
               else if 97 \<le> p \<and> p \<le> 122 then p - 87
               else if 65 \<le> p \<and> p \<le> 90 then p - 55 else base)
      in if d < base then Some d else None)"

fun digits :: "int \<Rightarrow> string \<Rightarrow> int \<Rightarrow> int" where
  "digits base [] n = n"
| "digits base (c # cs) n = (case digit_of base c of None \<Rightarrow> n | Some d \<Rightarrow> digits base cs (n * base + d))"

definition skip_prefix :: "int \<Rightarrow> string \<Rightarrow> string" where
  "skip_prefix base t =
     (case t of
        z # x # c # rest \<Rightarrow>
          if base = 16 \<and> z = CHR ''0'' \<and> (x = CHR ''x'' \<or> x = CHR ''X'') \<and> digit_of 16 c \<noteq> None then c # rest else t
      | _ \<Rightarrow> t)"

definition strtol :: "int \<Rightarrow> string \<Rightarrow> int" where
  "strtol base s =
     (let t = dropWhile blank s;
          minus = (take 1 t = ''-'');
          u = (if minus \<or> take 1 t = ''+'' then tl t else t);
          n = digits base (skip_prefix base u) 0
      in if minus then max (- n) (- (2 ^ 63)) else min n (2 ^ 63 - 1))"

section \<open>Actions\<close>

definition client_cb ::
  "string \<Rightarrow> (string \<Rightarrow> resp_event) \<Rightarrow> nat \<Rightarrow> httpclient_parser \<times> resp_event list \<Rightarrow> (httpclient_parser \<times> resp_event list) option" where
  "client_cb buffer ev p s =
     (case text_at buffer (hc_mark (fst s)) (LEN (hc_mark (fst s)) p) of
        None \<Rightarrow> None
      | Some at \<Rightarrow> Some (fst s, snd s @ [ev at]))"

fun client_perform ::
  "string \<Rightarrow> nat \<Rightarrow> client_action \<Rightarrow> httpclient_parser \<times> resp_event list \<Rightarrow> (httpclient_parser \<times> resp_event list) option" where
  "client_perform buffer p C_mark (x, evs) = Some (x\<lparr>hc_mark := p\<rparr>, evs)"
| "client_perform buffer p C_start_field (x, evs) = Some (x\<lparr>hc_field_start := p\<rparr>, evs)"
| "client_perform buffer p C_write_field (x, evs) = Some (x\<lparr>hc_field_len := LEN (hc_field_start x) p\<rparr>, evs)"
| "client_perform buffer p C_write_content_len (x, evs) =
     Some (x\<lparr>hc_content_len := word_of_int (strtol 10 (drop (hc_mark x) buffer))\<rparr>, evs)"
| "client_perform buffer p C_write_connection_close (x, evs) = Some (x\<lparr>hc_close := True\<rparr>, evs)"
| "client_perform buffer p C_write_value (x, evs) =
     (case (text_at buffer (hc_field_start x) (hc_field_len x), text_at buffer (hc_mark x) (LEN (hc_mark x) p)) of
        (Some field, Some val) \<Rightarrow> Some (x, evs @ [Rv_field field val])
      | _ \<Rightarrow> None)"
| "client_perform buffer p C_reason_phrase (x, evs) = client_cb buffer Rv_reason p (x, evs)"
| "client_perform buffer p C_status_code (x, evs) =
     client_cb buffer Rv_status p (x\<lparr>hc_status := word_of_int (strtol 10 (drop (hc_mark x) buffer))\<rparr>, evs)"
| "client_perform buffer p C_http_version (x, evs) = client_cb buffer Rv_version p (x, evs)"
| "client_perform buffer p C_chunk_size (x, evs) =
     (let n = word_of_int (strtol 16 (drop (hc_mark x) buffer)); last = sint n \<le> 0
      in client_cb buffer (if last then Rv_last_chunk else Rv_chunk) p
           (x\<lparr>hc_chunked := True, hc_content_len := n, hc_chunks_done := last\<rparr>, evs))"
| "client_perform buffer p C_trans_chunked (x, evs) = Some (x\<lparr>hc_chunked := True\<rparr>, evs)"
| "client_perform buffer p C_done (x, evs) =
     Some (x\<lparr>hc_body_start := p + 1\<rparr>, evs @ [Rv_header_done (drop (p + 1) buffer)])"

section \<open>The functions of the parser\<close>

abbreviation (input) httpclient_parser_start :: nat where "httpclient_parser_start \<equiv> 1"
abbreviation (input) httpclient_parser_first_final :: nat where "httpclient_parser_first_final \<equiv> 120"
abbreviation (input) httpclient_parser_error :: nat where "httpclient_parser_error \<equiv> 0"

text \<open>The memory \<open>x\<close> of the parser: only the status is left as it is.\<close>

definition httpclient_parser_init :: "httpclient_parser \<Rightarrow> httpclient_parser" where
  "httpclient_parser_init x =
     x\<lparr>hc_cs := httpclient_parser_start, hc_body_start := 0, hc_content_len := - 1, hc_chunked := False,
       hc_chunks_done := False, hc_mark := 0, hc_nread := 0, hc_field_len := 0, hc_field_start := 0, hc_close := False\<rparr>"

definition httpclient_parser_has_error :: "httpclient_parser \<Rightarrow> bool" where
  "httpclient_parser_has_error x \<longleftrightarrow> hc_cs x = httpclient_parser_error"

text \<open>Not every final state is the first: 121, 122 and 123 do not count as finished.\<close>

definition httpclient_parser_is_finished :: "httpclient_parser \<Rightarrow> bool" where
  "httpclient_parser_is_finished x \<longleftrightarrow> hc_cs x = httpclient_parser_first_final"

definition httpclient_parser_finish :: "httpclient_parser \<Rightarrow> int" where
  "httpclient_parser_finish x =
     (if httpclient_parser_has_error x then - 1 else if httpclient_parser_is_finished x then 1 else 0)"

text \<open>As for the request parser, a parser in error that gets input falls out of the switch in state 2.\<close>

definition client_loop ::
  "string \<Rightarrow> nat \<Rightarrow> httpclient_parser \<Rightarrow> (nat \<times> nat \<times> httpclient_parser \<times> resp_event list) option" where
  "client_loop buffer off x =
     (if hc_cs x = httpclient_parser_error \<and> off \<noteq> length buffer then Some (2, off, x, [])
      else run_machine client_edge client_trans (client_perform buffer) (hc_cs x) off (drop off buffer) (x, []))"

text \<open>
  What follows the loop. The state is stored always; assertions end the program, a failed check
  returns -1.
\<close>

definition client_execute_end ::
  "string \<Rightarrow> nat \<Rightarrow> nat \<times> nat \<times> httpclient_parser \<times> resp_event list \<Rightarrow>
   parse_failure + resp_event list \<times> int \<times> httpclient_parser" where
  "client_execute_end buffer off st =
     (case st of (cs, p, x1, evs) \<Rightarrow>
        let len = length buffer; x2 = x1\<lparr>hc_cs := cs, hc_nread := hc_nread x1 + (p - off)\<rparr>
        in if \<not> (p \<le> len \<and> hc_nread x2 \<le> len \<and> hc_body_start x2 \<le> len) then Inl Assertion
           else if \<not> (hc_mark x2 < len \<and> hc_field_len x2 \<le> len \<and> hc_field_start x2 < len) then Inr (evs, - 1, x2)
           else Inr (evs, int (hc_nread x2), x2))"

definition httpclient_parser_execute ::
  "httpclient_parser \<Rightarrow> string \<Rightarrow> nat \<Rightarrow> parse_failure + resp_event list \<times> int \<times> httpclient_parser" where
  "httpclient_parser_execute x buffer off =
     (if length buffer < off \<or> int (length buffer - off) \<noteq> int_of_size (length buffer) - int_of_size off then Inl Assertion
      else
        case client_loop buffer off (x\<lparr>hc_nread := 0, hc_mark := 0, hc_field_len := 0, hc_field_start := 0\<rparr>) of
          None \<Rightarrow> Inl Bad_length
        | Some st \<Rightarrow> client_execute_end buffer off st)"

end
