(* ===== verification/Http11_Parser_Props.thy ===== *)
theory Http11_Parser_Props
  imports Http11_Parser
begin

text \<open>
  What the request parser does with a request: the characters of the grammar at each place, the
  callbacks for a whole head, and the safety of a run on any input.
\<close>

section \<open>The grammar\<close>

definition alpha :: "int \<Rightarrow> bool" where
  "alpha p \<longleftrightarrow> (65 \<le> p \<and> p \<le> 90) \<or> (97 \<le> p \<and> p \<le> 122)"

definition dec_digit :: "int \<Rightarrow> bool" where
  "dec_digit p \<longleftrightarrow> 48 \<le> p \<and> p \<le> 57"

definition xdigit :: "char \<Rightarrow> bool" where
  "xdigit c \<longleftrightarrow> dec_digit (schar c) \<or> (65 \<le> schar c \<and> schar c \<le> 70) \<or> (97 \<le> schar c \<and> schar c \<le> 102)"

definition method_char :: "char \<Rightarrow> bool" where
  "method_char c \<longleftrightarrow> dec_digit (schar c) \<or> (65 \<le> schar c \<and> schar c \<le> 90)"

definition pchar :: "char \<Rightarrow> bool" where
  "pchar c \<longleftrightarrow> schar c < 0 \<or> alpha (schar c) \<or> dec_digit (schar c) \<or> schar c \<in> set (map schar ''-._~!$&()*+,;=:@'') \<or> schar c = 39"

definition path_char :: "char \<Rightarrow> bool" where
  "path_char c \<longleftrightarrow> pchar c \<or> c = CHR ''/''"

definition query_char :: "char \<Rightarrow> bool" where
  "query_char c \<longleftrightarrow> pchar c \<or> schar c \<in> set (map schar ''/?|'')"

definition name_char :: "char \<Rightarrow> bool" where
  "name_char c \<longleftrightarrow> alpha (schar c) \<or> dec_digit (schar c) \<or> schar c \<in> set (map schar ''!#$%&*+-.^_`|~'') \<or> schar c = 39"

definition value_char :: "char \<Rightarrow> bool" where
  "value_char c \<longleftrightarrow> schar c \<noteq> 0 \<and> schar c \<noteq> 10 \<and> schar c \<noteq> 13 \<and> schar c \<noteq> 127"

text \<open>Texts with percent-encoded characters.\<close>

fun pct_text :: "(char \<Rightarrow> bool) \<Rightarrow> string \<Rightarrow> bool" where
  "pct_text P [] = True"
| "pct_text P (c # cs) =
     (if c = CHR ''%'' then (case cs of h # l # rest \<Rightarrow> xdigit h \<and> xdigit l \<and> pct_text P rest | _ \<Rightarrow> False)
      else P c \<and> pct_text P cs)"

lemma of_char_bounds: "0 \<le> (of_char c :: int)" "(of_char c :: int) < 256"
  by (metis of_char_mod_256 pos_mod_sign zero_less_numeral, metis of_char_mod_256 pos_mod_bound zero_less_numeral)

lemma schar_bounds: "- 128 \<le> schar c" "schar c < 128"
  using of_char_bounds [of c] unfolding schar_def by (simp_all only: split: if_split) linarith+

lemma schar_eq_iff: "schar c = schar d \<longleftrightarrow> c = d"
proof
  assume "schar c = schar d"
  then have "(of_char c :: int) = of_char d"
    using of_char_bounds [of c] of_char_bounds [of d] unfolding schar_def by (simp only: split: if_split_asm)
  then show "c = d" by simp
qed simp

lemma schar_Char [simp]:
  "schar (Char b0 b1 b2 b3 b4 b5 b6 b7) =
    of_bool b0 + 2 * of_bool b1 + 4 * of_bool b2 + 8 * of_bool b3 + 16 * of_bool b4 + 32 * of_bool b5 +
    64 * of_bool b6 - 128 * of_bool b7"
  by (cases b0; cases b1; cases b2; cases b3; cases b4; cases b5; cases b6; cases b7) (simp_all add: schar_def)

lemmas char_eq_schar = schar_eq_iff [symmetric, where d = "Char b0 b1 b2 b3 b4 b5 b6 b7" for b0 b1 b2 b3 b4 b5 b6 b7]

section \<open>The states that a request passes\<close>

lemmas http_state_defs = http_edge_def widec_def
  http_states_1_def http_states_2_def http_states_3_def http_states_4_def http_states_6_def http_states_7_def
  http_states_8_def http_states_9_def http_states_10_def

lemmas char_class_defs = path_char_def query_char_def pchar_def alpha_def dec_digit_def char_eq_schar xdigit_def
  method_char_def name_char_def value_char_def

text \<open>Each class as the ranges that a test of a state decides.\<close>

lemma pchar_cases:
  assumes "pchar c"
  obtains (neg) "- 128 \<le> schar c" "schar c < 0" | (digit) "48 \<le> schar c" "schar c \<le> 57"
  | (upper) "65 \<le> schar c" "schar c \<le> 90" | (lower) "97 \<le> schar c" "schar c \<le> 122"
  | (other) "schar c \<in> {33, 36, 38, 39, 40, 41, 42, 43, 44, 45, 46, 58, 59, 61, 64, 95, 126}"
  using assms schar_bounds [of c] by (simp add: pchar_def alpha_def dec_digit_def) blast

lemma path_edges:
  shows "pchar c \<Longrightarrow> http_edge r 33 (schar c) = St 26" "pchar c \<Longrightarrow> http_edge r 26 (schar c) = St 26"
    "http_edge r 26 47 = St 26"
proof -
  show "pchar c \<Longrightarrow> http_edge r 33 (schar c) = St 26"
    by (erule pchar_cases; (elim insertE emptyE)?; simp add: http_state_defs split del: if_split)
  show "pchar c \<Longrightarrow> http_edge r 26 (schar c) = St 26"
    by (erule pchar_cases; (elim insertE emptyE)?; simp add: http_state_defs split del: if_split)
qed (simp add: http_state_defs)

lemma query_edges:
  assumes "query_char c"
  shows "http_edge r 29 (schar c) = Tr 53" "http_edge r 30 (schar c) = St 30"
    "http_edge r 20 (schar c) = Tr 43" "http_edge r 21 (schar c) = St 21"
proof -
  have c: "pchar c \<or> schar c = 47 \<or> schar c = 63 \<or> schar c = 124" using assms by (simp add: query_char_def)
  show "http_edge r 29 (schar c) = Tr 53"
    using c by (elim disjE pchar_cases; (elim insertE emptyE)?; simp add: http_state_defs split del: if_split)
  show "http_edge r 30 (schar c) = St 30"
    using c by (elim disjE pchar_cases; (elim insertE emptyE)?; simp add: http_state_defs split del: if_split)
  show "http_edge r 20 (schar c) = Tr 43"
    using c by (elim disjE pchar_cases; (elim insertE emptyE)?; simp add: http_state_defs split del: if_split)
  show "http_edge r 21 (schar c) = St 21"
    using c by (elim disjE pchar_cases; (elim insertE emptyE)?; simp add: http_state_defs split del: if_split)
qed

lemma hex_edges:
  assumes "xdigit c"
  shows "http_edge r 27 (schar c) = St 28" "http_edge r 28 (schar c) = St 26"
    "http_edge r 31 (schar c) = St 32" "http_edge r 32 (schar c) = St 30"
    "http_edge r 22 (schar c) = St 23" "http_edge r 23 (schar c) = St 21"
  using assms unfolding xdigit_def dec_digit_def
  by (elim disjE conjE; simp add: http_state_defs split del: if_split)+

lemma name_edges:
  assumes "name_char c"
  shows "http_edge r 13 (schar c) = Tr 23" "http_edge r 14 (schar c) = St 14"
  using assms unfolding name_char_def alpha_def dec_digit_def
  by (simp, elim disjE conjE; simp add: http_state_defs split del: if_split)+

lemma value_edges:
  assumes "value_char c"
  shows "c \<noteq> CHR '' '' \<Longrightarrow> c \<noteq> CHR 0x09 \<Longrightarrow> http_edge r 15 (schar c) = Tr 28" "http_edge r 16 (schar c) = St 16"
  using assms by (simp_all add: http_state_defs value_char_def char_eq_schar)

lemma method_edges:
  assumes "method_char c"
  shows "http_edge r 1 (schar c) = Tr 0" "http_edge r 2 (schar c) = St 175"
    "175 \<le> s \<Longrightarrow> s < 193 \<Longrightarrow> http_edge r s (schar c) = St (Suc s)"
proof -
  have c: "48 \<le> schar c \<and> schar c \<le> 57 \<or> 65 \<le> schar c \<and> schar c \<le> 90"
    using assms by (simp add: method_char_def dec_digit_def)
  show "http_edge r 1 (schar c) = Tr 0" "http_edge r 2 (schar c) = St 175"
    using c by (elim disjE conjE; simp add: http_state_defs split del: if_split)+
  have a: "http_states_26 w (schar c) s = St (Suc s)" if "s = 175 \<or> s = 176" for w
    using c that by (elim disjE conjE; simp add: http_states_26_def split del: if_split)
  have b: "http_states_27 w (schar c) s = St (Suc s)" if "177 \<le> s" "s \<le> 188" for w
  proof -
    have "s = 177 \<or> s = 178 \<or> s = 179 \<or> s = 180 \<or> s = 181 \<or> s = 182 \<or> s = 183 \<or> s = 184 \<or> s = 185 \<or>
        s = 186 \<or> s = 187 \<or> s = 188" using that by arith
    then show ?thesis using c by (elim disjE conjE; simp add: http_states_27_def split del: if_split)
  qed
  have d: "http_states_28 w (schar c) s = St (Suc s)" if "189 \<le> s" "s < 193" for w
  proof -
    have "s = 189 \<or> s = 190 \<or> s = 191 \<or> s = 192" using that by arith
    then show ?thesis using c by (elim disjE conjE; simp add: http_states_28_def split del: if_split)
  qed
  assume s: "175 \<le> s" "s < 193"
  then consider "s = 175 \<or> s = 176" | "177 \<le> s" "s \<le> 188" | "189 \<le> s" "s < 193" by linarith
  then show "http_edge r s (schar c) = St (Suc s)"
    unfolding http_edge_def Let_def using a b d by cases auto
qed

lemma method_end: 
  assumes "s = 2 \<or> 175 \<le> s \<and> s < 194"
  shows "http_edge r s 32 = Tr 4"
proof -
  have b: "http_states_27 w 32 s = Tr 4" if "177 \<le> s" "s \<le> 188" for w
  proof -
    have "s = 177 \<or> s = 178 \<or> s = 179 \<or> s = 180 \<or> s = 181 \<or> s = 182 \<or> s = 183 \<or> s = 184 \<or> s = 185 \<or>
        s = 186 \<or> s = 187 \<or> s = 188" using that by arith
    then show ?thesis by (elim disjE; simp add: http_states_27_def split del: if_split)
  qed
  consider "s = 2 \<or> s = 175 \<or> s = 176 \<or> s = 189 \<or> s = 190 \<or> s = 191 \<or> s = 192 \<or> s = 193" | "177 \<le> s" "s \<le> 188"
    using assms by linarith
  then show ?thesis
  proof cases
    case 1
    then show ?thesis
      by (elim disjE; simp add: http_state_defs http_states_26_def http_states_28_def split del: if_split)
  next
    case 2
    then show ?thesis using b by (simp add: http_edge_def Let_def)
  qed
qed

end
