(* ===== verification/Http11_Safety.thy ===== *)
theory Http11_Safety
  imports Http11_Parser_Props "HOL-Library.Sublist"
begin

text \<open>
  No run of a request parser that was just initialised fails, whatever the input: every text that
  a callback gets lies in the buffer, and the assertions behind the loop hold. The only offset
  that initialisation leaves alone is \<open>query_start\<close>; the states in which it is used are reached
  only behind the transition that sets it.
\<close>

section \<open>Jumps\<close>

text \<open>
  The labels \<open>tr\<close> of the file, the states between the start of a query and its end, and those in the
  value of a header.
\<close>

definition http_labels :: "nat list" where
  "http_labels =
     [0, 2, 3, 4, 6, 7, 8, 9, 10, 11, 12, 13, 21, 22, 23, 24, 25, 27, 28, 29, 30, 31, 33, 34, 36, 37, 39, 42, 43, 44,
      45, 47, 53, 54, 55, 56, 58, 59, 202, 203, 204, 224, 227, 228, 232, 235]"

definition in_query :: "nat \<Rightarrow> bool" where
  "in_query cs \<longleftrightarrow> cs = 30 \<or> cs = 31 \<or> cs = 32"

definition in_value :: "nat \<Rightarrow> bool" where
  "in_value cs \<longleftrightarrow> cs = 15 \<or> cs = 16"

definition query_label :: "nat \<Rightarrow> bool" where
  "query_label k \<longleftrightarrow> k = 58 \<or> k = 59"

definition value_label :: "nat \<Rightarrow> bool" where
  "value_label k \<longleftrightarrow> k = 28 \<or> k = 29 \<or> k = 30 \<or> k = 31 \<or> k = 33 \<or> k = 34"

fun goto_ok :: "nat \<Rightarrow> goto \<Rightarrow> bool" where
  "goto_ok cs (St m) = (m \<le> 349 \<and> (in_query m \<longrightarrow> in_query cs) \<and> (in_value m \<longrightarrow> in_value cs))"
| "goto_ok cs (Tr k) = (k \<in> set http_labels \<and> (query_label k \<longrightarrow> in_query cs) \<and> (value_label k \<longrightarrow> in_value cs))"

lemma goto_ok_if: "goto_ok cs (if b then x else y) = (if b then goto_ok cs x else goto_ok cs y)"
  by simp

lemma goto_ok_switch: "list_all (\<lambda>(_, g). goto_ok cs g) ts \<Longrightarrow> goto_ok cs d \<Longrightarrow> goto_ok cs (switch x ts d)"
  by (induction ts) auto

lemmas goto_ok_simps = goto_ok_if goto_ok_switch in_query_def in_value_def query_label_def value_label_def http_labels_def

lemma http_states_ok:
  shows "goto_ok cs (http_states_1 w p cs)"
    "goto_ok cs (http_states_2 w p cs)"
    "goto_ok cs (http_states_3 w p cs)"
    "goto_ok cs (http_states_4 w p cs)"
    "goto_ok cs (http_states_5 w p cs)"
    "goto_ok cs (http_states_6 w p cs)"
    "goto_ok cs (http_states_7 w p cs)"
    "goto_ok cs (http_states_8 w p cs)"
    "goto_ok cs (http_states_9 w p cs)"
    "goto_ok cs (http_states_10 w p cs)"
    "goto_ok cs (http_states_11 w p cs)"
    "goto_ok cs (http_states_12 w p cs)"
    "goto_ok cs (http_states_13 w p cs)"
    "goto_ok cs (http_states_14 w p cs)"
    "goto_ok cs (http_states_15 w p cs)"
    "goto_ok cs (http_states_16 w p cs)"
    "goto_ok cs (http_states_17 w p cs)"
    "goto_ok cs (http_states_18 w p cs)"
    "goto_ok cs (http_states_19 w p cs)"
    "goto_ok cs (http_states_20 w p cs)"
    "goto_ok cs (http_states_21 w p cs)"
    "goto_ok cs (http_states_22 w p cs)"
    "goto_ok cs (http_states_23 w p cs)"
    "goto_ok cs (http_states_24 w p cs)"
    "goto_ok cs (http_states_25 w p cs)"
    "goto_ok cs (http_states_26 w p cs)"
    "goto_ok cs (http_states_27 w p cs)"
    "goto_ok cs (http_states_28 w p cs)"
    "goto_ok cs (http_states_29 w p cs)"
    "goto_ok cs (http_states_30 w p cs)"
    "goto_ok cs (http_states_31 w p cs)"
    "goto_ok cs (http_states_32 w p cs)"
    "goto_ok cs (http_states_33 w p cs)"
    "goto_ok cs (http_states_34 w p cs)"
    "goto_ok cs (http_states_35 w p cs)"
    "goto_ok cs (http_states_36 w p cs)"
    "goto_ok cs (http_states_37 w p cs)"
    "goto_ok cs (http_states_38 w p cs)"
    "goto_ok cs (http_states_39 w p cs)"
    "goto_ok cs (http_states_40 w p cs)"
    "goto_ok cs (http_states_41 w p cs)"
    "goto_ok cs (http_states_42 w p cs)"
    "goto_ok cs (http_states_43 w p cs)"
    "goto_ok cs (http_states_44 w p cs)"
    "goto_ok cs (http_states_45 w p cs)"
    "goto_ok cs (http_states_46 w p cs)"
  by (simp_all add: goto_ok_simps http_states_1_def
      http_states_2_def
      http_states_3_def
      http_states_4_def
      http_states_5_def
      http_states_6_def
      http_states_7_def
      http_states_8_def
      http_states_9_def
      http_states_10_def
      http_states_11_def
      http_states_12_def
      http_states_13_def
      http_states_14_def
      http_states_15_def
      http_states_16_def
      http_states_17_def
      http_states_18_def
      http_states_19_def
      http_states_20_def
      http_states_21_def
      http_states_22_def
      http_states_23_def
      http_states_24_def
      http_states_25_def
      http_states_26_def
      http_states_27_def
      http_states_28_def
      http_states_29_def
      http_states_30_def
      http_states_31_def
      http_states_32_def
      http_states_33_def
      http_states_34_def
      http_states_35_def
      http_states_36_def
      http_states_37_def
      http_states_38_def
      http_states_39_def
      http_states_40_def
      http_states_41_def
      http_states_42_def
      http_states_43_def
      http_states_44_def
      http_states_45_def
      http_states_46_def cong: if_cong)


lemma http_edge_ok: "goto_ok cs (http_edge r cs p)"
  unfolding http_edge_def Let_def goto_ok_if by (simp add: http_states_ok)

text \<open>
  What actions need and leave: whether \<open>query_start\<close> and the length of the header name have been set
  in this run.
\<close>

fun act_ok :: "http_action \<Rightarrow> bool \<times> bool \<Rightarrow> (bool \<times> bool) option" where
  "act_ok Start_query (q, v) = Some (True, v)"
| "act_ok Start_field (q, v) = Some (q, False)"
| "act_ok Write_field (q, v) = Some (q, True)"
| "act_ok Query_string (q, v) = (if q then Some (q, v) else None)"
| "act_ok Write_value (q, v) = (if v then Some (q, v) else None)"
| "act_ok _ (q, v) = Some (q, v)"

definition jump_ok :: "nat \<Rightarrow> bool" where
  "jump_ok k =
     (case http_trans k of (acts, m, stop) \<Rightarrow>
        (case run_actions act_ok acts (query_label k, value_label k) of
           None \<Rightarrow> False
         | Some (q, v) \<Rightarrow> 0 < m \<and> m \<le> 349 \<and> (in_query m \<longrightarrow> q) \<and> (in_value m \<longrightarrow> v)))"

lemma jumps_ok: "list_all jump_ok http_labels"
  by code_simp

section \<open>Runs\<close>

fun event_texts :: "req_event \<Rightarrow> string list" where
  "event_texts (Ev_method t) = [t]"
| "event_texts (Ev_uri t) = [t]"
| "event_texts (Ev_scheme t) = [t]"
| "event_texts (Ev_path t) = [t]"
| "event_texts (Ev_fragment t) = [t]"
| "event_texts (Ev_query t) = [t]"
| "event_texts (Ev_header_done t) = [t]"
| "event_texts (Ev_version t) = [t]"
| "event_texts (Ev_field f t) = [f, t]"

definition texts_in :: "string \<Rightarrow> req_event list \<Rightarrow> bool" where
  "texts_in buffer evs \<longleftrightarrow> list_all (\<lambda>e. list_all (\<lambda>t. sublist t buffer) (event_texts e)) evs"

definition offsets_ok :: "nat \<Rightarrow> bool \<Rightarrow> bool \<Rightarrow> nat \<Rightarrow> http_parser \<Rightarrow> bool" where
  "offsets_ok len q v p x \<longleftrightarrow>
     mark x \<le> p \<and> mark x < len \<and> field_start x \<le> p \<and> field_start x < len \<and> field_len x \<le> len \<and> body_start x \<le> len \<and>
     (q \<longrightarrow> query_start x \<le> p) \<and> (v \<longrightarrow> field_start x + field_len x \<le> p)"

lemma text_at_in:
  assumes "from \<le> p" "p \<le> length buffer"
  shows "\<exists>t. text_at buffer from (LEN from p) = Some t \<and> sublist t buffer"
  using assms by (simp add: text_at_def LEN_def) (metis sublist_take sublist_drop sublist_order.order_trans)

lemma text_at_in2:
  assumes "from + len \<le> length buffer"
  shows "\<exists>t. text_at buffer from len = Some t \<and> sublist t buffer"
  using assms by (simp add: text_at_def) (metis sublist_take sublist_drop sublist_order.order_trans)

lemma element_cb_ok:
  assumes "from \<le> p" "p < length buffer" "texts_in buffer evs" "\<And>t. event_texts (ev t) = [t]"
  shows "\<exists>evs'. element_cb buffer ev from p (x, evs) = Some (x, evs') \<and> texts_in buffer evs'"
  using text_at_in [of "from" p buffer] assms by (auto simp: element_cb_def texts_in_def)

lemma http_perform_ok:
  assumes "offsets_ok (length buffer) q v p x" "texts_in buffer evs" "p < length buffer" "act_ok a (q, v) = Some (q1, v1)"
  shows "\<exists>x1 evs1. http_perform buffer p a (x, evs) = Some (x1, evs1) \<and> offsets_ok (length buffer) q1 v1 p x1 \<and>
    texts_in buffer evs1 \<and> hp_cs x1 = hp_cs x \<and> nread x1 = nread x"
proof -
  have "mark x \<le> p" using assms(1) by (simp add: offsets_ok_def)
  note els = element_cb_ok [OF this assms(3,2), where x = x]
  show ?thesis
  proof (cases a)
    case Write_value
    then have v: "v" "q1 = q" "v1 = v" using assms(4) by (simp_all split: if_splits)
    have "field_start x + field_len x \<le> length buffer" using assms(1,3) v by (simp add: offsets_ok_def)
    then show ?thesis
      using Write_value assms(1-3) v text_at_in2 [of "field_start x" "field_len x" buffer] text_at_in [of "mark x" p buffer]
      by (auto simp: offsets_ok_def texts_in_def)
  next
    case Query_string
    then have q: "q" "q1 = q" "v1 = v" using assms(4) by (simp_all split: if_splits)
    then show ?thesis
      using Query_string assms(1-3) element_cb_ok [of "query_start x" p buffer evs Ev_query x] by (auto simp: offsets_ok_def)
  next
    case Done
    then show ?thesis using assms by (auto simp: offsets_ok_def texts_in_def)
  qed (use assms els [of Ev_method] els [of Ev_uri] els [of Ev_path] els [of Ev_scheme] els [of Ev_fragment]
      els [of Ev_version] in \<open>auto simp: offsets_ok_def LEN_def\<close>)
qed

lemma run_actions_ok:
  assumes "run_actions act_ok acts (q, v) = Some (q1, v1)"
    "offsets_ok (length buffer) q v p x" "texts_in buffer evs" "p < length buffer"
  shows "\<exists>x1 evs1. run_actions (http_perform buffer p) acts (x, evs) = Some (x1, evs1) \<and>
    offsets_ok (length buffer) q1 v1 p x1 \<and> texts_in buffer evs1 \<and> hp_cs x1 = hp_cs x \<and> nread x1 = nread x"
  using assms
proof (induction acts arbitrary: q v x evs)
  case (Cons a acts)
  obtain q2 v2 where a: "act_ok a (q, v) = Some (q2, v2)" "run_actions act_ok acts (q2, v2) = Some (q1, v1)"
    using Cons.prems(1) by (auto split: option.splits)
  then show ?case
    using http_perform_ok [OF Cons.prems(2-4) a(1)] Cons.IH [OF a(2) _ _ Cons.prems(4)] by fastforce
qed auto

lemma jump_cases:
  assumes "http_edge r cs c = Tr k" "http_trans k = (acts, m, stop)"
  obtains q v where "run_actions act_ok acts (query_label k, value_label k) = Some (q, v)" "0 < m" "m \<le> 349"
    "in_query m \<longrightarrow> q" "in_value m \<longrightarrow> v" "query_label k \<longrightarrow> in_query cs" "value_label k \<longrightarrow> in_value cs"
proof -
  have "goto_ok cs (Tr k)" using http_edge_ok [of cs r c] assms(1) by simp
  moreover then have "jump_ok k" using jumps_ok by (auto simp: list_all_iff)
  ultimately show ?thesis using assms(2) that by (auto simp: jump_ok_def split: option.splits)
qed

lemma offsets_ok_weaken:
  "offsets_ok len q v p x \<Longrightarrow> p \<le> p' \<Longrightarrow> (q' \<longrightarrow> q) \<Longrightarrow> (v' \<longrightarrow> v) \<Longrightarrow> offsets_ok len q' v' p' x"
  by (auto simp: offsets_ok_def)

lemma scan_ok:
  assumes "drop p buffer = rest" "p \<le> length buffer" "0 < cs" "cs \<le> 349"
    "offsets_ok (length buffer) (in_query cs) (in_value cs) p x" "texts_in buffer evs"
  shows "\<exists>cs1 p1 x1 evs1. run_machine (http_edge r) http_trans (http_perform buffer) cs p rest (x, evs) = Some (cs1, p1, x1, evs1) \<and>
    cs1 \<le> 349 \<and> p \<le> p1 \<and> p1 \<le> length buffer \<and> offsets_ok (length buffer) False False p1 x1 \<and> texts_in buffer evs1 \<and>
    hp_cs x1 = hp_cs x \<and> nread x1 = nread x"
  using assms
proof (induction rest arbitrary: p cs x evs)
  case Nil
  then show ?case by (auto intro: offsets_ok_weaken)
next
  case (Cons c rest)
  have p: "p < length buffer" using Cons.prems(1) by (metis drop_all leI list.distinct(1))
  have rest: "drop (p + 1) buffer = rest" using Cons.prems(1) by (metis drop_drop drop_Suc_Cons drop0 One_nat_def add.commute)
  show ?case
  proof (cases "http_edge r cs (schar c)")
    case (St m)
    have m: "m \<le> 349" "in_query m \<longrightarrow> in_query cs" "in_value m \<longrightarrow> in_value cs"
      using http_edge_ok [of cs r "schar c"] St by simp_all
    show ?thesis
    proof (cases "m = 0")
      case True
      then show ?thesis using St p Cons.prems by (auto intro: offsets_ok_weaken)
    next
      case False
      then show ?thesis
        using Cons.IH [OF rest _ _ m(1), of x evs] offsets_ok_weaken [OF Cons.prems(5), of "p + 1"] m p Cons.prems(6) St
        by fastforce
    qed
  next
    case (Tr k)
    obtain acts m stop where t: "http_trans k = (acts, m, stop)" using prod_cases3 by blast
    obtain q v where k: "run_actions act_ok acts (query_label k, value_label k) = Some (q, v)" "0 < m" "m \<le> 349"
      "in_query m \<longrightarrow> q" "in_value m \<longrightarrow> v" "query_label k \<longrightarrow> in_query cs" "value_label k \<longrightarrow> in_value cs"
      using jump_cases [OF Tr t] by blast
    obtain x1 evs1 where r: "run_actions (http_perform buffer p) acts (x, evs) = Some (x1, evs1)"
      "offsets_ok (length buffer) q v p x1" "texts_in buffer evs1" "hp_cs x1 = hp_cs x \<and> nread x1 = nread x"
      using run_actions_ok [OF k(1) offsets_ok_weaken [OF Cons.prems(5) order_refl k(6,7)] Cons.prems(6) p] by blast
    have o: "offsets_ok (length buffer) (in_query m) (in_value m) (p + 1) x1"
      using offsets_ok_weaken [OF r(2) _ k(4,5)] by simp
    show ?thesis
    proof (cases stop)
      case True
      then show ?thesis using Tr t r k(3) p offsets_ok_weaken [OF o order_refl, of False False] by auto
    next
      case False
      then show ?thesis using Cons.IH [OF rest _ k(2,3) o r(3)] p Tr t r by fastforce
    qed
  qed
qed

lemma http_execute_total:
  assumes "buffer \<noteq> []" "hp_cs x \<le> 349" "\<not> in_query (hp_cs x)" "body_start x \<le> length buffer" "length buffer < 2 ^ 31"
  shows "\<exists>evs n x1. http_parser_execute x buffer 0 = Inr (evs, n, x1) \<and> n \<le> length buffer \<and> nread x1 = n \<and>
    texts_in buffer evs \<and> hp_cs x1 \<le> 349"
proof -
  let ?x = "x\<lparr>nread := 0, mark := 0, field_len := 0, field_start := 0\<rparr>"
  have o: "offsets_ok (length buffer) (in_query (hp_cs x)) (in_value (hp_cs x)) 0 ?x"
    using assms by (auto simp: offsets_ok_def)
  show ?thesis
  proof (cases "hp_cs x = 0")
    case True
    then show ?thesis using assms o
      by (auto simp: http_parser_execute_def http_execute_end_def http_loop_def http_parser_has_error_def texts_in_def)
  next
    case False
    then obtain cs1 p1 x1 evs1 where "http_loop buffer 0 ?x = Some (cs1, p1, x1, evs1)" "cs1 \<le> 349" "p1 \<le> length buffer"
      "offsets_ok (length buffer) False False p1 x1" "texts_in buffer evs1" "hp_cs x1 = hp_cs x \<and> nread x1 = 0" 
      using scan_ok [where p = 0 and buffer = buffer and x = ?x and evs = "[]" and r = "uri_relaxed x", OF _ _ _ _ o] assms(2)
      by (auto simp: http_loop_def texts_in_def)
    then show ?thesis using assms False
      by (auto simp: http_parser_execute_def http_execute_end_def http_parser_has_error_def offsets_ok_def Let_def)
  qed
qed

text \<open>
  C19. Executing the request parser never fails on a buffer of less than 2^31 bytes, unless it resumes in
  the middle of a query: no text has an impossible length and every assertion, before the loop
  and behind it, holds. It consumes
  at most the buffer, every text passed to a callback is a part of the buffer, and the state
  stays one of the machine.
\<close>

theorem http_execute_safe:
  assumes "buffer \<noteq> []" "hp_cs x \<le> 349" "\<not> in_query (hp_cs x)" "body_start x \<le> length buffer" "length buffer < 2 ^ 31"
  shows "\<exists>evs n x1. http_parser_execute x buffer 0 = Inr (evs, n, x1) \<and> n \<le> length buffer \<and> nread x1 = n \<and>
    texts_in buffer evs \<and> hp_cs x1 \<le> 349"
  using http_execute_total [OF assms] .

text \<open>Memory that was not cleared, and the first piece of a request.\<close>

definition raw_parser :: http_parser where
  "raw_parser =
     \<lparr>hp_cs = 7, body_start = 5, content_len = 3, nread = 1, mark = 2, field_start = 8, field_len = 9,
      query_start = 1000, xml_sent = True, json_sent = False, uri_relaxed = True\<rparr>"

theorem http_execute_safe_witness:
  "\<exists>evs n x1. http_parser_execute (http_parser_init raw_parser) ''GET /a?b'' 0 = Inr (evs, n, x1) \<and> n \<le> length ''GET /a?b'' \<and>
    nread x1 = n \<and> texts_in ''GET /a?b'' evs \<and> hp_cs x1 \<le> 349"
  by (rule http_execute_safe) (simp_all add: http_parser_init_def raw_parser_def in_query_def)

section \<open>Resuming in a query\<close>

text \<open>
  C37. A query whose start was in an earlier piece than its end makes the parser throw: the offset
  of its start is that of the earlier piece, and when the rest of the query is shorter, the
  length of the text wraps around. The pieces are shorter than 2^31 bytes; a longer one fails the
  assertion in front of the loop.
\<close>

theorem split_query_throws:
  assumes "hp_cs x = 30" "list_all query_char q" "length q < query_start x" "length (q @ '' '' @ rest) < 2 ^ 31"
  shows "http_parser_execute x (q @ '' '' @ rest) 0 = Inl Bad_length"
proof -
  let ?x = "x\<lparr>nread := 0, mark := 0, field_len := 0, field_start := 0\<rparr>" and ?b = "q @ '' '' @ rest"
  have stay: "list_all (\<lambda>c. http_edge (uri_relaxed x) 30 (schar c) = St 30) q"
    using assms(2) query_edges by (auto simp: list_all_iff)
  have e: "http_edge (uri_relaxed x) 30 32 = Tr 58" by (simp add: http_state_defs)
  have t: "http_trans 58 = ([Query_string, Request_uri], 4, False)" by code_simp
  have "text_at ?b (query_start x) (LEN (query_start x) (length q)) = None"
    using assms(3,4) by (simp add: text_at_def LEN_def)
  then have "run_machine (http_edge (uri_relaxed x)) http_trans (http_perform ?b) 30 (length q) ('' '' @ rest) (?x, []) = None"
    by (simp add: e t element_cb_def)
  then have "run_machine (http_edge (uri_relaxed x)) http_trans (http_perform ?b) 30 0 ?b (?x, []) = None"
    by (subst scan_stay) (use stay in \<open>simp_all del: run_machine.simps\<close>)
  then show ?thesis using assms(1,4) by (simp add: http_parser_execute_def http_execute_end_def http_loop_def del: run_machine.simps)
qed

theorem split_query_throws_witness:
  "(case http_parser_execute (http_parser_init raw_parser) ''GET /a?b'' 0 of
      Inr (evs, n, x1) \<Rightarrow> n = 8 \<and> http_parser_execute x1 (''c'' @ '' '' @ ''HTTP/1.1'') 0 = Inl Bad_length
    | _ \<Rightarrow> False)"
proof -
  have "(case http_parser_execute (http_parser_init raw_parser) ''GET /a?b'' 0 of
      Inr (evs, n, x1) \<Rightarrow> n = 8 \<and> hp_cs x1 = 30 \<and> query_start x1 = 7 | _ \<Rightarrow> False)"
    by code_simp
  moreover have "list_all query_char ''c''" by (simp add: query_char_def pchar_def alpha_def)
  ultimately show ?thesis
    using split_query_throws [where q = "''c''" and rest = "''HTTP/1.1''"] by (auto split: sum.splits)
qed

end
