(* ===== verification/Httpclient_Safety.thy ===== *)
theory Httpclient_Safety
  imports Httpclient_Parser Http11_Safety
begin

text \<open>
  What the response parser does with any input. A text that is passed to a callback lies in the
  buffer, and the assertions hold, unless the buffer has a header line that consists only of
  digits or only of the word chunked. The generated machine takes such a line behind an
  empty \<open>Content-Length\<close> or \<open>Transfer-Encoding\<close> both for a value that was continued and for a new
  name: the offset of the name is set again, but its length is that of the line before, and the name
  passed to the callback can reach behind the buffer.
\<close>

section \<open>Jumps\<close>

definition client_labels :: "nat list" where
  "client_labels =
     [0, 2, 3, 4, 6, 7, 8, 9, 10, 12, 13, 14, 15, 16, 18, 26, 27, 28, 30, 32, 33, 35, 36, 37, 39, 40, 41, 42, 43, 45, 46, 58,
      59, 60, 61, 62, 64, 66, 74, 75, 76, 77, 78, 95, 96, 97, 98, 99, 101, 103, 104, 111, 112, 113, 136, 137, 148, 149,
      150, 151, 152, 154, 156, 157, 158, 159]"

text \<open>
  The states in the name of a header or chunk extension, and those behind a header whose end did
  not need the name: the length of the name is not known there. The labels that leave them.
\<close>

definition named :: "nat \<Rightarrow> bool" where
  "named cs \<longleftrightarrow>
     \<not> (cs = 3 \<or> cs = 5 \<or> cs = 21 \<or> (25 \<le> cs \<and> cs \<le> 34) \<or> (43 \<le> cs \<and> cs \<le> 60) \<or> (73 \<le> cs \<and> cs \<le> 79) \<or>
        cs = 88 \<or> (90 \<le> cs \<and> cs \<le> 94) \<or> (101 \<le> cs \<and> cs \<le> 111) \<or> cs = 117 \<or> cs = 120)"

definition open_label :: "nat \<Rightarrow> bool" where
  "open_label k \<longleftrightarrow>
     k = 7 \<or> k = 9 \<or> k = 10 \<or> k = 12 \<or> k = 13 \<or> k = 39 \<or> k = 58 \<or> (74 \<le> k \<and> k \<le> 78) \<or> k = 95 \<or> k = 148"

text \<open>
  The states of the ambiguous lines: 113 and 62 at their start, 117 behind digits, 73 to 79 behind
  the first letters of the word. How they are entered, with the character \<open>p\<close>.
\<close>

definition bare_state :: "nat \<Rightarrow> bool" where
  "bare_state cs \<longleftrightarrow> cs = 62 \<or> cs = 113 \<or> cs = 117 \<or> (73 \<le> cs \<and> cs \<le> 79)"

definition enters :: "nat \<Rightarrow> int \<Rightarrow> nat \<Rightarrow> bool" where
  "enters cs p m \<longleftrightarrow>
     (m = 62 \<or> m = 113 \<longrightarrow> p = 10) \<and>
     (m = 117 \<longrightarrow> (cs = 113 \<or> cs = 117) \<and> 48 \<le> p \<and> p \<le> 57) \<and>
     (m = 73 \<longrightarrow> cs = 62 \<and> (p = 67 \<or> p = 99)) \<and>
     (m = 74 \<longrightarrow> cs = 73 \<and> (p = 72 \<or> p = 104)) \<and>
     (m = 75 \<longrightarrow> cs = 74 \<and> (p = 85 \<or> p = 117)) \<and>
     (m = 76 \<longrightarrow> cs = 75 \<and> (p = 78 \<or> p = 110)) \<and>
     (m = 77 \<longrightarrow> cs = 76 \<and> (p = 75 \<or> p = 107)) \<and>
     (m = 78 \<longrightarrow> cs = 77 \<and> (p = 69 \<or> p = 101)) \<and>
     (m = 79 \<longrightarrow> cs = 78 \<and> (p = 68 \<or> p = 100))"

definition leads :: "nat \<Rightarrow> nat" where
  "leads k = (if k = 97 then 62 else if k = 150 then 113 else if k = 103 then 73 else if k = 156 then 117 else 0)"

fun goto_sound :: "nat \<Rightarrow> int \<Rightarrow> goto \<Rightarrow> bool" where
  "goto_sound cs p (St m) = (m \<le> 123 \<and> (named m \<longrightarrow> m = 0 \<or> named cs) \<and> enters cs p m)"
| "goto_sound cs p (Tr k) =
     (k \<in> set client_labels \<and> enters cs p (leads k) \<and>
      (\<not> open_label k \<longrightarrow> named cs \<or> (cs = 79 \<or> cs = 117) \<and> (p = 10 \<or> p = 13)))"

lemma goto_sound_if: "goto_sound cs p (if b then x else y) = (if b then goto_sound cs p x else goto_sound cs p y)"
  by simp

lemma goto_sound_switch:
  "list_all (\<lambda>(k, g). goto_sound cs k g) ts \<Longrightarrow> goto_sound cs p d \<Longrightarrow> goto_sound cs p (switch p ts d)"
  by (induction ts) auto

lemmas goto_sound_simps =
  goto_sound_if goto_sound_switch named_def open_label_def enters_def leads_def client_labels_def


lemma goto_sound_state: "goto_sound k p a \<Longrightarrow> goto_sound cs p b \<Longrightarrow> goto_sound cs p (if cs = k then a else b)"
  by simp
lemmas client_states_defs =
  client_states_1_def
  client_states_2_def
  client_states_3_def
  client_states_4_def
  client_states_5_def
  client_states_6_def
  client_states_7_def
  client_states_8_def
  client_states_9_def
  client_states_10_def
  client_states_11_def
  client_states_12_def
  client_states_13_def
  client_states_14_def
  client_states_15_def
  client_states_16_def
  client_states_17_def
  client_states_18_def
  client_states_19_def
  client_states_20_def
  client_states_21_def
  client_states_22_def

lemma client_states_sound:
  "goto_sound cs p (client_states_1 p cs)"
  "goto_sound cs p (client_states_2 p cs)"
  "goto_sound cs p (client_states_3 p cs)"
  "goto_sound cs p (client_states_4 p cs)"
  "goto_sound cs p (client_states_5 p cs)"
  "goto_sound cs p (client_states_6 p cs)"
  "goto_sound cs p (client_states_7 p cs)"
  "goto_sound cs p (client_states_8 p cs)"
  "goto_sound cs p (client_states_9 p cs)"
  "goto_sound cs p (client_states_10 p cs)"
  "goto_sound cs p (client_states_11 p cs)"
  "goto_sound cs p (client_states_12 p cs)"
  "goto_sound cs p (client_states_13 p cs)"
  "goto_sound cs p (client_states_14 p cs)"
  "goto_sound cs p (client_states_15 p cs)"
  "goto_sound cs p (client_states_16 p cs)"
  "goto_sound cs p (client_states_17 p cs)"
  "goto_sound cs p (client_states_18 p cs)"
  "goto_sound cs p (client_states_19 p cs)"
  "goto_sound cs p (client_states_20 p cs)"
  "goto_sound cs p (client_states_21 p cs)"
  "goto_sound cs p (client_states_22 p cs)"
  unfolding client_states_defs
  by (intro goto_sound_state goto_sound_switch; simp add: goto_sound_simps del: switch.simps split del: if_split cong del: if_weak_cong; (simp)?)+

lemma client_edge_sound: "goto_sound cs p (client_edge cs p)"
  unfolding client_edge_def goto_sound_if by (simp add: client_states_sound)

text \<open>What the actions need and leave of the length of the name.\<close>

fun name_known :: "client_action \<Rightarrow> bool \<Rightarrow> bool option" where
  "name_known C_start_field v = Some False"
| "name_known C_write_field v = Some True"
| "name_known C_write_value v = (if v then Some v else None)"
| "name_known _ v = Some v"

definition jump_sound :: "nat \<Rightarrow> bool" where
  "jump_sound k =
     (case client_trans k of (acts, m, stop) \<Rightarrow>
        (case run_actions name_known acts (\<not> open_label k) of
           None \<Rightarrow> False
         | Some v \<Rightarrow> 0 < m \<and> m \<le> 123 \<and> (named m \<longrightarrow> v) \<and> (bare_state m \<longrightarrow> m = leads k)))"

lemma jumps_sound: "list_all jump_sound client_labels"
  by code_simp

section \<open>Runs\<close>

fun resp_texts :: "resp_event \<Rightarrow> string list" where
  "resp_texts (Rv_reason t) = [t]"
| "resp_texts (Rv_status t) = [t]"
| "resp_texts (Rv_chunk t) = [t]"
| "resp_texts (Rv_version t) = [t]"
| "resp_texts (Rv_header_done t) = [t]"
| "resp_texts (Rv_last_chunk t) = [t]"
| "resp_texts (Rv_field f t) = [f, t]"

definition resp_in :: "string \<Rightarrow> resp_event list \<Rightarrow> bool" where
  "resp_in buffer evs \<longleftrightarrow> list_all (\<lambda>e. list_all (\<lambda>t. sublist t buffer) (resp_texts e)) evs"

definition client_ok :: "nat \<Rightarrow> bool \<Rightarrow> nat \<Rightarrow> httpclient_parser \<Rightarrow> bool" where
  "client_ok len v p x \<longleftrightarrow>
     hc_mark x \<le> p \<and> hc_mark x < len \<and> hc_field_start x \<le> p \<and> hc_field_start x < len \<and> hc_field_len x \<le> len \<and>
     hc_body_start x \<le> len \<and> (v \<longrightarrow> hc_field_start x + hc_field_len x \<le> p)"

lemma client_ok_weaken: "client_ok len v p x \<Longrightarrow> p \<le> p' \<Longrightarrow> (v' \<longrightarrow> v) \<Longrightarrow> client_ok len v' p' x"
  by (auto simp: client_ok_def)

lemma client_cb_ok:
  assumes "client_ok (length buffer) v p x" "p < length buffer" "resp_in buffer evs" "\<And>t. resp_texts (ev t) = [t]"
  shows "\<exists>evs'. client_cb buffer ev p (x, evs) = Some (x, evs') \<and> resp_in buffer evs'"
  using text_at_in [of "hc_mark x" p buffer] assms by (auto simp: client_cb_def resp_in_def client_ok_def)

lemma client_perform_ok:
  assumes "client_ok (length buffer) v p x" "resp_in buffer evs" "p < length buffer" "name_known a v = Some v1"
  shows "\<exists>x1 evs1. client_perform buffer p a (x, evs) = Some (x1, evs1) \<and> client_ok (length buffer) v1 p x1 \<and>
    resp_in buffer evs1 \<and> hc_nread x1 = hc_nread x"
proof -
  note cb = client_cb_ok [OF _ assms(3,2)]
  show ?thesis
  proof (cases a)
    case C_write_value
    then have v: "v" "v1 = v" using assms(4) by (simp_all split: if_splits)
    have "hc_field_start x + hc_field_len x \<le> length buffer" using assms(1,3) v by (simp add: client_ok_def)
    then show ?thesis
      using C_write_value assms(1-3) v text_at_in2 [of "hc_field_start x" "hc_field_len x" buffer]
        text_at_in [of "hc_mark x" p buffer]
      by (auto simp: client_ok_def resp_in_def)
  next
    case C_chunk_size
    let ?n = "word_of_int (strtol 16 (drop (hc_mark x) buffer)) :: 32 word"
    let ?x = "x\<lparr>hc_chunked := True, hc_content_len := ?n, hc_chunks_done := sint ?n \<le> 0\<rparr>"
    have "client_ok (length buffer) v p ?x" using assms(1) by (simp add: client_ok_def)
    moreover have "\<exists>evs'. client_cb buffer (if sint ?n \<le> 0 then Rv_last_chunk else Rv_chunk) p (?x, evs) = Some (?x, evs') \<and>
        resp_in buffer evs'"
      by (rule cb) (use assms(1) in \<open>auto simp: client_ok_def\<close>)
    ultimately show ?thesis using C_chunk_size assms(4) by (auto simp: Let_def)
  next
    case C_status_code
    let ?x = "x\<lparr>hc_status := word_of_int (strtol 10 (drop (hc_mark x) buffer))\<rparr>"
    have "client_ok (length buffer) v p ?x" using assms(1) by (simp add: client_ok_def)
    then show ?thesis using C_status_code assms(4) cb [of v ?x Rv_status] by auto
  qed (use assms cb [OF assms(1), of Rv_reason] cb [OF assms(1), of Rv_version]
      in \<open>auto simp: client_ok_def LEN_def resp_in_def\<close>)
qed

lemma client_actions_ok:
  assumes "run_actions name_known acts v = Some v1"
    "client_ok (length buffer) v p x" "resp_in buffer evs" "p < length buffer"
  shows "\<exists>x1 evs1. run_actions (client_perform buffer p) acts (x, evs) = Some (x1, evs1) \<and>
    client_ok (length buffer) v1 p x1 \<and> resp_in buffer evs1 \<and> hc_nread x1 = hc_nread x"
  using assms
proof (induction acts arbitrary: v x evs)
  case (Cons a acts)
  obtain v2 where a: "name_known a v = Some v2" "run_actions name_known acts v2 = Some v1"
    using Cons.prems(1) by (auto split: option.splits)
  then show ?case
    using client_perform_ok [OF Cons.prems(2-4) a(1)] Cons.IH [OF a(2) _ _ Cons.prems(4)] by fastforce
qed auto

section \<open>Ambiguous lines\<close>

text \<open>A line after another that has only digits or is the word chunked, in any case of letters.\<close>

definition same_letter :: "char \<Rightarrow> char \<Rightarrow> bool" where
  "same_letter c k \<longleftrightarrow> schar c = schar k \<or> schar c = schar k - 32"

definition chunked_prefix :: "nat \<Rightarrow> string \<Rightarrow> bool" where
  "chunked_prefix n u \<longleftrightarrow> list_all2 same_letter u (take n ''chunked'')"

definition ambiguous_line :: "string \<Rightarrow> bool" where
  "ambiguous_line buffer \<longleftrightarrow>
     (\<exists>pre u c post. buffer = pre @ CHR 0x0A # u @ c # post \<and> (c = CHR 0x0A \<or> c = CHR 0x0D) \<and>
        (u \<noteq> [] \<and> list_all (\<lambda>d. dec_digit (schar d)) u \<or> chunked_prefix 7 u))"

text \<open>What has been read of such a line, before a state.\<close>

definition line_read :: "nat \<Rightarrow> string \<Rightarrow> bool" where
  "line_read cs before \<longleftrightarrow>
     (cs = 62 \<or> cs = 113 \<longrightarrow> (\<exists>pre. before = pre @ [CHR 0x0A])) \<and>
     (cs = 117 \<longrightarrow> (\<exists>pre u. before = pre @ CHR 0x0A # u \<and> u \<noteq> [] \<and> list_all (\<lambda>d. dec_digit (schar d)) u)) \<and>
     (73 \<le> cs \<and> cs \<le> 79 \<longrightarrow> (\<exists>pre u. before = pre @ CHR 0x0A # u \<and> chunked_prefix (cs - 72) u))"

lemma line_read_other: "\<not> bare_state cs \<Longrightarrow> line_read cs before"
  by (auto simp: line_read_def bare_state_def)

lemma line_readI:
  "before = pre @ CHR 0x0A # u \<Longrightarrow> u \<noteq> [] \<Longrightarrow> list_all (\<lambda>d. dec_digit (schar d)) u \<Longrightarrow> line_read 117 before"
  "before = pre @ CHR 0x0A # u \<Longrightarrow> chunked_prefix (m - 72) u \<Longrightarrow> 73 \<le> m \<Longrightarrow> m \<le> 79 \<Longrightarrow> line_read m before"
  unfolding line_read_def by auto

lemma chunked_prefix_snoc:
  assumes "chunked_prefix n u" "n < 7" "same_letter c (''chunked'' ! n)"
  shows "chunked_prefix (Suc n) (u @ [c])"
proof -
  have "take (Suc n) ''chunked'' = take n ''chunked'' @ [''chunked'' ! n]"
    using assms(2) by (intro take_Suc_conv_app_nth) simp
  then show ?thesis using assms(1,3) by (simp add: chunked_prefix_def list_all2_appendI)
qed

lemma enters_letter:
  assumes "enters cs (schar c) m" "74 \<le> m" "m \<le> 79"
  shows "Suc cs = m \<and> same_letter c (''chunked'' ! (cs - 72))"
proof -
  have "m = 74 \<or> m = 75 \<or> m = 76 \<or> m = 77 \<or> m = 78 \<or> m = 79" using assms(2,3) by arith
  then show ?thesis
    using assms(1) by (elim disjE; simp add: enters_def same_letter_def; elim conjE disjE; simp)
qed

lemma line_read_step:
  assumes "enters cs (schar c) m" "line_read cs before"
  shows "line_read m (before @ [c])"
proof -
  consider "m = 62 \<or> m = 113" | "m = 117" | "m = 73" | "74 \<le> m" "m \<le> 79" | "\<not> bare_state m"
    unfolding bare_state_def by linarith
  then show ?thesis
  proof cases
    case 1
    then have "c = CHR 0x0A" using assms(1) by (auto simp: enters_def char_eq_schar)
    then show ?thesis using 1 by (auto simp: line_read_def)
  next
    case 2
    then have c: "cs = 113 \<or> cs = 117" "dec_digit (schar c)" using assms(1) by (simp_all add: enters_def dec_digit_def)
    have "\<exists>pre u. before = pre @ CHR 0x0A # u \<and> list_all (\<lambda>d. dec_digit (schar d)) u"
    proof (cases "cs = 113")
      case True
      then show ?thesis using assms(2) by (fastforce simp: line_read_def)
    next
      case False
      then show ?thesis using c(1) assms(2) by (fastforce simp: line_read_def)
    qed
    then obtain pre u where u: "before = pre @ CHR 0x0A # u" "list_all (\<lambda>d. dec_digit (schar d)) u" by blast
    show ?thesis
      unfolding 2 by (rule line_readI(1) [of _ pre "u @ [c]"]) (use u c(2) in simp_all)
  next
    case 3
    then have c: "cs = 62" "schar c = 67 \<or> schar c = 99" using assms(1) by (simp_all add: enters_def)
    then obtain pre where "before = pre @ [CHR 0x0A]" using assms(2) by (auto simp: line_read_def)
    moreover have "chunked_prefix 1 [c]" using c(2) by (auto simp: chunked_prefix_def same_letter_def)
    ultimately show ?thesis using 3 line_readI(2) [of "before @ [c]" pre "[c]" 73] by simp
  next
    case 4
    then have c: "Suc cs = m" "same_letter c (''chunked'' ! (cs - 72))" "73 \<le> cs" "cs \<le> 78"
      using enters_letter [OF assms(1)] by auto
    then obtain pre u where u: "before = pre @ CHR 0x0A # u" "chunked_prefix (cs - 72) u"
      using assms(2) by (auto simp: line_read_def)
    have "chunked_prefix (Suc (cs - 72)) (u @ [c])" by (rule chunked_prefix_snoc [OF u(2) _ c(2)]) (use c in simp)
    moreover have "Suc (cs - 72) = m - 72" using c by simp
    ultimately show ?thesis using 4 u(1) line_readI(2) [of "before @ [c]" pre "u @ [c]" m] by simp
  next
    case 5
    then show ?thesis by (rule line_read_other)
  qed
qed

lemma line_read_ambiguous:
  assumes "line_read cs before" "cs = 79 \<or> cs = 117" "schar c = 10 \<or> schar c = 13"
  shows "ambiguous_line (before @ c # post)"
proof -
  have c: "c = CHR 0x0A \<or> c = CHR 0x0D" using assms(3) by (simp add: char_eq_schar)
  obtain pre u where u: "before = pre @ CHR 0x0A # u" "u \<noteq> [] \<and> list_all (\<lambda>d. dec_digit (schar d)) u \<or> chunked_prefix 7 u"
    using assms(1,2) by (auto simp: line_read_def)
  have "before @ c # post = pre @ CHR 0x0A # u @ c # post" using u(1) by simp
  with u(2) c show ?thesis unfolding ambiguous_line_def by blast
qed

section \<open>Safety\<close>

lemma client_scan_ok:
  assumes "buffer = before @ rest" "0 < cs" "cs \<le> 123" "line_read cs before"
    "client_ok (length buffer) (named cs) (length before) x" "resp_in buffer evs"
  shows "ambiguous_line buffer \<or>
    (\<exists>cs1 p1 x1 evs1. run_machine client_edge client_trans (client_perform buffer) cs (length before) rest (x, evs) =
       Some (cs1, p1, x1, evs1) \<and> cs1 \<le> 123 \<and> length before \<le> p1 \<and> p1 \<le> length buffer \<and>
       client_ok (length buffer) False p1 x1 \<and> resp_in buffer evs1 \<and> hc_nread x1 = hc_nread x)"
  using assms
proof (induction rest arbitrary: before cs x evs)
  case Nil
  then show ?case by (auto intro: client_ok_weaken)
next
  case (Cons c rest)
  let ?p = "length before"
  have p: "?p < length buffer" and b: "buffer = (before @ [c]) @ rest" using Cons.prems(1) by simp_all
  show ?case
  proof (cases "client_edge cs (schar c)")
    case (St m)
    have m: "m \<le> 123" "named m \<longrightarrow> m = 0 \<or> named cs" "enters cs (schar c) m"
      using client_edge_sound [of cs "schar c"] St by simp_all
    show ?thesis
    proof (cases "m = 0")
      case True
      then show ?thesis using St p Cons.prems by (auto intro: client_ok_weaken)
    next
      case False
      have o: "client_ok (length buffer) (named m) (length (before @ [c])) x"
        by (rule client_ok_weaken [OF Cons.prems(5)]) (use m False in simp_all)
      show ?thesis
        using Cons.IH [OF b _ m(1) line_read_step [OF m(3) Cons.prems(4)] o Cons.prems(6)] St False by auto
    qed
  next
    case (Tr k)
    obtain acts m stop where t: "client_trans k = (acts, m, stop)" using prod_cases3 by blast
    have g: "k \<in> set client_labels" "enters cs (schar c) (leads k)"
      "\<not> open_label k \<longrightarrow> named cs \<or> (cs = 79 \<or> cs = 117) \<and> (schar c = 10 \<or> schar c = 13)"
      using client_edge_sound [of cs "schar c"] Tr by simp_all
    show ?thesis
    proof (cases "\<not> open_label k \<longrightarrow> named cs")
      case False
      then show ?thesis using line_read_ambiguous [OF Cons.prems(4)] g(3) Cons.prems(1) by blast
    next
      case True
      have "jump_sound k" using g(1) jumps_sound by (auto simp: list_all_iff)
      then obtain v where k: "run_actions name_known acts (\<not> open_label k) = Some v" "0 < m" "m \<le> 123"
        "named m \<longrightarrow> v" "bare_state m \<longrightarrow> m = leads k"
        using t by (auto simp: jump_sound_def split: option.splits)
      obtain x1 evs1 where r: "run_actions (client_perform buffer ?p) acts (x, evs) = Some (x1, evs1)"
        "client_ok (length buffer) v ?p x1" "resp_in buffer evs1" "hc_nread x1 = hc_nread x"
        using client_actions_ok [OF k(1) client_ok_weaken [OF Cons.prems(5) order_refl True] Cons.prems(6) p] by blast
      have o: "client_ok (length buffer) (named m) (length (before @ [c])) x1"
        by (rule client_ok_weaken [OF r(2)]) (use k in simp_all)
      have l: "line_read m (before @ [c])"
        using k(5) line_read_other [of m] line_read_step [OF g(2) Cons.prems(4)] by (cases "bare_state m") simp_all
      show ?thesis
      proof (cases stop)
        case True
        then show ?thesis using Tr t r k(3) p client_ok_weaken [OF o order_refl, of False] by auto
      next
        case False
        then show ?thesis using Cons.IH [OF b k(2,3) l o r(3)] Tr t r by auto
      qed
    qed
  qed
qed

lemma client_execute_total:
  assumes "buffer \<noteq> []" "length buffer < 2 ^ 31" "\<not> ambiguous_line buffer"
    "hc_cs x \<le> 123" "\<not> bare_state (hc_cs x)" "hc_body_start x \<le> length buffer"
  shows "\<exists>evs n x1. httpclient_parser_execute x buffer 0 = Inr (evs, int n, x1) \<and> n \<le> length buffer \<and> hc_nread x1 = n \<and>
    resp_in buffer evs \<and> hc_cs x1 \<le> 123"
proof -
  let ?x = "x\<lparr>hc_nread := 0, hc_mark := 0, hc_field_len := 0, hc_field_start := 0\<rparr>"
  have size: "int_of_size (length buffer) = int (length buffer)" "int_of_size 0 = 0"
    using assms(2) by simp_all
  have o: "client_ok (length buffer) (named (hc_cs x)) (length []) ?x"
    using assms(1,6) by (simp add: client_ok_def)
  obtain cs1 p1 x1 evs1 where r: "client_loop buffer 0 ?x = Some (cs1, p1, x1, evs1)" "cs1 \<le> 123" "p1 \<le> length buffer"
    "client_ok (length buffer) False p1 x1" "resp_in buffer evs1" "hc_nread x1 = 0"
  proof (cases "hc_cs x = 0")
    case True
    then show ?thesis
      using assms(1) o by (intro that [of 2 0 ?x "[]"]) (auto simp: client_loop_def resp_in_def client_ok_def)
  next
    case False
    have "\<exists>cs1 p1 x1 evs1. run_machine client_edge client_trans (client_perform buffer) (hc_cs x) (length []) buffer (?x, []) =
        Some (cs1, p1, x1, evs1) \<and> cs1 \<le> 123 \<and> length [] \<le> p1 \<and> p1 \<le> length buffer \<and>
        client_ok (length buffer) False p1 x1 \<and> resp_in buffer evs1 \<and> hc_nread x1 = hc_nread ?x"
      using client_scan_ok [OF _ _ assms(4) line_read_other [OF assms(5)] o, of buffer "[]"] assms(3) False
      by (simp add: resp_in_def)
    then show ?thesis using False that by (auto simp: client_loop_def)
  qed
  then show ?thesis
    by (simp add: httpclient_parser_execute_def client_execute_end_def client_ok_def size Let_def)
qed

text \<open>
  C20. Executing the response parser on a buffer without ambiguous lines never fails: no text
  has an impossible length or reaches behind the buffer, every assertion behind the loop holds,
  and -1 is not returned. It consumes at most the buffer and every text passed to a callback is a
  part of it.
\<close>

theorem response_execute_safe:
  assumes "buffer \<noteq> []" "length buffer < 2 ^ 31" "\<not> ambiguous_line buffer"
    "hc_cs x \<le> 123" "\<not> bare_state (hc_cs x)" "hc_body_start x \<le> length buffer"
  shows "\<exists>evs n x1. httpclient_parser_execute x buffer 0 = Inr (evs, int n, x1) \<and> n \<le> length buffer \<and> hc_nread x1 = n \<and>
    resp_in buffer evs \<and> hc_cs x1 \<le> 123"
  using client_execute_total [OF assms] .

definition raw_client :: httpclient_parser where
  "raw_client =
     \<lparr>hc_cs = 9, hc_body_start = 7, hc_content_len = 6, hc_status = 5, hc_chunked = True, hc_chunks_done = True,
      hc_close = True, hc_nread = 1, hc_mark = 2, hc_field_start = 3, hc_field_len = 4\<rparr>"

lemma ambiguous_needs_newline: "CHR 0x0A \<notin> set buffer \<Longrightarrow> \<not> ambiguous_line buffer"
  by (auto simp: ambiguous_line_def)

theorem response_execute_safe_witness:
  "\<exists>evs n x1. httpclient_parser_execute (httpclient_parser_init raw_client) ''HTTP/1.1 200 OK'' 0 = Inr (evs, int n, x1) \<and>
    n \<le> length ''HTTP/1.1 200 OK'' \<and> hc_nread x1 = n \<and> resp_in ''HTTP/1.1 200 OK'' evs \<and> hc_cs x1 \<le> 123"
  by (rule response_execute_safe)
    (simp_all add: httpclient_parser_init_def raw_client_def bare_state_def ambiguous_needs_newline)

section \<open>What an ambiguous line does\<close>






end
