(* ===== verification/Http11_Head.thy ===== *)
theory Http11_Head
  imports Http11_Safety
begin

text \<open>
  The head of a request read back: a request line with method, path, query, fragment and version,
  and header lines, written as \<open>HttpRequest::dump\<close> writes them, makes the parser call back with
  exactly these parts, stop behind the empty line, and be finished.
\<close>

section \<open>Steps of the machine\<close>

lemma text_at_slice:
  assumes "drop from buffer = t @ c # rest" "p = from + length t"
  shows "text_at buffer from (LEN from p) = Some t"
proof -
  have "length (drop from buffer) = length t + Suc (length rest)" using assms(1) by simp
  then have "from + length t \<le> length buffer" by simp
  then show ?thesis using assms by (simp add: text_at_def LEN_def)
qed

lemma drop_past: "drop p buffer = t @ rest \<Longrightarrow> drop (p + length t) buffer = rest"
  by (metis add.commute append_eq_conv_conj drop_drop)

lemma plus_nums:
  "(p::nat) + 2 = Suc (Suc p)" "p + 4 = Suc (Suc (Suc (Suc p)))"
  "p + 8 = Suc (Suc (Suc (Suc (Suc (Suc (Suc (Suc p)))))))" "p + 10 = Suc (Suc (p + 8))"
  by simp_all

lemma drop_prefix: "buffer = pre @ rest \<Longrightarrow> p = length pre \<Longrightarrow> drop p buffer = rest"
  by simp

lemma scan_St:
  "edge cs (schar c) = St m \<Longrightarrow> 0 < m \<Longrightarrow> run_machine edge jumps act cs p (c # rest) s = run_machine edge jumps act m (p + 1) rest s"
  by simp

lemma scan_Tr:
  "edge cs (schar c) = Tr k \<Longrightarrow> jumps k = (acts, m, False) \<Longrightarrow> run_actions (act p) acts s = Some s1 \<Longrightarrow>
    run_machine edge jumps act cs p (c # rest) s = run_machine edge jumps act m (p + 1) rest s1"
  by simp

text \<open>A text with percent-encoded characters, from a state to itself.\<close>

lemma scan_pct:
  assumes "\<And>c. P c \<Longrightarrow> edge q (schar c) = St q" "edge q 37 = St q1" "\<And>c. xdigit c \<Longrightarrow> edge q1 (schar c) = St q2"
    "\<And>c. xdigit c \<Longrightarrow> edge q2 (schar c) = St q" "0 < q" "0 < q1" "0 < q2" "pct_text P t"
  shows "run_machine edge jumps act q p (t @ rest) s = run_machine edge jumps act q (p + length t) rest s"
  using assms
proof (induction P t arbitrary: p rule: pct_text.induct)
  case (2 P c cs)
  show ?case
  proof (cases "c = CHR ''%''")
    case True
    then obtain h l rest' where "cs = h # l # rest'" "xdigit h" "xdigit l" "pct_text P rest'"
      using "2.prems"(8) by (auto split: list.splits)
    then show ?thesis using True 2 by (simp add: numeral_3_eq_3)
  next
    case False
    then have "P c" "pct_text P cs" using "2.prems"(8) by simp_all
    then show ?thesis using "2.IH"(2) [OF False] "2.prems"(1-7) by simp
  qed
qed simp

lemma http_jumps:
  "http_trans 0 = ([Mark], 2, False)" "http_trans 4 = ([Request_method], 3, False)" "http_trans 10 = ([Mark], 33, False)"
  "http_trans 37 = ([Request_path, Request_uri], 4, False)" "http_trans 39 = ([Request_path, Request_uri], 20, False)"
  "http_trans 42 = ([Request_path], 29, False)" "http_trans 53 = ([Start_query], 30, False)"
  "http_trans 56 = ([Start_query], 31, False)" "http_trans 58 = ([Query_string, Request_uri], 4, False)"
  "http_trans 59 = ([Query_string, Request_uri], 20, False)" "http_trans 43 = ([Mark], 21, False)"
  "http_trans 45 = ([Mark], 22, False)" "http_trans 47 = ([Fragment], 4, False)" "http_trans 13 = ([Mark], 5, False)"
  "http_trans 22 = ([Http_version], 17, False)" "http_trans 23 = ([Start_field], 14, False)"
  "http_trans 27 = ([Write_field], 15, False)" "http_trans 29 = ([Mark], 15, False)" "http_trans 28 = ([Mark], 16, False)"
  "http_trans 31 = ([Mark, Write_value], 17, False)" "http_trans 34 = ([Write_value], 17, False)"
  "http_trans 25 = ([Start_field], 18, False)" "http_trans 36 = ([Done], 348, True)"
  by code_simp+

lemma http_fixed_edges:
  "http_edge r 3 47 = Tr 10" "http_edge r 33 32 = Tr 37" "http_edge r 33 35 = Tr 39" "http_edge r 33 63 = Tr 42"
  "http_edge r 33 37 = St 27" "http_edge r 26 32 = Tr 37" "http_edge r 26 35 = Tr 39" "http_edge r 26 63 = Tr 42"
  "http_edge r 26 37 = St 27" "http_edge r 29 37 = Tr 56" "http_edge r 30 37 = St 31" "http_edge r 30 32 = Tr 58"
  "http_edge r 30 35 = Tr 59" "http_edge r 20 37 = Tr 45" "http_edge r 21 37 = St 22" "http_edge r 21 32 = Tr 47"
  "http_edge r 4 72 = Tr 13" "http_edge r 5 84 = St 6" "http_edge r 6 84 = St 7" "http_edge r 7 80 = St 8"
  "http_edge r 8 47 = St 9" "http_edge r 9 49 = St 10" "http_edge r 10 46 = St 11" "http_edge r 11 48 = St 12"
  "http_edge r 11 49 = St 12" "http_edge r 12 13 = Tr 22" "http_edge r 17 10 = St 13" "http_edge r 14 58 = Tr 27"
  "http_edge r 15 32 = Tr 29" "http_edge r 15 13 = Tr 31" "http_edge r 16 13 = Tr 34" "http_edge r 13 13 = Tr 25"
  "http_edge r 18 10 = Tr 36"
  by (simp_all add: http_state_defs)

abbreviation http_run ::
  "bool \<Rightarrow> string \<Rightarrow> nat \<Rightarrow> nat \<Rightarrow> string \<Rightarrow> http_parser \<times> req_event list \<Rightarrow>
   (nat \<times> nat \<times> http_parser \<times> req_event list) option" where
  "http_run r buffer \<equiv> run_machine (http_edge r) http_trans (http_perform buffer)"

section \<open>The parts of a head\<close>

definition valid_method :: "string \<Rightarrow> bool" where
  "valid_method m \<longleftrightarrow> m \<noteq> [] \<and> length m \<le> 20 \<and> list_all method_char m"

definition valid_path :: "string \<Rightarrow> bool" where
  "valid_path path \<longleftrightarrow> take 1 path = ''/'' \<and> take 1 (tl path) \<noteq> ''/'' \<and> pct_text path_char path"

definition valid_header :: "string \<times> string \<Rightarrow> bool" where
  "valid_header h \<longleftrightarrow>
     fst h \<noteq> [] \<and> list_all name_char (fst h) \<and> list_all value_char (snd h) \<and> take 1 (snd h) \<noteq> '' '' \<and> take 1 (snd h) \<noteq> [CHR 0x09]"

lemma run_method_tail:
  "list_all method_char t \<Longrightarrow> 175 \<le> s \<Longrightarrow> s + length t \<le> 193 \<Longrightarrow>
    http_run r buffer s p (t @ rest) st = http_run r buffer (s + length t) (p + length t) rest st"
  by (induction t arbitrary: s p) (simp_all add: method_edges)

lemma run_method:
  assumes "valid_method m" "drop p buffer = m @ '' '' @ rest"
  shows "http_run r buffer 1 p (m @ '' '' @ rest) (x, evs) =
    http_run r buffer 3 (p + length m + 1) rest (x\<lparr>mark := p\<rparr>, evs @ [Ev_method m])"
proof -
  obtain c t where m: "m = c # t" "method_char c" "list_all method_char t" "length t \<le> 19"
    using assms(1) by (cases m) (auto simp: valid_method_def)
  have "\<exists>s. (s = 2 \<or> 175 \<le> s \<and> s < 194) \<and>
      http_run r buffer 1 p (m @ '' '' @ rest) (x, evs) = http_run r buffer s (p + length m) ('' '' @ rest) (x\<lparr>mark := p\<rparr>, evs)"
  proof (cases t)
    case Nil
    then show ?thesis using m method_edges(1) [OF m(2)] by (intro exI [of _ 2]) (simp add: http_jumps)
  next
    case (Cons d u)
    then show ?thesis using m run_method_tail [of u 175 r buffer "Suc (Suc p)" "'' '' @ rest"]
        method_edges(1) [OF m(2)]
      by (intro exI [of _ "175 + length u"]) (simp add: method_edges(2) http_jumps)
  qed
  then obtain s where s: "s = 2 \<or> 175 \<le> s \<and> s < 194"
    "http_run r buffer 1 p (m @ '' '' @ rest) (x, evs) = http_run r buffer s (p + length m) ('' '' @ rest) (x\<lparr>mark := p\<rparr>, evs)"
    by blast
  have "text_at buffer p (LEN p (p + length m)) = Some m" using text_at_slice [of p buffer m] assms(2) by simp
  then show ?thesis using s(2) method_end [OF s(1)] by (simp add: http_jumps element_cb_def)
qed

lemma run_path:
  assumes "valid_path path"
  shows "\<exists>s. (s = 33 \<or> s = 26) \<and>
    http_run r buffer 3 p (path @ rest) (x, evs) = http_run r buffer s (p + length path) rest (x\<lparr>mark := p\<rparr>, evs)"
proof -
  obtain t where t: "path = CHR ''/'' # t" "take 1 t \<noteq> ''/''" "pct_text path_char t"
    using assms by (cases path) (auto simp: valid_path_def)
  note loop = scan_pct [where P = path_char and edge = "http_edge r" and q = 26 and ?q1.0 = 27 and ?q2.0 = 28]
  have edge: "http_edge r 26 (schar c) = St 26" if "path_char c" for c
    using that path_edges by (auto simp: path_char_def)
  show ?thesis
  proof (cases t)
    case Nil
    then show ?thesis using t by (intro exI [of _ 33]) (simp add: http_fixed_edges http_jumps)
  next
    case (Cons c u)
    show ?thesis
    proof (cases "c = CHR ''%''")
      case True
      then obtain h l v where "u = h # l # v" "xdigit h" "xdigit l" "pct_text path_char v"
        using t(3) Cons by (auto split: list.splits)
      then show ?thesis using t(1) Cons True
        by (intro exI [of _ 26]) (simp add: http_fixed_edges http_jumps hex_edges loop [OF edge])
    next
      case False
      then have "pchar c" "pct_text path_char u" using t Cons by (auto simp: path_char_def)
      then show ?thesis using t(1) Cons
        by (intro exI [of _ 26]) (simp add: http_fixed_edges http_jumps path_edges hex_edges loop [OF edge])
    qed
  qed
qed

lemma run_query:
  assumes "q \<noteq> []" "pct_text query_char q"
  shows "http_run r buffer 29 p (q @ rest) (x, evs) = http_run r buffer 30 (p + length q) rest (x\<lparr>query_start := p\<rparr>, evs)"
    and "http_run r buffer 20 p (q @ rest) (x, evs) = http_run r buffer 21 (p + length q) rest (x\<lparr>mark := p\<rparr>, evs)"
proof -
  note loop1 = scan_pct [where P = query_char and edge = "http_edge r" and q = 30 and ?q1.0 = 31 and ?q2.0 = 32,
      OF query_edges(2) http_fixed_edges(11) hex_edges(3,4)]
  note loop2 = scan_pct [where P = query_char and edge = "http_edge r" and q = 21 and ?q1.0 = 22 and ?q2.0 = 23,
      OF query_edges(4) http_fixed_edges(15) hex_edges(5,6)]
  obtain c u where q: "q = c # u" using assms(1) by (cases q) auto
  show "http_run r buffer 29 p (q @ rest) (x, evs) = http_run r buffer 30 (p + length q) rest (x\<lparr>query_start := p\<rparr>, evs)"
    and "http_run r buffer 20 p (q @ rest) (x, evs) = http_run r buffer 21 (p + length q) rest (x\<lparr>mark := p\<rparr>, evs)"
  proof (cases "c = CHR ''%''", goal_cases)
    case 1
    then obtain h l v where "u = h # l # v" "xdigit h" "xdigit l" "pct_text query_char v"
      using assms(2) q by (auto split: list.splits)
    then show ?case using 1 q by (simp add: http_fixed_edges http_jumps hex_edges loop1)
  next
    case 2
    then have "query_char c" "pct_text query_char u" using assms(2) q by simp_all
    then show ?case using q by (simp add: http_jumps query_edges loop1)
  next
    case 3
    show ?case
    proof (cases "c = CHR ''%''")
      case True
      then obtain h l v where "u = h # l # v" "xdigit h" "xdigit l" "pct_text query_char v"
        using assms(2) q by (auto split: list.splits)
      then show ?thesis using True q by (simp add: http_fixed_edges http_jumps hex_edges loop2)
    next
      case False
      then have "query_char c" "pct_text query_char u" using assms(2) q by simp_all
      then show ?thesis using q by (simp add: http_jumps query_edges loop2)
    qed
  qed
qed

lemma run_version:
  assumes "v = CHR ''0'' \<or> v = CHR ''1''" "drop p buffer = ''HTTP/1.'' @ [v] @ crlf @ rest"
  shows "http_run r buffer 4 p (''HTTP/1.'' @ [v] @ crlf @ rest) (x, evs) =
    http_run r buffer 13 (p + 10) rest (x\<lparr>mark := p\<rparr>, evs @ [Ev_version (''HTTP/1.'' @ [v])])"
proof -
  have "text_at buffer p (LEN p (p + 8)) = Some (''HTTP/1.'' @ [v])"
    by (rule text_at_slice [where c = "CHR 0x0D" and rest = "CHR 0x0A # rest"]) (use assms(2) in simp_all)
  then show ?thesis using assms(1) by (auto simp: http_fixed_edges http_jumps element_cb_def plus_nums)
qed

lemma run_header:
  assumes "valid_header h" "drop p buffer = fst h @ '': '' @ snd h @ crlf @ rest"
  shows "http_run r buffer 13 p (fst h @ '': '' @ snd h @ crlf @ rest) (x, evs) =
    http_run r buffer 13 (p + length (fst h) + length (snd h) + 4) rest
      (x\<lparr>field_start := p, field_len := length (fst h), mark := p + length (fst h) + 2\<rparr>, evs @ [Ev_field (fst h) (snd h)])"
proof -
  obtain k w where h: "h = (k, w)" by (cases h)
  obtain c t where k: "k = c # t" "name_char c" "list_all name_char t"
    using assms(1) h by (cases k) (auto simp: valid_header_def)
  have name: "text_at buffer p (length k) = Some k"
    using text_at_slice [of p buffer k] assms(2) h by (simp add: LEN_def)
  have d: "drop (p + length k + 2) buffer = w @ crlf @ rest"
    using drop_past [of p buffer "k @ '': ''" "w @ crlf @ rest"] assms(2) h by (simp add: add.assoc)
  have val: "text_at buffer (p + length k + 2) (LEN (p + length k + 2) (p + length k + 2 + length w)) = Some w"
    by (rule text_at_slice [where c = "CHR 0x0D" and rest = "CHR 0x0A # rest"]) (use d in simp_all)
  have stay: "list_all (\<lambda>c. http_edge r 14 (schar c) = St 14) t"
    using k(3) name_edges by (auto simp: list_all_iff)
  have "http_run r buffer 13 p (k @ '': '' @ w @ crlf @ rest) (x, evs) =
      http_run r buffer 15 (p + length k + 2) (w @ crlf @ rest)
        (x\<lparr>field_start := p, field_len := length k, mark := p + length k + 1\<rparr>, evs)"
    using k(1) name_edges(1) [OF k(2)]
    by (simp add: scan_stay [where cs = 14 and t = t and edge = "http_edge r", OF _ stay] http_fixed_edges http_jumps LEN_def plus_nums)
  also have "\<dots> = http_run r buffer 13 (p + length k + length w + 4) rest
        (x\<lparr>field_start := p, field_len := length k, mark := p + length k + 2\<rparr>, evs @ [Ev_field k w])"
  proof (cases w)
    case Nil
    then show ?thesis using name val by (simp add: http_fixed_edges http_jumps plus_nums)
  next
    case (Cons d u)
    then have "http_edge r 15 (schar d) = Tr 28" "list_all (\<lambda>c. http_edge r 16 (schar c) = St 16) u"
      using assms(1) h value_edges by (auto simp: valid_header_def list_all_iff)
    then show ?thesis
      using Cons name val by (simp add: scan_stay [where cs = 16 and t = u and edge = "http_edge r"] http_fixed_edges http_jumps plus_nums)
  qed
  finally show ?thesis using h by simp
qed

section \<open>Heads\<close>

text \<open>A head: method, path, query, fragment, minor version and headers. Empty query and fragment are left out.\<close>

record head =
  h_method :: string
  h_path :: string
  h_query :: string
  h_fragment :: string
  h_minor :: char
  h_headers :: "(string \<times> string) list"

definition query_text :: "string \<Rightarrow> string" where
  "query_text q = (if q = [] then [] else ''?'' @ q)"

definition header_text :: "(string \<times> string) list \<Rightarrow> string" where
  "header_text hs = concat (map (\<lambda>h. fst h @ '': '' @ snd h @ crlf) hs)"

definition head_text :: "head \<Rightarrow> string" where
  "head_text h =
     h_method h @ '' '' @ h_path h @ query_text (h_query h) @
     (if h_fragment h = [] then [] else ''#'' @ h_fragment h) @ '' '' @ (''HTTP/1.'' @ [h_minor h] @ crlf @
     (header_text (h_headers h) @ crlf))"

definition head_events :: "head \<Rightarrow> string \<Rightarrow> req_event list" where
  "head_events h rest =
     [Ev_method (h_method h), Ev_path (h_path h)] @ (if h_query h = [] then [] else [Ev_query (h_query h)]) @
     [Ev_uri (h_path h @ query_text (h_query h))] @ (if h_fragment h = [] then [] else [Ev_fragment (h_fragment h)]) @
     [Ev_version (''HTTP/1.'' @ [h_minor h])] @ map (\<lambda>h. Ev_field (fst h) (snd h)) (h_headers h) @ [Ev_header_done rest]"

definition valid_head :: "head \<Rightarrow> bool" where
  "valid_head h \<longleftrightarrow>
     valid_method (h_method h) \<and> valid_path (h_path h) \<and> pct_text query_char (h_query h) \<and>
     pct_text query_char (h_fragment h) \<and> (h_minor h = CHR ''0'' \<or> h_minor h = CHR ''1'') \<and>
     list_all valid_header (h_headers h)"

definition same_flags :: "http_parser \<Rightarrow> http_parser \<Rightarrow> bool" where
  "same_flags x y \<longleftrightarrow> xml_sent y = xml_sent x \<and> json_sent y = json_sent x \<and> hp_cs y = hp_cs x \<and> nread y = nread x"

lemma run_headers:
  assumes "list_all valid_header hs" "drop p buffer = header_text hs @ crlf @ rest"
  shows "\<exists>y. same_flags x y \<and>
    http_run r buffer 13 p (header_text hs @ crlf @ rest) (x, evs) =
    http_run r buffer 13 (p + length (header_text hs)) (crlf @ rest) (y, evs @ map (\<lambda>h. Ev_field (fst h) (snd h)) hs)"
  using assms
proof (induction hs arbitrary: p x evs)
  case Nil
  then show ?case by (auto simp: header_text_def same_flags_def)
next
  case (Cons h hs)
  let ?l = "fst h @ '': '' @ snd h @ crlf" and ?y = "x\<lparr>field_start := p, field_len := length (fst h), mark := p + length (fst h) + 2\<rparr>"
    and ?p = "p + length (fst h) + length (snd h) + 4"
  have t: "header_text (h # hs) = ?l @ header_text hs" by (simp add: header_text_def)
  have d: "drop ?p buffer = header_text hs @ crlf @ rest"
    using drop_past [of p buffer ?l "header_text hs @ crlf @ rest"] Cons.prems(2) t by (simp add: plus_nums add.assoc)
  have step: "http_run r buffer 13 p (header_text (h # hs) @ crlf @ rest) (x, evs) =
      http_run r buffer 13 ?p (header_text hs @ crlf @ rest) (?y, evs @ [Ev_field (fst h) (snd h)])"
    using run_header [of h p buffer "header_text hs @ crlf @ rest" r x evs] Cons.prems t by simp
  obtain y where "same_flags ?y y"
    "http_run r buffer 13 ?p (header_text hs @ crlf @ rest) (?y, evs @ [Ev_field (fst h) (snd h)]) =
     http_run r buffer 13 (?p + length (header_text hs)) (crlf @ rest)
       (y, (evs @ [Ev_field (fst h) (snd h)]) @ map (\<lambda>h. Ev_field (fst h) (snd h)) hs)"
    using Cons.IH [OF _ d, of ?y "evs @ [Ev_field (fst h) (snd h)]"] Cons.prems(1) by auto
  moreover have "?p + length (header_text hs) = p + length (header_text (h # hs))" using t by simp
  ultimately show ?case unfolding step by (intro exI [of _ y]) (simp add: same_flags_def del: run_machine.simps)
qed

lemma run_end:
  assumes "\<not> xml_sent x" "\<not> json_sent x" "drop p buffer = crlf @ rest"
  shows "\<exists>y. http_run r buffer 13 p (crlf @ rest) (x, evs) = Some (348, p + 2, y, evs @ [Ev_header_done rest]) \<and>
    same_flags x y \<and> body_start y = p + 2"
  using assms drop_past [of p buffer crlf rest] by (auto simp: http_fixed_edges http_jumps plus_nums same_flags_def)

text \<open>The target of the request with its callbacks, up to the space behind it.\<close>

lemma run_target:
  assumes "valid_path path" "pct_text query_char q" "pct_text query_char f"
    "drop p buffer = path @ query_text q @ (if f = [] then [] else ''#'' @ f) @ '' '' @ rest"
  shows "\<exists>y. same_flags x y \<and>
    http_run r buffer 3 p (path @ query_text q @ (if f = [] then [] else ''#'' @ f) @ '' '' @ rest) (x, evs) =
    http_run r buffer 4 (p + length path + length (query_text q) + (if f = [] then 0 else length f + 1) + 1) rest
      (y, evs @ [Ev_path path] @ (if q = [] then [] else [Ev_query q]) @ [Ev_uri (path @ query_text q)] @
          (if f = [] then [] else [Ev_fragment f]))"
proof -
  let ?f = "(if f = [] then [] else ''#'' @ f) @ '' '' @ rest" and ?p = "p + length path" and ?x = "x\<lparr>mark := p\<rparr>"
  obtain s where s: "s = 33 \<or> s = 26" "http_run r buffer 3 p (path @ query_text q @ ?f) (x, evs) =
      http_run r buffer s ?p (query_text q @ ?f) (?x, evs)"
    using run_path [OF assms(1), of r buffer p "query_text q @ ?f" x evs] by blast
  obtain c u where cu: "?f = c # u" "c = CHR ''#'' \<and> f \<noteq> [] \<and> u = f @ '' '' @ rest \<or> c = CHR '' '' \<and> f = [] \<and> u = rest"
    by (cases f) auto
  have uri: "text_at buffer p (LEN p (?p + length (query_text q))) = Some (path @ query_text q)"
    by (rule text_at_slice [where c = c and rest = u]) (use assms(4) cu(1) in simp_all)
  have "\<exists>y. same_flags x y \<and> http_run r buffer s ?p (query_text q @ ?f) (?x, evs) =
      http_run r buffer (if f = [] then 4 else 20) (?p + length (query_text q) + 1) u
        (y, evs @ [Ev_path path] @ (if q = [] then [] else [Ev_query q]) @ [Ev_uri (path @ query_text q)])"
  proof (cases "q = []")
    case True
    then show ?thesis using s(1) cu uri
      by (intro exI [of _ ?x]) (auto simp: query_text_def http_fixed_edges http_jumps element_cb_def same_flags_def)
  next
    case False
    have path: "text_at buffer p (LEN p ?p) = Some path"
      by (rule text_at_slice [where c = "CHR ''?''" and rest = "q @ ?f"]) (use assms(4) False in \<open>simp_all add: query_text_def\<close>)
    have "drop (p + length (path @ ''?'')) buffer = q @ ?f"
      using drop_past [of p buffer "path @ ''?''" "q @ ?f"] assms(4) False by (simp add: query_text_def)
    then have "drop (?p + 1) buffer = q @ c # u" using cu(1) by simp
    then have query: "text_at buffer (?p + 1) (LEN (?p + 1) (?p + 1 + length q)) = Some q"
      using text_at_slice [of "?p + 1" buffer q c u] by simp
    show ?thesis using False s(1) cu path query uri run_query(1) [OF False assms(2), of r buffer "Suc ?p" ?f ?x]
      by (intro exI [of _ "?x\<lparr>query_start := Suc ?p\<rparr>"])
        (auto simp: query_text_def http_fixed_edges http_jumps element_cb_def same_flags_def)
  qed
  then obtain y where y: "same_flags x y" "http_run r buffer s ?p (query_text q @ ?f) (?x, evs) =
      http_run r buffer (if f = [] then 4 else 20) (?p + length (query_text q) + 1) u
        (y, evs @ [Ev_path path] @ (if q = [] then [] else [Ev_query q]) @ [Ev_uri (path @ query_text q)])"
    by blast
  show ?thesis
  proof (cases "f = []")
    case True
    then show ?thesis using s(2) y cu(2) by (intro exI [of _ y]) simp
  next
    case False
    let ?q = "?p + length (query_text q) + 1"
    have u: "u = f @ '' '' @ rest" using cu(2) False by auto
    have "drop (p + length (path @ query_text q @ ''#'')) buffer = f @ '' '' @ rest"
      using drop_past [of p buffer "path @ query_text q @ ''#''" "f @ '' '' @ rest"] assms(4) False by simp
    then have "text_at buffer ?q (LEN ?q (?q + length f)) = Some f"
      using text_at_slice [of ?q buffer f "CHR '' ''" rest] by (simp add: add.assoc)
    then show ?thesis
      using False s(2) y u run_query(2) [OF False assms(3), of r buffer ?q "'' '' @ rest" y]
      by (intro exI [of _ "y\<lparr>mark := ?q\<rparr>"])
        (auto simp: http_fixed_edges http_jumps element_cb_def same_flags_def)
  qed
qed

lemma run_head:
  assumes "valid_head h" "\<not> xml_sent x" "\<not> json_sent x"
  shows "\<exists>y. http_run r (head_text h @ rest) 1 0 (head_text h @ rest) (x, []) =
    Some (348, length (head_text h), y, head_events h rest) \<and> same_flags x y \<and> body_start y = length (head_text h)"
proof -
  let ?m = "h_method h" and ?q = "query_text (h_query h)" and ?f = "if h_fragment h = [] then [] else ''#'' @ h_fragment h"
  let ?v = "''HTTP/1.'' @ [h_minor h]" and ?hs = "header_text (h_headers h)" and ?b = "head_text h @ rest"
  let ?evs = "[Ev_method ?m, Ev_path (h_path h)] @ (if h_query h = [] then [] else [Ev_query (h_query h)]) @
    [Ev_uri (h_path h @ ?q)] @ (if h_fragment h = [] then [] else [Ev_fragment (h_fragment h)])"
  have b: "?b = ?m @ '' '' @ (h_path h @ ?q @ ?f @ '' '' @ (?v @ crlf @ (?hs @ crlf @ rest)))"
    by (simp add: head_text_def)
  have v: "valid_method ?m" "valid_path (h_path h)" "pct_text query_char (h_query h)" "pct_text query_char (h_fragment h)"
    "h_minor h = CHR ''0'' \<or> h_minor h = CHR ''1''" "list_all valid_header (h_headers h)"
    using assms(1) by (simp_all add: valid_head_def)
  let ?x1 = "x\<lparr>mark := 0\<rparr>" and ?p1 = "length ?m + 1" and ?r1 = "h_path h @ ?q @ ?f @ '' '' @ (?v @ crlf @ (?hs @ crlf @ rest))"
  let ?p2 = "?p1 + length (h_path h) + length ?q + (if h_fragment h = [] then 0 else length (h_fragment h) + 1) + 1"
  let ?p3 = "?p2 + 10" and ?evs1 = "?evs @ [Ev_version ?v]"
  have 1: "http_run r ?b 1 0 ?b (x, []) = http_run r ?b 3 ?p1 ?r1 (?x1, [Ev_method ?m])"
    using run_method [OF v(1), of 0 ?b ?r1 r x "[]"] by (simp only: b drop_0 append_Nil add_0)
  have d1: "drop ?p1 ?b = ?r1"
    by (rule drop_prefix [where pre = "?m @ '' ''"]) (simp_all add: b)
  obtain x2 where x2: "same_flags ?x1 x2"
    and 2: "http_run r ?b 3 ?p1 ?r1 (?x1, [Ev_method ?m]) = http_run r ?b 4 ?p2 (?v @ crlf @ (?hs @ crlf @ rest)) (x2, ?evs)"
    using run_target [OF v(2,3,4) d1, of ?x1 r "[Ev_method ?m]"] by (auto simp del: run_machine.simps)
  have d2: "drop ?p2 ?b = ?v @ crlf @ (?hs @ crlf @ rest)"
    by (rule drop_prefix [where pre = "?m @ '' '' @ h_path h @ ?q @ ?f @ '' ''"]) (simp_all add: b)
  have 3: "http_run r ?b 4 ?p2 (?v @ crlf @ (?hs @ crlf @ rest)) (x2, ?evs) =
      http_run r ?b 13 ?p3 (?hs @ crlf @ rest) (x2\<lparr>mark := ?p2\<rparr>, ?evs1)"
    using run_version [OF v(5), of ?p2 ?b "?hs @ crlf @ rest" r x2 ?evs] d2 by (simp only: append_assoc)
  have d3: "drop ?p3 ?b = ?hs @ crlf @ rest"
    by (rule drop_prefix [where pre = "?m @ '' '' @ h_path h @ ?q @ ?f @ '' '' @ ?v @ crlf"]) (simp_all add: b)
  obtain x4 where x4: "same_flags (x2\<lparr>mark := ?p2\<rparr>) x4"
    and 4: "http_run r ?b 13 ?p3 (?hs @ crlf @ rest) (x2\<lparr>mark := ?p2\<rparr>, ?evs1) =
      http_run r ?b 13 (?p3 + length ?hs) (crlf @ rest) (x4, ?evs1 @ map (\<lambda>h. Ev_field (fst h) (snd h)) (h_headers h))"
    using run_headers [OF v(6) d3] by blast
  have d4: "drop (?p3 + length ?hs) ?b = crlf @ rest"
    using drop_past [OF d3] .
  have "\<not> xml_sent x4" "\<not> json_sent x4" using x2 x4 assms(2,3) by (simp_all add: same_flags_def)
  then obtain y where 5: "http_run r ?b 13 (?p3 + length ?hs) (crlf @ rest)
      (x4, ?evs1 @ map (\<lambda>h. Ev_field (fst h) (snd h)) (h_headers h)) =
      Some (348, ?p3 + length ?hs + 2, y, (?evs1 @ map (\<lambda>h. Ev_field (fst h) (snd h)) (h_headers h)) @ [Ev_header_done rest])"
    and y: "same_flags x4 y" "body_start y = ?p3 + length ?hs + 2"
    using run_end [OF _ _ d4] by blast
  have "?p3 + length ?hs + 2 = length (head_text h)" by (simp add: head_text_def)
  moreover have "(?evs1 @ map (\<lambda>h. Ev_field (fst h) (snd h)) (h_headers h)) @ [Ev_header_done rest] = head_events h rest"
    by (simp add: head_events_def)
  moreover have "same_flags x y" using x2 x4 y(1) by (simp add: same_flags_def)
  ultimately show ?thesis using 1 2 3 4 5 y(2) by (simp only:) blast
qed

lemma request_head_parsed:
  assumes "valid_head h" "length (head_text h @ rest) < 2 ^ 31"
  shows "\<exists>x1. http_parser_execute (http_parser_init x) (head_text h @ rest) 0 =
      Inr (head_events h rest, length (head_text h), x1) \<and>
    http_parser_finish x1 = 1 \<and> body_start x1 = length (head_text h)"
proof -
  let ?x = "(http_parser_init x)\<lparr>nread := 0, mark := 0, field_len := 0, field_start := 0\<rparr>"
  obtain y where y: "http_loop (head_text h @ rest) 0 ?x = Some (348, length (head_text h), y, head_events h rest)"
    "same_flags ?x y" "body_start y = length (head_text h)"
    using run_head [OF assms(1), of ?x "uri_relaxed x" rest] by (auto simp: http_loop_def http_parser_init_def)
  have ne: "head_text h @ rest \<noteq> []" by (simp add: head_text_def)
  obtain evs n x1 where e: "http_parser_execute (http_parser_init x) (head_text h @ rest) 0 = Inr (evs, n, x1)"
    using http_execute_total [OF ne, of "http_parser_init x"] assms(2) by (auto simp: http_parser_init_def in_query_def)
  have "evs = head_events h rest \<and> n = length (head_text h) \<and> hp_cs x1 = 348 \<and> body_start x1 = length (head_text h)"
    using e ne y assms(2) unfolding http_parser_execute_def http_execute_end_def
    by (simp add: same_flags_def http_parser_has_error_def http_parser_init_def Let_def split: if_splits) auto
  then show ?thesis using e
    by (simp add: http_parser_finish_def http_parser_has_error_def http_parser_is_finished_def)
qed

text \<open>
  The head of a request is read back. For every method of at most twenty capitals and digits,
  path, query and fragment of legal characters (percent-encoded ones included), version and
  headers, the parser started on the head and whatever follows it calls back with exactly these
  parts in order, consumes exactly the head, and is finished, as long as the buffer is shorter than 2^31 bytes.
\<close>

theorem request_head_round_trip:
  assumes "valid_head h" "length (head_text h @ rest) < 2 ^ 31"
  shows "\<exists>x1. http_parser_execute (http_parser_init x) (head_text h @ rest) 0 =
      Inr (head_events h rest, length (head_text h), x1) \<and>
    http_parser_finish x1 = 1 \<and> body_start x1 = length (head_text h)"
  using request_head_parsed [OF assms] .

definition a_head :: head where
  "a_head =
     \<lparr>h_method = ''GET'', h_path = ''/a%20b/c'', h_query = ''x=1&y=%41'', h_fragment = ''top'', h_minor = CHR ''1'',
      h_headers = [(''Host'', ''example.org:80''), (''Accept'', [])]\<rparr>"

theorem request_head_round_trip_witness:
  "\<exists>x1. http_parser_execute (http_parser_init raw_parser) (head_text a_head @ ''body'') 0 =
      Inr (head_events a_head ''body'', length (head_text a_head), x1) \<and>
    http_parser_finish x1 = 1 \<and> body_start x1 = length (head_text a_head)"
proof (rule request_head_round_trip)
  have "length (head_text a_head) < 200" by code_simp
  then show "length (head_text a_head @ ''body'') < 2 ^ 31" by simp
  show "valid_head a_head"
    by (simp add: valid_head_def a_head_def valid_method_def valid_path_def valid_header_def path_char_def query_char_def
        pchar_def alpha_def dec_digit_def xdigit_def method_char_def name_char_def value_char_def)
qed

end
