(* ===== verification/Httpclient_Head.thy ===== *)
theory Httpclient_Head
  imports Httpclient_Safety Http11_Head
begin

text \<open>
  The head of a response read back: a status line and header lines with values, written as
  \<open>HttpResponse::dump\<close> writes them, make the generated parser call back with exactly these
  parts, stop behind the empty line and be finished. The machine has many states for a header line,
  one for each beginning of the names and values it knows; they are taken together in classes.
\<close>

section \<open>Classes of states\<close>

definition line_state :: "nat \<Rightarrow> bool" where
  "line_state cs \<longleftrightarrow> cs = 20 \<or> cs = 43"

definition name_state :: "nat \<Rightarrow> bool" where
  "name_state cs \<longleftrightarrow> cs = 21 \<or> (25 \<le> cs \<and> cs \<le> 34) \<or> (44 \<le> cs \<and> cs \<le> 60) \<or> (101 \<le> cs \<and> cs \<le> 111)"

definition space_state :: "nat \<Rightarrow> bool" where
  "space_state cs \<longleftrightarrow> cs = 22 \<or> cs = 35 \<or> cs = 61 \<or> cs = 112"

definition value_state :: "nat \<Rightarrow> bool" where
  "value_state cs \<longleftrightarrow> cs = 23 \<or> (81 \<le> cs \<and> cs \<le> 87) \<or> (96 \<le> cs \<and> cs \<le> 100) \<or> cs = 119"

definition end_state :: "nat \<Rightarrow> bool" where
  "end_state cs \<longleftrightarrow> cs = 24 \<or> cs = 71 \<or> cs = 88"

lemmas class_defs = line_state_def name_state_def space_state_def value_state_def end_state_def

lemmas client_state_defs = client_edge_def client_states_1_def client_states_2_def client_states_3_def client_states_4_def
  client_states_5_def client_states_6_def client_states_7_def client_states_8_def client_states_9_def client_states_10_def
  client_states_11_def client_states_12_def client_states_13_def client_states_14_def client_states_15_def
  client_states_16_def client_states_17_def client_states_18_def client_states_19_def client_states_20_def
  client_states_21_def client_states_22_def

definition stays :: "(nat \<Rightarrow> bool) \<Rightarrow> goto \<Rightarrow> bool" where
  "stays Q g = (case g of St m \<Rightarrow> Q m | Tr _ \<Rightarrow> False)"

definition jumps_by :: "nat list \<Rightarrow> goto \<Rightarrow> bool" where
  "jumps_by labels g = (case g of St _ \<Rightarrow> False | Tr k \<Rightarrow> k \<in> set labels)"

lemma stays_cases: "stays Q g \<Longrightarrow> (\<And>m. g = St m \<Longrightarrow> Q m \<Longrightarrow> thesis) \<Longrightarrow> thesis"
  by (cases g) (auto simp: stays_def)

lemma jumps_cases: "jumps_by ks g \<Longrightarrow> (\<And>k. g = Tr k \<Longrightarrow> k \<in> set ks \<Longrightarrow> thesis) \<Longrightarrow> thesis"
  by (cases g) (auto simp: jumps_by_def)

text \<open>
  The characters of names. The test of a name's character is written in the same way in each state, but
  for the letters that continue a known name.
\<close>

definition token :: "int \<Rightarrow> bool" where
  "token p \<longleftrightarrow> p = 33 \<or> (35 \<le> p \<and> p \<le> 39) \<or> p = 42 \<or> p = 43 \<or> p = 45 \<or> p = 46 \<or> (48 \<le> p \<and> p \<le> 57) \<or>
     (65 \<le> p \<and> p \<le> 90) \<or> (94 \<le> p \<and> p \<le> 122) \<or> p = 124 \<or> p = 126"

lemma name_token: "name_char c \<Longrightarrow> token (schar c)"
  by (auto simp: name_char_def alpha_def dec_digit_def token_def)

lemma token_test:
  assumes "token p" "p \<noteq> 33" "p \<noteq> 124" "p \<noteq> 126"
  shows "(if p < 45 then if 39 < p then if 42 \<le> p \<and> p \<le> 43 then a else b else if 35 \<le> p then a else b
      else if 46 < p
        then if p < 65 then if 48 \<le> p \<and> p \<le> 57 then a else b
          else if 90 < p then if 94 \<le> p \<and> p \<le> 122 then a else b else a
        else a) = a"
    "p \<noteq> 65 \<Longrightarrow> (if p < 45 then if 39 < p then if 42 \<le> p \<and> p \<le> 43 then a else b else if 35 \<le> p then a else b
      else if 46 < p
        then if p < 66 then if 48 \<le> p \<and> p \<le> 57 then a else b
          else if 90 < p then if 94 \<le> p \<and> p \<le> 122 then a else b else a
        else a) = a"
    "p \<noteq> 45 \<Longrightarrow> p \<noteq> 46 \<Longrightarrow>
      (if p < 48 then if 39 < p then if 42 \<le> p \<and> p \<le> 43 then a else b else if 35 \<le> p then a else b
      else if 57 < p
        then if 90 < p then if 94 \<le> p \<and> p \<le> 122 then a else b else if 65 \<le> p then a else b
        else a) = a"
  using assms by (auto simp: token_def)

lemma stays_switch:
  "list_all (\<lambda>(k, g). k = 58 \<or> stays Q g) ts \<Longrightarrow> (list_all (\<lambda>(k, _). p \<noteq> k) ts \<Longrightarrow> stays Q d) \<Longrightarrow> p \<noteq> 58 \<Longrightarrow>
    stays Q (switch p ts d)"
  by (induction ts) auto

lemma jumps_switch:
  "list_all (\<lambda>(k, g). k = 10 \<or> k = 13 \<or> jumps_by ks g) ts \<Longrightarrow> (list_all (\<lambda>(k, _). p \<noteq> k) ts \<Longrightarrow> jumps_by ks d) \<Longrightarrow>
    p \<noteq> 10 \<Longrightarrow> p \<noteq> 13 \<Longrightarrow> jumps_by ks (switch p ts d)"
  by (induction ts) auto

lemma token_ends:
  assumes "token p"
  shows "p \<noteq> 58" "p \<noteq> 10" "p \<noteq> 13"
  using assms by (auto simp: token_def)

lemma name_first:
  assumes "line_state cs" "token p"
  shows "jumps_by [35, 36, 37, 76, 77, 78] (client_edge cs p)"
  using assms token_ends [OF assms(2)] unfolding line_state_def
  by - (elim disjE; simp add: client_state_defs del: switch.simps split del: if_split;
      rule jumps_switch; simp add: jumps_by_def token_test del: switch.simps split del: if_split)

lemma name_state_cases:
  assumes "name_state cs"
  shows "cs \<in> {21, 25, 26, 27, 28, 29, 30, 31, 32, 33, 34, 44, 45, 46, 47, 48, 49, 50, 51, 52, 53, 54, 55, 56, 57, 58, 59, 60,
    101, 102, 103, 104, 105, 106, 107, 108, 109, 110, 111}"
  using assms unfolding name_state_def by (elim disjE; simp; presburger)

lemma name_next:
  assumes "name_state cs" "token p"
  shows "stays name_state (client_edge cs p)"
  using name_state_cases [OF assms(1)] assms(2) token_ends [OF assms(2)]
  by - (elim insertE emptyE; simp add: client_state_defs del: switch.simps split del: if_split;
      rule stays_switch; simp add: stays_def name_state_def token_test del: switch.simps split del: if_split)

lemma name_end:
  assumes "name_state cs"
  shows "jumps_by [39, 58, 95, 148] (client_edge cs 58)"
  using name_state_cases [OF assms] by (elim insertE emptyE; simp add: client_state_defs jumps_by_def)

lemma value_blank: "space_state cs \<Longrightarrow> jumps_by [41, 59, 96, 149] (client_edge cs 32)"
  unfolding space_state_def by (elim disjE; simp add: client_state_defs jumps_by_def)

lemma value_first:
  assumes "space_state cs" "p \<noteq> 10" "p \<noteq> 13" "p \<noteq> 32" "\<not> (9 \<le> p \<and> p \<le> 13)"
  shows "jumps_by [40, 62, 99, 152] (client_edge cs p)"
  using assms unfolding space_state_def by (elim disjE; simp add: client_state_defs jumps_by_def; linarith?)

lemma value_state_cases:
  "value_state cs \<Longrightarrow> cs \<in> {23, 81, 82, 83, 84, 85, 86, 87, 96, 97, 98, 99, 100, 119}"
  unfolding value_state_def by (elim disjE; simp; presburger)

lemma value_next:
  assumes "value_state cs" "p \<noteq> 10" "p \<noteq> 13"
  shows "stays value_state (client_edge cs p)"
  using value_state_cases [OF assms(1)] assms(2,3)
  by (elim insertE emptyE; simp add: client_state_defs stays_def value_state_def)

lemma value_end:
  assumes "value_state cs"
  shows "jumps_by [46, 112, 137, 159] (client_edge cs 13)"
  using value_state_cases [OF assms] by (elim insertE emptyE; simp add: client_state_defs jumps_by_def)

lemma line_end:
  "end_state cs \<Longrightarrow> stays line_state (client_edge cs 10) \<or> jumps_by [113] (client_edge cs 10)"
  "line_state cs \<Longrightarrow> client_edge cs 13 = St 3 \<or> client_edge cs 13 = Tr 75"
  unfolding end_state_def line_state_def
  by (elim disjE; simp add: client_state_defs jumps_by_def stays_def line_state_def)+

lemma client_jumps:
  "client_trans 35 = ([C_start_field], 21, False)" "client_trans 36 = ([C_start_field], 25, False)"
  "client_trans 37 = ([C_start_field], 44, False)"
  "client_trans 76 = ([C_write_connection_close, C_start_field], 21, False)"
  "client_trans 77 = ([C_write_connection_close, C_start_field], 25, False)"
  "client_trans 78 = ([C_write_connection_close, C_start_field], 44, False)"
  "client_trans 39 = ([C_write_field], 22, False)" "client_trans 58 = ([C_write_field], 35, False)"
  "client_trans 95 = ([C_write_field], 61, False)" "client_trans 148 = ([C_write_field], 112, False)"
  "client_trans 41 = ([C_mark], 22, False)" "client_trans 59 = ([C_mark], 35, False)"
  "client_trans 96 = ([C_mark], 61, False)" "client_trans 149 = ([C_mark], 112, False)"
  "client_trans 40 = ([C_mark], 23, False)" "client_trans 62 = ([C_mark], 96, False)"
  "client_trans 99 = ([C_mark], 81, False)" "client_trans 152 = ([C_mark], 119, False)"
  "client_trans 46 = ([C_write_value], 24, False)" "client_trans 112 = ([C_write_value], 71, False)"
  "client_trans 137 = ([C_write_value], 88, False)"
  "client_trans 159 = ([C_write_content_len, C_write_value], 24, False)"
  "client_trans 113 = ([C_trans_chunked], 20, False)" "client_trans 75 = ([C_write_connection_close], 3, False)"
  "client_trans 7 = ([C_done], 120, True)"
  "client_trans 2 = ([C_mark], 8, False)" "client_trans 26 = ([C_http_version], 16, False)"
  "client_trans 27 = ([C_mark], 17, False)" "client_trans 28 = ([C_status_code], 18, False)"
  "client_trans 30 = ([C_mark], 19, False)" "client_trans 33 = ([C_reason_phrase], 24, False)"
  by code_simp+

section \<open>Runs over a header line\<close>

abbreviation client_run ::
  "string \<Rightarrow> nat \<Rightarrow> nat \<Rightarrow> string \<Rightarrow> httpclient_parser \<times> resp_event list \<Rightarrow>
   (nat \<times> nat \<times> httpclient_parser \<times> resp_event list) option" where
  "client_run buffer \<equiv> run_machine client_edge client_trans (client_perform buffer)"

lemma client_step:
  "client_edge cs (schar c) = Tr k \<Longrightarrow> client_trans k = (acts, m, False) \<Longrightarrow>
    run_actions (client_perform buffer p) acts s = Some s1 \<Longrightarrow>
    client_run buffer cs p (c # rest) s = client_run buffer m (p + 1) rest s1"
  by (rule scan_Tr)

text \<open>A header with a value that does not start with a blank.\<close>

definition valid_field :: "string \<times> string \<Rightarrow> bool" where
  "valid_field h \<longleftrightarrow> valid_header h \<and> snd h \<noteq> [] \<and> \<not> blank (hd (snd h))"

text \<open>All offsets are behind what was read, and \<open>nread\<close> is not changed by the loop.\<close>

definition offsets_within :: "nat \<Rightarrow> httpclient_parser \<Rightarrow> bool" where
  "offsets_within p x \<longleftrightarrow> hc_mark x \<le> p \<and> hc_field_start x \<le> p \<and> hc_field_len x \<le> p \<and> hc_nread x = 0"

lemma run_names:
  "name_state cs \<Longrightarrow> list_all name_char t \<Longrightarrow>
    \<exists>m. name_state m \<and> client_run buffer cs p (t @ rest) s = client_run buffer m (p + length t) rest s"
proof (induction t arbitrary: cs p)
  case (Cons c t)
  obtain m where m: "client_edge cs (schar c) = St m" "name_state m"
    using name_next [OF Cons.prems(1) name_token] Cons.prems(2) by (auto elim: stays_cases)
  moreover have "m \<noteq> 0" using m(2) by (auto simp: name_state_def)
  ultimately show ?case using Cons.IH [OF m(2), of "Suc p"] Cons.prems(2) by simp
qed auto

lemma run_values:
  "value_state cs \<Longrightarrow> list_all value_char t \<Longrightarrow>
    \<exists>m. value_state m \<and> client_run buffer cs p (t @ rest) s = client_run buffer m (p + length t) rest s"
proof (induction t arbitrary: cs p)
  case (Cons c t)
  have "schar c \<noteq> 10" "schar c \<noteq> 13" using Cons.prems(2) by (auto simp: value_char_def)
  then obtain m where m: "client_edge cs (schar c) = St m" "value_state m"
    using value_next [OF Cons.prems(1)] by (auto elim: stays_cases)
  moreover have "m \<noteq> 0" using m(2) by (auto simp: value_state_def)
  ultimately show ?case using Cons.IH [OF m(2), of "Suc p"] Cons.prems(2) by simp
qed auto

lemma run_name_start:
  assumes "line_state cs" "name_char c" "offsets_within p x"
  shows "\<exists>m y. name_state m \<and> offsets_within p y \<and> hc_field_start y = p \<and>
    client_run buffer cs p (c # rest) (x, evs) = client_run buffer m (p + 1) rest (y, evs)"
proof -
  obtain k where k: "client_edge cs (schar c) = Tr k" "k \<in> set [35, 36, 37, 76, 77, 78]"
    using name_first [OF assms(1) name_token [OF assms(2)]] by (auto elim: jumps_cases)
  have "\<exists>acts m y. client_trans k = (acts, m, False) \<and> run_actions (client_perform buffer p) acts (x, evs) = Some (y, evs) \<and> name_state m \<and> offsets_within p y \<and> hc_field_start y = p"
    using k(2) assms by (auto simp: client_jumps name_state_def offsets_within_def)
  then show ?thesis using client_step [OF k(1)] by blast
qed

lemma run_name_end:
  assumes "name_state cs" "offsets_within p x" "hc_field_start x = q" "q \<le> p"
  shows "\<exists>m y. space_state m \<and> offsets_within (p + 1) y \<and> hc_field_start y = q \<and> hc_field_len y = p - q \<and>
    client_run buffer cs p (CHR '':'' # rest) (x, evs) = client_run buffer m (p + 1) rest (y, evs)"
proof -
  obtain k where k: "client_edge cs 58 = Tr k" "k \<in> set [39, 58, 95, 148]"
    using name_end [OF assms(1)] by (auto elim: jumps_cases)
  then have k': "client_edge cs (schar CHR '':'') = Tr k" by simp
  have "\<exists>acts m y. client_trans k = (acts, m, False) \<and> run_actions (client_perform buffer p) acts (x, evs) = Some (y, evs) \<and> space_state m \<and> offsets_within (p + 1) y \<and> hc_field_start y = q \<and>
      hc_field_len y = p - q"
    using k(2) assms by (auto simp: client_jumps space_state_def offsets_within_def LEN_def)
  then show ?thesis using client_step [OF k'] by blast
qed

lemma run_space:
  assumes "space_state cs" "offsets_within p x"
  shows "\<exists>m. space_state m \<and> client_run buffer cs p (CHR '' '' # rest) (x, evs) =
    client_run buffer m (p + 1) rest (x\<lparr>hc_mark := p\<rparr>, evs)"
proof -
  obtain k where k: "client_edge cs 32 = Tr k" "k \<in> set [41, 59, 96, 149]"
    using value_blank [OF assms(1)] by (auto elim: jumps_cases)
  then have k': "client_edge cs (schar CHR '' '') = Tr k" by simp
  have "\<exists>acts m. client_trans k = (acts, m, False) \<and> run_actions (client_perform buffer p) acts (x, evs) = Some (x\<lparr>hc_mark := p\<rparr>, evs) \<and> space_state m"
    using k(2) by (auto simp: client_jumps space_state_def)
  then show ?thesis using client_step [OF k', where p = p] by blast
qed

lemma run_value_start:
  assumes "space_state cs" "value_char c" "\<not> blank c"
  shows "\<exists>m. value_state m \<and> client_run buffer cs p (c # rest) (x, evs) =
    client_run buffer m (p + 1) rest (x\<lparr>hc_mark := p\<rparr>, evs)"
proof -
  have "schar c \<noteq> 10" "schar c \<noteq> 13" "schar c \<noteq> 32" "\<not> (9 \<le> schar c \<and> schar c \<le> 13)"
    using assms(2,3) by (auto simp: value_char_def blank_def)
  then have "jumps_by [40, 62, 99, 152] (client_edge cs (schar c))" by (rule value_first [OF assms(1)])
  then obtain k where k: "client_edge cs (schar c) = Tr k" "k \<in> set [40, 62, 99, 152]"
    by (rule jumps_cases)
  have "\<exists>acts m. client_trans k = (acts, m, False) \<and> run_actions (client_perform buffer p) acts (x, evs) = Some (x\<lparr>hc_mark := p\<rparr>, evs) \<and> value_state m"
    using k(2) by (auto simp: client_jumps value_state_def)
  then show ?thesis using client_step [OF k(1)] by blast
qed

lemma run_value_end:
  assumes "value_state cs" "text_at buffer (hc_field_start x) (hc_field_len x) = Some k"
    "text_at buffer (hc_mark x) (LEN (hc_mark x) p) = Some w" "offsets_within p x"
  shows "\<exists>m y. end_state m \<and> offsets_within p y \<and>
    client_run buffer cs p (CHR 0x0D # rest) (x, evs) = client_run buffer m (p + 1) rest (y, evs @ [Rv_field k w])"
proof -
  obtain j where j: "client_edge cs 13 = Tr j" "j \<in> set [46, 112, 137, 159]"
    using value_end [OF assms(1)] by (auto elim: jumps_cases)
  then have k': "client_edge cs (schar CHR 0x0D) = Tr j" by simp
  have "\<exists>acts m y. client_trans j = (acts, m, False) \<and> run_actions (client_perform buffer p) acts (x, evs) = Some (y, evs @ [Rv_field k w]) \<and> end_state m \<and> offsets_within p y"
    using j(2) assms by (auto simp: client_jumps end_state_def offsets_within_def)
  then show ?thesis using client_step [OF k'] by blast
qed

lemma run_line_end:
  assumes "end_state cs" "offsets_within p x"
  shows "\<exists>m y. line_state m \<and> offsets_within p y \<and>
    client_run buffer cs p (CHR 0x0A # rest) (x, evs) = client_run buffer m (p + 1) rest (y, evs)"
proof (cases "stays line_state (client_edge cs 10)")
  case True
  then obtain m where m: "client_edge cs 10 = St m" "line_state m" by (auto elim: stays_cases)
  moreover have "m \<noteq> 0" using m(2) by (auto simp: line_state_def)
  ultimately show ?thesis using assms(2) by auto
next
  case False
  then have "client_edge cs (schar CHR 0x0A) = Tr 113" using line_end(1) [OF assms(1)] by (auto elim: jumps_cases)
  then have "client_run buffer cs p (CHR 0x0A # rest) (x, evs) = client_run buffer 20 (p + 1) rest (x\<lparr>hc_chunked := True\<rparr>, evs)"
    by (rule client_step [OF _ client_jumps(23)]) simp
  then show ?thesis
    using assms(2) by (intro exI [of _ 20] exI [of _ "x\<lparr>hc_chunked := True\<rparr>"]) (simp add: line_state_def offsets_within_def)
qed

lemma offsets_later: "offsets_within p x \<Longrightarrow> p \<le> q \<Longrightarrow> offsets_within q x"
  by (auto simp: offsets_within_def)

lemma run_field:
  assumes "line_state cs" "valid_field h" "drop p buffer = fst h @ '': '' @ snd h @ crlf @ rest" "offsets_within p x"
  shows "\<exists>m y. line_state m \<and> offsets_within (p + length (fst h) + length (snd h) + 4) y \<and>
    client_run buffer cs p (fst h @ '': '' @ snd h @ crlf @ rest) (x, evs) =
    client_run buffer m (p + length (fst h) + length (snd h) + 4) rest (y, evs @ [Rv_field (fst h) (snd h)])"
proof -
  obtain k w where h: "h = (k, w)" by (cases h)
  obtain c t where k: "k = c # t" "name_char c" "list_all name_char t"
    using assms(2) h by (cases k) (auto simp: valid_field_def valid_header_def)
  obtain d u where w: "w = d # u" "value_char d" "list_all value_char u" "\<not> blank d"
    using assms(2) h by (cases w) (auto simp: valid_field_def valid_header_def)
  let ?pc = "p + length k" and ?pv = "p + length k + 2" and ?pe = "p + length k + 2 + length w"
  have name: "text_at buffer p (length k) = Some k"
    using text_at_slice [of p buffer k] assms(3) h by (simp add: LEN_def)
  have dv: "drop ?pv buffer = w @ crlf @ rest"
    using drop_past [of p buffer "k @ '': ''" "w @ crlf @ rest"] assms(3) h by (simp add: add.assoc)
  have val: "text_at buffer ?pv (LEN ?pv ?pe) = Some w"
    by (rule text_at_slice [where c = "CHR 0x0D" and rest = "CHR 0x0A # rest"]) (use dv in simp_all)
  obtain m1 x1 where 1: "name_state m1" "offsets_within p x1" "hc_field_start x1 = p"
    "client_run buffer cs p (k @ '': '' @ w @ crlf @ rest) (x, evs) =
     client_run buffer m1 (p + 1) (t @ '': '' @ w @ crlf @ rest) (x1, evs)"
    using run_name_start [OF assms(1) k(2) assms(4), of buffer "t @ '': '' @ w @ crlf @ rest" evs] k(1)
    by (auto simp del: run_machine.simps)
  obtain m2 where 2: "name_state m2" "client_run buffer m1 (p + 1) (t @ '': '' @ w @ crlf @ rest) (x1, evs) =
      client_run buffer m2 ?pc ('': '' @ w @ crlf @ rest) (x1, evs)"
    using run_names [OF 1(1) k(3), of buffer "p + 1" "'': '' @ w @ crlf @ rest"] k(1)
    by (auto simp del: run_machine.simps)
  obtain m3 x3 where 3: "space_state m3" "offsets_within (?pc + 1) x3" "hc_field_start x3 = p" "hc_field_len x3 = length k"
    "client_run buffer m2 ?pc ('': '' @ w @ crlf @ rest) (x1, evs) =
     client_run buffer m3 (?pc + 1) ('' '' @ w @ crlf @ rest) (x3, evs)"
    using run_name_end [OF 2(1) offsets_later [OF 1(2)] 1(3), of ?pc buffer "'' '' @ w @ crlf @ rest" evs]
    by (auto simp del: run_machine.simps)
  obtain m4 where 4: "space_state m4" "client_run buffer m3 (?pc + 1) ('' '' @ w @ crlf @ rest) (x3, evs) =
      client_run buffer m4 ?pv (w @ crlf @ rest) (x3\<lparr>hc_mark := ?pc + 1\<rparr>, evs)"
    using run_space [OF 3(1,2), of buffer "w @ crlf @ rest" evs] by (auto simp del: run_machine.simps)
  let ?x5 = "x3\<lparr>hc_mark := ?pv\<rparr>"
  obtain m5 where 5: "value_state m5" "client_run buffer m4 ?pv (w @ crlf @ rest) (x3\<lparr>hc_mark := ?pc + 1\<rparr>, evs) =
      client_run buffer m5 (?pv + 1) (u @ crlf @ rest) (?x5, evs)"
    using run_value_start [OF 4(1) w(2,4), of buffer ?pv "u @ crlf @ rest" "x3\<lparr>hc_mark := ?pc + 1\<rparr>" evs] w(1)
    by (auto simp del: run_machine.simps)
  obtain m6 where 6: "value_state m6" "client_run buffer m5 (?pv + 1) (u @ crlf @ rest) (?x5, evs) =
      client_run buffer m6 ?pe (crlf @ rest) (?x5, evs)"
    using run_values [OF 5(1) w(3), of buffer "?pv + 1" "crlf @ rest"] w(1) by (auto simp del: run_machine.simps)
  have o: "offsets_within ?pe ?x5" using 3(2) by (simp add: offsets_within_def)
  obtain m7 x7 where 7: "end_state m7" "offsets_within ?pe x7"
    "client_run buffer m6 ?pe (crlf @ rest) (?x5, evs) =
     client_run buffer m7 (?pe + 1) (CHR 0x0A # rest) (x7, evs @ [Rv_field k w])"
    using run_value_end [OF 6(1), of buffer ?x5 k ?pe w "CHR 0x0A # rest" evs] name val 3(3,4) o
    by (auto simp del: run_machine.simps)
  obtain m8 x8 where 8: "line_state m8" "offsets_within (?pe + 1) x8"
    "client_run buffer m7 (?pe + 1) (CHR 0x0A # rest) (x7, evs @ [Rv_field k w]) =
     client_run buffer m8 (?pe + 2) rest (x8, evs @ [Rv_field k w])"
    using run_line_end [OF 7(1) offsets_later [OF 7(2)], of "?pe + 1" buffer rest "evs @ [Rv_field k w]"]
    by (auto simp del: run_machine.simps)
  have "?pe + 2 = p + length (fst h) + length (snd h) + 4" using h by simp
  then show ?thesis
    using 8(1) offsets_later [OF 8(2), of "?pe + 2"] 1(4) 2(2) 3(5) 4(2) 5(2) 6(2) 7(3) 8(3) h
    by (intro exI [of _ m8] exI [of _ x8]) (simp add: plus_nums del: run_machine.simps)
qed

lemma run_fields:
  assumes "line_state cs" "list_all valid_field hs" "drop p buffer = header_text hs @ rest" "offsets_within p x"
  shows "\<exists>m y. line_state m \<and> offsets_within (p + length (header_text hs)) y \<and>
    client_run buffer cs p (header_text hs @ rest) (x, evs) =
    client_run buffer m (p + length (header_text hs)) rest (y, evs @ map (\<lambda>h. Rv_field (fst h) (snd h)) hs)"
  using assms
proof (induction hs arbitrary: cs p x evs)
  case (Cons h hs)
  let ?l = "fst h @ '': '' @ snd h @ crlf" and ?p = "p + length (fst h) + length (snd h) + 4"
  have t: "header_text (h # hs) = ?l @ header_text hs" by (simp add: header_text_def)
  have d: "drop ?p buffer = header_text hs @ rest"
    using drop_past [of p buffer ?l "header_text hs @ rest"] Cons.prems(3) t by (simp add: plus_nums add.assoc)
  have h: "valid_field h" "list_all valid_field hs" using Cons.prems(2) by simp_all
  obtain m y where 1: "line_state m" "offsets_within ?p y"
    "client_run buffer cs p (?l @ header_text hs @ rest) (x, evs) =
     client_run buffer m ?p (header_text hs @ rest) (y, evs @ [Rv_field (fst h) (snd h)])"
    using run_field [OF Cons.prems(1) h(1) _ Cons.prems(4), of buffer "header_text hs @ rest" evs] Cons.prems(3) t
    by (auto simp del: run_machine.simps)
  obtain n z where 2: "line_state n" "offsets_within (?p + length (header_text hs)) z"
    "client_run buffer m ?p (header_text hs @ rest) (y, evs @ [Rv_field (fst h) (snd h)]) =
     client_run buffer n (?p + length (header_text hs)) rest
       (z, (evs @ [Rv_field (fst h) (snd h)]) @ map (\<lambda>h. Rv_field (fst h) (snd h)) hs)"
    using Cons.IH [OF 1(1) h(2) d 1(2), of "evs @ [Rv_field (fst h) (snd h)]"] by blast
  have "?p + length (header_text hs) = p + length (header_text (h # hs))" using t by simp
  then show ?case using 1(3) 2 t
    by (intro exI [of _ n] exI [of _ z]) (simp add: plus_nums add.assoc del: run_machine.simps)
qed (auto simp: header_text_def)

lemma run_head_end:
  assumes "line_state cs" "drop p buffer = crlf @ rest" "offsets_within p x"
  shows "\<exists>y. client_run buffer cs p (crlf @ rest) (x, evs) = Some (120, p + 2, y, evs @ [Rv_header_done rest]) \<and>
    offsets_within p y \<and> hc_body_start y = p + 2"
proof -
  have e: "client_edge 3 10 = Tr 7" by code_simp
  have "drop (p + 2) buffer = rest" using drop_past [of p buffer crlf rest] assms(2) by simp
  then show ?thesis using assms(3) line_end(2) [OF assms(1)]
    by (auto simp: client_jumps e offsets_within_def plus_nums)
qed

section \<open>Heads\<close>

record response_head =
  rh_minor :: char
  rh_status :: string
  rh_reason :: string
  rh_headers :: "(string \<times> string) list"

definition response_text :: "response_head \<Rightarrow> string" where
  "response_text h =
     ''HTTP/1.'' @ [rh_minor h] @ '' '' @ rh_status h @ '' '' @ rh_reason h @ crlf @ header_text (rh_headers h) @ crlf"

definition response_events :: "response_head \<Rightarrow> string \<Rightarrow> resp_event list" where
  "response_events h rest =
     [Rv_version (''HTTP/1.'' @ [rh_minor h]), Rv_status (rh_status h), Rv_reason (rh_reason h)] @
     map (\<lambda>h. Rv_field (fst h) (snd h)) (rh_headers h) @ [Rv_header_done rest]"

definition valid_response_head :: "response_head \<Rightarrow> bool" where
  "valid_response_head h \<longleftrightarrow>
     (rh_minor h = CHR ''0'' \<or> rh_minor h = CHR ''1'') \<and>
     rh_status h \<noteq> [] \<and> list_all (\<lambda>c. dec_digit (schar c)) (rh_status h) \<and>
     rh_reason h \<noteq> [] \<and> list_all value_char (rh_reason h) \<and> list_all valid_field (rh_headers h)"

lemma status_edges:
  "client_edge 1 72 = Tr 2" "client_edge 8 84 = St 9" "client_edge 9 84 = St 10" "client_edge 10 80 = St 11"
  "client_edge 11 47 = St 12" "client_edge 12 49 = St 13" "client_edge 13 46 = St 14" "client_edge 14 48 = St 15"
  "client_edge 14 49 = St 15" "client_edge 15 32 = Tr 26" "client_edge 17 32 = Tr 28" "client_edge 19 13 = Tr 33"
  "client_edge 24 10 = St 20"
  by code_simp+

lemma status_digit:
  assumes "dec_digit (schar c)"
  shows "client_edge 16 (schar c) = Tr 27" "client_edge 17 (schar c) = St 17"
  using assms by (simp_all add: client_state_defs dec_digit_def)

lemma reason_char:
  assumes "value_char c"
  shows "client_edge 18 (schar c) = Tr 30" "client_edge 19 (schar c) = St 19"
  using assms by (simp_all add: client_state_defs value_char_def)

lemma run_response_version:
  assumes "v = CHR ''0'' \<or> v = CHR ''1''" "dec_digit (schar d)"
    "text_at buffer p (LEN p (p + 8)) = Some (''HTTP/1.'' @ [v])"
  shows "client_run buffer 1 p (''HTTP/1.'' @ [v] @ '' '' @ [d] @ rest) (x, evs) =
    client_run buffer 17 (p + 10) rest (x\<lparr>hc_mark := p + 9\<rparr>, evs @ [Rv_version (''HTTP/1.'' @ [v])])"
proof -
  have "client_run buffer 1 p (CHR ''H'' # ''TTP/1.'' @ [v] @ '' '' @ [d] @ rest) (x, evs) =
      client_run buffer 8 (p + 1) (''TTP/1.'' @ [v] @ '' '' @ [d] @ rest) (x\<lparr>hc_mark := p\<rparr>, evs)"
    by (rule client_step [OF _ client_jumps(26)]) (simp_all add: status_edges(1) del: One_nat_def)
  moreover have nine: "p + 9 = Suc (p + 8)" by simp
  ultimately show ?thesis
    using assms(1,3)
    by (auto simp: status_edges status_digit [OF assms(2)] client_jumps client_cb_def plus_nums nine)
qed

lemma run_status_line:
  assumes "valid_response_head h" "buffer = response_text h @ rest" "hc_nread x = 0" "hc_field_start x = 0" "hc_field_len x = 0"
  shows "\<exists>y. offsets_within (length (rh_status h) + length (rh_reason h) + 12) y \<and>
    client_run buffer 1 0 buffer (x, []) =
    client_run buffer 20 (length (rh_status h) + length (rh_reason h) + 12) (header_text (rh_headers h) @ crlf @ rest)
      (y, [Rv_version (''HTTP/1.'' @ [rh_minor h]), Rv_status (rh_status h), Rv_reason (rh_reason h)])"
proof -
  let ?st = "rh_status h" and ?rs = "rh_reason h" and ?v = "''HTTP/1.'' @ [rh_minor h]"
  let ?tail = "header_text (rh_headers h) @ crlf @ rest"
  let ?p1 = "9 + length ?st" and ?p2 = "10 + length ?st" and ?p3 = "10 + length ?st + length ?rs"
  obtain d ds where st: "?st = d # ds" "dec_digit (schar d)" "list_all (\<lambda>c. client_edge 17 (schar c) = St 17) ds"
    using assms(1) status_digit by (cases ?st) (auto simp: valid_response_head_def list_all_iff)
  obtain c cs where rs: "?rs = c # cs" "value_char c" "list_all (\<lambda>c. client_edge 19 (schar c) = St 19) cs"
    using assms(1) reason_char by (cases ?rs) (auto simp: valid_response_head_def list_all_iff)
  have b: "buffer = ?v @ '' '' @ ?st @ '' '' @ ?rs @ crlf @ ?tail" using assms(2) by (simp add: response_text_def)
  have v: "text_at buffer 0 (LEN 0 8) = Some ?v"
    by (rule text_at_slice [where c = "CHR '' ''" and rest = "?st @ '' '' @ ?rs @ crlf @ ?tail"]) (simp_all add: b)
  have "drop 9 buffer = ?st @ CHR '' '' # ?rs @ crlf @ ?tail"
    by (rule drop_prefix [where pre = "?v @ '' ''"]) (simp_all add: b)
  then have st_at: "text_at buffer 9 (LEN 9 ?p1) = Some ?st" by (rule text_at_slice) simp
  have "drop ?p2 buffer = ?rs @ CHR 0x0D # CHR 0x0A # ?tail"
    by (rule drop_prefix [where pre = "?v @ '' '' @ ?st @ '' ''"]) (simp_all add: b)
  then have rs_at: "text_at buffer ?p2 (LEN ?p2 ?p3) = Some ?rs" by (rule text_at_slice) simp
  let ?x1 = "x\<lparr>hc_mark := 9\<rparr>" and ?evs1 = "[Rv_version ?v]" and ?evs2 = "[Rv_version ?v, Rv_status ?st]"
  let ?x2 = "?x1\<lparr>hc_status := word_of_int (strtol 10 (drop 9 buffer))\<rparr>"
  let ?x3 = "?x2\<lparr>hc_mark := ?p2\<rparr>"
  have "rh_minor h = CHR ''0'' \<or> rh_minor h = CHR ''1''" using assms(1) by (simp add: valid_response_head_def)
  then have "client_run buffer 1 0 buffer (x, []) = client_run buffer 17 10 (ds @ '' '' @ ?rs @ crlf @ ?tail) (?x1, ?evs1)"
    using run_response_version [OF _ st(2), of "rh_minor h" buffer 0 "ds @ '' '' @ ?rs @ crlf @ ?tail" x "[]"] v b st(1)
    by (simp del: run_machine.simps One_nat_def)
  also have "\<dots> = client_run buffer 17 (10 + length ds) ('' '' @ ?rs @ crlf @ ?tail) (?x1, ?evs1)"
    by (rule scan_stay) (use st(3) in simp_all)
  also have "10 + length ds = ?p1" using st(1) by simp
  also have "client_run buffer 17 ?p1 ('' '' @ ?rs @ crlf @ ?tail) (?x1, ?evs1) =
      client_run buffer 18 ?p2 (?rs @ crlf @ ?tail) (?x2, ?evs2)"
    using st_at by (simp add: status_edges client_jumps client_cb_def)
  also have "\<dots> = client_run buffer 19 (?p2 + 1) (cs @ crlf @ ?tail) (?x3, ?evs2)"
    using rs(1) by (simp add: reason_char [OF rs(2)] client_jumps)
  also have "\<dots> = client_run buffer 19 (?p2 + 1 + length cs) (crlf @ ?tail) (?x3, ?evs2)"
    by (rule scan_stay) (use rs(3) in simp_all)
  also have "?p2 + 1 + length cs = ?p3" using rs(1) by simp
  also have "client_run buffer 19 ?p3 (crlf @ ?tail) (?x3, ?evs2) =
      client_run buffer 20 (?p3 + 2) ?tail (?x3, [Rv_version ?v, Rv_status ?st, Rv_reason ?rs])"
    using rs_at by (simp add: status_edges client_jumps client_cb_def)
  finally have "client_run buffer 1 0 buffer (x, []) =
      client_run buffer 20 (?p3 + 2) ?tail (?x3, [Rv_version ?v, Rv_status ?st, Rv_reason ?rs])" .
  moreover have "?p3 + 2 = length ?st + length ?rs + 12" by simp
  moreover have "offsets_within (length ?st + length ?rs + 12) ?x3" using assms(3-5) by (simp add: offsets_within_def)
  ultimately show ?thesis by (intro exI [of _ ?x3]) (simp add: ac_simps del: run_machine.simps)
qed

lemma response_head_parsed:
  assumes "valid_response_head h" "length (response_text h @ rest) < 2 ^ 31"
  shows "\<exists>y. httpclient_parser_execute (httpclient_parser_init x) (response_text h @ rest) 0 =
      Inr (response_events h rest, int (length (response_text h)), y) \<and>
    httpclient_parser_finish y = 1 \<and> hc_body_start y = length (response_text h)"
proof -
  let ?b = "response_text h @ rest" and ?x = "httpclient_parser_init x" and ?hs = "header_text (rh_headers h)"
  let ?evs = "[Rv_version (''HTTP/1.'' @ [rh_minor h]), Rv_status (rh_status h), Rv_reason (rh_reason h)]"
  let ?p = "length (rh_status h) + length (rh_reason h) + 12"
  let ?fields = "map (\<lambda>h. Rv_field (fst h) (snd h)) (rh_headers h)"
  have fresh: "?x\<lparr>hc_nread := 0, hc_mark := 0, hc_field_len := 0, hc_field_start := 0\<rparr> = ?x"
    by (rule httpclient_parser.equality) (simp_all add: httpclient_parser_init_def)
  have len: "length (response_text h) = ?p + length ?hs + 2" by (simp add: response_text_def)
  have fields: "list_all valid_field (rh_headers h)" using assms(1) by (simp add: valid_response_head_def)
  obtain y1 where 1: "offsets_within ?p y1" "client_run ?b 1 0 ?b (?x, []) = client_run ?b 20 ?p (?hs @ crlf @ rest) (y1, ?evs)"
    using run_status_line [OF assms(1) refl, of ?x rest] by (auto simp: httpclient_parser_init_def simp del: run_machine.simps)
  have d1: "drop ?p ?b = ?hs @ crlf @ rest"
    by (rule drop_prefix [where pre = "''HTTP/1.'' @ [rh_minor h] @ '' '' @ rh_status h @ '' '' @ rh_reason h @ crlf"])
      (simp_all add: response_text_def)
  have "line_state 20" by (simp add: line_state_def)
  from run_fields [OF this fields d1 1(1), of ?evs]
  obtain m y2 where 2: "line_state m" "offsets_within (?p + length ?hs) y2"
    "client_run ?b 20 ?p (?hs @ crlf @ rest) (y1, ?evs) =
     client_run ?b m (?p + length ?hs) (crlf @ rest) (y2, ?evs @ ?fields)" by blast
  from drop_past [OF d1] run_head_end [OF 2(1) _ 2(2), of ?b rest "?evs @ ?fields"]
  obtain y where 3: "client_run ?b m (?p + length ?hs) (crlf @ rest) (y2, ?evs @ ?fields) =
      Some (120, ?p + length ?hs + 2, y, (?evs @ ?fields) @ [Rv_header_done rest])"
    "offsets_within (?p + length ?hs) y" "hc_body_start y = ?p + length ?hs + 2" by blast
  have loop: "client_loop ?b 0 ?x = Some (120, length (response_text h), y, response_events h rest)"
    using 1(2) 2(3) 3(1) len by (simp add: client_loop_def httpclient_parser_init_def response_events_def del: run_machine.simps)
  have size: "int_of_size (length ?b) = int (length ?b)" "int_of_size 0 = 0"
    using int_of_size_small [OF assms(2)] by simp_all
  have "httpclient_parser_execute ?x ?b 0 = client_execute_end ?b 0 (120, length (response_text h), y, response_events h rest)"
    unfolding httpclient_parser_execute_def fresh loop size by simp
  then show ?thesis
    using 3(2,3) len
    by (intro exI [of _ "y\<lparr>hc_cs := 120, hc_nread := length (response_text h)\<rparr>"])
      (simp add: client_execute_end_def offsets_within_def httpclient_parser_finish_def httpclient_parser_has_error_def
        httpclient_parser_is_finished_def Let_def)
qed

text \<open>
  The head of a response is read back by the generated parser: for every status line of a
  known version, a status of digits and a reason, and header lines with values, whatever follows,
  the callbacks are called with exactly these parts in their order, exactly the head is
  consumed and the parser is finished.
\<close>

theorem response_head_round_trip:
  assumes "valid_response_head h" "length (response_text h @ rest) < 2 ^ 31"
  shows "\<exists>y. httpclient_parser_execute (httpclient_parser_init x) (response_text h @ rest) 0 =
      Inr (response_events h rest, int (length (response_text h)), y) \<and>
    httpclient_parser_finish y = 1 \<and> hc_body_start y = length (response_text h)"
  using response_head_parsed [OF assms] .

definition a_response_head :: response_head where
  "a_response_head =
     \<lparr>rh_minor = CHR ''1'', rh_status = ''404'', rh_reason = ''Not Found'',
      rh_headers = [(''Server'', ''zhuyh''), (''Content-Length'', ''12''), (''Connection'', ''close'')]\<rparr>"

theorem response_head_round_trip_witness:
  "\<exists>y. httpclient_parser_execute (httpclient_parser_init raw_client) (response_text a_response_head @ ''not found'') 0 =
      Inr (response_events a_response_head ''not found'', int (length (response_text a_response_head)), y) \<and>
    httpclient_parser_finish y = 1 \<and> hc_body_start y = length (response_text a_response_head)"
proof (rule response_head_round_trip)
  show "valid_response_head a_response_head"
    by (simp add: valid_response_head_def a_response_head_def valid_field_def valid_header_def blank_def alpha_def
        dec_digit_def name_char_def value_char_def)
qed (simp add: a_response_head_def response_text_def header_text_def)

end
