(* ===== verification/Http11_Request.thy ===== *)
theory Http11_Request
  imports Http11_Head Http_Props
begin

text \<open>
  A request through both sides: what \<open>HttpRequest::dump\<close> writes is parsed into the request it was
  written from (\<open>src/src/http/Http.cpp\<close>, \<open>HttpParser.cpp\<close>, \<open>http11_parser.rl.cpp\<close>).
\<close>

section \<open>The head of a request\<close>

text \<open>The headers that are written: those of the request but for \<open>connection\<close>, and the one for the connection mode.\<close>

definition sent_headers :: "HttpRequest \<Rightarrow> (string \<times> string) list" where
  "sent_headers r =
     filter (\<lambda>h. strcasecmp (fst h) ''connection'' \<noteq> 0) (rq_headers r) @
     [(''Connection'', if rq_close r then ''close'' else ''keep-alive'')]"

definition request_head :: "HttpRequest \<Rightarrow> head" where
  "request_head r =
     \<lparr>h_method = the (httpMethodToString (method_num (rq_method r))), h_path = rq_path r, h_query = rq_query r,
      h_fragment = rq_fragment r, h_minor = (if rq_version r = 11 then CHR ''1'' else CHR ''0''),
      h_headers = sent_headers r\<rparr>"

text \<open>A request without scheme and body, of legal characters, whose method the parser knows.\<close>

definition plain_request :: "HttpRequest \<Rightarrow> bool" where
  "plain_request r \<longleftrightarrow>
     rq_scheme r = [] \<and> rq_body r = [] \<and> \<not> rq_webSocket r \<and> (rq_version r = 10 \<or> rq_version r = 11) \<and>
     rq_method r \<noteq> CONNECT \<and> rq_method r \<noteq> MSEARCH \<and> rq_method r \<noteq> INVALID_METHOD \<and>
     valid_path (rq_path r) \<and> pct_text query_char (rq_query r) \<and> pct_text query_char (rq_fragment r) \<and>
     list_all valid_header (rq_headers r) \<and> map_ok (rq_headers r)"

lemma dec_zero_one: "dec 0 = ''0''" "dec 1 = ''1''"
  by code_simp+

lemma rq_dump_head:
  assumes "plain_request r"
  shows "rq_dump r = head_text (request_head r)"
proof -
  have "version_text (rq_version r) = ''HTTP/1.'' @ [h_minor (request_head r)]"
    using assms dec_zero_one unfolding plain_request_def
    by (auto simp: version_text_def request_head_def)
  moreover have "header_lines False (rq_headers r) @
      ''Connection: '' @ (if rq_close r then ''close'' else ''keep-alive'') @ crlf = header_text (sent_headers r)"
    by (simp add: header_lines_def header_text_def sent_headers_def case_prod_beta')
  ultimately show ?thesis
    using assms by (simp add: plain_request_def rq_dump_def head_text_def request_head_def query_text_def)
qed

lemma method_texts: "list_all (\<lambda>(n, m, s). m = MSEARCH \<or> m = INVALID_METHOD \<or> valid_method s) method_map"
  by code_simp

lemma request_method:
  assumes "plain_request r"
  obtains m where "httpMethodToString (method_num (rq_method r)) = Some m" "valid_method m" "stringToHttpMethod m = rq_method r"
proof -
  have ne: "rq_method r \<noteq> INVALID_METHOD" "rq_method r \<noteq> MSEARCH" using assms by (simp_all add: plain_request_def)
  then obtain n m where row: "(n, rq_method r, m) \<in> set method_map" using method_map_total [of "rq_method r"] by auto
  then have "valid_method m" using method_texts ne by (auto simp: list_all_iff)
  moreover obtain s where s: "httpMethodToString (method_num (rq_method r)) = Some s"
    "\<forall>t. strcasecmp s t = 0 \<longrightarrow> stringToHttpMethod t = rq_method r"
    using method_table_round_trip [OF ne(1)] by blast
  moreover have "s = m" using method_row [OF row] s(1) by simp
  ultimately show ?thesis using that by (simp add: strcasecmp_0)
qed

lemma valid_request_head:
  assumes "plain_request r"
  shows "valid_head (request_head r)"
proof -
  obtain m where "httpMethodToString (method_num (rq_method r)) = Some m" "valid_method m"
    using request_method [OF assms] by blast
  moreover have "valid_header (''Connection'', if rq_close r then ''close'' else ''keep-alive'')"
    by (simp add: valid_header_def name_char_def alpha_def dec_digit_def value_char_def)
  ultimately show ?thesis
    using assms by (auto simp: valid_head_def request_head_def plain_request_def sent_headers_def list_all_iff)
qed

section \<open>The callbacks\<close>

lemma fold_fields:
  assumes "list_all valid_header hs"
  shows "fold req_callback (map (\<lambda>h. Ev_field (fst h) (snd h)) hs) q =
    q\<lparr>rqp_data := (rqp_data q)\<lparr>rq_headers := fold (\<lambda>(k, v). om_assign CaseInsensitiveLesser k v) hs (rq_headers (rqp_data q))\<rparr>\<rparr>"
  using assms
  by (induction hs arbitrary: q)
    (auto simp: on_request_http_field_def setHeader_def valid_header_def case_prod_beta')

lemma fold_two: "fold f (xs @ ys) a = fold f ys (fold f xs a)"
  by simp

lemma version_callback:
  assumes "v = CHR ''0'' \<or> v = CHR ''1''"
  shows "on_request_version (''HTTP/1.'' @ [v]) q =
    q\<lparr>rqp_data := (rqp_data q)\<lparr>rq_version := if v = CHR ''1'' then 11 else 10\<rparr>\<rparr>"
proof -
  have "strncasecmp ''HTTP/1.1'' ''HTTP/1.1'' (length ''HTTP/1.1'') = 0"
    "strncasecmp ''HTTP/1.1'' ''HTTP/1.0'' (length ''HTTP/1.0'') \<noteq> 0"
    "strncasecmp ''HTTP/1.0'' ''HTTP/1.0'' (length ''HTTP/1.0'') = 0"
    by code_simp+
  then show ?thesis using assms by (auto simp: on_request_version_def)
qed

definition parsed_request :: "HttpRequest \<Rightarrow> HttpRequest" where
  "parsed_request r =
     (HttpRequest_new 11 True)\<lparr>rq_method := rq_method r, rq_path := rq_path r, rq_query := rq_query r,
        rq_uri := rq_path r @ query_text (rq_query r), rq_fragment := rq_fragment r, rq_version := rq_version r,
        rq_headers := fold (\<lambda>(k, v). om_assign CaseInsensitiveLesser k v) (sent_headers r) []\<rparr>"

lemma fold_head_events:
  assumes "plain_request r"
  shows "fold req_callback (head_events (request_head r) rest) HttpRequestParser_new =
    \<lparr>rqp_data = parsed_request r, rqp_error = HTTP_OK\<rparr>"
proof -
  obtain m where m: "httpMethodToString (method_num (rq_method r)) = Some m" "stringToHttpMethod m = rq_method r"
    using request_method [OF assms] by blast
  have hs: "list_all valid_header (sent_headers r)"
    using valid_request_head [OF assms] by (simp add: valid_head_def request_head_def)
  have path: "take 2 (rq_path r) \<noteq> ''//''"
    using assms by (cases "rq_path r"; cases "tl (rq_path r)") (auto simp: plain_request_def valid_path_def)
  have v: "h_minor (request_head r) = CHR ''0'' \<or> h_minor (request_head r) = CHR ''1''" by (simp add: request_head_def)
  have minor: "(if h_minor (request_head r) = CHR ''1'' then 11 else 10) = rq_version r"
    using assms by (auto simp: plain_request_def request_head_def)
  have ne: "rq_method r \<noteq> INVALID_METHOD" using assms by (simp add: plain_request_def)
  let ?evs = "[Ev_method m, Ev_path (rq_path r)] @ (if rq_query r = [] then [] else [Ev_query (rq_query r)]) @
     [Ev_uri (rq_path r @ query_text (rq_query r))] @ (if rq_fragment r = [] then [] else [Ev_fragment (rq_fragment r)])"
  let ?q = "fold req_callback ?evs HttpRequestParser_new"
  have q: "?q = \<lparr>rqp_data = (HttpRequest_new 11 True)\<lparr>rq_method := rq_method r, rq_path := rq_path r, rq_query := rq_query r,
        rq_uri := rq_path r @ query_text (rq_query r), rq_fragment := rq_fragment r\<rparr>, rqp_error = HTTP_OK\<rparr>"
    using m ne path
    by (auto simp: HttpRequestParser_new_def on_request_method_def on_request_path_def on_request_query_def
        on_request_uri_def on_request_fragment_def HttpRequest_new_def Let_def)
  let ?tail = "Ev_version (''HTTP/1.'' @ [h_minor (request_head r)]) # map (\<lambda>h. Ev_field (fst h) (snd h)) (sent_headers r) @ [Ev_header_done rest]"
  have ev: "head_events (request_head r) rest = ?evs @ ?tail"
    using m by (simp add: head_events_def request_head_def)
  have "fold req_callback (head_events (request_head r) rest) HttpRequestParser_new = fold req_callback ?tail ?q"
    unfolding ev by (rule fold_two)
  also have "\<dots> = \<lparr>rqp_data = parsed_request r, rqp_error = HTTP_OK\<rparr>"
    unfolding q using version_callback [OF v] minor
    by (simp add: fold_fields [OF hs] on_request_header_done_def parsed_request_def HttpRequest_new_def)
  finally show ?thesis .
qed

text \<open>
  The headers of a map but for \<open>connection\<close>, and then that header, put into an empty map one after the
  other: the look-ups of what a message was written from.
\<close>

lemma connection_headers:
  assumes "map_ok hs" "strcasecmp n ''connection'' = 0"
  shows "get_or (fold (\<lambda>(k, v). om_assign CaseInsensitiveLesser k v)
      (filter (\<lambda>h. strcasecmp (fst h) ''connection'' \<noteq> 0) hs @ [(n, m)]) []) k d =
    (if strcasecmp k ''connection'' = 0 then m else get_or hs k d)"
proof -
  let ?lt = "\<lambda>p q. CaseInsensitiveLesser (fst p) (fst q)"
  let ?f = "filter (\<lambda>h. strcasecmp (fst h) ''connection'' \<noteq> 0) hs"
  have s: "sorted_wrt ?lt hs" using assms(1) by (simp add: map_ok_def)
  then have sf: "sorted_wrt ?lt ([] @ ?f)" by (simp add: sorted_wrt_filter)
  have f: "fold (\<lambda>(k, v). om_assign CaseInsensitiveLesser k v) ?f [] = ?f"
    using ci.fold_om_assign_sorted [OF sf] by simp
  have c: "strcasecmp n k = 0 \<longleftrightarrow> strcasecmp k ''connection'' = 0"
    using assms(2) by (auto simp: strcasecmp_0)
  show ?thesis
    using ci.om_find_assign [OF sf [simplified]] ci.om_find_filter [OF s, of k "''connection''"]
    by (simp add: get_or_def f ci_same c)
qed

lemma parsed_headers:
  assumes "plain_request r"
  shows "getHeader k d (parsed_request r) =
    (if strcasecmp k ''connection'' = 0 then (if rq_close r then ''close'' else ''keep-alive'') else getHeader k d r)"
proof -
  have "strcasecmp ''Connection'' ''connection'' = 0" by code_simp
  then show ?thesis
    using connection_headers [of "rq_headers r" "''Connection''"] assms
    by (simp add: getHeader_def parsed_request_def sent_headers_def plain_request_def del: fold_append)
qed

text \<open>
  C4. A request that is written is parsed back: for every request without body, shorter than 2^31 bytes, of legal
  characters, with a method the parser knows and its headers in the order of the map, the parser
  on its text and whatever follows consumes exactly the text, is finished and in no error, and the
  callbacks and \<open>init\<close> give the same method, path, query, fragment, version and connection mode, and
  the same headers but for \<open>connection\<close>, which tells the mode.
\<close>

theorem request_dump_round_trip:
  assumes "plain_request r" "length (rq_dump r @ rest) < 2 ^ 31"
  shows "\<exists>evs x1. http_parser_execute (http_parser_init x) (rq_dump r @ rest) 0 = Inr (evs, length (rq_dump r), x1) \<and>
    http_parser_finish x1 = 1 \<and>
    (let q = fold req_callback evs HttpRequestParser_new; r1 = rq_init (rqp_data q)
     in rqp_error q = HTTP_OK \<and> rq_method r1 = rq_method r \<and> rq_path r1 = rq_path r \<and> rq_query r1 = rq_query r \<and>
        rq_fragment r1 = rq_fragment r \<and> rq_version r1 = rq_version r \<and> rq_close r1 = rq_close r \<and>
        getHeader k d r1 =
          (if strcasecmp k ''connection'' = 0 then (if rq_close r then ''close'' else ''keep-alive'') else getHeader k d r))"
proof -
  let ?p = "parsed_request r"
  obtain x1 where x1: "http_parser_execute (http_parser_init x) (rq_dump r @ rest) 0 =
      Inr (head_events (request_head r) rest, length (rq_dump r), x1)" "http_parser_finish x1 = 1"
    using request_head_parsed [OF valid_request_head [OF assms(1)]] assms(2) unfolding rq_dump_head [OF assms(1)] by blast
  have "strcasecmp ''connection'' ''connection'' = 0" "strcasecmp ''keep-alive'' ''keep-alive'' = 0" "strcasecmp ''close'' ''keep-alive'' \<noteq> 0"
    by code_simp+
  then have init: "rq_init ?p = ?p\<lparr>rq_close := rq_close r\<rparr>"
    using parsed_headers [OF assms(1), of "''connection''" "[]"] by (simp add: rq_init_def Let_def)
  have "getHeader k d (?p\<lparr>rq_close := rq_close r\<rparr>) = getHeader k d ?p"
    by (simp add: getHeader_def)
  moreover have "rq_method ?p = rq_method r" "rq_path ?p = rq_path r" "rq_query ?p = rq_query r"
    "rq_fragment ?p = rq_fragment r" "rq_version ?p = rq_version r"
    by (simp_all add: parsed_request_def)
  ultimately show ?thesis
    using x1 unfolding Let_def
    by (intro exI [of _ "head_events (request_head r) rest"] exI [of _ x1])
      (simp add: fold_head_events [OF assms(1)] init parsed_headers [OF assms(1)])
qed

definition a_request :: HttpRequest where
  "a_request =
     (HttpRequest_new 11 False)\<lparr>rq_method := POST, rq_path := ''/index.html'', rq_query := ''a=%20b'',
        rq_headers := [(''Accept'', ''*/*''), (''Host'', ''localhost'')]\<rparr>"

lemma plain_a_request: "plain_request a_request"
proof -
  have "CaseInsensitiveLesser ''Accept'' ''Host''" by code_simp
  then show ?thesis
    by (simp add: plain_request_def a_request_def HttpRequest_new_def valid_path_def valid_header_def map_ok_def path_char_def
        query_char_def pchar_def alpha_def dec_digit_def xdigit_def name_char_def value_char_def)
qed

lemma a_request_short: "length (rq_dump a_request) < 200"
  by code_simp

theorem request_dump_round_trip_witness:
  "\<exists>evs x1. http_parser_execute (http_parser_init raw_parser) (rq_dump a_request @ ''GET'') 0 =
      Inr (evs, length (rq_dump a_request), x1) \<and> http_parser_finish x1 = 1 \<and>
    (let q = fold req_callback evs HttpRequestParser_new; r1 = rq_init (rqp_data q)
     in rqp_error q = HTTP_OK \<and> rq_method r1 = rq_method a_request \<and> rq_path r1 = rq_path a_request \<and>
        rq_query r1 = rq_query a_request \<and> rq_fragment r1 = rq_fragment a_request \<and> rq_version r1 = rq_version a_request \<and>
        rq_close r1 = rq_close a_request \<and>
        getHeader ''HOST'' [] r1 =
          (if strcasecmp ''HOST'' ''connection'' = 0 then (if rq_close a_request then ''close'' else ''keep-alive'')
           else getHeader ''HOST'' [] a_request))"
  by (rule request_dump_round_trip) (rule plain_a_request, use a_request_short in simp)

end
