(* ===== verification/Httpclient_Response.thy ===== *)
theory Httpclient_Response
  imports Httpclient_Head Http11_Request
begin

text \<open>
  A response through both sides: what \<open>HttpResponse::dump\<close> writes is parsed into the response it was
  written from (\<open>src/src/http/Http.cpp\<close>, \<open>HttpParser.cpp\<close>, \<open>httpclient_parser.rl.cpp\<close>).
\<close>

section \<open>Status numbers\<close>





section \<open>The head of a response\<close>








section \<open>The callbacks\<close>








end
