(* ===== verification/Http_Chunked.thy ===== *)
theory Http_Chunked
  imports Httpclient_Safety Http11_Head Http_Session_Props
begin

text \<open>
  Chunked bodies through the generated response parser: the parser of
  \<open>src/src/http/httpclient_parser.rl.cpp\<close> as \<open>HttpResponseParser\<close> runs it
  (\<open>src/src/http/HttpParser.cpp\<close>) reads the heads of chunks, so that \<open>recvResponse\<close> decodes what the
  chunked coding has written.
\<close>

section \<open>The parser as the connection uses it\<close>



section \<open>Hexadecimal numbers read back\<close>








section \<open>The head of a chunk\<close>







section \<open>Chunked bodies\<close>



end
