(* ===== verification/Http_Exchange.thy ===== *)
theory Http_Exchange
  imports Http_Chunked Http11_Request
begin

text \<open>
  A request from the one side to the other: a request that \<open>HttpConnection::sendRequest\<close> has written
  and that a read of the session's stream delivers is the request that \<open>HttpSession::recvRequest\<close>
  returns, through the generated parser and its callbacks.
\<close>

section \<open>The parser as the session uses it\<close>

text \<open>
  \<open>HttpRequestParser::execute\<close> without the move of the rest to the front of the buffer. As for
  responses, a run that fails does not return; it is given the error state here.
\<close>

definition req_execute :: "http_parser \<Rightarrow> string \<Rightarrow> req_event list \<times> nat \<times> http_parser" where
  "req_execute x data =
     (case http_parser_execute x data 0 of
        Inr (evs, n, x1) \<Rightarrow> (evs, n, x1)
      | Inl _ \<Rightarrow> ([], 0, x\<lparr>hp_cs := http_parser_error\<rparr>))"

definition request_machine :: "http_parser \<Rightarrow> (http_parser, req_event) machine" where
  "request_machine raw =
     \<lparr>mc_init = http_parser_init raw, mc_exec = req_execute, mc_finished = (\<lambda>x. http_parser_finish x \<noteq> 0),
      mc_error = http_parser_has_error\<rparr>"

lemma to_chars_to_bytes: "to_chars (to_bytes t) = t"
proof -
  have "char_of (unat (of_nat (of_char c) :: u8)) = c" for c
  proof -
    have "(of_char c :: nat) < 256" by simp
    then have "unat (of_nat (of_char c) :: u8) = of_char c" by (simp add: unat_of_nat)
    then show ?thesis by simp
  qed
  then show ?thesis by (induction t) simp_all
qed

text \<open>The parameters and cookies are read from the other fields, which stay.\<close>

lemma initParam_fields:
  "\<exists>ps cs t. initParam r = r\<lparr>rq_params := ps, rq_cookies := cs, rq_contentType := t\<rparr>"
proof -
  have 1: "\<exists>ps t. initQueryParam r = r\<lparr>rq_params := ps, rq_contentType := t\<rparr>" for r
  proof -
    have "initQueryParam r = r \<or> (\<exists>ps t. initQueryParam r = r\<lparr>rq_params := ps, rq_contentType := t\<rparr>)"
      unfolding initQueryParam_def by (simp split: if_split) blast
    moreover have "r = r\<lparr>rq_params := rq_params r, rq_contentType := rq_contentType r\<rparr>" by simp
    ultimately show ?thesis by metis
  qed
  have 2: "\<exists>ps t. initBodyParam r = r\<lparr>rq_params := ps, rq_contentType := t\<rparr>" for r
  proof -
    have "initBodyParam r = r \<or> (\<exists>ps t. initBodyParam r = r\<lparr>rq_params := ps, rq_contentType := t\<rparr>) \<or>
        (\<exists>t. initBodyParam r = r\<lparr>rq_contentType := t\<rparr>)"
      unfolding initBodyParam_def by (simp split: if_split) blast
    moreover have "r = r\<lparr>rq_params := rq_params r, rq_contentType := rq_contentType r\<rparr>"
      "r\<lparr>rq_contentType := t\<rparr> = r\<lparr>rq_params := rq_params r, rq_contentType := t\<rparr>" for t by simp_all
    ultimately show ?thesis by metis
  qed
  have 3: "\<exists>cs t. initCookies r = r\<lparr>rq_cookies := cs, rq_contentType := t\<rparr>" for r
  proof -
    have "initCookies r = r \<or> (\<exists>cs t. initCookies r = r\<lparr>rq_cookies := cs, rq_contentType := t\<rparr>) \<or>
        (\<exists>t. initCookies r = r\<lparr>rq_contentType := t\<rparr>)"
      unfolding initCookies_def Let_def by (simp split: if_split) blast
    moreover have "r = r\<lparr>rq_cookies := rq_cookies r, rq_contentType := rq_contentType r\<rparr>"
      "r\<lparr>rq_contentType := t\<rparr> = r\<lparr>rq_cookies := rq_cookies r, rq_contentType := t\<rparr>" for t by simp_all
    ultimately show ?thesis by metis
  qed
  obtain ps1 t1 where a: "initQueryParam r = r\<lparr>rq_params := ps1, rq_contentType := t1\<rparr>" using 1 by blast
  obtain ps2 t2 where b: "initBodyParam (r\<lparr>rq_params := ps1, rq_contentType := t1\<rparr>) = r\<lparr>rq_params := ps2, rq_contentType := t2\<rparr>"
    using 2 [of "r\<lparr>rq_params := ps1, rq_contentType := t1\<rparr>"] by auto
  obtain cs t3 where "initCookies (r\<lparr>rq_params := ps2, rq_contentType := t2\<rparr>) = r\<lparr>rq_params := ps2, rq_cookies := cs, rq_contentType := t3\<rparr>"
    using 3 [of "r\<lparr>rq_params := ps2, rq_contentType := t2\<rparr>"] by auto
  then have "initParam r = r\<lparr>rq_params := ps2, rq_cookies := cs, rq_contentType := t3\<rparr>"
    unfolding initParam_def a b .
  then show ?thesis by blast
qed

lemma session_head_whole:
  assumes "plain_request r" "rd hs s = (int (length t), to_bytes t, s')" "t = rq_dump r @ rest" "length rest < hs" "length t < 2 ^ 31"
  shows "session_head (request_machine raw) rd hs s =
    Some (Head \<lparr>rqp_data = parsed_request r, rqp_error = HTTP_OK\<rparr> rest, s')"
proof -
  obtain x1 where x1: "http_parser_execute (http_parser_init raw) t 0 =
      Inr (head_events (request_head r) rest, length (rq_dump r), x1)" "http_parser_finish x1 = 1"
    using request_head_parsed [OF valid_request_head [OF assms(1)]] assms(5)
    unfolding rq_dump_head [OF assms(1), symmetric] assms(3) by blast
  have ne: "t \<noteq> []" using x1(1) assms(3) by (auto simp: rq_dump_def)
  then have fill: "session_fill [] (int (length t)) (to_bytes t) = t"
    by (simp only: session_fill_def append_Nil to_chars_to_bytes nat_int) (simp add: list_update_beyond)
  have "\<not> http_parser_has_error x1" using x1(2) by (auto simp: http_parser_finish_def)
  moreover have "drop (length (rq_dump r)) t = rest" using assms(3) by simp
  ultimately show ?thesis
    unfolding session_head_def
    by (subst recv_head.simps)
      (use assms(2,4) ne fill x1 in \<open>simp add: request_machine_def req_execute_def fold_head_events [OF assms(1)] Let_def\<close>)
qed

text \<open>
  C1. A request is received as it was sent: when a read of the stream delivers the text of a
  plain request, with whatever follows it in the same piece (whose length is an \<open>int\<close>), and no header announces a body, then
  \<open>recvRequest\<close> with the generated parser returns a request with the same method, path, query,
  fragment, version and connection mode, the same headers but for \<open>connection\<close>, and no body.
\<close>

theorem request_received_as_sent:
  assumes "plain_request r" "rd hs s = (int (length (rq_dump r @ rest)), to_bytes (rq_dump r @ rest), s')"
    "length rest < hs" "rq_contentLength cast (parsed_request r) \<le> 0" "length (rq_dump r @ rest) < 2 ^ 31"
  shows "\<exists>req. recvRequest cast (request_machine raw) rd hs s = Some (Head req [], s') \<and>
    rq_method req = rq_method r \<and> rq_path req = rq_path r \<and> rq_query req = rq_query r \<and> rq_fragment req = rq_fragment r \<and>
    rq_version req = rq_version r \<and> rq_close req = rq_close r \<and> rq_body req = [] \<and>
    getHeader k d req =
      (if strcasecmp k ''connection'' = 0 then (if rq_close r then ''close'' else ''keep-alive'') else getHeader k d r)"
proof -
  let ?p = "parsed_request r"
  have "strcasecmp ''connection'' ''connection'' = 0" "strcasecmp ''keep-alive'' ''keep-alive'' = 0" "strcasecmp ''close'' ''keep-alive'' \<noteq> 0"
    by code_simp+
  then have init: "rq_init ?p = ?p\<lparr>rq_close := rq_close r\<rparr>"
    using parsed_headers [OF assms(1), of "''connection''" "[]"] by (simp add: rq_init_def Let_def)
  obtain ps cs t where req: "initParam (rq_init ?p) = ?p\<lparr>rq_close := rq_close r, rq_params := ps, rq_cookies := cs, rq_contentType := t\<rparr>"
    using initParam_fields [of "rq_init ?p"] unfolding init by blast
  have "recvRequest cast (request_machine raw) rd hs s = Some (Head (initParam (rq_init ?p)) [], s')"
    using session_head_whole [where rd = rd and s = s, OF assms(1,2) refl assms(3,5)] assms(4) by (simp add: recvRequest_def Let_def)
  moreover have "rq_method ?p = rq_method r" "rq_path ?p = rq_path r" "rq_query ?p = rq_query r"
    "rq_fragment ?p = rq_fragment r" "rq_version ?p = rq_version r" "rq_body ?p = []"
    by (simp_all add: parsed_request_def HttpRequest_new_def)
  moreover have "getHeader k d (initParam (rq_init ?p)) = getHeader k d ?p" by (simp add: req getHeader_def)
  ultimately show ?thesis
    by (intro exI [of _ "initParam (rq_init ?p)"]) (simp add: parsed_headers [OF assms(1)], simp add: req)
qed

theorem request_received_as_sent_witness:
  "\<exists>req. recvRequest (\<lambda>_. None) (request_machine raw_parser)
      (\<lambda>n s. (int (length (rq_dump a_request @ ''GET'')), to_bytes (rq_dump a_request @ ''GET''), s)) 4096 () = Some (Head req [], ()) \<and>
    rq_method req = rq_method a_request \<and> rq_path req = rq_path a_request \<and> rq_query req = rq_query a_request \<and>
    rq_fragment req = rq_fragment a_request \<and> rq_version req = rq_version a_request \<and> rq_close req = rq_close a_request \<and>
    rq_body req = [] \<and>
    getHeader ''host'' [] req =
      (if strcasecmp ''host'' ''connection'' = 0 then (if rq_close a_request then ''close'' else ''keep-alive'')
       else getHeader ''host'' [] a_request)"
proof (rule request_received_as_sent [where rest = "''GET''"])
  show "plain_request a_request" by (rule plain_a_request)
  show "length (rq_dump a_request @ ''GET'') < 2 ^ 31" using a_request_short by simp
  show "rq_contentLength (\<lambda>_. None) (parsed_request a_request) \<le> 0"
    by (simp add: rq_contentLength_def getAs_def split: option.split)
qed simp_all

end
