(* ===== verification/Spec2Isabelle.thy ===== *)
theory Spec2Isabelle
  imports Byte_Codec_Props Ts_Queue Co_Lock Tcp_Server Http_Props Http_Session_Props Address_Props Log_Thread Log_Config
    Log_Yaml Mysql_Pool_Props Mysql_Stmt Httpclient_Response Http_Exchange
begin

text \<open>
  A verification development for zhuyh, a C++ framework of user-level fibers, hooked system calls,
  an epoll reactor and an HTTP server on top of them. All paths are under \<open>src/src/\<close>.

  \<^bold>\<open>The program.\<close> A \<open>Scheduler\<close> owns \<open>Processer\<close>s, one per thread, each with a \<open>WorkQueue\<close> of fibers. A
  fiber that would block in a hooked system call (\<open>netio/Hook.cpp\<close>) registers itself with the
  \<open>Reactor\<close>, for a descriptor or a timer, and gives its thread up; the reactor hands it back to the
  scheduler when the descriptor is ready or the time has come. \<open>Socket\<close>, \<open>TcpServer\<close> and the HTTP
  classes are written as blocking code over the hooked calls. Messages are kept in \<open>ByteArray\<close>s, and
  log events go through a queue to a \<open>LogThread\<close>.

  \<^bold>\<open>Theories.\<close> The operations stand in the theory of their component, in the order of the code and
  under its names (\<open>writeInt32\<close>, \<open>addTimer\<close>, \<open>handleClient\<close>); lemmas with more than a few steps stand
  in a theory \<open>..._Props\<close> beside it.
    \<^item> \<open>Zy_Prelude\<close>: machine integers, the state and exception monad, shared lemmas. \<open>Ordered\<close>:
      \<open>std::set\<close> and \<open>std::map\<close> with a comparison. \<open>Text_Out\<close>: numbers as output streams write them.
    \<^item> \<open>Endian\<close> (\<open>socket/endian.hpp\<close>), \<open>Byte_Array\<close>, \<open>Byte_Codec\<close> (\<open>bytearray/ByteArray.*\<close>): the chain of
      blocks with its cursor and the typed accessors.
    \<^item> \<open>Ts_Queue\<close> (\<open>scheduler/TSQueue.hpp\<close>), \<open>Work_Queue\<close> (\<open>scheduler/WorkQueue.hpp\<close>), \<open>Fiber\<close>
      (\<open>concurrent/fiber.*\<close>), \<open>Timer\<close> (\<open>scheduler/TimerManager.*\<close>), \<open>Reactor\<close> (\<open>scheduler/Reactor.*\<close>),
      \<open>Scheduler\<close> (\<open>scheduler/Processer.*\<close>, \<open>Scheduler.*\<close>), \<open>Co_Lock\<close> (\<open>latch/coLock.*\<close>).
    \<^item> \<open>Fd_Manager\<close> (\<open>netio/FdManager.*\<close>) and \<open>Hook\<close> (\<open>netio/Hook.*\<close>): the hooked calls over the answers
      of the original functions, which are arguments.
    \<^item> \<open>Address\<close> (\<open>socket/Address.*\<close>), \<open>Stream\<close> (\<open>stream/Stream.*\<close>), \<open>Socket\<close> (\<open>socket/Socket.*\<close>,
      \<open>stream/SocketStream.*\<close>), \<open>Tcp_Server\<close> (\<open>socket/TcpServer.*\<close>).
    \<^item> \<open>Url_Code\<close> (\<open>crypto/CryptoUtil.*\<close>), \<open>Http_Tables\<close>, \<open>Http\<close> (\<open>http/Http.*\<close>), \<open>Servlet\<close>
      (\<open>http/Servlet.*\<close>), \<open>Http_Session\<close> (\<open>http/HttpParser.*\<close>, \<open>HttpSession.*\<close>, \<open>HttpConnection.*\<close>,
      \<open>HttpServer.*\<close>).
    \<^item> The parsers that Ragel generates: \<open>Ragel\<close> (what both share), \<open>Http11_Machine\<close> and \<open>Http11_Parser\<close>
      (\<open>http/http11_parser.rl.cpp\<close>), \<open>Httpclient_Machine\<close> and \<open>Httpclient_Parser\<close>
      (\<open>http/httpclient_parser.rl.cpp\<close>). A machine is a function from the state and the character to the
      next state and the actions, one group of states per function, in the order of the file; a parser
      runs the actions on the record of its C structure and calls back. \<open>Http11_Parser_Props\<close>,
      \<open>Http11_Safety\<close>, \<open>Http11_Head\<close>, \<open>Http11_Request\<close> and \<open>Httpclient_Safety\<close>, \<open>Httpclient_Head\<close>,
      \<open>Httpclient_Response\<close> prove what they read; \<open>Http_Chunked\<close> and \<open>Http_Exchange\<close> put them under the
      sessions.
    \<^item> \<open>Log\<close>, \<open>Log_Config\<close> (\<open>log.*\<close>, \<open>logUtil.*\<close>), \<open>Log_Yaml\<close> (\<open>log.cpp\<close>, the conversions of its
      definitions), \<open>Log_Thread\<close> (\<open>LogThread.*\<close>).
    \<^item> \<open>Config\<close>, \<open>Config_Casts\<close> (\<open>config/config.hpp\<close>, \<open>Config.cpp\<close>, \<open>Lexical_Cast.hpp\<close>).
    \<^item> \<open>Mysql_Pool\<close>, \<open>Mysql_Res\<close>, \<open>Mysql_Stmt\<close> (\<open>db/db.hpp\<close>, \<open>mysql.*\<close>): connections, pool, transactions;
      results of queries; prepared statements.

  \<^bold>\<open>State.\<close> An object is a record with the fields of its class; a pointer is an address into a store
  (timers, loggers, appenders, fibers) or an option. A member function maps the state to its result
  and the state it leaves; exceptions, failed assertions and null pointers are the left summand.
  Integers of a fixed width are words. What other threads do between two locked sections is a
  step of a transition system (\<open>tsq_step\<close>, \<open>co_step\<close>, \<open>log_step\<close>).

  \<^bold>\<open>Loops.\<close> Loops over data are structural or have a measure. Loops that ask the kernel or the peer
  are partial functions, for which \<open>None\<close> means that they run for ever (\<open>fix_loop\<close>, \<open>recv_head\<close>,
  \<open>chunk_loop\<close>, \<open>handleClient\<close>, \<open>interface_loop\<close>); theorems about them prove that they return. The loop of
  the reactor, \<open>reactor_loop\<close>, is one too, and here it is proved when it never does. The hooked
  calls consume a list of answers of the kernel, and running out of answers is a result of its own.
  \<open>run_fiber\<close> takes the number of passes.

  \<^bold>\<open>Interfaces.\<close> \<open>chunk_log\<close> (a cursor log of chunks), \<open>fixed_codec\<close> and \<open>typed_accessor\<close> (accessors of a
  fixed width), \<open>weak_order\<close> (a comparison of a set or map), \<open>work_deque\<close> and \<open>fiber_fifo\<close> (queues),
  \<open>byte_source\<close> and \<open>byte_sink\<close> (streams), \<open>tcp_kernel\<close> (what a connected socket relies on), \<open>uri_registry\<close>
  (servlet tables), \<open>lexical_cast\<close> (a type of configuration values with its conversions). Each is
  interpreted on the definitions of the model that provide it.

  \<^bold>\<open>What the lemmas show.\<close> Round trips of the byte array, its accessors, of URLs, query parameters,
  address images, log patterns and configuration integers; the invariants of timers, reactor,
  processers, fibers, sockets, the logging system and the connection pool; first in first out of the
  queues, of the dispatch and of the log thread; that transfers, receiving and serving return;
  equivalences of network arithmetic, registries, listed configuration paths and batched logging with
  their plain specifications. Of the generated parsers: on every input outside the lines and pieces
  that the theorems name, the texts passed to the callbacks lie in the buffer and the assertions
  hold; the texts that \<open>dump\<close> writes for requests and responses are parsed back into the same messages,
  also through \<open>recvRequest\<close>, and chunked bodies come back whole through the real parser. Of prepared
  statements: the library gets the arguments of the call and the accessors give the values of the row.
  And, as theorems, the defects that modelling has shown (a lost wake-up of bulk pushes, a scheduler
  that timer callbacks keep from stopping, a log thread that misses its start, header lines that make
  the response parser read behind its buffer, a query split between two reads that makes the
  request parser throw, statements that are never executed).

  \<^bold>\<open>Parameters.\<close> The kernel's answers, \<open>fnmatch\<close>, \<open>strftime\<close>, \<open>strptime\<close>, \<open>mktime\<close>, \<open>getaddrinfo\<close>,
  \<open>getifaddrs\<close>, \<open>inet_pton\<close>, conversions of floating-point numbers, the YAML library (a tree of nodes with
  its reader and writer) and the MySQL client library (a record of functions on its own state) are
  arguments of the definitions. Theorems that rely on one name what they assume of it. The sessions
  take the parser as an argument too, which \<open>request_machine\<close> and \<open>response_machine\<close> instantiate with
  the generated ones.

  \<^bold>\<open>Not modelled.\<close> Threads, stacks and assembly (\<open>concurrent/Thread.*\<close>, \<open>stackTrait.*\<close>, \<open>asm/\<close>); the lock
  wrappers (\<open>latch/lock.*\<close>), since a locked section is one step; the loading of the original functions
  in \<open>netio/Hook.cpp\<close>; \<open>util.*\<close> apart from two functions (clock, environment, backtraces); the base64
  functions of \<open>crypto/\<close>, which are calls of a library; destructors that only free memory;
  \<open>http/Uri.hpp\<close> and \<open>BitMap.hpp\<close>, which do not compile. Stealing between several running processers is
  modelled as an operation of one processer on another, not as an interleaving of threads.
\<close>

section \<open>Timers, reactor and scheduler together\<close>

text \<open>
  The reactor's turn on a scheduler: the reactor collects the fibers that became runnable and
  the scheduler dispatches them in order.
\<close>

definition reactor_turn :: "kernel \<Rightarrow> u64 \<Rightarrow> bool \<Rightarrow> (int \<times> u32) list \<Rightarrow> unit sc" where
  "reactor_turn ctl now notified evs s =
     (case m_reactor s of
        None \<Rightarrow> (Inl NullReactor, s)
      | Some r \<Rightarrow>
          (case run_turn ctl now notified evs r of
             (Inl e, r') \<Rightarrow> (Inl SchedAssert, s\<lparr>m_reactor := Some r'\<rparr>)
           | (Inr _, r') \<Rightarrow> dispatch_all (ready r') (s\<lparr>m_reactor := Some (r'\<lparr>ready := []\<rparr>)\<rparr>)))"

text \<open>
  \<open>Reactor::run\<close>: turns until \<open>isStopping\<close>. The kernel's answers in turn \<open>n\<close> are \<open>env n\<close>, and \<open>others n\<close> is what
  the other threads do until the loop tests again. \<open>None\<close> means that the loop never ends; a failed
  assertion in a turn ends the process.
\<close>

partial_function (option) reactor_loop ::
  "(nat \<Rightarrow> kernel \<times> u64 \<times> bool \<times> (int \<times> u32) list) \<Rightarrow> (nat \<Rightarrow> scheduler \<Rightarrow> scheduler) \<Rightarrow> nat \<Rightarrow> scheduler \<Rightarrow>
   ((sc_error + unit) \<times> scheduler) option" where
  "reactor_loop env others n s =
     (case m_reactor s of
        None \<Rightarrow> Some (Inl NullReactor, s)
      | Some r \<Rightarrow>
          if Reactor.isStopping (m_totalFibers s) r then Some (Inr (), s)
          else case env n of (ctl, now, notified, evs) \<Rightarrow>
            (case reactor_turn ctl now notified evs s of
               (Inl e, s1) \<Rightarrow> Some (Inl e, s1)
             | (Inr _, s1) \<Rightarrow> reactor_loop env others (Suc n) (others n s1)))"

text \<open>Threads that create no further fibers, and leave the reactor and the processers in place.\<close>

definition no_new_fibers :: "(nat \<Rightarrow> scheduler \<Rightarrow> scheduler) \<Rightarrow> bool" where
  "no_new_fibers others \<longleftrightarrow> (\<forall>n t. m_totalFibers (others n t) \<le> m_totalFibers t \<and>
     (m_reactor t \<noteq> None \<longrightarrow> m_reactor (others n t) \<noteq> None) \<and> length (m_pcsQue (others n t)) = length (m_pcsQue t))"

definition no_events :: "(nat \<Rightarrow> kernel \<times> u64 \<times> bool \<times> (int \<times> u32) list) \<Rightarrow> bool" where
  "no_events env \<longleftrightarrow> (\<forall>n. \<exists>ctl now notified. env n = (ctl, now, notified, []))"

lemma sched_addFiber_frame:
  assumes "sched_addFiber f s = (r, s1)"
  shows "m_totalFibers s1 = m_totalFibers s" "m_reactor s1 = m_reactor s" "length (m_pcsQue s1) = length (m_pcsQue s)"
  using assms by (auto simp: sched_addFiber_def prc_addFiber_def upd_prc_def split: option.splits)

lemma dispatch_all_frame:
  "dispatch_all fs s = (r, s1) \<Longrightarrow>
   m_totalFibers s1 = m_totalFibers s \<and> m_reactor s1 = m_reactor s \<and> length (m_pcsQue s1) = length (m_pcsQue s)"
proof (induction fs arbitrary: s)
  case (Cons f fs)
  obtain x t where x: "sched_addFiber f s = (x, t)" by fastforce
  show ?case
    using Cons.prems Cons.IH [of t] sched_addFiber_frame [OF x] x by (cases x) (auto simp: sbind_def)
qed (simp add: sret_def)

lemma reactor_turn_total: "reactor_turn ctl now notified evs s = (r, s1) \<Longrightarrow> m_totalFibers s1 = m_totalFibers s"
  by (auto simp: reactor_turn_def dest!: dispatch_all_frame split: option.splits prod.splits sum.splits)

lemma min_loop_some: "ps \<noteq> [] \<or> prc \<noteq> None \<Longrightarrow> min_loop ps i prc \<noteq> None"
  by (induction ps i prc rule: min_loop.induct) (auto split: option.splits)

lemma dispatch_all_runs: "m_pcsQue s \<noteq> [] \<Longrightarrow> fst (dispatch_all fs s) = Inr ()"
proof (induction fs arbitrary: s)
  case (Cons f fs)
  from Cons.prems obtain i where "getMinPayLoad s = Some i"
    using min_loop_some [of "m_pcsQue s" None 0] by (auto simp: getMinPayLoad_def)
  then obtain t where t: "sched_addFiber f s = (Inr (), t)" by (simp add: sched_addFiber_def)
  then have "m_pcsQue t \<noteq> []" using sched_addFiber_frame(3) [OF t] Cons.prems by auto
  then show ?case using Cons.IH t by (simp add: sbind_Inr)
qed (simp add: sret_def)

lemma no_events_turn:
  assumes "m_reactor s = Some r" "m_pcsQue s \<noteq> []"
  shows "\<exists>s1. reactor_turn ctl now notified [] s = (Inr (), s1) \<and> m_reactor s1 \<noteq> None \<and>
    length (m_pcsQue s1) = length (m_pcsQue s)"
proof -
  obtain r1 where r1: "run_turn ctl now notified [] r = (Inr (), r1)"
    by (cases "getExpiredTasks now (timers r)") (simp add: run_turn_def sret_def)
  let ?s = "s\<lparr>m_reactor := Some (r1\<lparr>ready := []\<rparr>)\<rparr>"
  obtain x s1 where x: "dispatch_all (ready r1) ?s = (x, s1)" by fastforce
  then have "x = Inr ()" using dispatch_all_runs [of ?s "ready r1"] assms(2) by simp
  then show ?thesis using dispatch_all_frame [OF x] x r1 assms by (simp add: reactor_turn_def)
qed

lemma loop_keeps:
  assumes loop: "reactor_loop env others n s = Some y" and start: "P s"
    and turn: "\<forall>n ctl now notified evs s x s1. env n = (ctl, now, notified, evs) \<longrightarrow> P s \<longrightarrow>
      reactor_turn ctl now notified evs s = (Inr x, s1) \<longrightarrow> P (others n s1)"
  shows "\<exists>n t. P t \<and> (fst y = Inr () \<longrightarrow> (\<exists>r. m_reactor t = Some r \<and> Reactor.isStopping (m_totalFibers t) r)) \<and>
    (\<forall>e. fst y = Inl e \<longrightarrow> m_reactor t = None \<or>
       (\<exists>ctl now notified evs. env n = (ctl, now, notified, evs) \<and> fst (reactor_turn ctl now notified evs t) = Inl e))"
    (is "?Q y")
proof -
  have "env' = env \<longrightarrow> others' = others \<longrightarrow> P s' \<longrightarrow> ?Q y'" if "reactor_loop env' others' n' s' = Some y'" for env' others' n' s' y'
  proof (rule reactor_loop.raw_induct [where P = "\<lambda>env' others' n' s' y'. env' = env \<longrightarrow> others' = others \<longrightarrow> P s' \<longrightarrow> ?Q y'",
        OF _ that])
    fix loop env' others' n' s' y'
    assume IH: "\<And>env' others' n' s' y'. loop env' others' n' s' = Some y' \<Longrightarrow> env' = env \<longrightarrow> others' = others \<longrightarrow> P s' \<longrightarrow> ?Q y'"
      and body: "(case m_reactor s' of None \<Rightarrow> Some (Inl NullReactor, s')
        | Some r \<Rightarrow>
            if Reactor.isStopping (m_totalFibers s') r then Some (Inr (), s')
            else case env' n' of (ctl, now, notified, evs) \<Rightarrow>
              (case reactor_turn ctl now notified evs s' of (Inl e, s1) \<Rightarrow> Some (Inl e, s1)
               | (Inr _, s1) \<Rightarrow> loop env' others' (Suc n') (others' n' s1))) = Some y'"
    show "env' = env \<longrightarrow> others' = others \<longrightarrow> P s' \<longrightarrow> ?Q y'"
    proof (intro impI)
      assume eq: "env' = env" "others' = others" and p: "P s'"
      obtain ctl now notified evs where env: "env n' = (ctl, now, notified, evs)" by (metis prod_cases4)
      obtain x s1 where x: "reactor_turn ctl now notified evs s' = (x, s1)" by fastforce
      show "?Q y'"
      proof (cases "m_reactor s'")
        case None
        then show ?thesis using body p by (intro exI [of _ n'] exI [of _ s']) auto
      next
        case (Some r)
        show ?thesis
        proof (cases "Reactor.isStopping (m_totalFibers s') r")
          case True
          then show ?thesis using body Some p by (intro exI [of _ n'] exI [of _ s']) auto
        next
          case False
          show ?thesis
          proof (cases x)
            case (Inl e)
            then have "fst y' = Inl e" using body Some False eq env x by auto
            then show ?thesis using p env x Inl by (intro exI [of _ n'] exI [of _ s']) simp
          next
            case (Inr u)
            then have "loop env others (Suc n') (others n' s1) = Some y'" using body Some False eq env x by simp
            then show ?thesis using IH turn env p x Inr by blast
          qed
        qed
      qed
    qed
  qed
  then show ?thesis using loop start by blast
qed

lemma negative_count_no_return:
  assumes "no_new_fibers others" "m_totalFibers s < 0"
  shows "reactor_loop env others n s \<noteq> Some (Inr (), t)"
proof
  assume l: "reactor_loop env others n s = Some (Inr (), t)"
  have "m_totalFibers (others n s1) < 0"
    if "env n = (ctl, now, notified, evs)" "m_totalFibers s < 0" "reactor_turn ctl now notified evs s = (Inr x, s1)"
    for n ctl now notified evs s x s1
  proof -
    have "m_totalFibers (others n s1) \<le> m_totalFibers s1" using assms(1) by (simp add: no_new_fibers_def)
    then show ?thesis using that(2) reactor_turn_total [OF that(3)] by simp
  qed
  then have "\<forall>n ctl now notified evs s x s1. env n = (ctl, now, notified, evs) \<longrightarrow> m_totalFibers s < 0 \<longrightarrow>
      reactor_turn ctl now notified evs s = (Inr x, s1) \<longrightarrow> m_totalFibers (others n s1) < 0" by blast
  from loop_keeps [OF l, where P = "\<lambda>s. m_totalFibers s < 0", OF assms(2) this] show False
    by (auto simp: Reactor.isStopping_def)
qed

lemma negative_count_for_ever:
  assumes "no_new_fibers others" "no_events env" "m_totalFibers s < 0" "m_reactor s \<noteq> None" "m_pcsQue s \<noteq> []"
  shows "reactor_loop env others n s = None"
proof (rule ccontr)
  let ?P = "\<lambda>s. m_totalFibers s < 0 \<and> m_reactor s \<noteq> None \<and> m_pcsQue s \<noteq> []"
  assume "reactor_loop env others n s \<noteq> None"
  then obtain y where y: "reactor_loop env others n s = Some y" by blast
  have "?P (others n s1)"
    if i: "env n = (ctl, now, notified, evs)" and p: "?P s" and t: "reactor_turn ctl now notified evs s = (Inr x, s1)"
    for n ctl now notified evs s x s1
  proof -
    have e: "evs = []" using assms(2) i by (auto simp: no_events_def dest: spec [of _ n])
    obtain r where "m_reactor s = Some r" using p by auto
    from no_events_turn [OF this, of ctl now notified] p t e have "m_reactor s1 \<noteq> None" "length (m_pcsQue s1) = length (m_pcsQue s)"
      by auto
    moreover have "m_totalFibers (others n s1) \<le> m_totalFibers s1" "length (m_pcsQue (others n s1)) = length (m_pcsQue s1)"
      "m_reactor s1 \<noteq> None \<Longrightarrow> m_reactor (others n s1) \<noteq> None"
      using assms(1) by (simp_all add: no_new_fibers_def)
    ultimately show ?thesis using p reactor_turn_total [OF t] by auto
  qed
  then have "\<forall>n ctl now notified evs s x s1. env n = (ctl, now, notified, evs) \<longrightarrow> ?P s \<longrightarrow>
      reactor_turn ctl now notified evs s = (Inr x, s1) \<longrightarrow> ?P (others n s1)" by blast
  note kept = loop_keeps [OF y, where P = ?P, OF _ this]
  have "?P s" using assms(3-5) by simp
  from kept [OF this] obtain m t where
    t: "?P t" "fst y = Inr () \<longrightarrow> (\<exists>r. m_reactor t = Some r \<and> Reactor.isStopping (m_totalFibers t) r)"
    "\<forall>e. fst y = Inl e \<longrightarrow> m_reactor t = None \<or>
       (\<exists>ctl now notified evs. env m = (ctl, now, notified, evs) \<and> fst (reactor_turn ctl now notified evs t) = Inl e)"
    by blast
  show False
  proof (cases "fst y")
    case (Inl e)
    then obtain ctl now notified evs where e: "env m = (ctl, now, notified, evs)" "fst (reactor_turn ctl now notified evs t) = Inl e"
      using t by auto
    have "evs = []" using assms(2) e(1) by (auto simp: no_events_def dest: spec [of _ m])
    then show False using no_events_turn [of t _ ctl now notified] t(1) e(2) by auto
  next
    case (Inr u)
    then show False using t(1,2) by (auto simp: Reactor.isStopping_def)
  qed
qed

lemma stop_frame:
  "m_totalFibers (snd (stop s)) = m_totalFibers s" "m_reactor s \<noteq> None \<Longrightarrow> m_reactor (snd (stop s)) \<noteq> None"
  "length (m_pcsQue (snd (stop s))) = length (m_pcsQue s)"
  by (auto simp: stop_def upd_reactor_def sbind_def split: option.split)

text \<open>
  C22. A timer with a callback keeps the scheduler from stopping. Its fiber is created by the
  timer and dispatched as a pointer, which does not count it in \<open>m_totalFibers\<close>, but the
  processer that sees it end takes it off the count. On an idle scheduler with a count of 0
  whose reactor has one such timer due, a turn of the reactor and the run of the fiber to its
  end leave the count at -1. From then on, also after \<open>Scheduler::stop\<close>, the loop of the reactor, which
  \<open>stop\<close> joins, never returns, whatever the kernel reports and as long as the other threads create
  no fiber; when no events are reported it runs for ever. Stopped before the timer, it would have
  returned at once.
\<close>

theorem timer_callback_blocks_shutdown:
  assumes "load_ok (\<lambda>_. 0) s" "m_pcsQue s \<noteq> []" "\<forall>p \<in> set (m_pcsQue s). lane NORMAL (processer.m_que p) = []"
    and "m_totalFibers s = 0" "m_reactor s = Some r" "ready r = []" "\<not> s_stopping s" "m_holdCount r = 0"
    and "fst (getExpiredTasks now (timers r)) = [Some f]" "fstate s f = INIT" "no_new_fibers others"
  shows "(\<exists>k s1 s2. reactor_turn ctl now notified [] s = (Inr (), s1) \<and>
      run_fiber (finish f) k s1 = Some (Inr (), s2) \<and> m_totalFibers s2 = - 1 \<and>
      (\<forall>u \<in> {s2, snd (stop s2)}. \<forall>env n.
        (\<forall>t. reactor_loop env others n u \<noteq> Some (Inr (), t)) \<and> (no_events env \<longrightarrow> reactor_loop env others n u = None))) \<and>
    (\<forall>env n. \<exists>t. reactor_loop env others n (snd (stop s)) = Some (Inr (), t))"
proof
  obtain r' where r': "run_turn ctl now notified [] r = (Inr (), r')" "ready r' = [Some f]"
    using assms(6,9) by (cases "getExpiredTasks now (timers r)") (auto simp: run_turn_def sret_def)
  let ?s = "s\<lparr>m_reactor := Some (r'\<lparr>ready := []\<rparr>)\<rparr>"
  have "load_ok (\<lambda>_. 0) ?s" using assms(1) by simp
  then obtain k s1 s2 where k: "sched_addFiber (Some f) ?s = (Inr (), s1)" "m_totalFibers s1 = m_totalFibers ?s"
    "run_fiber (finish f) k s1 = Some (Inr (), s2)" "m_totalFibers s2 = m_totalFibers ?s - 1"
    "m_reactor s2 = m_reactor ?s" "length (m_pcsQue s2) = length (m_pcsQue ?s)"
    by (rule idle_dispatch_run [of ?s f]) (use assms(2,3,10) in auto)
  have turn: "reactor_turn ctl now notified [] s = (Inr (), s1)"
    using r' k(1) assms(5) by (simp add: reactor_turn_def sbind_Inr sret_def)
  have s2: "m_totalFibers s2 < 0" "m_reactor s2 \<noteq> None" "m_pcsQue s2 \<noteq> []" using k(4-6) assms(2,4) by auto
  moreover have "m_pcsQue (snd (stop s2)) \<noteq> []" using stop_frame(3) [of s2] s2(3) by fastforce
  ultimately have "m_totalFibers u < 0 \<and> m_reactor u \<noteq> None \<and> m_pcsQue u \<noteq> []" if "u \<in> {s2, snd (stop s2)}" for u
    using that stop_frame(1,2) [of s2] by auto
  then have "\<forall>u \<in> {s2, snd (stop s2)}. \<forall>env n.
      (\<forall>t. reactor_loop env others n u \<noteq> Some (Inr (), t)) \<and> (no_events env \<longrightarrow> reactor_loop env others n u = None)"
    by (intro ballI allI conjI impI negative_count_no_return [OF assms(11)] negative_count_for_ever [OF assms(11)]) simp_all
  with turn k assms(4) show "\<exists>k s1 s2. reactor_turn ctl now notified [] s = (Inr (), s1) \<and>
      run_fiber (finish f) k s1 = Some (Inr (), s2) \<and> m_totalFibers s2 = - 1 \<and>
      (\<forall>u \<in> {s2, snd (stop s2)}. \<forall>env n.
        (\<forall>t. reactor_loop env others n u \<noteq> Some (Inr (), t)) \<and> (no_events env \<longrightarrow> reactor_loop env others n u = None))"
    by (intro exI [of _ k] exI [of _ s1] exI [of _ s2]) simp
next
  show "\<forall>env n. \<exists>t. reactor_loop env others n (snd (stop s)) = Some (Inr (), t)"
    using assms(4,5,7,8)
    by (auto simp: reactor_loop.simps stop_def upd_reactor_def sbind_def reactor_stop_def notify_def Reactor.isStopping_def)
qed

text \<open>One timer, armed with a callback's fiber and due.\<close>

definition due_reactor :: reactor where
  "due_reactor = Reactor\<lparr>timers := \<lparr>heap = \<lambda>_. (Timer_at 5)\<lparr>m_fiber := Some 9, m_started := True,
     m_manager := True\<rparr>, m_timers = [1]\<rparr>\<rparr>"

theorem timer_callback_blocks_shutdown_witness:
  "\<exists>k s1 s2. reactor_turn (\<lambda>_ _ _. 0) 6 False [] ((Scheduler 2)\<lparr>m_reactor := Some due_reactor\<rparr>) = (Inr (), s1) \<and>
    run_fiber (finish 9) k s1 = Some (Inr (), s2) \<and>
    reactor_loop (\<lambda>n. (\<lambda>_ _ _. 0, of_nat n, False, [])) (\<lambda>_ t. t) 0 (snd (stop s2)) = None"
proof -
  have "load_ok (\<lambda>_. 0) ((Scheduler 2)\<lparr>m_reactor := Some due_reactor\<rparr>)"
    using load_ok_Scheduler [of 2] by simp
  moreover have "ready due_reactor = []" "m_holdCount due_reactor = 0" "fst (getExpiredTasks 6 (timers due_reactor)) = [Some 9]"
    by (simp_all add: due_reactor_def Reactor_def resizeMap_def getExpiredTasks_def Timer_at_def Let_def)
  moreover have "no_new_fibers (\<lambda>_ t. t)" "no_events (\<lambda>n. (\<lambda>_ _ _. 0, of_nat n, False, []))"
    by (auto simp: no_new_fibers_def no_events_def)
  moreover have "m_pcsQue (Scheduler 2) \<noteq> []" "\<forall>p \<in> set (m_pcsQue (Scheduler 2)). lane NORMAL (processer.m_que p) = []"
    "m_totalFibers (Scheduler 2) = 0" "\<not> s_stopping (Scheduler 2)" "fstate (Scheduler 2) 9 = INIT"
    by (simp_all add: Scheduler_def Processer_que)
  ultimately show ?thesis
    using timer_callback_blocks_shutdown [of "(Scheduler 2)\<lparr>m_reactor := Some due_reactor\<rparr>" due_reactor 6 9
        "\<lambda>_ t. t" "\<lambda>_ _ _. 0" False]
    by fastforce
qed

end
